(* ===== verification/Prelude.thy ===== *)
theory Prelude
  imports Main "HOL-Library.AList" "HOL-Library.Word"
begin

text \<open>
  The prelude of the development: the parts of Go that every component uses.

  \<^item> Go maps are association lists with distinct keys (\<open>gomap\<close>). A lookup is
    \<open>map_of\<close>, an assignment \<open>gm_put\<close>, \<open>delete\<close> is \<open>gm_del\<close>, \<open>len\<close> is \<open>length\<close>.
    Go leaves the iteration order of \<open>range\<close> unspecified; here it is the order of the list.
    Every theorem quantifies over the whole list, so over every order the runtime may choose.
  \<^item> \<open>time.Time\<close> is a number of nanoseconds since the Unix epoch, \<open>time.Duration\<close> a number of
    nanoseconds; the saturation of \<open>Time.Sub\<close> and the wrap-around of 64-bit negation are
    written out.
  \<^item> Go strings are lists of bytes (\<open>char list\<close>); \<open>[]byte\<close> is \<open>8 word list\<close>.
  \<^item> Signed integer division truncates towards zero (\<open>go_div\<close>).

  The generic transition-system locale \<open>machine\<close> gives invariants of reachable states.
\<close>

section \<open>Collections of facts\<close>

named_theorems store_simps \<open>laws of the Go map operations\<close>
named_theorems op_defs \<open>definitions of the operations of a component\<close>
named_theorems inv_intros \<open>preservation of component invariants\<close>

section \<open>Types shared by the components\<close>

type_synonym time = int
type_synonym duration = int
type_synonym byte = "8 word"
type_synonym bytes = "byte list"
type_synonym ('k, 'v) gomap = "('k \<times> 'v) list"
type_synonym ('e, 'a) outcome = "'e + 'a"

abbreviation "Second \<equiv> (1000000000 :: duration)"
abbreviation "Millisecond \<equiv> (1000000 :: duration)"
abbreviation "Minute \<equiv> (60 * Second :: duration)"

section \<open>Go maps\<close>

definition gm_put :: "'k \<Rightarrow> 'v \<Rightarrow> ('k, 'v) gomap \<Rightarrow> ('k, 'v) gomap" where
  "gm_put k v m = AList.update k v m"

definition gm_del :: "'k \<Rightarrow> ('k, 'v) gomap \<Rightarrow> ('k, 'v) gomap" where
  "gm_del k m = AList.delete k m"

abbreviation gm_wf :: "('k, 'v) gomap \<Rightarrow> bool" where
  "gm_wf m \<equiv> distinct (map fst m)"

text \<open>
  The loop \<open>for k, v := range m { if P(v) { delete(m, k); n++ } }\<close>: the entries are visited
  once each, the deletions act on the map that is being built.
\<close>

definition gm_delete_where :: "('v \<Rightarrow> bool) \<Rightarrow> ('k, 'v) gomap \<Rightarrow> ('k, 'v) gomap \<times> nat" where
  "gm_delete_where P m =
     fold (\<lambda>(k, v) (m', n). if P v then (gm_del k m', Suc n) else (m', n)) m (m, 0)"

lemma map_of_gm_put [simp, store_simps]: "map_of (gm_put k v m) = (map_of m)(k \<mapsto> v)"
  by (simp add: gm_put_def update_conv')

lemma map_of_gm_del [simp, store_simps]: "map_of (gm_del k m) = (map_of m)(k := None)"
  by (simp add: gm_del_def delete_conv')

lemma gm_wf_put [simp, intro]: "gm_wf m \<Longrightarrow> gm_wf (gm_put k v m)"
  by (simp add: gm_put_def distinct_update)

lemma gm_wf_del [simp, intro]: "gm_wf m \<Longrightarrow> gm_wf (gm_del k m)"
  by (simp add: gm_del_def distinct_delete)

lemma gm_del_filter: "gm_del k m = filter (\<lambda>(k', _). k' \<noteq> k) m"
  unfolding gm_del_def AList.delete_eq by (rule filter_cong) auto

lemma set_gm_del [simp]: "set (gm_del k m) = {e \<in> set m. fst e \<noteq> k}"
  by (auto simp: gm_del_filter)

lemma gm_del_idem [simp]: "map_of m k = None \<Longrightarrow> gm_del k m = m"
  by (force simp: gm_del_filter map_of_eq_None_iff intro!: filter_True)

lemma gm_put_fresh: "map_of m k = None \<Longrightarrow> gm_put k v m = m @ [(k, v)]"
  by (induction m) (auto simp: gm_put_def split: if_splits)

lemma in_set_map_of: "gm_wf m \<Longrightarrow> (k, v) \<in> set m \<longleftrightarrow> map_of m k = Some v"
  by simp

lemma set_gm_put: "gm_wf m \<Longrightarrow> set (gm_put k v m) = insert (k, v) {e \<in> set m. fst e \<noteq> k}"
proof -
  assume wf: "gm_wf m"
  have "(a, b) \<in> set (gm_put k v m) \<longleftrightarrow> (a = k \<and> b = v) \<or> ((a, b) \<in> set m \<and> a \<noteq> k)" for a b
    unfolding in_set_map_of [OF wf] in_set_map_of [OF gm_wf_put [OF wf]] map_of_gm_put
    by auto
  then show ?thesis by auto
qed

lemma length_gm_put:
  "length (gm_put k v m) = (if map_of m k = None then Suc (length m) else length m)"
  by (induction m) (auto simp: gm_put_def)

lemma length_gm_del:
  "gm_wf m \<Longrightarrow> length (gm_del k m) = (if map_of m k = None then length m else length m - 1)"
proof (induction m)
  case Nil
  then show ?case by (simp add: gm_del_def)
next
  case (Cons e m)
  then have "map_of m (fst e) = None" by (simp add: map_of_eq_None_iff)
  with Cons show ?case
    by (cases e; cases m) (auto simp: gm_del_filter split: if_splits)
qed

lemma length_gm_del_le: "length (gm_del k m) \<le> length m"
  by (simp add: gm_del_filter)

lemma gm_del_Nil [simp]: "gm_del k [] = []" by (simp add: gm_del_filter)

lemma gm_del_empty: "gm_del k m = [] \<Longrightarrow> k' \<noteq> k \<Longrightarrow> map_of m k' = None"
  by (metis fun_upd_apply map_of.simps(1) map_of_gm_del)

lemma gm_put_not_Nil [simp]: "gm_put k v m \<noteq> []"
  by (cases m) (auto simp: gm_put_def)

lemma map_of_in_set: "map_of m k = Some v \<Longrightarrow> (k, v) \<in> set m"
  by (rule map_of_SomeD)

lemma gm_delete_where_aux:
  assumes "gm_wf (pre @ m)" and "\<forall>(k, v) \<in> set pre. \<not> P v"
  shows "fold (\<lambda>(k, v) (m', n). if P v then (gm_del k m', Suc n) else (m', n)) m (pre @ m, n) =
    (pre @ filter (\<lambda>(k, v). \<not> P v) m, n + length (filter (\<lambda>(k, v). P v) m))"
  using assms
proof (induction m arbitrary: pre n)
  case Nil
  then show ?case by simp
next
  case (Cons e m)
  obtain k v where e: "e = (k, v)" by (cases e)
  show ?case
  proof (cases "P v")
    case True
    have keep: "filter (\<lambda>(k', _). k' \<noteq> k) xs = xs" if "k \<notin> fst ` set xs" for xs :: "('a \<times> 'b) list"
      using that by (induction xs) auto
    from Cons.prems e keep [of pre] keep [of m] have "gm_del k (pre @ e # m) = pre @ m"
      by (simp add: gm_del_filter)
    with Cons.IH [of pre "Suc n"] Cons.prems True e show ?thesis by simp
  next
    case False
    with Cons.IH [of "pre @ [e]" n] Cons.prems e show ?thesis by simp
  qed
qed

lemma gm_delete_where_eq:
  "gm_wf m \<Longrightarrow> gm_delete_where P m =
    (filter (\<lambda>(k, v). \<not> P v) m, length (filter (\<lambda>(k, v). P v) m))"
  using gm_delete_where_aux [of "[]" m P 0] by (simp add: gm_delete_where_def)

lemma gm_wf_filter [simp]: "gm_wf m \<Longrightarrow> gm_wf (filter Q m)"
  by (induction m) auto

lemma map_of_filter_value:
  "gm_wf m \<Longrightarrow> map_of (filter (\<lambda>(k, v). Q v) m) k =
    (case map_of m k of None \<Rightarrow> None | Some v \<Rightarrow> if Q v then Some v else None)"
proof (induction m)
  case Nil
  then show ?case by simp
next
  case (Cons e m)
  then have "map_of m (fst e) = None" by (simp add: map_of_eq_None_iff)
  with Cons show ?case by (cases e) (auto split: option.splits)
qed

lemma gm_wf_delete_where [simp]: "gm_wf m \<Longrightarrow> gm_wf (fst (gm_delete_where P m))"
  by (simp add: gm_delete_where_eq)

lemma map_of_delete_where [store_simps]:
  "gm_wf m \<Longrightarrow> map_of (fst (gm_delete_where P m)) k =
    (case map_of m k of None \<Rightarrow> None | Some v \<Rightarrow> if P v then None else Some v)"
  using map_of_filter_value [of m "\<lambda>v. \<not> P v" k]
  by (simp add: gm_delete_where_eq split: option.splits)

lemma gm_delete_where_conservation:
  "gm_wf m \<Longrightarrow> length (fst (gm_delete_where P m)) + snd (gm_delete_where P m) = length m"
  using sum_length_filter_compl [of "\<lambda>(k, v). P v" m]
  by (simp add: gm_delete_where_eq case_prod_unfold add.commute)

text \<open>The contract of a Go map, and what a client of it may rely on.\<close>

locale keyed_store =
  fixes lookup :: "'s \<Rightarrow> 'k \<Rightarrow> 'v option"
    and put :: "'k \<Rightarrow> 'v \<Rightarrow> 's \<Rightarrow> 's"
    and del :: "'k \<Rightarrow> 's \<Rightarrow> 's"
    and sweep :: "('v \<Rightarrow> bool) \<Rightarrow> 's \<Rightarrow> 's \<times> nat"
    and count :: "'s \<Rightarrow> nat"
    and wf :: "'s \<Rightarrow> bool"
  assumes lookup_put: "wf s \<Longrightarrow> lookup (put k v s) = (lookup s)(k \<mapsto> v)"
    and lookup_del: "wf s \<Longrightarrow> lookup (del k s) = (lookup s)(k := None)"
    and lookup_sweep: "wf s \<Longrightarrow> lookup (fst (sweep P s)) k =
      (case lookup s k of None \<Rightarrow> None | Some v \<Rightarrow> if P v then None else Some v)"
    and sweep_count: "wf s \<Longrightarrow> count (fst (sweep P s)) + snd (sweep P s) = count s"
    and count_put: "wf s \<Longrightarrow> count (put k v s) \<le> Suc (count s)"
    and wf_put: "wf s \<Longrightarrow> wf (put k v s)"
    and wf_del: "wf s \<Longrightarrow> wf (del k s)"
    and wf_sweep: "wf s \<Longrightarrow> wf (fst (sweep P s))"
begin

lemma sweep_survivor: "wf s \<Longrightarrow> lookup (fst (sweep P s)) k = Some v \<Longrightarrow> lookup s k = Some v \<and> \<not> P v"
  by (auto simp: lookup_sweep split: option.splits if_splits)

lemma sweep_keeps: "wf s \<Longrightarrow> lookup s k = Some v \<Longrightarrow> \<not> P v \<Longrightarrow> lookup (fst (sweep P s)) k = Some v"
  by (simp add: lookup_sweep)

lemma sweep_again: "wf s \<Longrightarrow> lookup (fst (sweep P (fst (sweep P s)))) = lookup (fst (sweep P s))"
  by (rule ext) (auto simp: lookup_sweep wf_sweep split: option.splits)

end

interpretation gm: keyed_store map_of gm_put gm_del gm_delete_where length gm_wf
  by unfold_locales
    (auto simp: map_of_delete_where gm_delete_where_conservation length_gm_put)

text \<open>Reading a map of maps: a missing inner map reads as empty.\<close>

definition gm_get :: "'v \<Rightarrow> 'k \<Rightarrow> ('k, 'v) gomap \<Rightarrow> 'v" where
  "gm_get d k m = (case map_of m k of None \<Rightarrow> d | Some v \<Rightarrow> v)"

lemma gm_get_Nil [simp]: "gm_get d k [] = d"
  by (simp add: gm_get_def)

lemma gm_get_put [simp]: "gm_get d k' (gm_put k v m) = (if k' = k then v else gm_get d k' m)"
  by (simp add: gm_get_def)

lemma gm_get_del [simp]: "gm_get d k' (gm_del k m) = (if k' = k then d else gm_get d k' m)"
  by (simp add: gm_get_def)

text \<open>A map that is dropped from its parent when it becomes empty still reads as empty.\<close>

definition gm_put_or_drop :: "'k \<Rightarrow> 'v list \<Rightarrow> ('k, 'v list) gomap \<Rightarrow> ('k, 'v list) gomap" where
  "gm_put_or_drop k vs m = (if vs = [] then gm_del k m else gm_put k vs m)"

lemma gm_get_put_or_drop [simp]:
  "gm_get [] k' (gm_put_or_drop k vs m) = (if k' = k then vs else gm_get [] k' m)"
  by (simp add: gm_put_or_drop_def)

section \<open>Integers, time and durations\<close>

abbreviation "min_int64 \<equiv> (- (2 ^ 63) :: int)"
abbreviation "max_int64 \<equiv> (2 ^ 63 - 1 :: int)"

definition wrap64 :: "int \<Rightarrow> int" where
  "wrap64 x = (x + 2 ^ 63) mod 2 ^ 64 - 2 ^ 63"

lemma wrap64_id [simp]: "min_int64 \<le> x \<Longrightarrow> x \<le> max_int64 \<Longrightarrow> wrap64 x = x"
  by (simp add: wrap64_def)

text \<open>\<open>Time.Sub\<close> saturates at the bounds of a 64-bit duration.\<close>

definition time_sub :: "time \<Rightarrow> time \<Rightarrow> duration" where
  "time_sub t u = (if t - u < min_int64 then min_int64
     else if t - u > max_int64 then max_int64 else t - u)"

lemma time_sub_exact: "min_int64 \<le> t - u \<Longrightarrow> t - u \<le> max_int64 \<Longrightarrow> time_sub t u = t - u"
  by (simp add: time_sub_def)

lemma time_sub_mono: "t \<le> t' \<Longrightarrow> time_sub t u \<le> time_sub t' u"
  by (auto simp: time_sub_def)

lemma time_sub_pos_iff: "0 < time_sub t u \<longleftrightarrow> u < t"
  by (auto simp: time_sub_def)

text \<open>\<open>Time.UnixMilli\<close>: whole milliseconds, rounded down.\<close>

definition unix_milli :: "time \<Rightarrow> int" where
  "unix_milli t = t div Millisecond"

lemma unix_milli_mono: "t \<le> t' \<Longrightarrow> unix_milli t \<le> unix_milli t'"
  by (simp add: unix_milli_def zdiv_mono1)

text \<open>
  \<open>time.Unix(sec, 0)\<close>: the seconds are stored relative to year 1 in a 64-bit field, so the
  shift by \<open>unixToInternal\<close> wraps around for extreme arguments.
\<close>

definition time_unix :: "int \<Rightarrow> time" where
  "time_unix sec = (wrap64 (sec + 62135596800) - 62135596800) * Second"

lemma time_unix_exact:
  "min_int64 \<le> sec \<Longrightarrow> sec \<le> 2 ^ 62 \<Longrightarrow> time_unix sec = sec * Second"
  by (simp add: time_unix_def)

definition go_div :: "int \<Rightarrow> int \<Rightarrow> int" where
  "go_div a b = sgn a * sgn b * (\<bar>a\<bar> div \<bar>b\<bar>)"

lemma go_div_pos: "0 < b \<Longrightarrow> go_div a b = (if 0 \<le> a then a div b else - ((- a) div b))"
  by (auto simp: go_div_def sgn_if)

lemma go_div_mono: "0 < b \<Longrightarrow> a \<le> a' \<Longrightarrow> go_div a b \<le> go_div a' b"
proof -
  assume b: "0 < b" and le: "a \<le> a'"
  have nonneg: "0 \<le> x \<Longrightarrow> 0 \<le> x div b" for x :: int
    using b by (simp add: pos_imp_zdiv_nonneg_iff)
  consider "0 \<le> a" | "a < 0" "0 \<le> a'" | "a' < 0" by linarith
  then show ?thesis
  proof cases
    case 1
    with b le show ?thesis by (simp add: go_div_pos zdiv_mono1)
  next
    case 2
    with b nonneg [of "- a"] nonneg [of a'] show ?thesis by (simp add: go_div_pos)
  next
    case 3
    with b le show ?thesis by (simp add: go_div_pos zdiv_mono1)
  qed
qed

section \<open>Strings\<close>

definition HasPrefix :: "string \<Rightarrow> string \<Rightarrow> bool" where
  "HasPrefix s p = (take (length p) s = p)"

lemma HasPrefix_append [simp]: "HasPrefix (p @ s) p"
  by (simp add: HasPrefix_def)

lemma HasPrefix_iff: "HasPrefix s p \<longleftrightarrow> (\<exists>r. s = p @ r)"
  by (metis HasPrefix_def append_eq_conv_conj append_take_drop_id)

text \<open>\<open>strings.Cut\<close> at a one-character separator: text before, text after, found.\<close>

fun Cut :: "char \<Rightarrow> string \<Rightarrow> string \<times> string \<times> bool" where
  "Cut sep [] = ([], [], False)"
| "Cut sep (c # s) = (if c = sep then ([], s, True)
     else (let (a, b, f) = Cut sep s in (c # a, b, f)))"

lemma Cut_found: "Cut sep s = (a, b, True) \<Longrightarrow> s = a @ sep # b \<and> sep \<notin> set a"
  by (induction s arbitrary: a b) (auto split: if_splits prod.splits)

lemma Cut_not_found: "Cut sep s = (a, b, False) \<Longrightarrow> a = s \<and> b = [] \<and> sep \<notin> set s"
  by (induction s arbitrary: a b) (auto split: if_splits prod.splits)

text \<open>\<open>strings.Split\<close> at a one-character separator.\<close>

fun Split :: "char \<Rightarrow> string \<Rightarrow> string list" where
  "Split sep [] = [[]]"
| "Split sep (c # s) = (if c = sep then [] # Split sep s
     else (case Split sep s of [] \<Rightarrow> [[c]] | w # ws \<Rightarrow> (c # w) # ws))"

lemma Split_not_Nil [simp]: "Split sep s \<noteq> []"
  by (induction s) (auto split: list.splits)

text \<open>ASCII white space, as \<open>strings.TrimSpace\<close> strips it.\<close>

definition is_space :: "char \<Rightarrow> bool" where
  "is_space c \<longleftrightarrow> c \<in> {CHR '' '', CHR 0x09, CHR 0x0A, CHR 0x0B, CHR 0x0C, CHR 0x0D}"

definition TrimSpace :: "string \<Rightarrow> string" where
  "TrimSpace s = rev (dropWhile is_space (rev (dropWhile is_space s)))"

text \<open>ASCII case mapping of \<open>strings.ToUpper\<close>.\<close>

definition upper_char :: "char \<Rightarrow> char" where
  "upper_char c = (let n = (of_char c :: nat) in
     if 97 \<le> n \<and> n \<le> 122 then char_of (n - 32) else c)"

definition ToUpper :: "string \<Rightarrow> string" where
  "ToUpper s = map upper_char s"

text \<open>
  Case folding against an ASCII text, as \<open>strings.EqualFold\<close> and the member lookup of
  \<open>encoding/json\<close> do it: besides the letters, the long s (U+017F) folds to \<open>S\<close> and the Kelvin
  sign (U+212A) to \<open>K\<close>; no other character outside ASCII folds into it.
\<close>

fun fold_key :: "string \<Rightarrow> string" where
  "fold_key [] = []"
| "fold_key (c # s) =
     (if c = CHR 0xC5 \<and> take 1 s = [CHR 0xBF] then CHR ''S'' # fold_key (drop 1 s)
      else if c = CHR 0xE2 \<and> take 2 s = [CHR 0x84, CHR 0xAA] then CHR ''K'' # fold_key (drop 2 s)
      else upper_char c # fold_key s)"

definition EqualFold :: "string \<Rightarrow> string \<Rightarrow> bool" where
  "EqualFold s t \<longleftrightarrow> fold_key s = fold_key t"

section \<open>Transition systems\<close>

text \<open>
  A component seen as a machine: states reached from an initial state by steps. An invariant
  that holds initially and that every step keeps holds in every reachable state.
\<close>

inductive reaches :: "('s \<Rightarrow> 's \<Rightarrow> bool) \<Rightarrow> 's \<Rightarrow> 's \<Rightarrow> bool" for step where
  start: "reaches step s s"
| next_step: "reaches step s t \<Longrightarrow> step t u \<Longrightarrow> reaches step s u"

locale machine =
  fixes step :: "'s \<Rightarrow> 's \<Rightarrow> bool"
    and inv :: "'s \<Rightarrow> bool"
  assumes step_inv: "inv s \<Longrightarrow> step s t \<Longrightarrow> inv t"
begin

lemma reaches_inv: "reaches step s t \<Longrightarrow> inv s \<Longrightarrow> inv t"
  by (induction rule: reaches.induct) (auto intro: step_inv)

lemma reaches_monotone:
  assumes "reaches step s t" and "inv s" and "R s"
    and "\<And>s t. inv s \<Longrightarrow> step s t \<Longrightarrow> R s \<Longrightarrow> R t"
  shows "R t"
  using assms(1-3)
proof (induction rule: reaches.induct)
  case (start s)
  then show ?case by simp
next
  case (next_step s t u)
  then have "inv t" using reaches_inv by blast
  with next_step assms(4) show ?case by blast
qed

end

end
