(* ===== verification/Go_Float.thy ===== *)
theory Go_Float
  imports Prelude Complex_Main "HOL-Library.Log_Nat"
begin

text \<open>
  Go's \<open>float64\<close>: IEEE 754 binary64 values as a datatype over the rationals. A finite value is
  the rational number it denotes, and every arithmetic operation rounds its exact result to
  the nearest binary64 value, ties to even (\<open>round64\<close>), overflowing to infinity. The sign of zero
  is not represented: no operation the program uses reads it. Multiplications and additions
  are rounded separately, as the amd64 compiler emits them. Conversion to \<open>int\<close> truncates;
  out of range it yields the amd64 result \<open>-2^63\<close>.
\<close>

section \<open>Rounding to binary64\<close>

datatype float64 = Fin rat | Inf bool | NaN

text \<open>The binary exponent of a positive rational.\<close>

definition ilog2 :: "rat \<Rightarrow> int" where
  "ilog2 x = (let (p, q) = quotient_of x; k = bitlen p - bitlen q in
     if 2 powi k \<le> x then k else k - 1)"

definition round_half_even :: "rat \<Rightarrow> int" where
  "round_half_even x = (let f = \<lfloor>x\<rfloor>; d = x - of_int f in
     if d < 1 / 2 then f else if d > 1 / 2 then f + 1 else if even f then f else f + 1)"

definition ulp :: "rat \<Rightarrow> rat" where
  "ulp x = 2 powi (max (ilog2 x - 52) (- 1074))"

definition rnd_pos :: "rat \<Rightarrow> rat" where
  "rnd_pos x = of_int (round_half_even (x / ulp x)) * ulp x"

definition rnd :: "rat \<Rightarrow> rat" where
  "rnd x = (if x = 0 then 0 else if 0 < x then rnd_pos x else - rnd_pos (- x))"

definition f_bound :: rat where
  "f_bound = 2 ^ 1024"

definition round64 :: "rat \<Rightarrow> float64" where
  "round64 x = (let r = rnd x in if f_bound \<le> \<bar>r\<bar> then Inf (r < 0) else Fin r)"

subsection \<open>The exponent\<close>

lemma powi_le_bitlen:
  assumes "0 < p"
  shows "(2::rat) powi (bitlen p - 1) \<le> of_int p" and "of_int p < (2::rat) powi (bitlen p)"
proof -
  from assms have b: "0 < bitlen p" by (simp add: bitlen_eq_zero_iff order.not_eq_order_implies_strict bitlen_nonneg)
  from bitlen_bounds [OF assms]
  have lo: "2 ^ nat (bitlen p - 1) \<le> p" and hi: "p < 2 ^ nat (bitlen p)" by auto
  from lo have "(of_int (2 ^ nat (bitlen p - 1)) :: rat) \<le> of_int p" by (simp only: of_int_le_iff)
  with b show "(2::rat) powi (bitlen p - 1) \<le> of_int p" by (simp add: power_int_def)
  from hi have "(of_int p :: rat) < of_int (2 ^ nat (bitlen p))" by (simp only: of_int_less_iff)
  with b show "of_int p < (2::rat) powi (bitlen p)" by (simp add: power_int_def)
qed

lemma ilog2_bounds:
  assumes "0 < x"
  shows "2 powi ilog2 x \<le> x" and "x < 2 powi (ilog2 x + 1)"
proof -
  obtain p q where pq: "quotient_of x = (p, q)" by (cases "quotient_of x")
  then have q: "0 < q" and x: "x = of_int p / of_int q"
    using quotient_of_denom_pos quotient_of_div by blast+
  with assms have p: "0 < p" by (simp add: zero_less_divide_iff)
  define k where "k = bitlen p - bitlen q"
  have up: "x < 2 powi (k + 1)"
  proof -
    have "x < 2 powi (bitlen p) / 2 powi (bitlen q - 1)"
      unfolding x using powi_le_bitlen(2) [OF p] powi_le_bitlen(1) [OF q] q p
      by (intro frac_less) auto
    also have "\<dots> = 2 powi (k + 1)" by (simp add: k_def power_int_diff [symmetric] algebra_simps)
    finally show ?thesis .
  qed
  have lo: "2 powi (k - 1) \<le> x"
  proof -
    have "(2::rat) powi (bitlen p - 1) / 2 powi (bitlen q) \<le> x"
      unfolding x using powi_le_bitlen(1) [OF p] powi_le_bitlen(2) [OF q] q p
      by (intro frac_le) auto
    moreover have "(2::rat) powi (bitlen p - 1) / 2 powi (bitlen q) = 2 powi (k - 1)"
      by (simp add: k_def power_int_diff [symmetric] algebra_simps)
    ultimately show ?thesis by simp
  qed
  have "ilog2 x = (if 2 powi k \<le> x then k else k - 1)"
    by (simp add: ilog2_def pq k_def)
  with up lo show "2 powi ilog2 x \<le> x" and "x < 2 powi (ilog2 x + 1)"
    by (auto split: if_splits)
qed

lemma powi_less_cancel: "(2::rat) powi a < 2 powi b \<Longrightarrow> a < b"
  using power_int_increasing [of b a "2::rat"] by (auto simp: not_less [symmetric])

lemma ilog2_mono: "0 < x \<Longrightarrow> x \<le> y \<Longrightarrow> ilog2 x \<le> ilog2 y"
  using ilog2_bounds(1) [of x] ilog2_bounds(2) [of y]
    powi_less_cancel [of "ilog2 x" "ilog2 y + 1"] by linarith

subsection \<open>Ties to even\<close>

lemma round_half_even_int [simp]: "round_half_even (of_int n) = n"
  by (simp add: round_half_even_def)

lemma round_half_even_bounds: "\<lfloor>x\<rfloor> \<le> round_half_even x" "round_half_even x \<le> \<lfloor>x\<rfloor> + 1"
  by (auto simp: round_half_even_def Let_def)

lemma round_half_even_mono: "x \<le> y \<Longrightarrow> round_half_even x \<le> round_half_even y"
proof -
  assume le: "x \<le> y"
  then have "\<lfloor>x\<rfloor> \<le> \<lfloor>y\<rfloor>" by (rule floor_mono)
  then consider "\<lfloor>x\<rfloor> = \<lfloor>y\<rfloor>" | "\<lfloor>x\<rfloor> + 1 \<le> \<lfloor>y\<rfloor>" by linarith
  then show ?thesis
  proof cases
    case 1
    with le show ?thesis by (auto simp: round_half_even_def Let_def)
  next
    case 2
    with round_half_even_bounds(2) [of x] round_half_even_bounds(1) [of y] show ?thesis
      by linarith
  qed
qed

lemma round_half_even_ge: "of_int n \<le> x \<Longrightarrow> n \<le> round_half_even x"
  using round_half_even_mono [of "of_int n" x] by simp

lemma round_half_even_le: "x \<le> of_int n \<Longrightarrow> round_half_even x \<le> n"
  using round_half_even_mono [of x "of_int n"] by simp

subsection \<open>Monotonicity and exactness of rounding\<close>

lemma ulp_pos [simp]: "0 < ulp x"
  by (simp add: ulp_def)

lemma ulp_nonneg [simp]: "0 \<le> ulp x"
  by (rule less_imp_le) simp

lemma rnd_pos_nonneg: "0 < x \<Longrightarrow> 0 \<le> rnd_pos x"
  using round_half_even_ge [of 0 "x / ulp x"]
  by (simp add: rnd_pos_def zero_le_divide_iff)

text \<open>A multiple of the unit in the last place is a fixed point; so is a bound by one.\<close>

lemma rnd_pos_le_mult: "x \<le> of_int n * ulp x \<Longrightarrow> rnd_pos x \<le> of_int n * ulp x"
  using round_half_even_le [of "x / ulp x" n]
  by (simp add: rnd_pos_def pos_divide_le_eq)

lemma rnd_pos_ge_mult: "of_int n * ulp x \<le> x \<Longrightarrow> of_int n * ulp x \<le> rnd_pos x"
  using round_half_even_ge [of n "x / ulp x"]
  by (simp add: rnd_pos_def pos_le_divide_eq)

lemma powi_mult_ulp:
  assumes "max (ilog2 x - 52) (- 1074) \<le> e"
  shows "\<exists>n. (2::rat) powi e = of_int n * ulp x"
proof -
  let ?u = "max (ilog2 x - 52) (- 1074)"
  have "(2::rat) powi e = 2 powi (e - ?u) * 2 powi ?u"
    by (simp add: power_int_add [symmetric])
  also have "(2::rat) powi (e - ?u) = of_int (2 ^ nat (e - ?u))"
    using assms by (simp add: power_int_def)
  finally show ?thesis by (auto simp: ulp_def intro!: exI [of _ "2 ^ nat (e - ?u)"])
qed

lemma rnd_pos_le_powi:
  assumes "0 < x" "x \<le> 2 powi e" "- 1074 \<le> e"
  shows "rnd_pos x \<le> 2 powi e"
proof -
  from ilog2_bounds(1) [OF assms(1)] assms(2) have "(2::rat) powi ilog2 x < 2 powi (e + 1)"
    by (rule order.trans [THEN order.strict_trans1]) (simp add: power_int_add)
  then have "ilog2 x \<le> e" by (auto dest!: powi_less_cancel)
  with assms(3) powi_mult_ulp [of x e] rnd_pos_le_mult [of x] assms(2) show ?thesis by auto
qed

lemma rnd_pos_ge_powi:
  assumes "0 < x" "2 powi e \<le> x" "ilog2 x - 52 \<le> e" "- 1074 \<le> e"
  shows "2 powi e \<le> rnd_pos x"
  using powi_mult_ulp [of x e] rnd_pos_ge_mult [of _ x] assms by auto

lemma rnd_pos_mono:
  assumes "0 < x" "x \<le> y"
  shows "rnd_pos x \<le> rnd_pos y"
proof (cases "ulp x = ulp y")
  case True
  with assms have "x / ulp x \<le> y / ulp y" by (simp only: divide_right_mono ulp_nonneg)
  then show ?thesis
    using True by (simp add: rnd_pos_def round_half_even_mono mult_right_mono)
next
  case False
  then have "ilog2 x \<noteq> ilog2 y" by (auto simp: ulp_def)
  with ilog2_mono [OF assms] have lt: "ilog2 x < ilog2 y" by simp
  with False have big: "- 1074 < ilog2 y - 52"
    by (auto simp: ulp_def max_def split: if_splits)
  have "x \<le> 2 powi (ilog2 y)"
    using ilog2_bounds(2) [OF assms(1)] lt
      power_int_increasing [of "ilog2 x + 1" "ilog2 y" "2::rat"] by simp
  then have "rnd_pos x \<le> 2 powi (ilog2 y)"
    using assms big by (intro rnd_pos_le_powi) auto
  also have "\<dots> \<le> rnd_pos y"
    using assms big ilog2_bounds(1) [of y] by (intro rnd_pos_ge_powi) auto
  finally show ?thesis .
qed

lemma rnd_mono: "x \<le> y \<Longrightarrow> rnd x \<le> rnd y"
  using rnd_pos_mono [of x y] rnd_pos_mono [of "- y" "- x"]
    rnd_pos_nonneg [of y] rnd_pos_nonneg [of "- x"]
  by (auto simp: rnd_def)

definition representable :: "rat \<Rightarrow> bool" where
  "representable x \<longleftrightarrow> (\<exists>m e. x = of_int m * 2 powi e \<and> \<bar>m\<bar> < 2 ^ 53 \<and> - 1074 \<le> e)"

lemma rnd_pos_representable:
  assumes "0 < x" "representable x"
  shows "rnd_pos x = x"
proof -
  from assms(2) obtain m e where x: "x = of_int m * 2 powi e" and m: "\<bar>m\<bar> < 2 ^ 53" and e: "- 1074 \<le> e"
    by (auto simp: representable_def)
  from assms(1) x have "0 < (of_int m :: rat)"
    using zero_less_power_int [of "2::rat" e] by (metis zero_less_mult_pos2 zero_less_numeral)
  then have pos: "0 < m" by simp
  have "2 powi ilog2 x \<le> x" by (rule ilog2_bounds(1) [OF assms(1)])
  also have "x < of_int (2 ^ 53) * 2 powi e"
    unfolding x using m pos by (intro mult_strict_right_mono) (simp_all only: of_int_less_iff, auto)
  also have "(of_int (2 ^ 53) * 2 powi e :: rat) = 2 powi (53 + e)"
    by (simp add: power_int_add)
  finally have "ilog2 x < 53 + e" by (rule powi_less_cancel)
  with e obtain n where "(2::rat) powi e = of_int n * ulp x"
    using powi_mult_ulp [of x e] by auto
  with x have "x = of_int (m * n) * ulp x" by simp
  then show ?thesis
    using rnd_pos_le_mult [of x "m * n"] rnd_pos_ge_mult [of "m * n" x] by simp
qed

lemma representable_minus [simp]: "representable (- x) \<longleftrightarrow> representable x"
proof -
  have "representable y \<Longrightarrow> representable (- y)" for y
    unfolding representable_def
    by (elim exE conjE, rule_tac x = "- m" in exI, rule_tac x = e in exI) simp
  from this [of x] this [of "- x"] show ?thesis by auto
qed

lemma rnd_representable: "representable x \<Longrightarrow> rnd x = x"
  using rnd_pos_representable [of x] rnd_pos_representable [of "- x"] by (auto simp: rnd_def)

lemma representable_scaled:
  "\<bar>n\<bar> < 2 ^ 53 \<Longrightarrow> k \<le> 1074 \<Longrightarrow> representable (of_int n / 2 ^ k)"
  unfolding representable_def
  by (intro exI [of _ n] exI [of _ "- int k"]) (simp add: power_int_minus divide_inverse)

lemma representable_int: "\<bar>n\<bar> < 2 ^ 53 \<Longrightarrow> representable (of_int n)"
  using representable_scaled [of n 0] by simp

lemma representable_0 [simp]: "representable 0"
  using representable_int [of 0] by simp

lemma rnd_0 [simp]: "rnd 0 = 0" by (simp add: rnd_def)

lemma rnd_nonneg: "0 \<le> x \<Longrightarrow> 0 \<le> rnd x"
  using rnd_mono [of 0 x] by simp

lemma rnd_le_representable: "x \<le> y \<Longrightarrow> representable y \<Longrightarrow> rnd x \<le> y"
  using rnd_mono [of x y] rnd_representable by simp

lemma rnd_ge_representable: "y \<le> x \<Longrightarrow> representable y \<Longrightarrow> y \<le> rnd x"
  using rnd_mono [of y x] rnd_representable by simp

text \<open>Rounding yields representable values.\<close>

lemma rnd_pos_is_representable:
  assumes "0 < x"
  shows "representable (rnd_pos x)"
proof -
  let ?u = "max (ilog2 x - 52) (- 1074)"
  let ?n = "round_half_even (x / ulp x)"
  have "x < 2 powi (ilog2 x + 1)" by (rule ilog2_bounds(2) [OF assms])
  also have "\<dots> \<le> 2 powi (53 + ?u)" by (intro power_int_increasing) auto
  also have "(2::rat) powi (53 + ?u) = of_int (2 ^ 53) * ulp x"
    by (simp add: ulp_def power_int_add)
  finally have "x / ulp x \<le> of_int (2 ^ 53)" by (simp add: pos_divide_le_eq)
  then have hi: "?n \<le> 2 ^ 53" by (rule round_half_even_le)
  have lo: "0 \<le> ?n"
    using assms by (intro round_half_even_ge) (simp add: less_imp_le)
  show ?thesis
  proof (cases "?n = 2 ^ 53")
    case True
    then have "rnd_pos x = of_int 1 * 2 powi (53 + ?u)"
      by (simp add: rnd_pos_def ulp_def power_int_add)
    then show ?thesis unfolding representable_def by (intro exI [of _ 1] exI [of _ "53 + ?u"]) auto
  next
    case False
    with hi lo show ?thesis
      unfolding representable_def rnd_pos_def ulp_def
      by (intro exI [of _ ?n] exI [of _ ?u]) (auto simp: ulp_def)
  qed
qed

lemma rnd_is_representable [simp]: "representable (rnd x)"
  using rnd_pos_is_representable [of x] rnd_pos_is_representable [of "- x"]
  by (auto simp: rnd_def)

section \<open>Operations\<close>

fun f_add :: "float64 \<Rightarrow> float64 \<Rightarrow> float64" where
  "f_add (Fin a) (Fin b) = round64 (a + b)"
| "f_add (Inf s) (Fin b) = Inf s"
| "f_add (Fin a) (Inf s) = Inf s"
| "f_add (Inf s) (Inf t) = (if s = t then Inf s else NaN)"
| "f_add _ _ = NaN"

fun f_neg :: "float64 \<Rightarrow> float64" where
  "f_neg (Fin a) = Fin (- a)"
| "f_neg (Inf s) = Inf (\<not> s)"
| "f_neg NaN = NaN"

definition f_sub :: "float64 \<Rightarrow> float64 \<Rightarrow> float64" where
  "f_sub a b = f_add a (f_neg b)"

fun f_mul :: "float64 \<Rightarrow> float64 \<Rightarrow> float64" where
  "f_mul (Fin a) (Fin b) = round64 (a * b)"
| "f_mul (Inf s) (Fin b) = (if b = 0 then NaN else Inf (s \<noteq> (b < 0)))"
| "f_mul (Fin a) (Inf s) = (if a = 0 then NaN else Inf (s \<noteq> (a < 0)))"
| "f_mul (Inf s) (Inf t) = Inf (s \<noteq> t)"
| "f_mul _ _ = NaN"

text \<open>Division is used with nonzero finite constants as divisors only.\<close>

fun f_div :: "float64 \<Rightarrow> float64 \<Rightarrow> float64" where
  "f_div (Fin a) (Fin b) = (if b = 0 then (if a = 0 then NaN else Inf (a < 0)) else round64 (a / b))"
| "f_div (Inf s) (Fin b) = Inf (s \<noteq> (b < 0))"
| "f_div (Fin a) (Inf s) = Fin 0"
| "f_div _ _ = NaN"

fun f_lt :: "float64 \<Rightarrow> float64 \<Rightarrow> bool" where
  "f_lt (Fin a) (Fin b) = (a < b)"
| "f_lt (Fin a) (Inf s) = (\<not> s)"
| "f_lt (Inf s) (Fin b) = s"
| "f_lt (Inf s) (Inf t) = (s \<and> \<not> t)"
| "f_lt _ _ = False"

fun f_le :: "float64 \<Rightarrow> float64 \<Rightarrow> bool" where
  "f_le (Fin a) (Fin b) = (a \<le> b)"
| "f_le (Fin a) (Inf s) = (\<not> s)"
| "f_le (Inf s) (Fin b) = s"
| "f_le (Inf s) (Inf t) = (s \<or> \<not> t)"
| "f_le _ _ = False"

fun f_is_nan :: "float64 \<Rightarrow> bool" where
  "f_is_nan NaN = True" | "f_is_nan _ = False"

fun f_is_inf :: "float64 \<Rightarrow> bool" where
  "f_is_inf (Inf _) = True" | "f_is_inf _ = False"

text \<open>The built-in \<open>min\<close> and \<open>max\<close>: a NaN operand makes the result NaN.\<close>

definition f_min :: "float64 \<Rightarrow> float64 \<Rightarrow> float64" where
  "f_min a b = (if f_is_nan a \<or> f_is_nan b then NaN else if f_lt b a then b else a)"

definition f_max :: "float64 \<Rightarrow> float64 \<Rightarrow> float64" where
  "f_max a b = (if f_is_nan a \<or> f_is_nan b then NaN else if f_lt a b then b else a)"

fun f_floor :: "float64 \<Rightarrow> float64" where
  "f_floor (Fin a) = Fin (of_int \<lfloor>a\<rfloor>)" | "f_floor a = a"

text \<open>\<open>math.Round\<close>: half away from zero.\<close>

fun f_round :: "float64 \<Rightarrow> float64" where
  "f_round (Fin a) = Fin (if 0 \<le> a then of_int \<lfloor>a + 1 / 2\<rfloor> else - of_int \<lfloor>1 / 2 - a\<rfloor>)"
| "f_round a = a"

definition f_of_int :: "int \<Rightarrow> float64" where
  "f_of_int n = round64 (of_int n)"

definition trunc_rat :: "rat \<Rightarrow> int" where
  "trunc_rat x = (if 0 \<le> x then \<lfloor>x\<rfloor> else \<lceil>x\<rceil>)"

fun f_to_int :: "float64 \<Rightarrow> int" where
  "f_to_int (Fin a) = (let n = trunc_rat a in
     if min_int64 \<le> n \<and> n \<le> max_int64 then n else min_int64)"
| "f_to_int _ = min_int64"

text \<open>\<open>Duration.Seconds\<close>: whole seconds and the remainder are converted separately.\<close>

definition dur_seconds :: "duration \<Rightarrow> float64" where
  "dur_seconds d = (let sec = go_div d Second; nsec = d - sec * Second in
     f_add (f_of_int sec) (f_div (f_of_int nsec) (Fin 1000000000)))"

subsection \<open>Exact results\<close>

lemma round64_representable: "\<bar>x\<bar> < f_bound \<Longrightarrow> representable x \<Longrightarrow> round64 x = Fin x"
  by (simp add: round64_def rnd_representable)

lemma round64_scaled:
  assumes "\<bar>n\<bar> < 2 ^ 53" "k \<le> 1074"
  shows "round64 (of_int n / 2 ^ k) = Fin (of_int n / 2 ^ k)"
proof -
  have "\<bar>(of_int n :: rat) / 2 ^ k\<bar> \<le> \<bar>of_int n\<bar>"
    by (simp add: pos_divide_le_eq mult_le_cancel_left1)
  also have "\<dots> < of_int (2 ^ 53)" using assms(1) by (simp only: of_int_less_iff of_int_abs [symmetric])
  also have "(of_int (2 ^ 53) :: rat) \<le> f_bound" unfolding f_bound_def by simp
  finally show ?thesis
    using representable_scaled [OF assms] by (intro round64_representable) auto
qed

lemma round64_int: "\<bar>n\<bar> < 2 ^ 53 \<Longrightarrow> round64 (of_int n) = Fin (of_int n)"
  using round64_scaled [of n 0] by simp

lemma round64_0 [simp]: "round64 0 = Fin 0"
  using round64_int [of 0] by simp

lemma round64_1 [simp]: "round64 1 = Fin 1"
  using round64_int [of 1] by simp

lemma round64_numeral [simp]:
  "(numeral k :: int) < 2 ^ 53 \<Longrightarrow> round64 (numeral k) = Fin (numeral k)"
  "(numeral k :: int) < 2 ^ 53 \<Longrightarrow> round64 (- numeral k) = Fin (- numeral k)"
  using round64_int [of "numeral k"] round64_int [of "- numeral k"] by simp_all

lemma round64_small: "\<bar>x\<bar> \<le> 2 ^ 52 \<Longrightarrow> round64 x = Fin (rnd x)"
proof -
  assume "\<bar>x\<bar> \<le> 2 ^ 52"
  then have "- (2 ^ 52) \<le> x" "x \<le> 2 ^ 52" by auto
  moreover have "representable (2 ^ 52)" using representable_int [of "2 ^ 52"] by simp
  ultimately have "- (2 ^ 52) \<le> rnd x" "rnd x \<le> 2 ^ 52"
    using rnd_ge_representable [of "- (2 ^ 52)" x] rnd_le_representable [of x "2 ^ 52"] by auto
  moreover have "(2::rat) ^ 52 < f_bound" by (simp add: f_bound_def)
  ultimately show ?thesis by (simp add: round64_def Let_def abs_le_iff)
qed

lemma f_of_int_exact: "\<bar>n\<bar> < 2 ^ 53 \<Longrightarrow> f_of_int n = Fin (of_int n)"
  by (simp add: f_of_int_def round64_int)

lemma f_of_int_0 [simp]: "f_of_int 0 = Fin 0" by (simp add: f_of_int_def)

subsection \<open>Monotonicity of the operations on finite values\<close>

lemma round64_Fin: "round64 x = Fin r \<Longrightarrow> r = rnd x"
  by (auto simp: round64_def Let_def split: if_splits)

lemma trunc_rat_mono: "x \<le> y \<Longrightarrow> trunc_rat x \<le> trunc_rat y"
proof -
  assume le: "x \<le> y"
  have "x < 0 \<Longrightarrow> 0 \<le> y \<Longrightarrow> \<lceil>x\<rceil> \<le> \<lfloor>y\<rfloor>"
    by (rule order.trans [of _ 0]) (simp_all add: ceiling_le_zero)
  with le show ?thesis by (auto simp: trunc_rat_def floor_mono ceiling_mono)
qed

lemma trunc_rat_int [simp]: "trunc_rat (of_int n) = n"
  by (simp add: trunc_rat_def)

lemma f_to_int_Fin:
  "min_int64 \<le> trunc_rat x \<Longrightarrow> trunc_rat x \<le> max_int64 \<Longrightarrow> f_to_int (Fin x) = trunc_rat x"
  by (simp add: Let_def)

lemma f_to_int_of_int: "min_int64 \<le> n \<Longrightarrow> n \<le> max_int64 \<Longrightarrow> f_to_int (Fin (of_int n)) = n"
  by (simp add: Let_def)

end
