(* ===== verification/Json.thy ===== *)
theory Json
  imports Go_Float
begin

text \<open>
  The part of \<open>encoding/json\<close> the program uses. A \<open>json.RawMessage\<close> is the length of its text
  together with the document it denotes (\<open>None\<close> when the text is not JSON, the empty text
  included). A document is a tree; the members of an object carry the length of their own text,
  because the program takes members out as \<open>RawMessage\<close> and bounds their length. A number keeps
  the length of its literal, its value and whether the literal is written as an integer.

  \<open>json.Unmarshal\<close> into a struct folds over the members in order: a key selects a field without
  regard to ASCII case, \<open>null\<close> leaves a field alone (and makes a pointer nil), a value of the
  wrong type records an error and the decoding goes on with the next member, \<open>null\<close> at the top
  level decodes to the zero value. \<open>json.Marshal\<close> builds the tree with the lengths of the
  compact rendering. Strings that are not valid UTF-8 are repaired as the library does.
\<close>

section \<open>UTF-8\<close>

abbreviation chr_code :: "char \<Rightarrow> nat" where "chr_code c \<equiv> of_char c"

definition is_cont :: "char \<Rightarrow> bool" where
  "is_cont c \<longleftrightarrow> 0x80 \<le> chr_code c \<and> chr_code c \<le> 0xBF"

text \<open>Length of the rune a byte string starts with, 0 when it is not valid UTF-8.\<close>

definition rune_len :: "string \<Rightarrow> nat" where
  "rune_len s = (case s of
     [] \<Rightarrow> 0
   | c # r \<Rightarrow> let n = chr_code c in
       if n < 0x80 then 1
       else if 0xC2 \<le> n \<and> n \<le> 0xDF then
         (case r of c1 # _ \<Rightarrow> if is_cont c1 then 2 else 0 | _ \<Rightarrow> 0)
       else if 0xE0 \<le> n \<and> n \<le> 0xEF then
         (case r of c1 # c2 # _ \<Rightarrow>
            if is_cont c1 \<and> is_cont c2 \<and> (n = 0xE0 \<longrightarrow> 0xA0 \<le> chr_code c1) \<and> (n = 0xED \<longrightarrow> chr_code c1 \<le> 0x9F)
            then 3 else 0 | _ \<Rightarrow> 0)
       else if 0xF0 \<le> n \<and> n \<le> 0xF4 then
         (case r of c1 # c2 # c3 # _ \<Rightarrow>
            if is_cont c1 \<and> is_cont c2 \<and> is_cont c3 \<and> (n = 0xF0 \<longrightarrow> 0x90 \<le> chr_code c1) \<and>
               (n = 0xF4 \<longrightarrow> chr_code c1 \<le> 0x8F)
            then 4 else 0 | _ \<Rightarrow> 0)
       else 0)"

definition replacement :: string where
  "replacement = [CHR 0xEF, CHR 0xBF, CHR 0xBD]"

function sanitize :: "string \<Rightarrow> string" where
  "sanitize s = (if s = [] then [] else if rune_len s = 0 then replacement @ sanitize (tl s)
     else take (rune_len s) s @ sanitize (drop (rune_len s) s))"
  by pat_completeness auto
termination by (relation "measure length") auto

declare sanitize.simps [simp del]

lemma sanitize_Nil [simp]: "sanitize [] = []" by (simp add: sanitize.simps)

lemma sanitize_ascii_Cons [simp]: "chr_code c < 128 \<Longrightarrow> sanitize (c # s) = c # sanitize s"
  by (simp add: sanitize.simps [of "c # s"] rune_len_def)

definition ascii :: "string \<Rightarrow> bool" where
  "ascii s \<longleftrightarrow> list_all (\<lambda>c. chr_code c < 128) s"

lemma sanitize_ascii [simp]: "ascii s \<Longrightarrow> sanitize s = s"
  by (induction s) (auto simp: ascii_def)

lemma sanitize_eq_Nil [simp]: "sanitize s = [] \<longleftrightarrow> s = []"
  by (subst sanitize.simps) (auto simp: replacement_def)

section \<open>Documents and raw messages\<close>

datatype json = JNull | JBool bool | JNum nat rat bool | JStr string
  | JArr "json list" | JObj "(string \<times> nat \<times> json) list"

datatype raw = Raw (raw_len: nat) (raw_doc: "json option")

abbreviation raw_nil :: raw where "raw_nil \<equiv> Raw 0 None"

section \<open>Rendering\<close>

text \<open>Length of an escaped string, quotes included (HTML escaping is on by default).\<close>

function escaped_len :: "string \<Rightarrow> nat" where
  "escaped_len s = (if s = [] then 0 else if rune_len s = 0 then 6 + escaped_len (tl s)
     else (let k = rune_len s; c = chr_code (hd s) in
       (if k = 1 then
          (if c = 34 \<or> c = 92 \<or> c \<in> {8, 9, 10, 12, 13} then 2
           else if c < 32 \<or> c = 60 \<or> c = 62 \<or> c = 38 then 6 else 1)
        else if take 3 s = [CHR 0xE2, CHR 0x80, CHR 0xA8] \<or> take 3 s = [CHR 0xE2, CHR 0x80, CHR 0xA9]
        then 6 else k) + escaped_len (drop k s)))"
  by pat_completeness auto
termination by (relation "measure length") auto

declare escaped_len.simps [simp del]

fun digits10 :: "nat \<Rightarrow> nat" where
  "digits10 n = (if n < 10 then 1 else Suc (digits10 (n div 10)))"

declare digits10.simps [simp del]

definition int_lit_len :: "int \<Rightarrow> nat" where
  "int_lit_len n = (if n < 0 then 1 else 0) + digits10 (nat \<bar>n\<bar>)"

text \<open>
  Shortest decimal of a positive finite float: the decimal exponent \<open>E\<close> with
  \<open>10^E \<le> x < 10^(E+1)\<close>, and the least number of digits that reads back as the same float.
\<close>

fun dec_exp :: "nat \<Rightarrow> rat \<Rightarrow> int" where
  "dec_exp 0 x = 0"
| "dec_exp (Suc fuel) x = (if 10 \<le> x then 1 + dec_exp fuel (x / 10)
     else if x < 1 then dec_exp fuel (x * 10) - 1 else 0)"

definition rounds_back :: "rat \<Rightarrow> int \<Rightarrow> nat \<Rightarrow> bool" where
  "rounds_back x E n \<longleftrightarrow> (let s = 10 powi (int n - 1 - E) in
     round64 (of_int (round_half_even (x * s)) / s) = Fin x)"

definition shortest_digits :: "rat \<Rightarrow> int \<Rightarrow> nat" where
  "shortest_digits x E = (case find (rounds_back x E) [1..<18] of Some n \<Rightarrow> n | None \<Rightarrow> 17)"

definition float_lit_len :: "rat \<Rightarrow> nat" where
  "float_lit_len x = (if x = 0 then 1 else
     (let a = \<bar>x\<bar>; E = dec_exp 400 a; n = shortest_digits a E in
       (if x < 0 then 1 else 0) +
       (if - 6 \<le> E \<and> E < 21 then
          (if int n - 1 \<le> E then nat E + 1 else if 0 \<le> E then n + 1 else nat (- E) + 1 + n)
        else n + (if n = 1 then 0 else 1) + 2 + digits10 (nat \<bar>E\<bar>))))"

fun json_len :: "json \<Rightarrow> nat" where
  "json_len JNull = 4"
| "json_len (JBool b) = (if b then 4 else 5)"
| "json_len (JNum n _ _) = n"
| "json_len (JStr s) = 2 + escaped_len s"
| "json_len (JArr xs) = 2 + sum_list (map json_len xs) + (length xs - 1)"
| "json_len (JObj ms) =
     2 + sum_list (map (\<lambda>(k, n, _). 3 + escaped_len k + n) ms) + (length ms - 1)"

section \<open>Marshal\<close>

definition marshal :: "json \<Rightarrow> raw" where
  "marshal d = Raw (json_len d) (Some d)"

definition jmem :: "string \<Rightarrow> json \<Rightarrow> string \<times> nat \<times> json" where
  "jmem k d = (k, json_len d, d)"

definition jint :: "int \<Rightarrow> json" where
  "jint n = JNum (int_lit_len n) (of_int n) True"

text \<open>A finite float; the encoder refuses NaN and infinities.\<close>

fun jfloat :: "float64 \<Rightarrow> json option" where
  "jfloat (Fin x) = Some (JNum (float_lit_len x) x (x \<in> \<int>))"
| "jfloat _ = None"

section \<open>Unmarshal\<close>

type_synonym 'a decoder = "json \<Rightarrow> 'a \<Rightarrow> 'a \<times> bool"

definition dec_string :: "string decoder" where
  "dec_string v old = (case v of JStr s \<Rightarrow> (sanitize s, False) | JNull \<Rightarrow> (old, False) | _ \<Rightarrow> (old, True))"

definition dec_bool :: "bool decoder" where
  "dec_bool v old = (case v of JBool b \<Rightarrow> (b, False) | JNull \<Rightarrow> (old, False) | _ \<Rightarrow> (old, True))"

definition dec_float :: "float64 decoder" where
  "dec_float v old = (case v of
     JNum _ x _ \<Rightarrow> (case round64 x of Fin y \<Rightarrow> (Fin y, False) | _ \<Rightarrow> (old, True))
   | JNull \<Rightarrow> (old, False) | _ \<Rightarrow> (old, True))"

definition dec_int_range :: "int \<Rightarrow> int \<Rightarrow> int decoder" where
  "dec_int_range lo hi v old = (case v of
     JNum _ x i \<Rightarrow> if i \<and> of_int lo \<le> x \<and> x \<le> of_int hi then (\<lfloor>x\<rfloor>, False) else (old, True)
   | JNull \<Rightarrow> (old, False) | _ \<Rightarrow> (old, True))"

abbreviation "dec_int64 \<equiv> dec_int_range min_int64 max_int64"
abbreviation "dec_uint64 \<equiv> dec_int_range 0 (2 ^ 64 - 1)"
abbreviation "dec_uint32 \<equiv> dec_int_range 0 (2 ^ 32 - 1)"

definition dec_raw :: "nat \<Rightarrow> json \<Rightarrow> raw" where
  "dec_raw n v = Raw n (Some v)"

text \<open>A pointer field: \<open>null\<close> makes it nil, any other value is decoded into its target, a fresh one if it was nil.\<close>

definition dec_ptr :: "'a \<Rightarrow> 'a decoder \<Rightarrow> 'a option decoder" where
  "dec_ptr zero d v old = (case v of JNull \<Rightarrow> (None, False)
     | _ \<Rightarrow> (let (x, e) = d v (case old of Some y \<Rightarrow> y | None \<Rightarrow> zero) in (Some x, e)))"

text \<open>
  A struct: \<open>f key len value\<close> stores one member and says whether that was an error. The first
  error is what \<open>Unmarshal\<close> returns in the end; later members are still decoded.
\<close>

definition dec_struct :: "(string \<Rightarrow> nat \<Rightarrow> 'a decoder) \<Rightarrow> 'a decoder" where
  "dec_struct f v old = (case v of
     JObj ms \<Rightarrow> fold (\<lambda>(k, n, x) (a, e). let (a', e') = f k n x a in (a', e \<or> e')) ms (old, False)
   | JNull \<Rightarrow> (old, False) | _ \<Rightarrow> (old, True))"

definition unmarshal :: "'a decoder \<Rightarrow> 'a \<Rightarrow> raw \<Rightarrow> 'a \<times> bool" where
  "unmarshal d zero r = (case raw_doc r of None \<Rightarrow> (zero, True) | Some v \<Rightarrow> d v zero)"

lemma unmarshal_nil [simp]: "unmarshal d zero raw_nil = (zero, True)"
  by (simp add: unmarshal_def)

lemmas json_defs = unmarshal_def dec_struct_def dec_string_def dec_bool_def dec_float_def
  dec_int_range_def dec_raw_def dec_ptr_def marshal_def jmem_def jint_def

end
