(* ===== verification/Domain.thy ===== *)
theory Domain
  imports Json
begin

text \<open>
  The domain package (\<open>internal/domain\<close>): permissions, sessions, tickets, block locks, envelopes
  and their traffic classes, viewports and the grid, signalling targets, and the public identity
  of a connection. Go pointers to immutable copies (\<open>Clone\<close>) are values here. The \<open>Connection\<close>
  interface is split: \<open>connection\<close> holds the fields that never change after construction, the
  mutable part (queues, permission, flags) lives in the connection table of \<open>Connections\<close>.
\<close>

section \<open>Errors (ports.go, lock.go, and the sentinel errors of the services)\<close>

datatype error = ErrSessionNotFound | ErrTicketNotFound | ErrTicketExpired | ErrInvalidPermission
  | ErrLockNotHeld | ErrLockNotFound | ErrSessionRejected
  | ErrInvalidToken | ErrMissingClaim string | ErrTicketEntropy

section \<open>Permissions (permission.go)\<close>

type_synonym permission = string

abbreviation (input) "PermissionView \<equiv> ''view''"
abbreviation (input) "PermissionComment \<equiv> ''comment''"
abbreviation (input) "PermissionEdit \<equiv> ''edit''"
abbreviation (input) "PermissionOwner \<equiv> ''owner''"

definition ParsePermission :: "string \<Rightarrow> (error, permission) outcome" where
  "ParsePermission value =
     (if value = PermissionView then Inr PermissionView
      else if value = PermissionComment then Inr PermissionComment
      else if value = PermissionEdit then Inr PermissionEdit
      else if value = PermissionOwner then Inr PermissionOwner
      else Inl ErrInvalidPermission)"

definition Valid :: "permission \<Rightarrow> bool" where
  "Valid p = (case ParsePermission p of Inr _ \<Rightarrow> True | Inl _ \<Rightarrow> False)"

definition CanDraw :: "permission \<Rightarrow> bool" where
  "CanDraw p \<longleftrightarrow> p = PermissionEdit \<or> p = PermissionOwner"

section \<open>Sessions and tickets (session.go, ticket.go)\<close>

record canvas_session =
  ss_ID :: string
  ss_UserID :: string
  ss_NoteID :: string
  ss_Permission :: permission
  ss_TokenJTI :: string
  ss_ExpiresAt :: time
  ss_LastSeenAt :: time
  ss_CreatedAt :: time

definition session_IsExpired :: "canvas_session \<Rightarrow> time \<Rightarrow> bool" where
  "session_IsExpired s now = (\<not> now < ss_ExpiresAt s)"

definition session_IsIdle :: "canvas_session \<Rightarrow> time \<Rightarrow> duration \<Rightarrow> bool" where
  "session_IsIdle s now timeout = (time_sub now (ss_LastSeenAt s) > timeout)"

definition session_Touch :: "canvas_session \<Rightarrow> time \<Rightarrow> canvas_session" where
  "session_Touch s now = s\<lparr>ss_LastSeenAt := now\<rparr>"

record connection_ticket =
  tk_Value :: string
  tk_SessionID :: string
  tk_UserID :: string
  tk_NoteID :: string
  tk_Permission :: permission
  tk_ExpiresAt :: time
  tk_CreatedAt :: time

definition ticket_IsExpired :: "connection_ticket \<Rightarrow> time \<Rightarrow> bool" where
  "ticket_IsExpired t now = (\<not> now < tk_ExpiresAt t)"

section \<open>Block locks (lock.go)\<close>

record block_lock =
  lk_LockID :: string
  lk_BlockID :: string
  lk_NoteID :: string
  lk_ConnectionID :: string
  lk_SessionID :: string
  lk_UserID :: string
  lk_AcquiredAt :: time
  lk_ExpiresAt :: time

definition lock_IsExpired :: "block_lock \<Rightarrow> time \<Rightarrow> bool" where
  "lock_IsExpired l now = (\<not> now < lk_ExpiresAt l)"

abbreviation (input) "DenialHeldByOther \<equiv> ''held-by-other''"
abbreviation (input) "DenialTooManyLocks \<equiv> ''too-many-locks''"

record acquire_outcome =
  ao_Lock :: "block_lock option"
  ao_Holder :: "block_lock option"
  ao_Denial :: string

definition Granted :: "acquire_outcome \<Rightarrow> bool" where
  "Granted ao \<longleftrightarrow> ao_Denial ao = [] \<and> ao_Lock ao \<noteq> None"

section \<open>Connections as others see them (connection.go)\<close>

text \<open>
  What the interface value carries: the immutable identity of a connection, and the address
  \<open>cn_Ref\<close> of the transport object behind it, whose mutable part is in the connection table of the
  room service.
\<close>

record connection =
  cn_ID :: string
  cn_SessionID :: string
  cn_UserID :: string
  cn_NoteID :: string
  cn_ConnectedAt :: time
  cn_Ref :: nat

record member =
  mb_ConnectionID :: string
  mb_UserID :: string
  mb_SessionID :: string
  mb_JoinedAt :: int

definition MemberOf :: "connection \<Rightarrow> member" where
  "MemberOf c = \<lparr>mb_ConnectionID = cn_ID c, mb_UserID = cn_UserID c,
     mb_SessionID = cn_SessionID c, mb_JoinedAt = unix_milli (cn_ConnectedAt c)\<rparr>"

section \<open>Envelopes (envelope.go)\<close>

abbreviation (input) "EnvelopeVersion \<equiv> (2::int)"

record envelope =
  en_V :: int
  en_MessageID :: string
  en_SessionID :: string
  en_Channel :: string
  en_Event :: string
  en_ActorID :: "string option"
  en_Origin :: "string option"
  en_Seq :: "64 word option"
  en_SentAt :: int
  en_Payload :: raw

definition envelope_zero :: envelope where
  "envelope_zero = \<lparr>en_V = 0, en_MessageID = [], en_SessionID = [], en_Channel = [], en_Event = [],
     en_ActorID = None, en_Origin = None, en_Seq = None, en_SentAt = 0, en_Payload = raw_nil\<rparr>"

definition Stamp :: "envelope \<Rightarrow> string \<Rightarrow> string \<Rightarrow> string \<Rightarrow> int \<Rightarrow> envelope" where
  "Stamp e sessionID connectionID userID sentAt =
     e\<lparr>en_V := EnvelopeVersion, en_SessionID := sessionID, en_Origin := Some connectionID,
       en_ActorID := Some userID, en_SentAt := sentAt\<rparr>"

datatype event_class = ClassEphemeral | ClassReliable | ClassSignaling | ClassDurable

definition ephemeralEvents :: "string list" where
  "ephemeralEvents = [''cursor.moved'', ''laser.moved'', ''ink.started'', ''ink.points'',
     ''block.transform.preview'', ''selection.transform.preview'']"

definition signalingEvents :: "string list" where
  "signalingEvents = [''rtc.offer'', ''rtc.answer'', ''rtc.candidate'']"

definition reliableEvents :: "string list" where
  "reliableEvents = [''ink.commit'', ''ink.patch'', ''history.preview'', ''history.preview.cancel'',
     ''history.preview.confirmed'', ''ink.ended'', ''block.transform.commit'', ''block.lock.request'',
     ''block.lock.renew'', ''block.lock.release'', ''block.created'', ''block.status'',
     ''auth.refresh'', ''heartbeat'', ''server.draining'', ''interest.update'', ''yjs.update'',
     ''selection.lock'']"

definition durablePrefixes :: "string list" where
  "durablePrefixes = [''note.'', ''collection.'', ''media.'', ''session.changed'',
     ''block.received'', ''block.broadcast'']"

definition ClassifyEvent :: "string \<Rightarrow> event_class" where
  "ClassifyEvent event =
     (if event \<in> set ephemeralEvents then ClassEphemeral
      else if event \<in> set signalingEvents then ClassSignaling
      else if event \<in> set reliableEvents then ClassReliable
      else if \<exists>prefix \<in> set durablePrefixes. HasPrefix event prefix then ClassDurable
      else if HasPrefix event ''presence.'' \<or> event = ''room.members'' then ClassDurable
      else ClassReliable)"

definition MayPublish :: "permission \<Rightarrow> string \<Rightarrow> bool" where
  "MayPublish p event =
     (if event = ''server.draining'' then False
      else case ClassifyEvent event of
        ClassDurable \<Rightarrow> False
      | ClassEphemeral \<Rightarrow>
          if event = ''ink.started'' \<or> event = ''ink.points'' \<or>
             event = ''block.transform.preview'' \<or> event = ''selection.transform.preview''
          then CanDraw p else True
      | ClassSignaling \<Rightarrow> True
      | ClassReliable \<Rightarrow>
          if HasPrefix event ''ink.'' \<or> HasPrefix event ''block.'' \<or> HasPrefix event ''history.'' \<or>
             HasPrefix event ''selection.''
          then CanDraw p else True)"

section \<open>Signalling (signaling.go)\<close>

definition SignalingTarget :: "raw \<Rightarrow> string" where
  "SignalingTarget payload =
     (let (target, err) = unmarshal (dec_struct (\<lambda>k n v old.
            if EqualFold k ''target'' then dec_string v old else (old, False))) [] payload
      in if err then [] else target)"

definition IsSignalingEvent :: "string \<Rightarrow> bool" where
  "IsSignalingEvent event \<longleftrightarrow> ClassifyEvent event = ClassSignaling"

section \<open>Interest (interest.go)\<close>

abbreviation (input) "GridCellSize \<equiv> (512::int)"

record preview_preferences =
  pp_Transform :: bool
  pp_Ink :: bool
  pp_Cursor :: bool
  pp_Laser :: bool

record interest =
  it_ConnectionID :: string
  it_NoteID :: string
  it_PageID :: string
  it_X :: float64
  it_Y :: float64
  it_Width :: float64
  it_Height :: float64
  it_Preview :: "preview_preferences option"

definition interest_AllowsPreview :: "interest \<Rightarrow> string \<Rightarrow> bool" where
  "interest_AllowsPreview i event = (case it_Preview i of
     None \<Rightarrow> True
   | Some p \<Rightarrow>
       if event = ''block.transform.preview'' then pp_Transform p
       else if event = ''ink.started'' \<or> event = ''ink.points'' \<or> event = ''ink.ended'' then pp_Ink p
       else if event = ''cursor.moved'' then pp_Cursor p
       else if event = ''laser.moved'' then pp_Laser p
       else True)"

type_synonym grid_cell = "int \<times> int"

definition cellIndex :: "float64 \<Rightarrow> int" where
  "cellIndex coordinate = go_div (f_to_int coordinate) GridCellSize"

text \<open>
  \<open>make([]GridCell, 0, n)\<close> panics when \<open>n\<close> is negative or \<open>16 n\<close> bytes exceed the address
  space the allocator serves (\<open>2^48\<close> bytes). \<open>None\<close> is that panic.
\<close>

definition makeslice_ok :: "int \<Rightarrow> bool" where
  "makeslice_ok n \<longleftrightarrow> 0 \<le> n \<and> 16 * n \<le> 2 ^ 48"

definition Cells :: "interest \<Rightarrow> grid_cell list option" where
  "Cells i =
     (if f_le (it_Width i) (Fin 0) \<or> f_le (it_Height i) (Fin 0) then Some []
      else let
        minCellX = cellIndex (it_X i) - 1;
        minCellY = cellIndex (it_Y i) - 1;
        maxCellX = cellIndex (f_add (it_X i) (it_Width i)) + 1;
        maxCellY = cellIndex (f_add (it_Y i) (it_Height i)) + 1
      in if makeslice_ok (wrap64 ((maxCellX - minCellX + 1) * (maxCellY - minCellY + 1)))
         then Some (concat (map (\<lambda>cx. map (\<lambda>cy. (cx, cy)) [minCellY..maxCellY]) [minCellX..maxCellX]))
         else None)"

record event_location =
  el_PageID :: string
  el_HasPoint :: bool
  el_X :: float64
  el_Y :: float64

definition location_zero :: event_location where
  "location_zero = \<lparr>el_PageID = [], el_HasPoint = False, el_X = Fin 0, el_Y = Fin 0\<rparr>"

record event_location_payload =
  lp_PageID :: string
  lp_X :: "float64 option"
  lp_Y :: "float64 option"

definition dec_location_payload :: "event_location_payload decoder" where
  "dec_location_payload = dec_struct (\<lambda>k n v p.
     if EqualFold k ''pageId'' then (let (s, e) = dec_string v (lp_PageID p) in (p\<lparr>lp_PageID := s\<rparr>, e))
     else if EqualFold k ''x'' then (let (x, e) = dec_ptr (Fin 0) dec_float v (lp_X p) in (p\<lparr>lp_X := x\<rparr>, e))
     else if EqualFold k ''y'' then (let (y, e) = dec_ptr (Fin 0) dec_float v (lp_Y p) in (p\<lparr>lp_Y := y\<rparr>, e))
     else (p, False))"

definition LocationOf :: "raw \<Rightarrow> event_location" where
  "LocationOf payload =
     (let (parsed, err) = unmarshal dec_location_payload \<lparr>lp_PageID = [], lp_X = None, lp_Y = None\<rparr> payload
      in if err then location_zero
         else case (lp_X parsed, lp_Y parsed) of
           (Some x, Some y) \<Rightarrow> \<lparr>el_PageID = lp_PageID parsed, el_HasPoint = True, el_X = x, el_Y = y\<rparr>
         | _ \<Rightarrow> location_zero\<lparr>el_PageID := lp_PageID parsed\<rparr>)"

section \<open>Facts\<close>

lemma Valid_iff: "Valid p \<longleftrightarrow> p \<in> {PermissionView, PermissionComment, PermissionEdit, PermissionOwner}"
  by (auto simp: Valid_def ParsePermission_def)

lemma ParsePermission_Inr: "ParsePermission v = Inr p \<longleftrightarrow> p = v \<and> Valid v"
  by (auto simp: Valid_def ParsePermission_def split: if_splits)

lemmas event_tables = ephemeralEvents_def signalingEvents_def reliableEvents_def durablePrefixes_def

text \<open>The event tables are disjoint, so the order of the lookups does not matter.\<close>

lemma event_tables_disjoint:
  "list_all (\<lambda>e. e \<notin> set ephemeralEvents) signalingEvents"
  "list_all (\<lambda>e. e \<notin> set ephemeralEvents) reliableEvents"
  "list_all (\<lambda>e. e \<notin> set signalingEvents) reliableEvents"
  by code_simp+

lemma signaling_not_ephemeral: "event \<in> set signalingEvents \<Longrightarrow> event \<notin> set ephemeralEvents"
  using event_tables_disjoint(1) by (auto simp: list_all_iff)

lemma reliable_not_ephemeral: "event \<in> set reliableEvents \<Longrightarrow> event \<notin> set ephemeralEvents"
  using event_tables_disjoint(2) by (auto simp: list_all_iff)

lemma reliable_not_signaling: "event \<in> set reliableEvents \<Longrightarrow> event \<notin> set signalingEvents"
  using event_tables_disjoint(3) by (auto simp: list_all_iff)

lemma ClassifyEvent_reliable: "event \<in> set reliableEvents \<Longrightarrow> ClassifyEvent event = ClassReliable"
  using reliable_not_ephemeral reliable_not_signaling by (simp add: ClassifyEvent_def)

lemma ClassEphemeral_iff: "ClassifyEvent event = ClassEphemeral \<longleftrightarrow> event \<in> set ephemeralEvents"
  by (simp add: ClassifyEvent_def)

lemma ClassSignaling_iff: "ClassifyEvent event = ClassSignaling \<longleftrightarrow> event \<in> set signalingEvents"
  using signaling_not_ephemeral [of event] by (simp add: ClassifyEvent_def)

lemma MayPublish_durable: "ClassifyEvent event = ClassDurable \<Longrightarrow> \<not> MayPublish p event"
  by (simp add: MayPublish_def)

lemma Stamp_simps [simp]:
  "en_Event (Stamp e s c u t) = en_Event e"
  "en_Payload (Stamp e s c u t) = en_Payload e"
  "en_SessionID (Stamp e s c u t) = s"
  "en_Origin (Stamp e s c u t) = Some c"
  "en_ActorID (Stamp e s c u t) = Some u"
  "en_SentAt (Stamp e s c u t) = t"
  "en_MessageID (Stamp e s c u t) = en_MessageID e"
  "en_Seq (Stamp e s c u t) = en_Seq e"
  by (simp_all add: Stamp_def)

text \<open>
  The grid: a point of the viewport rectangle lies in one of its cells. The rectangle's corner
  coordinates are assumed to be in the range of \<open>int\<close>, where the conversion truncates.
\<close>

definition in_int_range :: "float64 \<Rightarrow> bool" where
  "in_int_range v \<longleftrightarrow> (case v of Fin x \<Rightarrow> min_int64 \<le> trunc_rat x \<and> trunc_rat x \<le> max_int64 | _ \<Rightarrow> False)"

lemma f_to_int_mono:
  "f_le a b \<Longrightarrow> in_int_range a \<Longrightarrow> in_int_range b \<Longrightarrow> f_to_int a \<le> f_to_int b"
  by (cases a; cases b) (auto simp: in_int_range_def Let_def trunc_rat_mono)

lemma cellIndex_mono:
  "f_le a b \<Longrightarrow> in_int_range a \<Longrightarrow> in_int_range b \<Longrightarrow> cellIndex a \<le> cellIndex b"
  unfolding cellIndex_def by (intro go_div_mono f_to_int_mono) auto

lemma in_int_range_between:
  "f_le a p \<Longrightarrow> f_le p b \<Longrightarrow> in_int_range a \<Longrightarrow> in_int_range b \<Longrightarrow> in_int_range p"
proof -
  assume "f_le a p" "f_le p b" "in_int_range a" "in_int_range b"
  moreover from this obtain x y where "a = Fin x" "b = Fin y"
    by (auto simp: in_int_range_def split: float64.splits)
  moreover from calculation obtain z where "p = Fin z" by (cases p) auto
  ultimately show ?thesis
    using trunc_rat_mono [of x z] trunc_rat_mono [of z y] by (auto simp: in_int_range_def)
qed

lemma set_Cells:
  assumes "Cells i = Some cs" "\<not> f_le (it_Width i) (Fin 0)" "\<not> f_le (it_Height i) (Fin 0)"
  shows "set cs = {cellIndex (it_X i) - 1 .. cellIndex (f_add (it_X i) (it_Width i)) + 1} \<times>
    {cellIndex (it_Y i) - 1 .. cellIndex (f_add (it_Y i) (it_Height i)) + 1}"
  using assms by (auto simp: Cells_def Let_def image_iff split: if_splits)

end
