(* ===== verification/Room_Store.thy ===== *)
theory Room_Store
  imports Domain
begin

text \<open>
  Live room membership (\<open>internal/infrastructure/memory_room_store.go\<close>): connections grouped by
  note, each room a map from connection id to connection, emptied rooms removed. The locale
  \<open>room_directory\<close> is the port the room service relies on.
\<close>

section \<open>The port\<close>

locale room_directory =
  fixes join :: "connection \<Rightarrow> 's \<Rightarrow> nat \<times> 's"
    and leave :: "connection \<Rightarrow> 's \<Rightarrow> nat \<times> 's"
    and by_id :: "string \<Rightarrow> string \<Rightarrow> 's \<Rightarrow> connection option"
    and peers :: "string \<Rightarrow> string \<Rightarrow> 's \<Rightarrow> connection list"
    and members :: "string \<Rightarrow> 's \<Rightarrow> connection list"
    and everyone :: "'s \<Rightarrow> connection list"
    and wf :: "'s \<Rightarrow> bool"
  assumes by_id_join: "wf s \<Longrightarrow> by_id n k (snd (join c s)) =
      (if n = cn_NoteID c \<and> k = cn_ID c then Some c else by_id n k s)"
    and by_id_leave: "wf s \<Longrightarrow> by_id n k (snd (leave c s)) =
      (if n = cn_NoteID c \<and> k = cn_ID c then None else by_id n k s)"
    and by_id_key: "wf s \<Longrightarrow> by_id n k s = Some c \<Longrightarrow> cn_NoteID c = n \<and> cn_ID c = k"
    and set_peers: "wf s \<Longrightarrow> c \<in> set (peers n x s) \<longleftrightarrow> by_id n (cn_ID c) s = Some c \<and> cn_ID c \<noteq> x"
    and set_members: "wf s \<Longrightarrow> c \<in> set (members n s) \<longleftrightarrow> by_id n (cn_ID c) s = Some c"
    and set_everyone: "wf s \<Longrightarrow> c \<in> set (everyone s) \<longleftrightarrow> by_id (cn_NoteID c) (cn_ID c) s = Some c"
    and distinct_peers: "wf s \<Longrightarrow> distinct (peers n x s)"
    and distinct_members: "wf s \<Longrightarrow> distinct (members n s)"
    and distinct_everyone: "wf s \<Longrightarrow> distinct (everyone s)"
    and wf_join: "wf s \<Longrightarrow> wf (snd (join c s))"
    and wf_leave: "wf s \<Longrightarrow> wf (snd (leave c s))"
begin

lemma peers_of_room: "wf s \<Longrightarrow> c \<in> set (peers n x s) \<Longrightarrow> cn_NoteID c = n \<and> cn_ID c \<noteq> x"
  using by_id_key set_peers by blast

lemma members_of_room: "wf s \<Longrightarrow> c \<in> set (members n s) \<Longrightarrow> cn_NoteID c = n"
  using by_id_key set_members by blast

lemma peers_everyone: "wf s \<Longrightarrow> c \<in> set (peers n x s) \<Longrightarrow> c \<in> set (everyone s)"
  using peers_of_room set_peers set_everyone by fastforce

lemma by_id_everyone: "wf s \<Longrightarrow> by_id n k s = Some c \<Longrightarrow> c \<in> set (everyone s)"
  using by_id_key set_everyone by blast

lemma everyone_join:
  "wf s \<Longrightarrow> c \<in> set (everyone (snd (join d s))) \<Longrightarrow> c = d \<or> c \<in> set (everyone s)"
  by (simp add: set_everyone wf_join by_id_join split: if_splits)

lemma everyone_leave: "wf s \<Longrightarrow> c \<in> set (everyone (snd (leave d s))) \<Longrightarrow> c \<in> set (everyone s)"
  by (simp add: set_everyone wf_leave by_id_leave split: if_splits)

lemma newcomer_is_member: "wf s \<Longrightarrow> c \<in> set (members (cn_NoteID c) (snd (join c s)))"
  by (simp add: set_members wf_join by_id_join)

lemma departed_has_no_room: "wf s \<Longrightarrow> c \<notin> set (everyone (snd (leave c s)))"
  by (simp add: set_everyone wf_leave by_id_leave)

end

section \<open>The in-memory store\<close>

type_synonym room = "(string, connection) gomap"

record room_store =
  rm_rooms :: "(string, room) gomap"

definition NewMemoryRoomStore :: room_store where
  "NewMemoryRoomStore = \<lparr>rm_rooms = []\<rparr>"

definition room_of :: "string \<Rightarrow> room_store \<Rightarrow> room" where
  "room_of noteID s = gm_get [] noteID (rm_rooms s)"

definition room_Join :: "connection \<Rightarrow> room_store \<Rightarrow> nat \<times> room_store" where
  "room_Join conn s = (let
     noteID = cn_NoteID conn;
     room = gm_put (cn_ID conn) conn (room_of noteID s)
   in (length room, s\<lparr>rm_rooms := gm_put noteID room (rm_rooms s)\<rparr>))"

definition room_Leave :: "connection \<Rightarrow> room_store \<Rightarrow> nat \<times> room_store" where
  "room_Leave conn s = (let noteID = cn_NoteID conn in
     case map_of (rm_rooms s) noteID of
       None \<Rightarrow> (0, s)
     | Some room \<Rightarrow> (let room = gm_del (cn_ID conn) room; remaining = length room in
         (remaining, s\<lparr>rm_rooms := (if remaining = 0 then gm_del noteID (rm_rooms s)
            else gm_put noteID room (rm_rooms s))\<rparr>)))"

definition Peers :: "string \<Rightarrow> string \<Rightarrow> room_store \<Rightarrow> connection list" where
  "Peers noteID exceptConnectionID s =
     map snd (filter (\<lambda>(id, _). id \<noteq> exceptConnectionID) (room_of noteID s))"

definition ConnectionByID :: "string \<Rightarrow> string \<Rightarrow> room_store \<Rightarrow> connection option" where
  "ConnectionByID noteID connectionID s = map_of (room_of noteID s) connectionID"

definition RoomSize :: "string \<Rightarrow> room_store \<Rightarrow> nat" where
  "RoomSize noteID s = length (room_of noteID s)"

definition Members :: "string \<Rightarrow> room_store \<Rightarrow> connection list" where
  "Members noteID s = map snd (room_of noteID s)"

definition AllConnections :: "room_store \<Rightarrow> connection list" where
  "AllConnections s = concat (map (\<lambda>(_, room). map snd room) (rm_rooms s))"

definition ConnectionsForSession :: "string \<Rightarrow> room_store \<Rightarrow> connection list" where
  "ConnectionsForSession sessionID s =
     concat (map (\<lambda>(_, room). filter (\<lambda>c. cn_SessionID c = sessionID) (map snd room)) (rm_rooms s))"

definition ConnectionsForUserOnNote :: "string \<Rightarrow> string \<Rightarrow> room_store \<Rightarrow> connection list" where
  "ConnectionsForUserOnNote noteID userID s = filter (\<lambda>c. cn_UserID c = userID) (map snd (room_of noteID s))"

definition RoomCount :: "room_store \<Rightarrow> nat" where
  "RoomCount s = length (rm_rooms s)"

definition ConnectionCount :: "room_store \<Rightarrow> nat" where
  "ConnectionCount s = sum_list (map (\<lambda>(_, room). length room) (rm_rooms s))"

section \<open>The store provides the port\<close>

definition room_keyed :: "string \<Rightarrow> room \<Rightarrow> bool" where
  "room_keyed n room \<longleftrightarrow> gm_wf room \<and> (\<forall>e \<in> set room. fst e = cn_ID (snd e) \<and> cn_NoteID (snd e) = n)"

definition room_wf :: "room_store \<Rightarrow> bool" where
  "room_wf s \<longleftrightarrow> gm_wf (rm_rooms s) \<and> (\<forall>r \<in> set (rm_rooms s). snd r \<noteq> [] \<and> room_keyed (fst r) (snd r))"

lemma room_of_Some: "map_of (rm_rooms s) n = Some room \<Longrightarrow> room_of n s = room"
  by (simp add: room_of_def gm_get_def)

lemma room_of_None: "map_of (rm_rooms s) n = None \<Longrightarrow> room_of n s = []"
  by (simp add: room_of_def gm_get_def)

lemma room_of_keyed: "room_wf s \<Longrightarrow> room_keyed n (room_of n s)"
proof (cases "map_of (rm_rooms s) n")
  case (Some room)
  assume "room_wf s"
  moreover have "(n, room) \<in> set (rm_rooms s)" using Some by (rule map_of_in_set)
  ultimately show ?thesis by (auto simp: room_wf_def room_of_Some [OF Some])
qed (simp add: room_of_None room_keyed_def)

lemma room_keyed_entry: "room_keyed n room \<Longrightarrow> c \<in> snd ` set room \<longleftrightarrow> map_of room (cn_ID c) = Some c"
proof -
  assume k: "room_keyed n room"
  have "(cn_ID c, c) \<in> set room" if "c \<in> snd ` set room"
  proof -
    from that obtain e where e: "e \<in> set room" "c = snd e" by blast
    with k have "e = (cn_ID c, c)" unfolding room_keyed_def by (metis prod.collapse)
    with e(1) show ?thesis by simp
  qed
  then have "c \<in> snd ` set room \<longleftrightarrow> (cn_ID c, c) \<in> set room" by (metis image_eqI snd_conv)
  moreover have "gm_wf room" using k by (simp add: room_keyed_def)
  ultimately show ?thesis by (simp only: in_set_map_of)
qed

lemma room_keyed_distinct:
  assumes "room_keyed n room"
  shows "distinct (map snd room)"
proof -
  have "inj_on snd (set room)"
    using assms unfolding room_keyed_def inj_on_def by (metis prod.expand)
  moreover have "distinct room" using assms by (simp add: room_keyed_def distinct_map)
  ultimately show ?thesis by (simp add: distinct_map)
qed

lemma in_room: "room_wf s \<Longrightarrow> c \<in> snd ` set (room_of n s) \<longleftrightarrow> ConnectionByID n (cn_ID c) s = Some c"
  using room_keyed_entry [OF room_of_keyed] by (simp add: ConnectionByID_def)

lemma room_of_note: "room_wf s \<Longrightarrow> c \<in> snd ` set (room_of n s) \<Longrightarrow> cn_NoteID c = n"
  using room_of_keyed [of s n] by (auto simp: room_keyed_def)

lemma room_of_Join: "room_of n (snd (room_Join c s)) =
    (if n = cn_NoteID c then gm_put (cn_ID c) c (room_of n s) else room_of n s)"
  by (simp add: room_Join_def room_of_def Let_def)

lemma room_of_Leave: "room_of n (snd (room_Leave c s)) =
    (if n = cn_NoteID c then gm_del (cn_ID c) (room_of n s) else room_of n s)"
  by (auto simp: room_Leave_def room_of_def gm_get_def Let_def split: option.splits)

lemma room_keyed_put: "room_keyed (cn_NoteID c) room \<Longrightarrow> room_keyed (cn_NoteID c) (gm_put (cn_ID c) c room)"
  by (auto simp: room_keyed_def set_gm_put)

lemma room_keyed_del: "room_keyed n room \<Longrightarrow> room_keyed n (gm_del k room)"
  by (auto simp: room_keyed_def)

lemma room_wf_put: "room_wf s \<Longrightarrow> room_keyed n room \<Longrightarrow> room \<noteq> [] \<Longrightarrow>
    room_wf (s\<lparr>rm_rooms := gm_put n room (rm_rooms s)\<rparr>)"
  by (auto simp: room_wf_def set_gm_put)

lemma room_wf_del: "room_wf s \<Longrightarrow> room_wf (s\<lparr>rm_rooms := gm_del n (rm_rooms s)\<rparr>)"
  by (auto simp: room_wf_def)

lemma room_wf_Join: "room_wf s \<Longrightarrow> room_wf (snd (room_Join c s))"
  by (simp add: room_Join_def Let_def room_wf_put room_keyed_put room_of_keyed)

lemma room_wf_Leave:
  assumes "room_wf s"
  shows "room_wf (snd (room_Leave c s))"
proof (cases "map_of (rm_rooms s) (cn_NoteID c)")
  case None
  with assms show ?thesis by (simp add: room_Leave_def Let_def)
next
  case (Some room)
  then have "room_keyed (cn_NoteID c) room" using room_of_keyed [OF assms] by (metis room_of_def gm_get_def option.simps(5))
  with assms Some show ?thesis
    by (simp add: room_Leave_def Let_def room_wf_del room_wf_put room_keyed_del)
qed

lemma AllConnections_rooms: "room_wf s \<Longrightarrow> c \<in> set (AllConnections s) \<longleftrightarrow> (\<exists>n. c \<in> snd ` set (room_of n s))"
proof -
  assume "room_wf s"
  then have wf: "gm_wf (rm_rooms s)" by (simp add: room_wf_def)
  have "c \<in> set (AllConnections s) \<longleftrightarrow> (\<exists>n room. (n, room) \<in> set (rm_rooms s) \<and> c \<in> snd ` set room)"
    by (force simp: AllConnections_def)
  also have "\<dots> \<longleftrightarrow> (\<exists>n room. map_of (rm_rooms s) n = Some room \<and> c \<in> snd ` set room)"
    by (simp only: in_set_map_of [OF wf])
  also have "\<dots> \<longleftrightarrow> (\<exists>n. c \<in> snd ` set (room_of n s))"
  proof (intro ex_cong1)
    fix n
    show "(\<exists>room. map_of (rm_rooms s) n = Some room \<and> c \<in> snd ` set room) \<longleftrightarrow> c \<in> snd ` set (room_of n s)"
      by (cases "map_of (rm_rooms s) n") (simp_all only: room_of_Some room_of_None, simp_all)
  qed
  finally show ?thesis .
qed

lemma set_AllConnections:
  assumes "room_wf s"
  shows "c \<in> set (AllConnections s) \<longleftrightarrow> ConnectionByID (cn_NoteID c) (cn_ID c) s = Some c"
  using AllConnections_rooms [OF assms, of c] room_of_note [OF assms, of c] in_room [OF assms, of c "cn_NoteID c"] by metis

lemma distinct_concat_rooms:
  "gm_wf rs \<Longrightarrow> \<forall>r \<in> set rs. room_keyed (fst r) (snd r) \<Longrightarrow>
     distinct (concat (map (\<lambda>(_, room :: room). map snd room) rs))"
proof (induction rs)
  case (Cons r rs)
  obtain n room where r: "r = (n, room)" by (cases r)
  have same: "cn_NoteID c = n'" if "(n', room') \<in> set (r # rs)" "c \<in> snd ` set room'" for n' room' c
    using that Cons.prems(2) by (force simp: room_keyed_def)
  have "snd ` set room \<inter> set (concat (map (\<lambda>(_, room). map snd room) rs)) = {}"
  proof (rule ccontr)
    assume "\<not> ?thesis"
    then obtain c n' room' where c: "c \<in> snd ` set room" "(n', room') \<in> set rs" "c \<in> snd ` set room'" by auto
    with same [of n room c] same [of n' room' c] r have "n = n'" by simp
    with c(2) Cons.prems(1) r show False by (force simp: image_iff)
  qed
  then show ?case using Cons r room_keyed_distinct [of n room] by auto
qed simp

lemma distinct_AllConnections: "room_wf s \<Longrightarrow> distinct (AllConnections s)"
  using distinct_concat_rooms [of "rm_rooms s"] by (simp add: room_wf_def AllConnections_def)

lemma Peers_filter: "room_wf s \<Longrightarrow> Peers n x s = filter (\<lambda>c. cn_ID c \<noteq> x) (map snd (room_of n s))"
  using room_of_keyed [of s n]
  by (auto simp: Peers_def filter_map comp_def room_keyed_def intro!: arg_cong [of _ _ "map snd"] filter_cong)

interpretation memory_rooms: room_directory room_Join room_Leave ConnectionByID Peers Members AllConnections room_wf
proof (unfold_locales, goal_cases)
  case (3 s n k c)
  then have "(k, c) \<in> set (room_of n s)" by (auto simp: ConnectionByID_def dest!: map_of_in_set)
  with 3(1) show ?case using room_of_keyed [of s n] by (force simp: room_keyed_def)
qed (simp_all add: ConnectionByID_def [symmetric] room_of_Join room_of_Leave Peers_filter in_room Members_def
    set_AllConnections distinct_AllConnections room_wf_Join room_wf_Leave room_keyed_distinct [OF room_of_keyed],
    simp_all add: ConnectionByID_def room_of_Join room_of_Leave)

lemma room_wf_new: "room_wf NewMemoryRoomStore"
  by (simp add: room_wf_def NewMemoryRoomStore_def)

lemma set_ConnectionsForSession:
  "set (ConnectionsForSession sid s) = {c \<in> set (AllConnections s). cn_SessionID c = sid}"
  by (auto simp: ConnectionsForSession_def AllConnections_def)

lemma set_ConnectionsForUserOnNote:
  assumes "room_wf s"
  shows "set (ConnectionsForUserOnNote n u s) = {c \<in> set (AllConnections s). cn_NoteID c = n \<and> cn_UserID c = u}"
proof -
  have "set (ConnectionsForUserOnNote n u s) = {c \<in> set (Members n s). cn_UserID c = u}"
    by (auto simp: ConnectionsForUserOnNote_def Members_def)
  with assms memory_rooms.members_of_room [OF assms] show ?thesis
    by (auto simp: memory_rooms.set_members set_AllConnections)
qed

end
