(* ===== verification/Outbound_Queues.thy ===== *)
theory Outbound_Queues
  imports Domain
begin

text \<open>
  The send-side buffering of a connection (\<open>internal/transport/queues.go\<close>): the bounded reliable
  channel, the coalescing ephemeral queue with its drop counters, the close-once reason and the
  liveness stamps. The reliable queue is shown to be a bounded FIFO through the locale
  \<open>bounded_fifo\<close>; the ephemeral queue, a map and an order slice in the code, is shown to refine a
  list of keyed frames.
\<close>

section \<open>State\<close>

record outbound_queues =
  oq_ephemeral :: "(string, envelope) gomap"
  oq_ephemeralOrder :: "string list"
  oq_maxEphemeral :: nat
  oq_dropped :: nat
  oq_droppedInk :: nat
  oq_reliable :: "envelope list"
  oq_reliableSize :: nat
  oq_reliableInFlight :: int
  oq_wake :: bool
  oq_closed :: bool
  oq_closeReason :: string
  oq_lastActivity :: int
  oq_lastTouch :: int

definition newOutboundQueues :: "nat \<Rightarrow> nat \<Rightarrow> outbound_queues" where
  "newOutboundQueues ephemeralSize reliableSize =
     \<lparr>oq_ephemeral = [], oq_ephemeralOrder = [], oq_maxEphemeral = ephemeralSize, oq_dropped = 0,
      oq_droppedInk = 0, oq_reliable = [], oq_reliableSize = reliableSize, oq_reliableInFlight = 0,
      oq_wake = False, oq_closed = False, oq_closeReason = [], oq_lastActivity = 0, oq_lastTouch = 0\<rparr>"

section \<open>Liveness and closing\<close>

definition markActivity :: "time \<Rightarrow> outbound_queues \<Rightarrow> outbound_queues" where
  "markActivity now q = q\<lparr>oq_lastActivity := wrap64 now\<rparr>"

definition idleFor :: "time \<Rightarrow> outbound_queues \<Rightarrow> duration" where
  "idleFor now q = time_sub now (oq_lastActivity q)"

definition shouldTouch :: "time \<Rightarrow> duration \<Rightarrow> outbound_queues \<Rightarrow> bool \<times> outbound_queues" where
  "shouldTouch now interval q =
     (if wrap64 (wrap64 now - oq_lastTouch q) < interval then (False, q)
      else (True, q\<lparr>oq_lastTouch := wrap64 now\<rparr>))"

definition isClosed :: "outbound_queues \<Rightarrow> bool" where
  "isClosed q = oq_closed q"

definition markClosedWith :: "string \<Rightarrow> outbound_queues \<Rightarrow> outbound_queues" where
  "markClosedWith reason q =
     (if oq_closed q then q else q\<lparr>oq_closeReason := reason, oq_closed := True\<rparr>)"

definition markClosed :: "outbound_queues \<Rightarrow> outbound_queues" where
  "markClosed q = markClosedWith [] q"

definition CloseReason :: "outbound_queues \<Rightarrow> string" where
  "CloseReason q = (if \<not> isClosed q then [] else oq_closeReason q)"

section \<open>The reliable queue\<close>

definition signal :: "outbound_queues \<Rightarrow> outbound_queues" where
  "signal q = q\<lparr>oq_wake := True\<rparr>"

text \<open>True is \<open>errReliableQueueFull\<close>; a closed connection swallows the frame without an error.\<close>

definition pushReliable :: "envelope \<Rightarrow> outbound_queues \<Rightarrow> bool \<times> outbound_queues" where
  "pushReliable e q =
     (if isClosed q then (False, q)
      else if length (oq_reliable q) < oq_reliableSize q
      then (False, signal (q\<lparr>oq_reliable := oq_reliable q @ [e]\<rparr>))
      else (True, q))"

definition takeReliable :: "outbound_queues \<Rightarrow> envelope option \<times> outbound_queues" where
  "takeReliable q = (case oq_reliable q of
     [] \<Rightarrow> (None, q)
   | e # r \<Rightarrow> (Some e, q\<lparr>oq_reliable := r\<rparr>))"

definition PendingReliable :: "outbound_queues \<Rightarrow> int" where
  "PendingReliable q = int (length (oq_reliable q)) + oq_reliableInFlight q"

definition beginReliableWrite :: "outbound_queues \<Rightarrow> outbound_queues" where
  "beginReliableWrite q = q\<lparr>oq_reliableInFlight := oq_reliableInFlight q + 1\<rparr>"

definition endReliableWrite :: "outbound_queues \<Rightarrow> outbound_queues" where
  "endReliableWrite q = q\<lparr>oq_reliableInFlight := oq_reliableInFlight q - 1\<rparr>"

section \<open>The ephemeral queue\<close>

definition countDrop :: "envelope option \<Rightarrow> outbound_queues \<Rightarrow> outbound_queues" where
  "countDrop e q =
     (let q = q\<lparr>oq_dropped := oq_dropped q + 1\<rparr> in
      case e of None \<Rightarrow> q
      | Some e \<Rightarrow> if HasPrefix (en_Event e) ''ink.'' then q\<lparr>oq_droppedInk := oq_droppedInk q + 1\<rparr> else q)"

text \<open>The loop that sheds the oldest streams.\<close>

function shedOldest :: "outbound_queues \<Rightarrow> outbound_queues" where
  "shedOldest q = (case oq_ephemeralOrder q of
     [] \<Rightarrow> q
   | oldest # rest \<Rightarrow>
       if length (oq_ephemeralOrder q) > oq_maxEphemeral q
       then let q = countDrop (map_of (oq_ephemeral q) oldest) (q\<lparr>oq_ephemeralOrder := rest\<rparr>)
         in shedOldest (q\<lparr>oq_ephemeral := gm_del oldest (oq_ephemeral q)\<rparr>)
       else q)"
  by pat_completeness auto

lemma countDrop_simps [simp]:
  "oq_ephemeralOrder (countDrop e q) = oq_ephemeralOrder q" "oq_ephemeral (countDrop e q) = oq_ephemeral q"
  "oq_maxEphemeral (countDrop e q) = oq_maxEphemeral q" "oq_dropped (countDrop e q) = Suc (oq_dropped q)"
  "oq_reliable (countDrop e q) = oq_reliable q" "oq_closed (countDrop e q) = oq_closed q"
  "oq_reliableSize (countDrop e q) = oq_reliableSize q"
  by (auto simp: countDrop_def Let_def split: option.splits)

termination shedOldest
  by (relation "measure (\<lambda>q. length (oq_ephemeralOrder q))") auto

declare shedOldest.simps [simp del]

definition pushEphemeral :: "envelope \<Rightarrow> string \<Rightarrow> outbound_queues \<Rightarrow> outbound_queues" where
  "pushEphemeral e coalesceKey q =
     (if isClosed q then q
      else let
        q = (case map_of (oq_ephemeral q) coalesceKey of
               Some existing \<Rightarrow> countDrop (Some existing) q
             | None \<Rightarrow> q\<lparr>oq_ephemeralOrder := oq_ephemeralOrder q @ [coalesceKey]\<rparr>);
        q = q\<lparr>oq_ephemeral := gm_put coalesceKey e (oq_ephemeral q)\<rparr>
      in shedOldest q)"

definition PendingEphemeral :: "outbound_queues \<Rightarrow> int" where
  "PendingEphemeral q = int (length (oq_ephemeralOrder q))"

definition takeEphemeral :: "outbound_queues \<Rightarrow> envelope option \<times> outbound_queues" where
  "takeEphemeral q = (case oq_ephemeralOrder q of
     [] \<Rightarrow> (None, q)
   | key # rest \<Rightarrow> (map_of (oq_ephemeral q) key,
       q\<lparr>oq_ephemeralOrder := rest, oq_ephemeral := gm_del key (oq_ephemeral q)\<rparr>))"

definition takeEphemeralBatch :: "int \<Rightarrow> outbound_queues \<Rightarrow> envelope list \<times> outbound_queues" where
  "takeEphemeralBatch limit q =
     (if limit \<le> 0 then ([], q)
      else let count = min (nat limit) (length (oq_ephemeralOrder q)) in
        if count = 0 then ([], q)
        else let
          (batch, eph) = fold (\<lambda>key (batch, eph). case map_of eph key of
              None \<Rightarrow> (batch, eph) | Some e \<Rightarrow> (batch @ [e], gm_del key eph))
            (take count (oq_ephemeralOrder q)) ([], oq_ephemeral q)
        in (batch, q\<lparr>oq_ephemeral := eph, oq_ephemeralOrder := drop count (oq_ephemeralOrder q)\<rparr>))"

definition Dropped :: "outbound_queues \<Rightarrow> nat" where
  "Dropped q = oq_dropped q"

definition DroppedInk :: "outbound_queues \<Rightarrow> nat" where
  "DroppedInk q = oq_droppedInk q"

section \<open>The reliable queue is a bounded FIFO\<close>

datatype 'a queue_op = Push 'a | Take

locale bounded_fifo =
  fixes push :: "'a \<Rightarrow> 's \<Rightarrow> bool \<times> 's"
    and pop :: "'s \<Rightarrow> 'a option \<times> 's"
    and contents :: "'s \<Rightarrow> 'a list"
    and accepts :: "'s \<Rightarrow> bool"
    and bound :: "'s \<Rightarrow> nat"
  assumes contents_push: "contents (snd (push x s)) = (if accepts s then contents s @ [x] else contents s)"
    and pop_result: "fst (pop s) = (case contents s of [] \<Rightarrow> None | x # _ \<Rightarrow> Some x)"
    and contents_pop: "contents (snd (pop s)) = tl (contents s)"
    and accepts_bound: "accepts s \<Longrightarrow> length (contents s) < bound s"
    and bound_push: "bound (snd (push x s)) = bound s"
    and bound_pop: "bound (snd (pop s)) = bound s"
begin

text \<open>Run pushes and takes; collect what was accepted and what came out.\<close>

fun run :: "'a queue_op list \<Rightarrow> 's \<Rightarrow> 'a list \<times> 'a list \<times> 's" where
  "run [] s = ([], [], s)"
| "run (Push x # ops) s = (let (a, t, s') = run ops (snd (push x s)) in
     ((if accepts s then x # a else a), t, s'))"
| "run (Take # ops) s = (let (a, t, s') = run ops (snd (pop s)) in
     (a, (case fst (pop s) of None \<Rightarrow> t | Some x \<Rightarrow> x # t), s'))"

lemma run_fifo: "run ops s = (a, t, s') \<Longrightarrow> contents s @ a = t @ contents s'"
proof (induction ops s arbitrary: a t s' rule: run.induct)
  case (1 s)
  then show ?case by simp
next
  case (2 x ops s)
  then obtain a0 where r: "run ops (snd (push x s)) = (a0, t, s')" and a: "a = (if accepts s then x # a0 else a0)"
    by (auto simp: Let_def split: prod.splits)
  from "2.IH" [OF r] a show ?case by (simp add: contents_push split: if_splits)
next
  case (3 ops s)
  then obtain t0 where r: "run ops (snd (pop s)) = (a, t0, s')"
    and t: "t = (case fst (pop s) of None \<Rightarrow> t0 | Some x \<Rightarrow> x # t0)"
    by (auto simp: Let_def split: prod.splits)
  from "3.IH" [OF r] t show ?case by (cases "contents s") (simp_all add: contents_pop pop_result)
qed

lemma run_bounded:
  "length (contents s) \<le> bound s \<Longrightarrow> run ops s = (a, t, s') \<Longrightarrow> length (contents s') \<le> bound s' \<and> bound s' = bound s"
proof (induction ops s arbitrary: a t s' rule: run.induct)
  case (2 x ops s)
  obtain a0 where r: "run ops (snd (push x s)) = (a0, t, s')"
    using "2.prems"(2) by (auto simp: Let_def split: prod.splits)
  have "length (contents (snd (push x s))) \<le> bound (snd (push x s))"
    using "2.prems"(1) accepts_bound [of s] by (simp add: contents_push bound_push Suc_leI)
  from "2.IH" [OF this r] show ?case by (simp add: bound_push)
next
  case (3 ops s)
  obtain t0 where r: "run ops (snd (pop s)) = (a, t0, s')"
    using "3.prems"(2) by (auto simp: Let_def split: prod.splits)
  have "length (contents (snd (pop s))) \<le> bound (snd (pop s))"
    using "3.prems"(1) by (simp add: contents_pop bound_pop)
  from "3.IH" [OF this r] show ?case by (simp add: bound_pop)
qed auto

end

definition accepts_reliable :: "outbound_queues \<Rightarrow> bool" where
  "accepts_reliable q \<longleftrightarrow> \<not> isClosed q \<and> length (oq_reliable q) < oq_reliableSize q"

interpretation reliable: bounded_fifo pushReliable takeReliable oq_reliable accepts_reliable oq_reliableSize
  by unfold_locales
    (auto simp: pushReliable_def takeReliable_def accepts_reliable_def signal_def split: list.splits)

section \<open>The ephemeral queue refines a list of keyed frames\<close>

definition eph_wf :: "outbound_queues \<Rightarrow> bool" where
  "eph_wf q \<longleftrightarrow> distinct (oq_ephemeralOrder q) \<and> gm_wf (oq_ephemeral q) \<and>
     (\<forall>k. map_of (oq_ephemeral q) k \<noteq> None \<longleftrightarrow> k \<in> set (oq_ephemeralOrder q)) \<and>
     length (oq_ephemeralOrder q) \<le> oq_maxEphemeral q"

definition eph_abs :: "outbound_queues \<Rightarrow> (string \<times> envelope) list" where
  "eph_abs q = map (\<lambda>k. (k, the (map_of (oq_ephemeral q) k))) (oq_ephemeralOrder q)"

text \<open>The specification: replace in place or append, then keep the newest \<open>n\<close> streams.\<close>

definition put_stream :: "string \<Rightarrow> envelope \<Rightarrow> (string \<times> envelope) list \<Rightarrow> (string \<times> envelope) list" where
  "put_stream k e xs = (if k \<in> fst ` set xs then map (\<lambda>(k', e'). if k' = k then (k, e) else (k', e')) xs
     else xs @ [(k, e)])"

definition spec_push :: "nat \<Rightarrow> string \<Rightarrow> envelope \<Rightarrow> (string \<times> envelope) list \<Rightarrow> (string \<times> envelope) list" where
  "spec_push n k e xs = (let ys = put_stream k e xs in drop (length ys - n) ys)"

text \<open>The state between the insertion and the shedding, which may exceed the bound.\<close>

definition eph_keys_ok :: "outbound_queues \<Rightarrow> bool" where
  "eph_keys_ok q \<longleftrightarrow> distinct (oq_ephemeralOrder q) \<and> gm_wf (oq_ephemeral q) \<and>
     (\<forall>k. map_of (oq_ephemeral q) k \<noteq> None \<longleftrightarrow> k \<in> set (oq_ephemeralOrder q))"

lemma shedOldest_refines:
  assumes "eph_keys_ok q"
  shows "eph_abs (shedOldest q) = drop (length (eph_abs q) - oq_maxEphemeral q) (eph_abs q) \<and> eph_wf (shedOldest q) \<and>
    oq_dropped (shedOldest q) + length (oq_ephemeralOrder (shedOldest q)) = oq_dropped q + length (oq_ephemeralOrder q) \<and>
    oq_maxEphemeral (shedOldest q) = oq_maxEphemeral q \<and> oq_closed (shedOldest q) = oq_closed q \<and>
    oq_reliable (shedOldest q) = oq_reliable q \<and> oq_reliableSize (shedOldest q) = oq_reliableSize q"
  using assms
proof (induction q rule: shedOldest.induct)
  case (1 q)
  show ?case
  proof (cases "length (oq_ephemeralOrder q) > oq_maxEphemeral q")
    case False
    then have "shedOldest q = q" by (cases "oq_ephemeralOrder q") (simp_all add: shedOldest.simps [of q])
    with False "1.prems" show ?thesis
      by (simp add: eph_wf_def eph_keys_ok_def eph_abs_def del: map_of_eq_Some_iff)
  next
    case True
    then obtain k ks where o: "oq_ephemeralOrder q = k # ks" by (cases "oq_ephemeralOrder q") auto
    define q1 where "q1 = countDrop (map_of (oq_ephemeral q) k) (q\<lparr>oq_ephemeralOrder := ks\<rparr>)"
    define q2 where "q2 = q1\<lparr>oq_ephemeral := gm_del k (oq_ephemeral q1)\<rparr>"
    have sh: "shedOldest q = shedOldest q2"
      using True o by (simp add: shedOldest.simps [of q] q1_def q2_def Let_def)
    have q2: "oq_ephemeralOrder q2 = ks" "oq_ephemeral q2 = gm_del k (oq_ephemeral q)"
      "oq_maxEphemeral q2 = oq_maxEphemeral q" "oq_dropped q2 = Suc (oq_dropped q)" "oq_closed q2 = oq_closed q"
      "oq_reliable q2 = oq_reliable q" "oq_reliableSize q2 = oq_reliableSize q"
      by (simp_all add: q2_def q1_def)
    have k: "k \<notin> set ks" "distinct ks" using "1.prems" o by (auto simp: eph_keys_ok_def)
    have ok: "eph_keys_ok q2"
      using "1.prems" o k unfolding eph_keys_ok_def q2 by (auto simp del: map_of_eq_Some_iff)
    have ab: "eph_abs q2 = tl (eph_abs q)" using k by (auto simp: eph_abs_def q2 o)
    have len: "length (eph_abs q) = Suc (length ks)" by (simp add: eph_abs_def o)
    have "drop (length (eph_abs q2) - oq_maxEphemeral q2) (eph_abs q2) =
        drop (length (eph_abs q) - oq_maxEphemeral q) (eph_abs q)"
      using True o len by (simp add: ab q2 Suc_diff_le drop_Suc)
    with "1.IH" [OF o True q1_def] ok show ?thesis
      unfolding sh q2_def [symmetric] by (simp add: q2 o)
  qed
qed

lemma pushEphemeral_refines:
  assumes wf: "eph_wf q" and opened: "\<not> isClosed q"
  shows "eph_abs (pushEphemeral e k q) = spec_push (oq_maxEphemeral q) k e (eph_abs q)"
    and "eph_wf (pushEphemeral e k q)"
    and "oq_dropped (pushEphemeral e k q) + length (oq_ephemeralOrder (pushEphemeral e k q)) =
      oq_dropped q + length (oq_ephemeralOrder q) + 1"
    and "oq_maxEphemeral (pushEphemeral e k q) = oq_maxEphemeral q"
    and "oq_closed (pushEphemeral e k q) = oq_closed q"
proof -
  define q1 where "q1 = (case map_of (oq_ephemeral q) k of Some existing \<Rightarrow> countDrop (Some existing) q
      | None \<Rightarrow> q\<lparr>oq_ephemeralOrder := oq_ephemeralOrder q @ [k]\<rparr>)"
  define q2 where "q2 = q1\<lparr>oq_ephemeral := gm_put k e (oq_ephemeral q1)\<rparr>"
  have p: "pushEphemeral e k q = shedOldest q2"
    using opened by (simp add: pushEphemeral_def q2_def q1_def Let_def)
  have mem: "map_of (oq_ephemeral q) k \<noteq> None \<longleftrightarrow> k \<in> set (oq_ephemeralOrder q)"
    using wf unfolding eph_wf_def by blast
  have q2: "oq_ephemeral q2 = gm_put k e (oq_ephemeral q)" "oq_maxEphemeral q2 = oq_maxEphemeral q"
    "oq_closed q2 = oq_closed q"
    "oq_ephemeralOrder q2 = (if k \<in> set (oq_ephemeralOrder q) then oq_ephemeralOrder q else oq_ephemeralOrder q @ [k])"
    "oq_dropped q2 = (if k \<in> set (oq_ephemeralOrder q) then Suc (oq_dropped q) else oq_dropped q)"
    using mem by (auto simp: q2_def q1_def split: option.splits)
  have ok: "eph_keys_ok q2"
    using wf mem unfolding eph_keys_ok_def eph_wf_def q2 by (auto simp del: map_of_eq_Some_iff)
  have ab: "eph_abs q2 = put_stream k e (eph_abs q)"
    using mem by (auto simp: eph_abs_def put_stream_def q2 image_image)
  note s = shedOldest_refines [OF ok]
  show "eph_abs (pushEphemeral e k q) = spec_push (oq_maxEphemeral q) k e (eph_abs q)"
    "eph_wf (pushEphemeral e k q)" "oq_maxEphemeral (pushEphemeral e k q) = oq_maxEphemeral q"
    "oq_closed (pushEphemeral e k q) = oq_closed q"
    using s by (simp_all add: p ab spec_push_def Let_def q2)
  show "oq_dropped (pushEphemeral e k q) + length (oq_ephemeralOrder (pushEphemeral e k q)) =
      oq_dropped q + length (oq_ephemeralOrder q) + 1"
    using s by (simp add: p q2)
qed

lemma takeEphemeral_refines:
  assumes wf: "eph_wf q"
  shows "fst (takeEphemeral q) = (case eph_abs q of [] \<Rightarrow> None | (k, e) # _ \<Rightarrow> Some e)"
    and "eph_abs (snd (takeEphemeral q)) = tl (eph_abs q)"
    and "eph_wf (snd (takeEphemeral q))"
    and "oq_dropped (snd (takeEphemeral q)) = oq_dropped q"
proof -
  show "oq_dropped (snd (takeEphemeral q)) = oq_dropped q"
    by (simp add: takeEphemeral_def split: list.split)
  have "fst (takeEphemeral q) = (case eph_abs q of [] \<Rightarrow> None | (k, e) # _ \<Rightarrow> Some e) \<and>
    eph_abs (snd (takeEphemeral q)) = tl (eph_abs q) \<and> eph_wf (snd (takeEphemeral q))"
  proof (cases "oq_ephemeralOrder q")
    case Nil
    then show ?thesis using wf by (simp add: takeEphemeral_def eph_abs_def)
  next
    case (Cons k ks)
    then have k: "k \<notin> set ks" "distinct ks" and "map_of (oq_ephemeral q) k \<noteq> None"
      using wf unfolding eph_wf_def by auto
    then obtain e where e: "map_of (oq_ephemeral q) k = Some e" by blast
    have "eph_abs (snd (takeEphemeral q)) = tl (eph_abs q)"
      using Cons k by (auto simp: takeEphemeral_def eph_abs_def)
    moreover have "eph_wf (snd (takeEphemeral q))"
      using wf Cons k unfolding eph_wf_def by (auto simp: takeEphemeral_def simp del: map_of_eq_Some_iff)
    ultimately show ?thesis using Cons e by (simp add: takeEphemeral_def eph_abs_def)
  qed
  then show "fst (takeEphemeral q) = (case eph_abs q of [] \<Rightarrow> None | (k, e) # _ \<Rightarrow> Some e)"
    "eph_abs (snd (takeEphemeral q)) = tl (eph_abs q)" "eph_wf (snd (takeEphemeral q))" by simp_all
qed

lemma batch_fold:
  assumes "distinct ks" "\<forall>k \<in> set ks. map_of eph k \<noteq> None"
  shows "fold (\<lambda>key (batch, eph). case map_of eph key of
      None \<Rightarrow> (batch, eph) | Some e \<Rightarrow> (batch @ [e], gm_del key eph)) ks (batch, eph) =
    (batch @ map (\<lambda>k. the (map_of eph k)) ks, fold gm_del ks eph)"
  using assms
proof (induction ks arbitrary: batch eph)
  case (Cons k ks)
  from Cons.prems obtain e where e: "map_of eph k = Some e" by auto
  have m: "map (\<lambda>k'. the (map_of (gm_del k eph) k')) ks = map (\<lambda>k'. the (map_of eph k')) ks"
    using Cons.prems(1) by (auto intro: map_cong)
  have "distinct ks" "\<forall>k' \<in> set ks. map_of (gm_del k eph) k' \<noteq> None" using Cons.prems by auto
  from Cons.IH [OF this, of "batch @ [e]"] e show ?case unfolding m by simp
qed simp

lemma map_of_fold_gm_del: "map_of (fold gm_del ks m) x = (if x \<in> set ks then None else map_of m x)"
  by (induction ks arbitrary: m) auto

lemma gm_wf_fold_gm_del: "gm_wf m \<Longrightarrow> gm_wf (fold gm_del ks m)"
  by (induction ks arbitrary: m) auto

lemma takeEphemeralBatch_refines:
  assumes wf: "eph_wf q" and pos: "0 < limit"
  shows "fst (takeEphemeralBatch limit q) = map snd (take (nat limit) (eph_abs q))"
    and "eph_abs (snd (takeEphemeralBatch limit q)) = drop (nat limit) (eph_abs q)"
    and "eph_wf (snd (takeEphemeralBatch limit q))"
    and "oq_dropped (snd (takeEphemeralBatch limit q)) = oq_dropped q"
proof -
  let ?o = "oq_ephemeralOrder q" and ?n = "min (nat limit) (length (oq_ephemeralOrder q))"
  have d: "distinct ?o" "\<forall>k \<in> set ?o. map_of (oq_ephemeral q) k \<noteq> None" using wf unfolding eph_wf_def by auto
  have "takeEphemeralBatch limit q = (map (\<lambda>k. the (map_of (oq_ephemeral q) k)) (take ?n ?o),
      q\<lparr>oq_ephemeral := fold gm_del (take ?n ?o) (oq_ephemeral q), oq_ephemeralOrder := drop ?n ?o\<rparr>)"
  proof (cases "?n = 0")
    case True
    then have "nat limit = 0 \<or> length ?o = 0" by (auto simp only: min_def split: if_splits)
    then have "?o = []" using pos by simp
    then show ?thesis using pos by (simp add: takeEphemeralBatch_def)
  next
    case False
    have "distinct (take ?n ?o)" "\<forall>k \<in> set (take ?n ?o). map_of (oq_ephemeral q) k \<noteq> None"
      using d by (auto dest: in_set_takeD)
    from batch_fold [OF this, of "[]"] False pos show ?thesis
      by (simp add: takeEphemeralBatch_def Let_def case_prod_unfold)
  qed
  moreover have "take ?n ?o = take (nat limit) ?o" "drop ?n ?o = drop (nat limit) ?o"
    by (simp_all add: min_def)
  ultimately have b: "takeEphemeralBatch limit q = (map (\<lambda>k. the (map_of (oq_ephemeral q) k)) (take (nat limit) ?o),
      q\<lparr>oq_ephemeral := fold gm_del (take (nat limit) ?o) (oq_ephemeral q), oq_ephemeralOrder := drop (nat limit) ?o\<rparr>)"
    by simp
  have disj: "set (take (nat limit) ?o) \<inter> set (drop (nat limit) ?o) = {}"
    using d(1) by (simp add: set_take_disj_set_drop_if_distinct)
  show "fst (takeEphemeralBatch limit q) = map snd (take (nat limit) (eph_abs q))"
    by (simp add: b eph_abs_def take_map comp_def)
  show "eph_abs (snd (takeEphemeralBatch limit q)) = drop (nat limit) (eph_abs q)"
    using disj by (auto simp: b eph_abs_def drop_map map_of_fold_gm_del)
  have un: "set ?o = set (take (nat limit) ?o) \<union> set (drop (nat limit) ?o)"
    by (metis append_take_drop_id set_append)
  show "eph_wf (snd (takeEphemeralBatch limit q))"
    using wf un disj unfolding eph_wf_def b
    by (auto simp: map_of_fold_gm_del gm_wf_fold_gm_del simp del: map_of_eq_Some_iff)
  show "oq_dropped (snd (takeEphemeralBatch limit q)) = oq_dropped q" by (simp add: b)
qed

text \<open>The newest frame of every stream survives in the queue, and only the newest.\<close>

lemma put_stream_newest: "distinct (map fst xs) \<Longrightarrow> map_of (put_stream k e xs) k = Some e"
proof -
  assume "distinct (map fst xs)"
  have "k \<in> fst ` set xs \<Longrightarrow> map_of (map (\<lambda>(k', e'). if k' = k then (k, e) else (k', e')) xs) k = Some e"
    by (induction xs) auto
  moreover have "k \<notin> fst ` set xs \<Longrightarrow> map_of (xs @ [(k, e)]) k = Some e"
    by (auto simp: map_add_def dom_map_of_conv_image_fst [symmetric] split: option.splits)
  ultimately show ?thesis by (auto simp: put_stream_def)
qed

section \<open>Properties\<close>

text \<open>
  The reliable queue loses, repeats and reorders nothing it accepted: over any sequence of pushes
  and takes, what was in the queue followed by what it accepted is what came out followed by what is
  still queued, and the queue never holds more than its size.
\<close>

theorem reliable_queue_fifo:
  assumes "reliable.run ops q = (accepted, out, q')" and "length (oq_reliable q) \<le> oq_reliableSize q"
  shows "oq_reliable q @ accepted = out @ oq_reliable q' \<and> length (oq_reliable q') \<le> oq_reliableSize q"
  using reliable.run_fifo [OF assms(1)] reliable.run_bounded [OF assms(2,1)] by simp

theorem reliable_queue_fifo_witness:
  "let (accepted, out, q') = reliable.run [Push envelope_zero, Take] (newOutboundQueues 4 4)
   in accepted = out @ oq_reliable q'"
proof -
  obtain accepted out q' where r: "reliable.run [Push envelope_zero, Take] (newOutboundQueues 4 4) = (accepted, out, q')"
    by (metis prod_cases3)
  from reliable_queue_fifo [OF r] r show ?thesis by (simp add: newOutboundQueues_def)
qed


lemma eph_wf_new: "eph_wf (newOutboundQueues n m)"
  by (simp add: eph_wf_def newOutboundQueues_def)


text \<open>
  A flush delivers the queued frames in order: a batch is exactly the newest frames of the oldest
  streams, the rest stays queued unchanged, and nothing is counted as dropped.
\<close>

theorem ephemeral_batch_in_order:
  assumes "eph_wf q" and "0 < limit"
  shows "fst (takeEphemeralBatch limit q) = map snd (take (nat limit) (eph_abs q)) \<and>
    eph_abs (snd (takeEphemeralBatch limit q)) = drop (nat limit) (eph_abs q) \<and>
    Dropped (snd (takeEphemeralBatch limit q)) = Dropped q \<and> eph_wf (snd (takeEphemeralBatch limit q))"
  using takeEphemeralBatch_refines [OF assms] by (simp add: Dropped_def)

theorem ephemeral_batch_in_order_witness:
  "fst (takeEphemeralBatch 64 (pushEphemeral envelope_zero ''k'' (newOutboundQueues 2 2))) = [envelope_zero]"
proof -
  have wf: "eph_wf (pushEphemeral envelope_zero ''k'' (newOutboundQueues 2 2))"
    using pushEphemeral_refines(2) [OF eph_wf_new] by (simp add: isClosed_def newOutboundQueues_def)
  have "eph_abs (pushEphemeral envelope_zero ''k'' (newOutboundQueues 2 2)) = [(''k'', envelope_zero)]"
    using pushEphemeral_refines(1) [OF eph_wf_new, of 2 2 envelope_zero "''k''"]
    by (simp add: isClosed_def newOutboundQueues_def spec_push_def put_stream_def eph_abs_def)
  with ephemeral_batch_in_order [OF wf, of 64] show ?thesis by simp
qed

end
