(* ===== verification/Sha256.thy ===== *)
theory Sha256
  imports Prelude
begin

text \<open>
  The hash of the standard library that the request signatures use: SHA-256 and HMAC over it, as
  \<open>crypto/sha256\<close> and \<open>crypto/hmac\<close> compute them, with the lower-case hexadecimal text of
  \<open>hex.EncodeToString\<close>. The properties of the signatures that follow use the shape of the text only;
  nothing is assumed about collisions.
\<close>

unbundle bit_operations_syntax

type_synonym w32 = "32 word"

text \<open>The first 32 bits of the fractional parts of the cube roots of the first 64 primes.\<close>

definition sha_k :: "w32 list" where
  "sha_k = [1116352408, 1899447441, 3049323471, 3921009573, 961987163, 1508970993, 2453635748, 2870763221,
     3624381080, 310598401, 607225278, 1426881987, 1925078388, 2162078206, 2614888103, 3248222580,
     3835390401, 4022224774, 264347078, 604807628, 770255983, 1249150122, 1555081692, 1996064986,
     2554220882, 2821834349, 2952996808, 3210313671, 3336571891, 3584528711, 113926993, 338241895,
     666307205, 773529912, 1294757372, 1396182291, 1695183700, 1986661051, 2177026350, 2456956037,
     2730485921, 2820302411, 3259730800, 3345764771, 3516065817, 3600352804, 4094571909, 275423344,
     430227734, 506948616, 659060556, 883997877, 958139571, 1322822218, 1537002063, 1747873779,
     1955562222, 2024104815, 2227730452, 2361852424, 2428436474, 2756734187, 3204031479, 3329325298]"

definition sha_init :: "w32 list" where
  "sha_init = [0x6a09e667, 0xbb67ae85, 0x3c6ef372, 0xa54ff53a, 0x510e527f, 0x9b05688c,
     0x1f83d9ab, 0x5be0cd19]"

definition rotr :: "nat \<Rightarrow> w32 \<Rightarrow> w32" where
  "rotr n x = drop_bit n x OR push_bit (32 - n) x"

text \<open>The message schedule: sixteen words of the block, extended to sixty-four.\<close>

fun sha_extend :: "nat \<Rightarrow> w32 list \<Rightarrow> w32 list" where
  "sha_extend 0 ws = ws"
| "sha_extend (Suc n) ws =
     (let i = length ws; a = ws ! (i - 15); b = ws ! (i - 2);
          s0 = rotr 7 a XOR rotr 18 a XOR drop_bit 3 a;
          s1 = rotr 17 b XOR rotr 19 b XOR drop_bit 10 b
      in sha_extend n (ws @ [ws ! (i - 16) + s0 + ws ! (i - 7) + s1]))"

fun sha_round :: "w32 \<times> w32 \<Rightarrow> w32 list \<Rightarrow> w32 list" where
  "sha_round (k, w) [a, b, c, d, e, f, g, h] =
     (let s1 = rotr 6 e XOR rotr 11 e XOR rotr 25 e;
          ch = (e AND f) XOR ((NOT e) AND g);
          t1 = h + s1 + ch + k + w;
          s0 = rotr 2 a XOR rotr 13 a XOR rotr 22 a;
          maj = (a AND b) XOR (a AND c) XOR (b AND c);
          t2 = s0 + maj
      in [t1 + t2, a, b, c, d + t1, e, f, g])"
| "sha_round _ st = st"

definition sha_block :: "w32 list \<Rightarrow> w32 list \<Rightarrow> w32 list" where
  "sha_block block st = map2 (+) st (fold sha_round (zip sha_k (sha_extend 48 block)) st)"

fun words_of :: "bytes \<Rightarrow> w32 list" where
  "words_of (a # b # c # d # r) =
     word_of_int (((uint a * 256 + uint b) * 256 + uint c) * 256 + uint d) # words_of r"
| "words_of _ = []"

definition bytes_of :: "w32 \<Rightarrow> bytes" where
  "bytes_of w = map (\<lambda>n. word_of_int (uint (drop_bit n w))) [24, 16, 8, 0]"

text \<open>Padding: a one bit, zeros, and the length in bits as a 64-bit big-endian number.\<close>

definition sha_pad :: "bytes \<Rightarrow> bytes" where
  "sha_pad msg = (let n = length msg; z = (119 - n mod 64) mod 64 in
     msg @ [0x80] @ replicate z 0 @ map (\<lambda>i. word_of_int (int (8 * n) div 256 ^ i)) [7, 6, 5, 4, 3, 2, 1, 0])"

fun chunks16 :: "nat \<Rightarrow> w32 list \<Rightarrow> w32 list list" where
  "chunks16 0 ws = []"
| "chunks16 (Suc n) ws = take 16 ws # chunks16 n (drop 16 ws)"

definition sha256 :: "bytes \<Rightarrow> bytes" where
  "sha256 msg = (let ws = words_of (sha_pad msg) in
     concat (map bytes_of (fold sha_block (chunks16 (length ws div 16) ws) sha_init)))"

definition hmac_sha256 :: "bytes \<Rightarrow> bytes \<Rightarrow> bytes" where
  "hmac_sha256 key msg =
     (let k = (if length key > 64 then sha256 key else key);
          k = k @ replicate (64 - length k) 0
      in sha256 (map (\<lambda>b. b XOR 0x5c) k @ sha256 (map (\<lambda>b. b XOR 0x36) k @ msg)))"

definition hex_digit :: "nat \<Rightarrow> char" where
  "hex_digit n = ''0123456789abcdef'' ! (n mod 16)"

definition hex_encode :: "bytes \<Rightarrow> string" where
  "hex_encode bs = concat (map (\<lambda>b. [hex_digit (unat b div 16), hex_digit (unat b)]) bs)"

text \<open>\<open>[]byte(s)\<close> of a Go string.\<close>

definition to_bytes :: "string \<Rightarrow> bytes" where
  "to_bytes s = map of_char s"

text \<open>The digest has thirty-two bytes, its text sixty-four characters.\<close>

lemma length_sha_round [simp]: "length (sha_round kw st) = length st"
  by (cases "(kw, st)" rule: sha_round.cases) (simp_all add: Let_def)

lemma length_sha_rounds [simp]: "length (fold sha_round kws st) = length st"
  by (induction kws arbitrary: st) simp_all

lemma length_sha_blocks: "length (fold sha_block bs st) = length st"
  by (induction bs arbitrary: st) (simp_all add: sha_block_def)

lemma length_sha256 [simp]: "length (sha256 msg) = 32"
proof -
  have "length (concat (map bytes_of ws)) = 4 * length ws" for ws
    by (induction ws) (simp_all add: bytes_of_def)
  then show ?thesis by (simp add: sha256_def Let_def length_sha_blocks) (simp add: sha_init_def)
qed

lemma length_hex_encode [simp]: "length (hex_encode bs) = 2 * length bs"
  by (induction bs) (simp_all add: hex_encode_def)

lemma length_hmac [simp]: "length (hmac_sha256 key msg) = 32"
  by (simp add: hmac_sha256_def Let_def)

lemma hex_digit_range: "hex_digit n \<in> set ''0123456789abcdef''"
proof -
  have "n mod 16 < length ''0123456789abcdef''" by simp
  then show ?thesis unfolding hex_digit_def by (rule nth_mem)
qed

lemma hex_encode_range: "set (hex_encode bs) \<subseteq> set ''0123456789abcdef''"
proof
  fix x
  assume "x \<in> set (hex_encode bs)"
  then obtain n where "x = hex_digit n" by (auto simp: hex_encode_def)
  then show "x \<in> set ''0123456789abcdef''" using hex_digit_range by (simp only:)
qed

lemma hex_encode_newline: "CHR 0x0A \<notin> set (hex_encode bs)"
proof -
  have "CHR 0x0A \<notin> set ''0123456789abcdef''" by simp
  then show ?thesis using hex_encode_range by blast
qed

end
