(* ===== verification/Codec_Wire.thy ===== *)
theory Codec_Wire
  imports Domain Sha256
begin

text \<open>
  The primitive wire formats of the binary codec (\<open>internal/codec/binary_ephemeral_codec.go\<close>): the
  methods of \<open>writer\<close> as functions to bytes, the methods of \<open>reader\<close> as functions that take the
  remaining bytes and return the value and what is left, or nothing where the code reports a
  malformed frame. The locale \<open>wire_format\<close> states what makes a pair of writer and reader correct,
  derives what follows from it, and is interpreted for every primitive.
\<close>

unbundle bit_operations_syntax

type_synonym 'a reader = "bytes \<Rightarrow> ('a \<times> bytes) option"
type_synonym i32 = "32 word"
type_synonym u32 = "32 word"
type_synonym u64 = "64 word"

definition from_bytes :: "bytes \<Rightarrow> string" where
  "from_bytes bs = map (\<lambda>b. char_of (unat b)) bs"

section \<open>Writers\<close>

definition w_u8 :: "byte \<Rightarrow> bytes" where
  "w_u8 v = [v]"

definition le_bytes :: "nat \<Rightarrow> 'a::len word \<Rightarrow> bytes" where
  "le_bytes n v = map (\<lambda>i. ucast (drop_bit (8 * i) v)) [0..<n]"

definition w_u64 :: "u64 \<Rightarrow> bytes" where
  "w_u64 v = le_bytes 8 v"

function w_varint :: "u32 \<Rightarrow> bytes" where
  "w_varint v = (let b = (ucast (v AND 0x7f) :: byte); v' = drop_bit 7 v in
     if v' = 0 then [b] else (b OR 0x80) # w_varint v')"
  by pat_completeness auto
termination
proof (relation "measure unat")
  fix v b :: "32 word" and x xa
  assume "x = ucast (v AND 0x7f)" "xa = drop_bit 7 v" "xa \<noteq> 0"
  then have "unat xa = unat v div 128" by (simp add: drop_bit_eq_div unat_div)
  moreover have "unat xa \<noteq> 0" using \<open>xa \<noteq> 0\<close> by (simp add: unat_eq_0)
  ultimately show "(xa, v) \<in> measure unat" by (cases "unat v = 0") auto
qed simp

declare w_varint.simps [simp del]

definition w_svarint :: "i32 \<Rightarrow> bytes" where
  "w_svarint v = w_varint (push_bit 1 v XOR signed_drop_bit 31 v)"

definition w_string :: "string \<Rightarrow> bytes" where
  "w_string s = w_varint (word_of_nat (length s)) @ to_bytes s"

definition w_optionalString :: "string option \<Rightarrow> bytes" where
  "w_optionalString v = (case v of None \<Rightarrow> w_u8 0 | Some s \<Rightarrow> w_u8 1 @ w_string s)"

section \<open>Readers\<close>

definition r_u8 :: "byte reader" where
  "r_u8 bs = (case bs of [] \<Rightarrow> None | b # r \<Rightarrow> Some (b, r))"

definition le_value :: "bytes \<Rightarrow> 'a::len word" where
  "le_value bs = foldr (\<lambda>b v. ucast b OR push_bit 8 v) bs 0"

definition r_u64 :: "u64 reader" where
  "r_u64 bs = (if length bs < 8 then None else Some (le_value (take 8 bs), drop 8 bs))"

text \<open>The loop over at most five bytes: the iterations left, the index and the result so far.\<close>

fun r_varint_loop :: "nat \<Rightarrow> nat \<Rightarrow> u32 \<Rightarrow> u32 reader" where
  "r_varint_loop 0 index acc bs = None"
| "r_varint_loop (Suc n) index acc bs = (case r_u8 bs of
     None \<Rightarrow> None
   | Some (v, r) \<Rightarrow>
       if index = 4 \<and> v AND 0xf0 \<noteq> 0 then None
       else let acc' = acc OR push_bit (7 * index) (ucast (v AND 0x7f)) in
         if v AND 0x80 = 0 then Some (acc', r) else r_varint_loop n (Suc index) acc' r)"

definition r_varint :: "u32 reader" where
  "r_varint = r_varint_loop 5 0 0"

definition r_svarint :: "i32 reader" where
  "r_svarint bs = (case r_varint bs of
     None \<Rightarrow> None
   | Some (v, r) \<Rightarrow> Some (drop_bit 1 v XOR (- (v AND 1)), r))"

definition r_string :: "string reader" where
  "r_string bs = (case r_varint bs of
     None \<Rightarrow> None
   | Some (n, r) \<Rightarrow> if length r < unat n then None
       else Some (from_bytes (take (unat n) r), drop (unat n) r))"

text \<open>The presence byte and string that \<open>DecodeRelayMetadata\<close> reads back.\<close>

definition r_optionalString :: "string option reader" where
  "r_optionalString bs = (case r_u8 bs of
     None \<Rightarrow> None
   | Some (present, r) \<Rightarrow>
       if present > 1 then None
       else if present = 1 then map_option (map_prod Some id) (r_string r)
       else Some (None, r))"

section \<open>What makes a wire format correct\<close>

locale wire_format =
  fixes enc :: "'a \<Rightarrow> bytes"
    and dec :: "'a reader"
    and valid :: "'a \<Rightarrow> bool"
  assumes dec_enc: "valid x \<Longrightarrow> dec (enc x @ rest) = Some (x, rest)"
begin

lemma dec_enc_exact: "valid x \<Longrightarrow> dec (enc x) = Some (x, [])"
  using dec_enc [of x "[]"] by simp

text \<open>No encoding is a proper prefix of another, so values written one after the other separate.\<close>

lemma enc_prefix_free: "valid x \<Longrightarrow> valid y \<Longrightarrow> enc x @ r = enc y @ s \<Longrightarrow> x = y \<and> r = s"
  by (metis dec_enc option.inject prod.inject)

lemma enc_inj: "valid x \<Longrightarrow> valid y \<Longrightarrow> enc x = enc y \<Longrightarrow> x = y"
  using enc_prefix_free [of x y "[]" "[]"] by simp

end

text \<open>A list of values with a known length, written one after the other.\<close>

fun w_many :: "('a \<Rightarrow> bytes) \<Rightarrow> 'a list \<Rightarrow> bytes" where
  "w_many enc [] = []"
| "w_many enc (x # xs) = enc x @ w_many enc xs"

fun r_many :: "'a reader \<Rightarrow> nat \<Rightarrow> 'a list reader" where
  "r_many dec 0 bs = Some ([], bs)"
| "r_many dec (Suc n) bs = (case dec bs of
     None \<Rightarrow> None
   | Some (x, r) \<Rightarrow> map_option (map_prod (Cons x) id) (r_many dec n r))"

context wire_format
begin

lemma r_many_w_many:
  "\<forall>x \<in> set xs. valid x \<Longrightarrow> r_many dec (length xs) (w_many enc xs @ rest) = Some (xs, rest)"
  by (induction xs) (auto simp: dec_enc)

end

lemma length_r_many: "r_many dec n bs = Some (xs, r) \<Longrightarrow> length xs = n"
  by (induction n arbitrary: bs xs r) (auto split: option.splits)

section \<open>Variable-length integers\<close>

lemma mask7: "(0x7f :: 'a::len word) = mask 7" "(0x80 :: 'a::len word) = 2 ^ 7" "(0xf0 :: byte) = push_bit 4 (mask 4)"
  by (simp_all add: mask_eq_exp_minus_1)

lemma bit_0x80: "bit (0x80 :: 'a::len word) n \<longleftrightarrow> n = 7 \<and> 7 < LENGTH('a)"
proof -
  have "(0x80 :: 'a word) = push_bit 7 1" by simp
  then show ?thesis by (simp only: bit_push_bit_iff bit_1_iff) (auto simp: bit_simps dest: bit_imp_le_length)
qed

lemma continuation_bit:
  fixes v :: u32
  defines "b \<equiv> (ucast (v AND 0x7f) :: byte)"
  shows "b AND 0x80 = 0" "(b OR 0x80) AND 0x80 \<noteq> 0" "(b OR 0x80) AND 0x7f = b" "b AND 0x7f = b"
    "ucast b = v AND (0x7f :: u32)"
proof -
  show "b AND 0x80 = 0" unfolding mask7(2) and_exp_eq_0_iff_not_bit b_def mask7(1) by (simp add: bit_simps)
  show "(b OR 0x80) AND 0x80 \<noteq> 0" unfolding mask7(2) and_exp_eq_0_iff_not_bit by (simp add: bit_simps)
  have "bit b n \<Longrightarrow> n < 7" for n unfolding b_def mask7 by (auto simp: bit_simps)
  then show "(b OR 0x80) AND 0x7f = b" unfolding mask7(1)
    by (intro bit_word_eqI) (auto simp only: bit_and_iff bit_or_iff bit_0x80 bit_mask_iff
        possible_bit_word)
  show "b AND 0x7f = b" unfolding mask7 b_def by (rule bit_word_eqI) (auto simp: bit_simps)
  show "ucast b = v AND (0x7f :: u32)" unfolding mask7 b_def by (rule bit_word_eqI) (auto simp: bit_simps)
qed

lemma varint_split:
  fixes v :: u32
  shows "push_bit (7 * i) v = push_bit (7 * i) (v AND 0x7f) OR push_bit (7 * Suc i) (drop_bit 7 v)"
proof (rule bit_word_eqI)
  fix n
  consider "7 * Suc i \<le> n" "7 + (n - (7 + 7 * i)) = n - 7 * i" "\<not> n - 7 * i < 7"
    | "\<not> 7 * Suc i \<le> n" "n - 7 * i < 7" by fastforce
  then show "bit (push_bit (7 * i) v) n =
      bit (push_bit (7 * i) (v AND 0x7f) OR push_bit (7 * Suc i) (drop_bit 7 v)) n"
    unfolding mask7 by cases (auto simp: bit_simps)
qed

lemma varint_loop:
  assumes "n + i = 5" "0 < n" "unat v < 2 ^ (32 - 7 * i)"
  shows "r_varint_loop n i acc (w_varint v @ rest) = Some (acc OR push_bit (7 * i) v, rest)"
  using assms
proof (induction n arbitrary: i v acc)
  case 0
  then show ?case by simp
next
  case (Suc n)
  let ?b = "ucast (v AND 0x7f) :: byte"
  note c = continuation_bit [of v]
  show ?case
  proof (cases "drop_bit 7 v = 0")
    case True
    then have "push_bit (7 * i) v = push_bit (7 * i) (v AND 0x7f)" using varint_split [of i v] by simp
    moreover have "i = 4 \<Longrightarrow> ?b AND 0xf0 = 0"
    proof -
      assume "i = 4"
      with Suc.prems have "unat v < 2 ^ 4" by simp
      then have "take_bit 4 v = v" by (metis take_bit_eq_mod take_bit_nat_eq_self_iff unsigned_take_bit_eq word_unat_eq_iff)
      then have "4 \<le> k \<Longrightarrow> \<not> bit v k" for k by (metis bit_take_bit_iff not_less)
      then show ?thesis unfolding mask7 by (intro bit_word_eqI) (auto simp: bit_simps)
    qed
    ultimately show ?thesis using True c by (simp add: w_varint.simps [of v] r_u8_def Let_def)
  next
    case False
    have d: "unat (drop_bit 7 v) = unat v div 128" by (simp add: drop_bit_eq_div unat_div)
    have i: "i < 4"
    proof (rule ccontr)
      assume "\<not> i < 4"
      then have "unat v < 16" using Suc.prems by (cases "i = 4") auto
      then show False using False d by (simp add: unat_eq_0 [symmetric])
    qed
    have "(2::nat) ^ (32 - 7 * i) = 128 * 2 ^ (32 - 7 * Suc i)"
    proof -
      have "32 - 7 * i = 7 + (25 - 7 * i)" using i by simp
      then have "(2::nat) ^ (32 - 7 * i) = 2 ^ 7 * 2 ^ (25 - 7 * i)" by (simp only: power_add)
      then show ?thesis by simp
    qed
    then have "unat (drop_bit 7 v) < 2 ^ (32 - 7 * Suc i)"
      using Suc.prems(3) unfolding d by (simp add: less_mult_imp_div_less mult.commute)
    then have "r_varint_loop n (Suc i) (acc OR push_bit (7 * i) (v AND 0x7f)) (w_varint (drop_bit 7 v) @ rest) =
        Some ((acc OR push_bit (7 * i) (v AND 0x7f)) OR push_bit (7 * Suc i) (drop_bit 7 v), rest)"
      using Suc.prems i by (intro Suc.IH) auto
    moreover have "(acc OR push_bit (7 * i) (v AND 0x7f)) OR push_bit (7 * Suc i) (drop_bit 7 v) =
        acc OR push_bit (7 * i) v"
      unfolding varint_split [of i v] by (simp add: or.assoc)
    ultimately show ?thesis
      using False c i by (simp add: w_varint.simps [of v] r_u8_def Let_def)
  qed
qed

lemma varint_bytes_bound: "r_varint_loop n i acc bs = Some (v, r) \<Longrightarrow> length r < length bs \<and> length bs \<le> length r + n"
  by (induction n arbitrary: i acc bs) (fastforce simp: r_u8_def Let_def split: list.splits if_splits)+

interpretation varint: wire_format w_varint r_varint "\<lambda>_. True"
proof
  fix v :: u32 and rest
  have "unat v < 2 ^ LENGTH(32)" by (rule unsigned_less)
  then show "r_varint (w_varint v @ rest) = Some (v, rest)"
    unfolding r_varint_def using varint_loop [of 5 0 v 0 rest] by simp
qed

lemma zigzag:
  fixes v :: i32
  defines "z \<equiv> push_bit 1 v XOR signed_drop_bit 31 v"
  shows "drop_bit 1 z XOR (- (z AND 1)) = v"
proof -
  have "v * 2 = push_bit 1 v" by simp
  then have double: "bit (v * 2) (Suc n) \<longleftrightarrow> Suc n < 32 \<and> bit v n" for n
    by (simp only: bit_push_bit_iff) (auto simp: bit_simps)
  show ?thesis
  proof (cases "bit v 31")
    case True
    then have s: "signed_drop_bit 31 v = - 1"
      by (intro bit_word_eqI) (auto simp: bit_simps Suc_le_eq)
    have "bit z 0" unfolding z_def s by (simp only: bit_xor_iff bit_push_bit_iff) simp
    then have "z AND 1 = 1" by (simp only: and_one_eq bit_0 odd_iff_mod_2_eq_one)
    moreover have "\<not> n < 31 \<Longrightarrow> n < 32 \<Longrightarrow> bit v n" for n using True by (cases "n = 31") auto
    ultimately show ?thesis unfolding z_def s
      by (intro bit_word_eqI) (auto simp: bit_simps double intro: Suc_lessI)
  next
    case False
    then have s: "signed_drop_bit 31 v = 0"
      by (intro bit_word_eqI) (auto simp: bit_simps Suc_le_eq)
    have "\<not> bit z 0" unfolding z_def s by (simp only: bit_xor_iff bit_push_bit_iff) simp
    then have "z AND 2 ^ 0 = 0" by (simp only: and_exp_eq_0_iff_not_bit not_False_eq_True)
    then have "z AND 1 = 0" by simp
    moreover have "n < 32 \<Longrightarrow> bit v n \<Longrightarrow> n < 31" for n using False by (cases "n = 31") auto
    ultimately show ?thesis unfolding z_def s
      by (intro bit_word_eqI) (auto simp: bit_simps double)
  qed
qed

interpretation svarint: wire_format w_svarint r_svarint "\<lambda>_. True"
  by unfold_locales (simp only: w_svarint_def r_svarint_def varint.dec_enc option.case prod.case zigzag)

section \<open>Strings and fixed-width integers\<close>

lemma char_of_byte: "char_of (unat (of_char c :: byte)) = c"
proof -
  have "(of_char c :: byte) = word_of_nat (of_char c)" by (simp only: of_nat_of_char)
  moreover have "(of_char c :: nat) < 256" by simp
  ultimately have "unat (of_char c :: byte) = of_char c" by (simp only: unat_of_nat) simp
  then show ?thesis by simp
qed

lemma from_to_bytes [simp]: "from_bytes (to_bytes s) = s"
  by (simp add: from_bytes_def to_bytes_def comp_def char_of_byte)

lemma length_to_bytes [simp]: "length (to_bytes s) = length s" by (simp add: to_bytes_def)

interpretation wire_string: wire_format w_string r_string "\<lambda>s. length s < 2 ^ 32"
  by unfold_locales (simp add: w_string_def r_string_def varint.dec_enc unat_of_nat)

interpretation optional_string: wire_format w_optionalString r_optionalString
  "\<lambda>v. case v of None \<Rightarrow> True | Some s \<Rightarrow> length s < 2 ^ 32"
  by unfold_locales
    (auto simp: w_optionalString_def r_optionalString_def w_u8_def r_u8_def wire_string.dec_enc split: option.splits)

lemma le_value_le_bytes:
  fixes v :: "'a::len word"
  shows "le_value (le_bytes n v) = take_bit (8 * n) v"
proof (induction n arbitrary: v)
  case 0
  then show ?case by (simp add: le_bytes_def le_value_def)
next
  case (Suc n)
  have "le_bytes (Suc n) v = ucast v # le_bytes n (drop_bit 8 v)"
    unfolding le_bytes_def upt_conv_Cons [OF zero_less_Suc] map_Suc_upt [symmetric]
    by (simp add: comp_def add.commute)
  with Suc [of "drop_bit 8 v"] have "le_value (le_bytes (Suc n) v) =
      ucast (ucast v :: byte) OR push_bit 8 (take_bit (8 * n) (drop_bit 8 v))"
    by (simp add: le_value_def)
  also have "\<dots> = take_bit (8 * Suc n) v"
    by (rule bit_word_eqI) (auto simp: bit_simps)
  finally show ?case .
qed

lemma length_le_bytes [simp]: "length (le_bytes n v) = n" by (simp add: le_bytes_def)

lemma le_value_exact: "LENGTH('a) \<le> 8 * n \<Longrightarrow> le_value (le_bytes n (v :: 'a::len word)) = v"
  unfolding le_value_le_bytes by (rule bit_word_eqI) (auto simp: bit_simps)

interpretation wire_u64: wire_format w_u64 r_u64 "\<lambda>_. True"
  by unfold_locales (simp add: w_u64_def r_u64_def le_value_exact)

end
