(* ===== verification/Codec.thy ===== *)
theory Codec
  imports Codec_Wire "HOL-Library.Monad_Syntax"
begin

text \<open>
  The binary codec for the high-frequency previews
  (\<open>internal/codec/binary_ephemeral_codec.go\<close>): payloads, quantisation, client frames, relay
  frames with their metadata trailer, and aggregates. Encoders and decoders return nothing where
  the code reports an error. A payload travels as JSON inside an envelope, so the frame functions go through
  \<open>unmarshal\<close> and \<open>marshal\<close> as the code does.
\<close>

unbundle bit_operations_syntax

section \<open>Constants and payloads\<close>

abbreviation (input) "magic \<equiv> (0xCB :: byte)"
abbreviation (input) "version \<equiv> (1 :: byte)"
abbreviation (input) "headerSize \<equiv> (8 :: nat)"
abbreviation (input) "codeCursor \<equiv> (1 :: byte)"
abbreviation (input) "codeLaser \<equiv> (2 :: byte)"
abbreviation (input) "codeInk \<equiv> (3 :: byte)"
abbreviation (input) "codeTransform \<equiv> (4 :: byte)"
abbreviation (input) "codeAggregate \<equiv> (0xff :: byte)"
abbreviation (input) "flagHasPressure \<equiv> (0x01 :: byte)"
abbreviation (input) "flagHasTime \<equiv> (0x02 :: byte)"
abbreviation (input) "flagRelayMetadata \<equiv> (0x80 :: byte)"
abbreviation (input) "maxInkPoints \<equiv> (4096 :: nat)"
abbreviation (input) "quantization \<equiv> Fin (1 / 4)"

record frame_header =
  fh_code :: byte
  fh_flags :: byte
  fh_seq :: u32

record ink_point =
  kp_X :: float64
  kp_Y :: float64
  kp_Pressure :: "float64 option"
  kp_T :: "u32 option"

record ink_payload =
  ik_StrokeID :: string
  ik_Points :: "ink_point list"

record pointer_payload =
  pt_PageID :: string
  pt_X :: float64
  pt_Y :: float64

record transform_payload =
  tf_BlockID :: string
  tf_PageID :: string
  tf_X :: float64
  tf_Y :: float64
  tf_Width :: float64
  tf_Height :: float64
  tf_Rotation :: float64

subsection \<open>Payloads from JSON\<close>

text \<open>
  A slice: \<open>null\<close> makes it nil, an array is decoded element by element; an element that the target
  already has is decoded in place.
\<close>

definition dec_slice :: "'a \<Rightarrow> 'a decoder \<Rightarrow> 'a list decoder" where
  "dec_slice zero d v old = (case v of
     JNull \<Rightarrow> ([], False)
   | JArr xs \<Rightarrow> (let rs = map2 (\<lambda>i x. d x (if i < length old then old ! i else zero)) [0..<length xs] xs
       in (map fst rs, list_ex snd rs))
   | _ \<Rightarrow> (old, True))"

definition ink_point_zero :: ink_point where
  "ink_point_zero = \<lparr>kp_X = Fin 0, kp_Y = Fin 0, kp_Pressure = None, kp_T = None\<rparr>"

definition dec_u32 :: "u32 decoder" where
  "dec_u32 v old = map_prod word_of_int id (dec_uint32 v (uint old))"

definition dec_ink_point :: "ink_point decoder" where
  "dec_ink_point = dec_struct (\<lambda>k n v p.
     if EqualFold k ''x'' then (let (f, e) = dec_float v (kp_X p) in (p\<lparr>kp_X := f\<rparr>, e))
     else if EqualFold k ''y'' then (let (f, e) = dec_float v (kp_Y p) in (p\<lparr>kp_Y := f\<rparr>, e))
     else if EqualFold k ''pressure'' then
       (let (f, e) = dec_ptr (Fin 0) dec_float v (kp_Pressure p) in (p\<lparr>kp_Pressure := f\<rparr>, e))
     else if EqualFold k ''t'' then (let (t, e) = dec_ptr 0 dec_u32 v (kp_T p) in (p\<lparr>kp_T := t\<rparr>, e))
     else (p, False))"

definition dec_ink_payload :: "ink_payload decoder" where
  "dec_ink_payload = dec_struct (\<lambda>k n v p.
     if EqualFold k ''strokeId'' then (let (s, e) = dec_string v (ik_StrokeID p) in (p\<lparr>ik_StrokeID := s\<rparr>, e))
     else if EqualFold k ''points'' then
       (let (xs, e) = dec_slice ink_point_zero dec_ink_point v (ik_Points p) in (p\<lparr>ik_Points := xs\<rparr>, e))
     else (p, False))"

definition dec_pointer_payload :: "pointer_payload decoder" where
  "dec_pointer_payload = dec_struct (\<lambda>k n v p.
     if EqualFold k ''pageId'' then (let (s, e) = dec_string v (pt_PageID p) in (p\<lparr>pt_PageID := s\<rparr>, e))
     else if EqualFold k ''x'' then (let (f, e) = dec_float v (pt_X p) in (p\<lparr>pt_X := f\<rparr>, e))
     else if EqualFold k ''y'' then (let (f, e) = dec_float v (pt_Y p) in (p\<lparr>pt_Y := f\<rparr>, e))
     else (p, False))"

definition dec_transform_payload :: "transform_payload decoder" where
  "dec_transform_payload = dec_struct (\<lambda>k n v p.
     if EqualFold k ''blockId'' then (let (s, e) = dec_string v (tf_BlockID p) in (p\<lparr>tf_BlockID := s\<rparr>, e))
     else if EqualFold k ''pageId'' then (let (s, e) = dec_string v (tf_PageID p) in (p\<lparr>tf_PageID := s\<rparr>, e))
     else if EqualFold k ''x'' then (let (f, e) = dec_float v (tf_X p) in (p\<lparr>tf_X := f\<rparr>, e))
     else if EqualFold k ''y'' then (let (f, e) = dec_float v (tf_Y p) in (p\<lparr>tf_Y := f\<rparr>, e))
     else if EqualFold k ''width'' then (let (f, e) = dec_float v (tf_Width p) in (p\<lparr>tf_Width := f\<rparr>, e))
     else if EqualFold k ''height'' then (let (f, e) = dec_float v (tf_Height p) in (p\<lparr>tf_Height := f\<rparr>, e))
     else if EqualFold k ''rotation'' then (let (f, e) = dec_float v (tf_Rotation p) in (p\<lparr>tf_Rotation := f\<rparr>, e))
     else (p, False))"

subsection \<open>Payloads to JSON\<close>

definition ink_point_json :: "ink_point \<Rightarrow> json option" where
  "ink_point_json p = do {
     x \<leftarrow> jfloat (kp_X p); y \<leftarrow> jfloat (kp_Y p);
     pr \<leftarrow> (case kp_Pressure p of None \<Rightarrow> Some [] | Some f \<Rightarrow> map_option (\<lambda>j. [jmem ''pressure'' j]) (jfloat f));
     Some (JObj ([jmem ''x'' x, jmem ''y'' y] @ pr @
       (case kp_T p of None \<Rightarrow> [] | Some t \<Rightarrow> [jmem ''t'' (jint (uint t))])))
   }"

definition ink_json :: "ink_payload \<Rightarrow> json option" where
  "ink_json p = do {
     ps \<leftarrow> those (map ink_point_json (ik_Points p));
     Some (JObj [jmem ''strokeId'' (JStr (ik_StrokeID p)), jmem ''points'' (JArr ps)])
   }"

definition pointer_json :: "pointer_payload \<Rightarrow> json option" where
  "pointer_json p = do {
     x \<leftarrow> jfloat (pt_X p); y \<leftarrow> jfloat (pt_Y p);
     Some (JObj [jmem ''pageId'' (JStr (pt_PageID p)), jmem ''x'' x, jmem ''y'' y])
   }"

definition transform_json :: "transform_payload \<Rightarrow> json option" where
  "transform_json p = do {
     x \<leftarrow> jfloat (tf_X p); y \<leftarrow> jfloat (tf_Y p);
     w \<leftarrow> jfloat (tf_Width p); h \<leftarrow> jfloat (tf_Height p); r \<leftarrow> jfloat (tf_Rotation p);
     Some (JObj [jmem ''blockId'' (JStr (tf_BlockID p)), jmem ''pageId'' (JStr (tf_PageID p)),
       jmem ''x'' x, jmem ''y'' y, jmem ''width'' w, jmem ''height'' h, jmem ''rotation'' r])
   }"

section \<open>Quantisation\<close>

definition roundLikeJavaScript :: "float64 \<Rightarrow> float64" where
  "roundLikeJavaScript v = f_floor (f_add v (Fin (1 / 2)))"

definition in_range :: "int \<Rightarrow> int \<Rightarrow> float64 \<Rightarrow> u32 option" where
  "in_range lo hi q = (if f_lt q (Fin (of_int lo)) \<or> f_lt (Fin (of_int hi)) q then None
     else Some (word_of_int (f_to_int q)))"

definition quantizedSigned :: "float64 \<Rightarrow> i32 option" where
  "quantizedSigned v = (if f_is_nan v \<or> f_is_inf v then None
     else in_range (- 2147483648) 2147483647 (roundLikeJavaScript (f_div v quantization)))"

definition quantizedUnsigned :: "float64 \<Rightarrow> u32 option" where
  "quantizedUnsigned v = (if f_is_nan v \<or> f_is_inf v then None
     else in_range 0 4294967295 (roundLikeJavaScript (f_div v quantization)))"

definition quantizedRotation :: "float64 \<Rightarrow> i32 option" where
  "quantizedRotation v = (if f_is_nan v \<or> f_is_inf v then None
     else in_range (- 2147483648) 2147483647 (roundLikeJavaScript (f_mul v (Fin 100))))"

definition dequantize :: "i32 \<Rightarrow> float64" where
  "dequantize v = f_mul (f_of_int (sint v)) quantization"

definition dequantizeUnsigned :: "u32 \<Rightarrow> float64" where
  "dequantizeUnsigned v = f_mul (f_of_int (uint v)) quantization"

definition dequantizeRotation :: "i32 \<Rightarrow> float64" where
  "dequantizeRotation v = f_div (f_of_int (sint v)) (Fin 100)"

definition pressureByte :: "float64 \<Rightarrow> byte" where
  "pressureByte v = word_of_int (f_to_int (f_round (f_mul (f_max (Fin 0) (f_min (Fin 1) v)) (Fin 255))))"

definition pressureOf :: "byte \<Rightarrow> float64" where
  "pressureOf v = (if v = 128 then Fin (1 / 2) else f_div (f_of_int (uint v)) (Fin 255))"

section \<open>Payload bodies\<close>

fun encode_ink_points :: "bool \<Rightarrow> i32 \<Rightarrow> i32 \<Rightarrow> ink_point list \<Rightarrow> bytes option" where
  "encode_ink_points hasPressure px py [] = Some []"
| "encode_ink_points hasPressure px py (p # ps) = do {
     x \<leftarrow> quantizedSigned (kp_X p); y \<leftarrow> quantizedSigned (kp_Y p);
     rest \<leftarrow> encode_ink_points hasPressure x y ps;
     Some (w_svarint (x - px) @ w_svarint (y - py) @
       (if hasPressure then w_u8 (pressureByte (the (kp_Pressure p))) else []) @ rest)
   }"

fun encode_ink_times :: "u32 \<Rightarrow> ink_point list \<Rightarrow> bytes" where
  "encode_ink_times previous [] = []"
| "encode_ink_times previous (p # ps) = (let t = the (kp_T p) in
     if t > previous then w_varint (t - previous) @ encode_ink_times t ps
     else w_varint 0 @ encode_ink_times previous ps)"

text \<open>The flags the ink encoder adds to the header, and the body.\<close>

definition encodeInk :: "ink_payload \<Rightarrow> (byte \<times> bytes) option" where
  "encodeInk p =
     (if ik_StrokeID p = [] \<or> length (ik_Points p) > maxInkPoints then None
      else let
        hasPressure = (ik_Points p \<noteq> [] \<and> list_all (\<lambda>q. kp_Pressure q \<noteq> None) (ik_Points p));
        hasTime = (ik_Points p \<noteq> [] \<and> list_all (\<lambda>q. kp_T q \<noteq> None) (ik_Points p));
        flags = (if hasPressure then flagHasPressure else 0) OR (if hasTime then flagHasTime else 0)
      in do {
        points \<leftarrow> encode_ink_points hasPressure 0 0 (ik_Points p);
        Some (flags, w_string (ik_StrokeID p) @ w_varint (word_of_nat (length (ik_Points p))) @ points @
          (if hasTime then encode_ink_times 0 (ik_Points p) else []))
      })"

fun decode_ink_points :: "bool \<Rightarrow> nat \<Rightarrow> i32 \<Rightarrow> i32 \<Rightarrow> ink_point list reader" where
  "decode_ink_points hasPressure 0 x y bs = Some ([], bs)"
| "decode_ink_points hasPressure (Suc n) x y bs = do {
     (dx, bs) \<leftarrow> r_svarint bs;
     (dy, bs) \<leftarrow> r_svarint bs;
     (pressure, bs) \<leftarrow> (if hasPressure then map_option (map_prod (\<lambda>v. Some (pressureOf v)) id) (r_u8 bs)
                         else Some (None, bs));
     (ps, bs) \<leftarrow> decode_ink_points hasPressure n (x + dx) (y + dy) bs;
     Some (\<lparr>kp_X = dequantize (x + dx), kp_Y = dequantize (y + dy), kp_Pressure = pressure, kp_T = None\<rparr> # ps, bs)
   }"

fun decode_ink_times :: "u32 \<Rightarrow> ink_point list \<Rightarrow> ink_point list reader" where
  "decode_ink_times t [] bs = Some ([], bs)"
| "decode_ink_times t (p # ps) bs = do {
     (delta, bs) \<leftarrow> r_varint bs;
     (ps, bs) \<leftarrow> decode_ink_times (t + delta) ps bs;
     Some (p\<lparr>kp_T := Some (t + delta)\<rparr> # ps, bs)
   }"

definition decodeInk :: "byte \<Rightarrow> ink_payload reader" where
  "decodeInk flags bs = do {
     (strokeID, bs) \<leftarrow> r_string bs;
     if strokeID = [] then None else do {
     (count, bs) \<leftarrow> r_varint bs;
     if unat count > maxInkPoints then None else do {
     (points, bs) \<leftarrow> decode_ink_points (flags AND flagHasPressure \<noteq> 0) (unat count) 0 0 bs;
     (points, bs) \<leftarrow> (if flags AND flagHasTime \<noteq> 0 then decode_ink_times 0 points bs else Some (points, bs));
     Some (\<lparr>ik_StrokeID = strokeID, ik_Points = points\<rparr>, bs)
   }}}"

definition encodePointer :: "pointer_payload \<Rightarrow> bytes option" where
  "encodePointer p = (if pt_PageID p = [] then None else do {
     x \<leftarrow> quantizedSigned (pt_X p); y \<leftarrow> quantizedSigned (pt_Y p);
     Some (w_string (pt_PageID p) @ w_svarint x @ w_svarint y)
   })"

definition decodePointer :: "pointer_payload reader" where
  "decodePointer bs = do {
     (pageID, bs) \<leftarrow> r_string bs;
     if pageID = [] then None else do {
     (x, bs) \<leftarrow> r_svarint bs; (y, bs) \<leftarrow> r_svarint bs;
     Some (\<lparr>pt_PageID = pageID, pt_X = dequantize x, pt_Y = dequantize y\<rparr>, bs)
   }}"

definition encodeTransform :: "transform_payload \<Rightarrow> bytes option" where
  "encodeTransform p = (if tf_BlockID p = [] \<or> tf_PageID p = [] then None else do {
     x \<leftarrow> quantizedSigned (tf_X p); y \<leftarrow> quantizedSigned (tf_Y p);
     w \<leftarrow> quantizedUnsigned (tf_Width p); h \<leftarrow> quantizedUnsigned (tf_Height p);
     r \<leftarrow> quantizedRotation (tf_Rotation p);
     Some (w_string (tf_BlockID p) @ w_string (tf_PageID p) @ w_svarint x @ w_svarint y @
       w_varint w @ w_varint h @ w_svarint r)
   })"

definition decodeTransform :: "transform_payload reader" where
  "decodeTransform bs = do {
     (blockID, bs) \<leftarrow> r_string bs;
     if blockID = [] then None else do {
     (pageID, bs) \<leftarrow> r_string bs;
     if pageID = [] then None else do {
     (x, bs) \<leftarrow> r_svarint bs; (y, bs) \<leftarrow> r_svarint bs;
     (w, bs) \<leftarrow> r_varint bs; (h, bs) \<leftarrow> r_varint bs; (r, bs) \<leftarrow> r_svarint bs;
     Some (\<lparr>tf_BlockID = blockID, tf_PageID = pageID, tf_X = dequantize x, tf_Y = dequantize y,
       tf_Width = dequantizeUnsigned w, tf_Height = dequantizeUnsigned h,
       tf_Rotation = dequantizeRotation r\<rparr>, bs)
   }}}"

section \<open>Frames\<close>

definition IsBinaryFrame :: "bytes \<Rightarrow> bool" where
  "IsBinaryFrame data \<longleftrightarrow> headerSize \<le> length data \<and> data ! 0 = magic"

definition eventCode :: "string \<Rightarrow> byte option" where
  "eventCode event =
     (if event = ''cursor.moved'' then Some codeCursor
      else if event = ''laser.moved'' then Some codeLaser
      else if event = ''ink.points'' then Some codeInk
      else if event = ''block.transform.preview'' then Some codeTransform
      else None)"

definition envelopeSeq :: "u64 option \<Rightarrow> u32 option" where
  "envelopeSeq seq = (case seq of
     None \<Rightarrow> Some 0
   | Some s \<Rightarrow> if s > 0xFFFFFFFF then None else Some (ucast s))"

definition w_header :: "byte \<Rightarrow> u32 \<Rightarrow> byte \<Rightarrow> bytes" where
  "w_header code seq flags = [magic, version, code, flags] @ le_bytes 4 seq"

definition readHeader :: "bytes \<Rightarrow> frame_header option" where
  "readHeader data = (if \<not> IsBinaryFrame data \<or> data ! 1 \<noteq> version then None
     else Some \<lparr>fh_code = data ! 2, fh_flags = data ! 3, fh_seq = le_value (take 4 (drop 4 data))\<rparr>)"

definition ok_payload :: "'a \<times> bool \<Rightarrow> 'a option" where
  "ok_payload r = (if snd r then None else Some (fst r))"

text \<open>The switch over the event code that both frame encoders contain.\<close>

definition encode_body :: "byte \<Rightarrow> raw \<Rightarrow> (byte \<times> bytes) option" where
  "encode_body code payload =
     (if code = codeInk then do {
        p \<leftarrow> ok_payload (unmarshal dec_ink_payload \<lparr>ik_StrokeID = [], ik_Points = []\<rparr> payload);
        encodeInk p }
      else if code = codeCursor \<or> code = codeLaser then do {
        p \<leftarrow> ok_payload (unmarshal dec_pointer_payload \<lparr>pt_PageID = [], pt_X = Fin 0, pt_Y = Fin 0\<rparr> payload);
        b \<leftarrow> encodePointer p; Some (0, b) }
      else do {
        p \<leftarrow> ok_payload (unmarshal dec_transform_payload \<lparr>tf_BlockID = [], tf_PageID = [], tf_X = Fin 0,
          tf_Y = Fin 0, tf_Width = Fin 0, tf_Height = Fin 0, tf_Rotation = Fin 0\<rparr> payload);
        b \<leftarrow> encodeTransform p; Some (0, b) })"

definition EncodeClientFrame :: "envelope \<Rightarrow> bytes option" where
  "EncodeClientFrame e = do {
     code \<leftarrow> eventCode (en_Event e);
     seq \<leftarrow> envelopeSeq (en_Seq e);
     (flags, body) \<leftarrow> encode_body code (en_Payload e);
     Some (w_header code seq flags @ body)
   }"

definition whole :: "('a \<times> bytes) option \<Rightarrow> 'a option" where
  "whole r = (case r of Some (x, []) \<Rightarrow> Some x | _ \<Rightarrow> None)"

definition decode_body :: "byte \<Rightarrow> byte \<Rightarrow> bytes \<Rightarrow> (string \<times> json) option" where
  "decode_body code flags bs =
     (if code = codeInk then
        (if flags AND NOT (flagHasPressure OR flagHasTime) \<noteq> 0 then None
         else do { p \<leftarrow> whole (decodeInk flags bs); j \<leftarrow> ink_json p; Some (''ink.points'', j) })
      else if code = codeCursor then
        (if flags \<noteq> 0 then None
         else do { p \<leftarrow> whole (decodePointer bs); j \<leftarrow> pointer_json p; Some (''cursor.moved'', j) })
      else if code = codeLaser then
        (if flags \<noteq> 0 then None
         else do { p \<leftarrow> whole (decodePointer bs); j \<leftarrow> pointer_json p; Some (''laser.moved'', j) })
      else if code = codeTransform then
        (if flags \<noteq> 0 then None
         else do { p \<leftarrow> whole (decodeTransform bs); j \<leftarrow> transform_json p; Some (''block.transform.preview'', j) })
      else None)"

definition DecodeClientFrame :: "bytes \<Rightarrow> envelope option" where
  "DecodeClientFrame data = do {
     h \<leftarrow> readHeader data;
     if fh_flags h AND flagRelayMetadata \<noteq> 0 then None else do {
     (event, j) \<leftarrow> decode_body (fh_code h) (fh_flags h) (drop headerSize data);
     Some (envelope_zero\<lparr>en_V := EnvelopeVersion, en_Event := event, en_Payload := marshal j,
       en_Seq := (if fh_seq h = 0 then None else Some (ucast (fh_seq h)))\<rparr>)
   }}"

definition relay_metadata_bytes :: "envelope \<Rightarrow> bytes" where
  "relay_metadata_bytes e = w_string (en_MessageID e) @ w_string (en_SessionID e) @ w_string (en_Channel e) @
     w_optionalString (en_ActorID e) @ w_optionalString (en_Origin e) @
     w_u64 (word_of_int (max (en_SentAt e) 0))"

definition EncodeRelayFrame :: "envelope \<Rightarrow> bytes option" where
  "EncodeRelayFrame e = do {
     code \<leftarrow> eventCode (en_Event e);
     seq \<leftarrow> envelopeSeq (en_Seq e);
     (flags, body) \<leftarrow> encode_body code (en_Payload e);
     let metadata = relay_metadata_bytes e in
       if length metadata > 65535 then None
       else Some (w_header code seq (flags OR flagRelayMetadata) @ body @ metadata @
         le_bytes 2 (word_of_nat (length metadata) :: 16 word))
   }"

definition EncodeRelayAggregate :: "envelope list \<Rightarrow> bytes option" where
  "EncodeRelayAggregate es =
     (if length es < 2 \<or> length es > 65535 then None
      else do {
        children \<leftarrow> those (map (\<lambda>e. case EncodeRelayFrame e of
          None \<Rightarrow> None | Some child \<Rightarrow> if length child > 65535 then None else Some child) es);
        Some (w_header codeAggregate 0 0 @ le_bytes 2 (word_of_nat (length children) :: 16 word) @
          w_many (\<lambda>child. le_bytes 2 (word_of_nat (length child) :: 16 word) @ child) children)
      })"

record relay_metadata =
  rm_Sequence :: u64
  rm_ActorID :: string
  rm_Origin :: string
  rm_SentAt :: int

definition le16 :: "bytes \<Rightarrow> nat" where
  "le16 bs = unat (le_value (take 2 bs) :: 16 word)"

definition decode_single_metadata :: "frame_header \<Rightarrow> bytes \<Rightarrow> relay_metadata option" where
  "decode_single_metadata h data =
     (if fh_flags h AND flagRelayMetadata = 0 \<or> length data < headerSize + 2 then None
      else let n = le16 (drop (length data - 2) data) in
        if length data < headerSize + 2 + n then None
        else do {
          bs \<leftarrow> Some (take n (drop (length data - 2 - n) data));
          (_, bs) \<leftarrow> r_string bs; (_, bs) \<leftarrow> r_string bs; (_, bs) \<leftarrow> r_string bs;
          (actor, bs) \<leftarrow> r_optionalString bs;
          (origin, bs) \<leftarrow> r_optionalString bs;
          sentAt \<leftarrow> whole (r_u64 bs);
          Some \<lparr>rm_Sequence = ucast (fh_seq h), rm_ActorID = (case actor of None \<Rightarrow> [] | Some s \<Rightarrow> s),
            rm_Origin = (case origin of None \<Rightarrow> [] | Some s \<Rightarrow> s), rm_SentAt = sint sentAt\<rparr>
        })"

text \<open>
  \<open>DecodeRelayMetadata\<close> and its loop over the children of an aggregate; a child is decoded by the
  same function, so the recursion is mutual, and it ends because a child is shorter than its parent.
\<close>

function DecodeRelayMetadata :: "bytes \<Rightarrow> relay_metadata list option"
  and relay_children :: "nat \<Rightarrow> bytes \<Rightarrow> relay_metadata list option" where
  "DecodeRelayMetadata data = (case readHeader data of
     None \<Rightarrow> None
   | Some h \<Rightarrow>
       if fh_code h = codeAggregate then
         (if fh_flags h \<noteq> 0 \<or> length data < headerSize + 2 then None
          else relay_children (le16 (drop headerSize data)) (drop (headerSize + 2) data))
       else map_option (\<lambda>m. [m]) (decode_single_metadata h data))"
| "relay_children n bs = (case n of
     0 \<Rightarrow> if bs = [] then Some [] else None
   | Suc n \<Rightarrow>
       if length bs < 2 then None
       else let size = le16 bs; bs' = drop 2 bs in
         if size = 0 \<or> length bs' < size then None
         else case DecodeRelayMetadata (take size bs') of
           Some [m] \<Rightarrow> map_option (Cons m) (relay_children n (drop size bs'))
         | _ \<Rightarrow> None)"
  by pat_completeness auto
termination
  by (relation "measure (\<lambda>x. case x of Inl data \<Rightarrow> 2 * length data + 1 | Inr (n, bs) \<Rightarrow> 2 * length bs)") auto

declare DecodeRelayMetadata.simps [simp del]
declare relay_children.simps [simp del]

end
