(* ===== verification/Metrics.thy ===== *)
theory Metrics
  imports Domain
begin

text \<open>
  The counters of \<open>internal/observability/metrics.go\<close>. The 64-bit atomics are unbounded integers here
  (no counter comes near the bound); the disconnect reasons are a Go map that starts nil.
\<close>

section \<open>Counters\<close>

record metrics =
  mt_ActiveSessions :: int
  mt_ActiveConnections :: int
  mt_ActiveRooms :: int
  mt_MessagesIn :: int
  mt_MessagesOut :: int
  mt_IncomingBytes :: int
  mt_OutgoingBytes :: int
  mt_DroppedEphemeral :: int
  mt_DroppedInk :: int
  mt_ReliableOverflow :: int
  mt_ReliableQueueDepthMax :: int
  mt_EphemeralQueueDepthMax :: int
  mt_RateLimited :: int
  mt_PermissionDenied :: int
  mt_SessionAuthFailures :: int
  mt_HMACAuthFailures :: int
  mt_BootstrapThrottled :: int
  mt_TicketsIssued :: int
  mt_TicketsConsumed :: int
  mt_TicketsExpired :: int
  mt_SignalingRelayed :: int
  mt_SignalingRefused :: int
  mt_AuthRefreshAccepted :: int
  mt_AuthRefreshRejected :: int
  mt_BlockLocksActive :: int
  mt_BlockLockDenied :: int
  mt_InterestUpdatesTotal :: int
  mt_InterestEventsTotal :: int
  mt_InterestRecipientsTotal :: int
  mt_InterestFilteredTotal :: int
  mt_closedByReason :: "(string, int) gomap"

definition metrics_New :: metrics where
  "metrics_New = \<lparr>mt_ActiveSessions = 0, mt_ActiveConnections = 0, mt_ActiveRooms = 0, mt_MessagesIn = 0,
     mt_MessagesOut = 0, mt_IncomingBytes = 0, mt_OutgoingBytes = 0, mt_DroppedEphemeral = 0,
     mt_DroppedInk = 0, mt_ReliableOverflow = 0, mt_ReliableQueueDepthMax = 0, mt_EphemeralQueueDepthMax = 0,
     mt_RateLimited = 0, mt_PermissionDenied = 0, mt_SessionAuthFailures = 0, mt_HMACAuthFailures = 0,
     mt_BootstrapThrottled = 0, mt_TicketsIssued = 0, mt_TicketsConsumed = 0, mt_TicketsExpired = 0,
     mt_SignalingRelayed = 0, mt_SignalingRefused = 0, mt_AuthRefreshAccepted = 0, mt_AuthRefreshRejected = 0,
     mt_BlockLocksActive = 0, mt_BlockLockDenied = 0, mt_InterestUpdatesTotal = 0, mt_InterestEventsTotal = 0,
     mt_InterestRecipientsTotal = 0, mt_InterestFilteredTotal = 0,
     mt_closedByReason = []\<rparr>"

abbreviation (input) "maxCloseReasons \<equiv> (32 :: nat)"

text \<open>\<open>strings.Index(reason, " (")\<close> and the prefix before it.\<close>

fun before_bracket :: "string \<Rightarrow> string" where
  "before_bracket (a # b # s) = (if a = CHR '' '' \<and> b = CHR ''('' then [] else a # before_bracket (b # s))"
| "before_bracket s = s"

definition close_key :: "string \<Rightarrow> string" where
  "close_key reason = (let r = before_bracket reason in if r = [] then ''unknown'' else r)"

definition ObserveClose :: "string \<Rightarrow> metrics \<Rightarrow> metrics" where
  "ObserveClose reason m =
     (let reason = close_key reason; counts = mt_closedByReason m;
          reason = (if map_of counts reason = None \<and> length counts \<ge> maxCloseReasons then ''other'' else reason)
      in m\<lparr>mt_closedByReason := gm_put reason (gm_get 0 reason counts + 1) counts\<rparr>)"

definition closeCounts :: "metrics \<Rightarrow> (string, int) gomap" where
  "closeCounts m = fold (\<lambda>(reason, count) counts. gm_put reason count counts) (mt_closedByReason m) []"

definition observeMax :: "int \<Rightarrow> int \<Rightarrow> int" where
  "observeMax value current = (if value \<le> current then current else value)"

definition ObserveQueueDepth :: "int \<Rightarrow> int \<Rightarrow> metrics \<Rightarrow> metrics" where
  "ObserveQueueDepth reliable ephemeral m =
     m\<lparr>mt_ReliableQueueDepthMax := observeMax reliable (mt_ReliableQueueDepthMax m),
       mt_EphemeralQueueDepthMax := observeMax ephemeral (mt_EphemeralQueueDepthMax m)\<rparr>"

record snapshot =
  sn_ActiveSessions :: int
  sn_ActiveConnections :: int
  sn_ActiveRooms :: int
  sn_MessagesIn :: int
  sn_MessagesOut :: int
  sn_IncomingBytes :: int
  sn_OutgoingBytes :: int
  sn_DroppedEphemeral :: int
  sn_DroppedInk :: int
  sn_ReliableOverflow :: int
  sn_ReliableQueueDepthMax :: int
  sn_EphemeralQueueDepthMax :: int
  sn_RateLimited :: int
  sn_PermissionDenied :: int
  sn_SessionAuthFailures :: int
  sn_HMACAuthFailures :: int
  sn_BootstrapThrottled :: int
  sn_TicketsIssued :: int
  sn_TicketsConsumed :: int
  sn_TicketsExpired :: int
  sn_SignalingRelayed :: int
  sn_SignalingRefused :: int
  sn_AuthRefreshAccepted :: int
  sn_AuthRefreshRejected :: int
  sn_BlockLocksActive :: int
  sn_BlockLockDenied :: int
  sn_InterestUpdatesTotal :: int
  sn_InterestEventsTotal :: int
  sn_InterestRecipientsTotal :: int
  sn_InterestFilteredTotal :: int
  sn_InterestRecipientsPerEvent :: float64
  sn_ConnectionsClosedByReason :: "(string, int) gomap"

definition Snapshot :: "metrics \<Rightarrow> snapshot" where
  "Snapshot m = \<lparr>sn_ActiveSessions = mt_ActiveSessions m, sn_ActiveConnections = mt_ActiveConnections m,
       sn_ActiveRooms = mt_ActiveRooms m, sn_MessagesIn = mt_MessagesIn m,
       sn_MessagesOut = mt_MessagesOut m, sn_IncomingBytes = mt_IncomingBytes m,
       sn_OutgoingBytes = mt_OutgoingBytes m, sn_DroppedEphemeral = mt_DroppedEphemeral m,
       sn_DroppedInk = mt_DroppedInk m, sn_ReliableOverflow = mt_ReliableOverflow m,
       sn_ReliableQueueDepthMax = mt_ReliableQueueDepthMax m, sn_EphemeralQueueDepthMax = mt_EphemeralQueueDepthMax m,
       sn_RateLimited = mt_RateLimited m, sn_PermissionDenied = mt_PermissionDenied m,
       sn_SessionAuthFailures = mt_SessionAuthFailures m, sn_HMACAuthFailures = mt_HMACAuthFailures m,
       sn_BootstrapThrottled = mt_BootstrapThrottled m, sn_TicketsIssued = mt_TicketsIssued m,
       sn_TicketsConsumed = mt_TicketsConsumed m, sn_TicketsExpired = mt_TicketsExpired m,
       sn_SignalingRelayed = mt_SignalingRelayed m, sn_SignalingRefused = mt_SignalingRefused m,
       sn_AuthRefreshAccepted = mt_AuthRefreshAccepted m, sn_AuthRefreshRejected = mt_AuthRefreshRejected m,
       sn_BlockLocksActive = mt_BlockLocksActive m, sn_BlockLockDenied = mt_BlockLockDenied m,
       sn_InterestUpdatesTotal = mt_InterestUpdatesTotal m, sn_InterestEventsTotal = mt_InterestEventsTotal m,
       sn_InterestRecipientsTotal = mt_InterestRecipientsTotal m, sn_InterestFilteredTotal = mt_InterestFilteredTotal m,
       sn_InterestRecipientsPerEvent = (if mt_InterestEventsTotal m > 0
         then f_div (f_of_int (mt_InterestRecipientsTotal m)) (f_of_int (mt_InterestEventsTotal m)) else Fin 0),
       sn_ConnectionsClosedByReason = closeCounts m\<rparr>"

section \<open>Facts\<close>

lemma closeCounts_copy: "gm_wf (mt_closedByReason m) \<Longrightarrow> map_of (closeCounts m) = map_of (mt_closedByReason m)"
proof -
  have "gm_wf xs \<Longrightarrow> map_of (fold (\<lambda>(k, v) acc. gm_put k v acc) xs acc) = map_of acc ++ map_of xs"
    for xs and acc :: "(string, int) gomap"
  proof (induction xs arbitrary: acc)
    case Nil
    then show ?case by simp
  next
    case (Cons e xs)
    then have "map_of xs (fst e) = None" by (simp add: map_of_eq_None_iff)
    with Cons show ?case by (cases e) (auto simp: fun_eq_iff map_add_def split: option.splits)
  qed
  then show "gm_wf (mt_closedByReason m) \<Longrightarrow> ?thesis" by (simp add: closeCounts_def)
qed

lemma sum_gm_put:
  "gm_wf m \<Longrightarrow> sum_list (map snd (gm_put k (gm_get 0 k m + 1) m)) = sum_list (map snd m) + (1 :: int)"
proof (induction m)
  case Nil
  then show ?case by (simp add: gm_put_def)
next
  case (Cons e m)
  then show ?case by (cases e) (auto simp: gm_put_def gm_get_def)
qed

definition close_ok :: "metrics \<Rightarrow> bool" where
  "close_ok m \<longleftrightarrow> gm_wf (mt_closedByReason m) \<and> length (mt_closedByReason m) \<le> Suc maxCloseReasons \<and>
     (length (mt_closedByReason m) = Suc maxCloseReasons \<longrightarrow> map_of (mt_closedByReason m) ''other'' \<noteq> None)"

lemma close_ok_new: "close_ok metrics_New"
  by (simp add: close_ok_def metrics_New_def)

lemma close_ok_ObserveClose: "close_ok m \<Longrightarrow> close_ok (ObserveClose r m)"
  by (auto simp: close_ok_def ObserveClose_def Let_def length_gm_put split: if_splits)

lemma close_total: "gm_wf (mt_closedByReason m) \<Longrightarrow>
    sum_list (map snd (mt_closedByReason (ObserveClose r m))) = sum_list (map snd (mt_closedByReason m)) + 1"
  by (simp add: ObserveClose_def Let_def sum_gm_put)

section \<open>Properties\<close>

text \<open>
  Every disconnect is counted exactly once and the table stays bounded: after any sequence of
  disconnects the counts add up to their number, and at most 33 reasons are kept however many
  different ones occur.
\<close>

theorem disconnects_counted:
  "let m = fold ObserveClose reasons metrics_New in
    sum_list (map snd (mt_closedByReason m)) = int (length reasons) \<and>
    length (mt_closedByReason m) \<le> 33 \<and> map_of (sn_ConnectionsClosedByReason (Snapshot m)) = map_of (mt_closedByReason m)"
proof -
  have gen: "close_ok m \<Longrightarrow> close_ok (fold ObserveClose reasons m) \<and>
      sum_list (map snd (mt_closedByReason (fold ObserveClose reasons m))) =
      sum_list (map snd (mt_closedByReason m)) + int (length reasons)" for m
  proof (induction reasons arbitrary: m)
    case (Cons r rs)
    have "gm_wf (mt_closedByReason m)" using Cons.prems by (simp add: close_ok_def)
    with Cons.IH [OF close_ok_ObserveClose [OF Cons.prems, of r]] close_total [of m r] show ?case by simp
  qed simp
  let ?m = "fold ObserveClose reasons metrics_New"
  from gen [OF close_ok_new] have ok: "close_ok ?m"
    and sum: "sum_list (map snd (mt_closedByReason ?m)) = int (length reasons)"
    by (simp_all add: metrics_New_def)
  from ok have "gm_wf (mt_closedByReason ?m)" "length (mt_closedByReason ?m) \<le> 33" by (simp_all add: close_ok_def)
  with sum closeCounts_copy [of ?m] show ?thesis by (simp add: Let_def Snapshot_def)
qed

end
