(* ===== verification/Connections.thy ===== *)
theory Connections
  imports Outbound_Queues Codec Metrics "HOL-Library.Sublist"
begin

text \<open>
  The two transports' connections (\<open>internal/transport/ws_connection.go\<close>, \<open>wt_connection.go\<close>):
  queueing, closing, capability flags, the wire form of an envelope, the write pumps' drains and the
  length-prefixed framing of the WebTransport stream. The network is a parameter that says which
  write succeeds; what it accepted is kept in \<open>cs_sent\<close>. A JSON text frame is represented by its
  envelope and the size of its text is a parameter.
\<close>

section \<open>State\<close>

datatype transport = WebSocket | WebTransport int

datatype wire = TextFrame envelope | BinaryFrame bytes

datatype packet = WSMessage wire | StreamFrame wire | Datagram wire

record conn_state =
  cs_queues :: outbound_queues
  cs_permission :: permission
  cs_binaryFrames :: bool
  cs_aggregateFrames :: bool
  cs_transport :: transport
  cs_sent :: "packet list"
  cs_closeSent :: "string option"

record wire_env =
  we_size :: "envelope \<Rightarrow> nat"
  we_ok :: "packet list \<Rightarrow> packet \<Rightarrow> bool"

type_synonym conn_metrics = "conn_state \<times> metrics option"

definition newWSConnection :: "connection_ticket \<Rightarrow> nat \<Rightarrow> nat \<Rightarrow> conn_state" where
  "newWSConnection ticket ephemeralQueueSize reliableQueueSize =
     \<lparr>cs_queues = newOutboundQueues ephemeralQueueSize reliableQueueSize,
      cs_permission = tk_Permission ticket, cs_binaryFrames = False, cs_aggregateFrames = False,
      cs_transport = WebSocket, cs_sent = [], cs_closeSent = None\<rparr>"

definition newWTConnection :: "connection_ticket \<Rightarrow> nat \<Rightarrow> nat \<Rightarrow> int \<Rightarrow> conn_state" where
  "newWTConnection ticket ephemeralQueueSize reliableQueueSize maxDatagram =
     \<lparr>cs_queues = newOutboundQueues ephemeralQueueSize reliableQueueSize,
      cs_permission = tk_Permission ticket, cs_binaryFrames = False, cs_aggregateFrames = False,
      cs_transport = WebTransport maxDatagram, cs_sent = [], cs_closeSent = None\<rparr>"

definition SetPermission :: "permission \<Rightarrow> conn_state \<Rightarrow> conn_state" where
  "SetPermission permission c = c\<lparr>cs_permission := permission\<rparr>"

definition EnableBinaryFrames :: "conn_state \<Rightarrow> conn_state" where
  "EnableBinaryFrames c = c\<lparr>cs_binaryFrames := True\<rparr>"

definition EnableBinaryAggregates :: "conn_state \<Rightarrow> conn_state" where
  "EnableBinaryAggregates c = c\<lparr>cs_aggregateFrames := True\<rparr>"

definition supportsBinaryFrames :: "conn_state \<Rightarrow> bool" where
  "supportsBinaryFrames c = cs_binaryFrames c"

definition supportsBinaryAggregates :: "conn_state \<Rightarrow> bool" where
  "supportsBinaryAggregates c \<longleftrightarrow> cs_binaryFrames c \<and> cs_aggregateFrames c"

section \<open>Queueing\<close>

definition observe_depth :: "outbound_queues \<Rightarrow> metrics option \<Rightarrow> metrics option" where
  "observe_depth q m = map_option (ObserveQueueDepth (PendingReliable q) (PendingEphemeral q)) m"

text \<open>True is the error of a full queue.\<close>

definition SendReliable :: "envelope \<Rightarrow> conn_metrics \<Rightarrow> bool \<times> conn_metrics" where
  "SendReliable e = (\<lambda>(c, m). let
     (err, q) = pushReliable e (cs_queues c);
     m = (if err then map_option (\<lambda>m. m\<lparr>mt_ReliableOverflow := mt_ReliableOverflow m + 1\<rparr>) m else m)
   in (err, c\<lparr>cs_queues := q\<rparr>, observe_depth q m))"

definition SendEphemeral :: "envelope \<Rightarrow> string \<Rightarrow> conn_metrics \<Rightarrow> conn_metrics" where
  "SendEphemeral e coalesceKey = (\<lambda>(c, m). let
     droppedBefore = Dropped (cs_queues c); inkBefore = DroppedInk (cs_queues c);
     q = pushEphemeral e coalesceKey (cs_queues c);
     m = map_option (\<lambda>m. m\<lparr>mt_DroppedEphemeral := mt_DroppedEphemeral m + (int (Dropped q) - int droppedBefore),
       mt_DroppedInk := mt_DroppedInk m + (int (DroppedInk q) - int inkBefore)\<rparr>) m
   in (c\<lparr>cs_queues := q\<rparr>, observe_depth q m))"

definition truncateReason :: "string \<Rightarrow> string" where
  "truncateReason reason = (if length reason > 120 then take 120 reason else reason)"

definition conn_Close :: "string \<Rightarrow> conn_state \<Rightarrow> conn_state" where
  "conn_Close reason c = (let
     alreadyClosed = isClosed (cs_queues c);
     c = c\<lparr>cs_queues := markClosedWith reason (cs_queues c)\<rparr>
   in if alreadyClosed then c else c\<lparr>cs_closeSent := Some (truncateReason reason)\<rparr>)"

section \<open>The wire form\<close>

text \<open>\<open>json.Marshal\<close> of an envelope fails only on a payload that is not JSON; a nil payload is \<open>null\<close>.\<close>

definition marshals :: "envelope \<Rightarrow> bool" where
  "marshals e \<longleftrightarrow> en_Payload e = raw_nil \<or> raw_doc (en_Payload e) \<noteq> None"

definition wireBytes :: "conn_state \<Rightarrow> envelope \<Rightarrow> wire option" where
  "wireBytes c e = (let text = (if marshals e then Some (TextFrame e) else None) in
     if supportsBinaryFrames c \<and> ClassifyEvent (en_Event e) = ClassEphemeral
     then case EncodeRelayFrame e of Some encoded \<Rightarrow> Some (BinaryFrame encoded) | None \<Rightarrow> text
     else text)"

fun wire_size :: "wire_env \<Rightarrow> wire \<Rightarrow> nat" where
  "wire_size env (TextFrame e) = we_size env e"
| "wire_size env (BinaryFrame b) = length b"

definition count_out :: "nat \<Rightarrow> metrics option \<Rightarrow> metrics option" where
  "count_out n m = map_option (\<lambda>m. m\<lparr>mt_MessagesOut := mt_MessagesOut m + 1,
     mt_OutgoingBytes := mt_OutgoingBytes m + int n\<rparr>) m"

section \<open>WebSocket writes\<close>

definition writeRaw :: "wire_env \<Rightarrow> wire \<Rightarrow> conn_metrics \<Rightarrow> bool \<times> conn_metrics" where
  "writeRaw env w = (\<lambda>(c, m).
     if we_ok env (cs_sent c) (WSMessage w)
     then (True, c\<lparr>cs_sent := cs_sent c @ [WSMessage w]\<rparr>, count_out (wire_size env w) m)
     else (False, conn_Close ''write failed'' c, m))"

definition ws_write :: "wire_env \<Rightarrow> envelope \<Rightarrow> conn_metrics \<Rightarrow> bool \<times> conn_metrics" where
  "ws_write env e = (\<lambda>(c, m). case wireBytes c e of
     None \<Rightarrow> (True, c, m)
   | Some w \<Rightarrow> writeRaw env w (c, m))"

section \<open>WebTransport writes\<close>

definition writeStreamBytes :: "wire_env \<Rightarrow> wire \<Rightarrow> conn_metrics \<Rightarrow> bool \<times> conn_metrics" where
  "writeStreamBytes env w = (\<lambda>(c, m).
     if we_ok env (cs_sent c) (StreamFrame w)
     then (True, c\<lparr>cs_sent := cs_sent c @ [StreamFrame w]\<rparr>, count_out (4 + wire_size env w) m)
     else (False, conn_Close ''stream write failed'' c, m))"

definition writeStream :: "wire_env \<Rightarrow> envelope \<Rightarrow> conn_metrics \<Rightarrow> bool \<times> conn_metrics" where
  "writeStream env e = (\<lambda>(c, m). case wireBytes c e of
     None \<Rightarrow> (True, c, m)
   | Some w \<Rightarrow> writeStreamBytes env w (c, m))"

definition max_datagram :: "conn_state \<Rightarrow> int" where
  "max_datagram c = (case cs_transport c of WebTransport n \<Rightarrow> n | WebSocket \<Rightarrow> 0)"

definition sendDatagram :: "wire_env \<Rightarrow> wire \<Rightarrow> conn_state \<Rightarrow> bool \<times> conn_state" where
  "sendDatagram env w c =
     (if we_ok env (cs_sent c) (Datagram w) then (True, c\<lparr>cs_sent := cs_sent c @ [Datagram w]\<rparr>) else (False, c))"

definition writeDatagram :: "wire_env \<Rightarrow> envelope \<Rightarrow> conn_metrics \<Rightarrow> conn_metrics" where
  "writeDatagram env e = (\<lambda>(c, m). case wireBytes c e of
     None \<Rightarrow> (c, m)
   | Some w \<Rightarrow>
       if max_datagram c > 0 \<and> int (wire_size env w) > max_datagram c then snd (writeStream env e (c, m))
       else let (ok, c) = sendDatagram env w c in (c, if ok then count_out (wire_size env w) m else m))"

lemma conn_Close_keeps [simp]:
  "oq_reliable (cs_queues (conn_Close r c)) = oq_reliable (cs_queues c)"
  "oq_ephemeralOrder (cs_queues (conn_Close r c)) = oq_ephemeralOrder (cs_queues c)"
  "oq_ephemeral (cs_queues (conn_Close r c)) = oq_ephemeral (cs_queues c)"
  "cs_sent (conn_Close r c) = cs_sent c" "cs_permission (conn_Close r c) = cs_permission c"
  "cs_binaryFrames (conn_Close r c) = cs_binaryFrames c" "cs_transport (conn_Close r c) = cs_transport c"
  "cs_aggregateFrames (conn_Close r c) = cs_aggregateFrames c"
  "isClosed (cs_queues (conn_Close r c))"
  by (auto simp: conn_Close_def Let_def markClosedWith_def isClosed_def)

lemma ws_write_keeps:
  assumes "ws_write env e (c, m) = (ok, c', m')"
  shows "oq_reliable (cs_queues c') = oq_reliable (cs_queues c)"
    and "oq_ephemeralOrder (cs_queues c') = oq_ephemeralOrder (cs_queues c)"
  using assms by (auto simp: ws_write_def writeRaw_def split: option.splits if_splits)

lemma writeStream_keeps:
  assumes "writeStream env e (c, m) = (ok, c', m')"
  shows "oq_reliable (cs_queues c') = oq_reliable (cs_queues c)"
    and "oq_ephemeralOrder (cs_queues c') = oq_ephemeralOrder (cs_queues c)"
  using assms by (auto simp: writeStream_def writeStreamBytes_def split: option.splits if_splits)

lemma writeDatagram_keeps:
  "oq_ephemeralOrder (cs_queues (fst (writeDatagram env e cm))) = oq_ephemeralOrder (cs_queues (fst cm))"
proof (cases cm)
  case (Pair c m)
  then show ?thesis
    by (cases "writeStream env e (c, m)")
      (auto simp: writeDatagram_def sendDatagram_def Let_def writeStream_keeps(2) split: option.splits)
qed

section \<open>The drains\<close>

definition begin_write :: "outbound_queues \<Rightarrow> conn_state \<Rightarrow> conn_state" where
  "begin_write q c = c\<lparr>cs_queues := beginReliableWrite q\<rparr>"

definition end_write :: "conn_state \<Rightarrow> conn_state" where
  "end_write c = c\<lparr>cs_queues := endReliableWrite (cs_queues c)\<rparr>"

function ws_drainReliable :: "wire_env \<Rightarrow> conn_metrics \<Rightarrow> bool \<times> conn_metrics" where
  "ws_drainReliable env (c, m) = (case takeReliable (cs_queues c) of
     (None, _) \<Rightarrow> (True, c, m)
   | (Some e, q) \<Rightarrow> (case ws_write env e (begin_write q c, m) of (written, c, m) \<Rightarrow>
       if written then ws_drainReliable env (end_write c, m) else (False, end_write c, m)))"
  by pat_completeness auto

function wt_drainReliable :: "wire_env \<Rightarrow> conn_metrics \<Rightarrow> bool \<times> conn_metrics" where
  "wt_drainReliable env (c, m) = (case takeReliable (cs_queues c) of
     (None, _) \<Rightarrow> (True, c, m)
   | (Some e, q) \<Rightarrow> (case writeStream env e (begin_write q c, m) of (written, c, m) \<Rightarrow>
       if written then wt_drainReliable env (end_write c, m) else (False, end_write c, m)))"
  by pat_completeness auto

lemma begin_end_write [simp]:
  "oq_reliable (cs_queues (begin_write q c)) = oq_reliable q"
  "oq_reliable (cs_queues (end_write c)) = oq_reliable (cs_queues c)"
  "cs_sent (begin_write q c) = cs_sent c" "cs_sent (end_write c) = cs_sent c"
  "cs_binaryFrames (begin_write q c) = cs_binaryFrames c" "cs_binaryFrames (end_write c) = cs_binaryFrames c"
  "isClosed (cs_queues (end_write c)) = isClosed (cs_queues c)"
  "isClosed (cs_queues (begin_write q c)) = isClosed q"
  by (simp_all add: begin_write_def end_write_def beginReliableWrite_def endReliableWrite_def isClosed_def)

termination ws_drainReliable
  by (relation "measure (\<lambda>(env, c, m). length (oq_reliable (cs_queues c)))")
    (auto simp: takeReliable_def dest!: ws_write_keeps(1) [OF sym] split: list.splits)

termination wt_drainReliable
  by (relation "measure (\<lambda>(env, c, m). length (oq_reliable (cs_queues c)))")
    (auto simp: takeReliable_def dest!: writeStream_keeps(1) [OF sym] split: list.splits)

declare ws_drainReliable.simps [simp del]
declare wt_drainReliable.simps [simp del]

abbreviation (input) "maxEphemeralAggregateFrames \<equiv> (64 :: int)"

text \<open>The inner loop over a batch: a WebSocket stops at the first failed write, WebTransport does not.\<close>

fun ws_write_batch :: "wire_env \<Rightarrow> envelope list \<Rightarrow> conn_metrics \<Rightarrow> bool \<times> conn_metrics" where
  "ws_write_batch env [] cm = (True, cm)"
| "ws_write_batch env (e # es) cm = (case ws_write env e cm of
     (True, cm) \<Rightarrow> ws_write_batch env es cm
   | (False, cm) \<Rightarrow> (False, cm))"

definition aggregate_of :: "conn_state \<Rightarrow> envelope list \<Rightarrow> bytes option" where
  "aggregate_of c batch =
     (if length batch > 1 \<and> supportsBinaryAggregates c then EncodeRelayAggregate batch else None)"

definition ws_flush_batch :: "wire_env \<Rightarrow> envelope list \<Rightarrow> conn_metrics \<Rightarrow> bool \<times> conn_metrics" where
  "ws_flush_batch env batch = (\<lambda>(c, m). case aggregate_of c batch of
     Some encoded \<Rightarrow> writeRaw env (BinaryFrame encoded) (c, m)
   | None \<Rightarrow> ws_write_batch env batch (c, m))"

definition wt_flush_batch :: "wire_env \<Rightarrow> envelope list \<Rightarrow> conn_metrics \<Rightarrow> conn_metrics" where
  "wt_flush_batch env batch = (\<lambda>(c, m). case aggregate_of c batch of
     Some encoded \<Rightarrow>
       if max_datagram c \<le> 0 \<or> int (length encoded) \<le> max_datagram c
       then (snd (sendDatagram env (BinaryFrame encoded) c), m)
       else fold (writeDatagram env) batch (c, m)
   | None \<Rightarrow> fold (writeDatagram env) batch (c, m))"

function ws_drainEphemeral :: "wire_env \<Rightarrow> conn_metrics \<Rightarrow> bool \<times> conn_metrics" where
  "ws_drainEphemeral env (c, m) = (case takeEphemeralBatch maxEphemeralAggregateFrames (cs_queues c) of
     (batch, q) \<Rightarrow>
       if batch = [] then (True, c\<lparr>cs_queues := q\<rparr>, m)
       else case ws_flush_batch env batch (c\<lparr>cs_queues := q\<rparr>, m) of
         (written, c, m) \<Rightarrow> if written then ws_drainEphemeral env (c, m) else (False, c, m))"
  by pat_completeness auto

function wt_drainEphemeral :: "wire_env \<Rightarrow> conn_metrics \<Rightarrow> bool \<times> conn_metrics" where
  "wt_drainEphemeral env (c, m) = (case takeEphemeralBatch maxEphemeralAggregateFrames (cs_queues c) of
     (batch, q) \<Rightarrow>
       if batch = [] then (True, c\<lparr>cs_queues := q\<rparr>, m)
       else wt_drainEphemeral env (wt_flush_batch env batch (c\<lparr>cs_queues := q\<rparr>, m)))"
  by pat_completeness auto

lemma ws_write_batch_order:
  "ws_write_batch env es (c, m) = (ok, c', m') \<Longrightarrow>
     oq_ephemeralOrder (cs_queues c') = oq_ephemeralOrder (cs_queues c)"
proof (induction es arbitrary: c m)
  case (Cons e es)
  obtain b c1 m1 where w: "ws_write env e (c, m) = (b, c1, m1)" by (metis prod_cases3)
  with Cons ws_write_keeps(2) [OF w] show ?case by (cases b) auto
qed simp

lemma fold_writeDatagram_order:
  "oq_ephemeralOrder (cs_queues (fst (fold (writeDatagram env) es cm))) = oq_ephemeralOrder (cs_queues (fst cm))"
  by (induction es arbitrary: cm) (simp_all add: writeDatagram_keeps)

lemma takeEphemeralBatch_shrinks:
  "takeEphemeralBatch n q = (batch, q') \<Longrightarrow> batch \<noteq> [] \<Longrightarrow>
     length (oq_ephemeralOrder q') < length (oq_ephemeralOrder q)"
  by (auto simp: takeEphemeralBatch_def Let_def case_prod_unfold split: if_splits)

lemma ws_flush_batch_order:
  "ws_flush_batch env es (c, m) = (ok, c', m') \<Longrightarrow>
     oq_ephemeralOrder (cs_queues c') = oq_ephemeralOrder (cs_queues c)"
  by (auto simp: ws_flush_batch_def writeRaw_def ws_write_batch_order split: option.splits if_splits)

lemma wt_flush_batch_order:
  "oq_ephemeralOrder (cs_queues (fst (wt_flush_batch env es cm))) = oq_ephemeralOrder (cs_queues (fst cm))"
  by (auto simp: wt_flush_batch_def sendDatagram_def fold_writeDatagram_order split: option.splits prod.splits)

termination ws_drainEphemeral
  by (relation "measure (\<lambda>(env, c, m). length (oq_ephemeralOrder (cs_queues c)))")
    (auto dest!: ws_flush_batch_order [OF sym] takeEphemeralBatch_shrinks [OF sym])

lemma takeEphemeralBatch_shrinks':
  "(batch, q') = takeEphemeralBatch n q \<Longrightarrow> batch \<noteq> [] \<Longrightarrow>
     length (oq_ephemeralOrder (cs_queues (fst (wt_flush_batch env batch (c\<lparr>cs_queues := q'\<rparr>, m))))) <
     length (oq_ephemeralOrder q)"
  using takeEphemeralBatch_shrinks [OF sym] by (simp add: wt_flush_batch_order)

termination wt_drainEphemeral
  by (relation "measure (\<lambda>(env, cm). length (oq_ephemeralOrder (cs_queues (fst cm))))")
    (simp_all add: takeEphemeralBatch_shrinks')

declare ws_drainEphemeral.simps [simp del]
declare wt_drainEphemeral.simps [simp del]

section \<open>Draining the reliable queue\<close>

text \<open>
  What both transports promise of a reliable write, and the loop they share: a frame is either
  skipped (it has no wire form), handed to the network behind everything sent before, or the
  connection closes.
\<close>

locale reliable_writer =
  fixes put :: "wire_env \<Rightarrow> envelope \<Rightarrow> conn_metrics \<Rightarrow> bool \<times> conn_metrics"
    and drain :: "wire_env \<Rightarrow> conn_metrics \<Rightarrow> bool \<times> conn_metrics"
    and pack :: "wire \<Rightarrow> packet"
  assumes drain_step: "drain env (c, m) = (case takeReliable (cs_queues c) of
       (None, _) \<Rightarrow> (True, c, m)
     | (Some e, q) \<Rightarrow> (case put env e (begin_write q c, m) of (written, c, m) \<Rightarrow>
         if written then drain env (end_write c, m) else (False, end_write c, m)))"
    and write_skips: "wireBytes c e = None \<Longrightarrow> put env e (c, m) = (True, c, m)"
    and write_sends: "wireBytes c e = Some w \<Longrightarrow> put env e (c, m) = (ok, c', m') \<Longrightarrow>
       oq_reliable (cs_queues c') = oq_reliable (cs_queues c) \<and> cs_binaryFrames c' = cs_binaryFrames c \<and>
       (if ok then cs_sent c' = cs_sent c @ [pack w] \<and> isClosed (cs_queues c') = isClosed (cs_queues c)
        else cs_sent c' = cs_sent c \<and> isClosed (cs_queues c') \<and> \<not> we_ok env (cs_sent c) (pack w))"
begin

definition packets :: "conn_state \<Rightarrow> envelope list \<Rightarrow> packet list" where
  "packets c es = List.map_filter (\<lambda>e. map_option pack (wireBytes c e)) es"

lemma wireBytes_flag: "cs_binaryFrames c = cs_binaryFrames c' \<Longrightarrow> wireBytes c = wireBytes c'"
  by (rule ext) (simp add: wireBytes_def supportsBinaryFrames_def)

lemma packets_simps [simp]:
  "packets c [] = []"
  "packets c (e # es) = (case wireBytes c e of None \<Rightarrow> packets c es | Some w \<Rightarrow> pack w # packets c es)"
  by (auto simp: packets_def List.map_filter_simps split: option.splits)

lemma packets_flag: "cs_binaryFrames c = cs_binaryFrames c' \<Longrightarrow> packets c = packets c'"
  by (rule ext) (simp add: packets_def wireBytes_flag [of c c'])

lemma drain_in_order:
  assumes "drain env (c, m) = (ok, c', m')"
  shows "(ok \<longrightarrow> oq_reliable (cs_queues c') = [] \<and>
             cs_sent c' = cs_sent c @ packets c (oq_reliable (cs_queues c))) \<and>
         (\<not> ok \<longrightarrow> isClosed (cs_queues c') \<and>
             (\<exists>sent. prefix sent (packets c (oq_reliable (cs_queues c))) \<and> cs_sent c' = cs_sent c @ sent))"
  using assms
proof (induction "oq_reliable (cs_queues c)" arbitrary: c m)
  case Nil
  then show ?case by (simp add: drain_step [of env c m] takeReliable_def)
next
  case (Cons e es)
  define q where "q = (cs_queues c)\<lparr>oq_reliable := es\<rparr>"
  have q: "oq_reliable q = es" by (simp add: q_def)
  have step: "(case put env e (begin_write q c, m) of (written, c, m) \<Rightarrow>
      if written then drain env (end_write c, m) else (False, end_write c, m)) = (ok, c', m')"
    using Cons.prems Cons.hyps(2) [symmetric] by (simp add: drain_step [of env c m] takeReliable_def q_def)
  have flag: "wireBytes (begin_write q c) = wireBytes c" by (intro wireBytes_flag) simp
  obtain b c1 m1 where w: "put env e (begin_write q c, m) = (b, c1, m1)" by (metis prod_cases3)
  show ?case
  proof (cases "wireBytes c e")
    case None
    with step write_skips [of "begin_write q c"] flag
    have d: "drain env (end_write (begin_write q c), m) = (ok, c', m')" by simp
    show ?thesis
      using Cons.hyps(1) [OF _ d] Cons.hyps(2) [symmetric] None packets_flag [of "end_write (begin_write q c)" c]
      by (simp add: q)
  next
    case (Some f)
    note ws = write_sends [of "begin_write q c", unfolded flag, OF Some w]
    have pk: "packets (end_write c1) = packets c" using ws by (intro packets_flag) simp
    show ?thesis
    proof (cases b)
      case True
      with step w have d: "drain env (end_write c1, m1) = (ok, c', m')" by simp
      show ?thesis
        using Cons.hyps(1) [OF _ d] Cons.hyps(2) [symmetric] Some ws True by (auto simp: q pk)
    next
      case False
      with step w have "\<not> ok" "c' = end_write c1" by auto
      with ws False show ?thesis by (auto intro: exI [of _ "[]"])
    qed
  qed
qed

end

interpretation ws_writer: reliable_writer ws_write ws_drainReliable WSMessage
  by unfold_locales
    (auto simp: ws_drainReliable.simps ws_write_def writeRaw_def split: if_splits)

interpretation wt_writer: reliable_writer writeStream wt_drainReliable StreamFrame
  by unfold_locales
    (auto simp: wt_drainReliable.simps writeStream_def writeStreamBytes_def split: if_splits)

section \<open>Framing of the WebTransport stream\<close>

abbreviation (input) "MaxFramePrefix \<equiv> (2 ^ 20 :: nat)"

definition be32 :: "bytes \<Rightarrow> nat" where
  "be32 bs = unat (le_value (rev bs) :: u32)"

definition stream_frame :: "bytes \<Rightarrow> bytes" where
  "stream_frame encoded = rev (le_bytes 4 (word_of_nat (length encoded) :: u32)) @ encoded"

datatype read_error = EOF | UnexpectedEOF

text \<open>\<open>io.ReadFull\<close> on a stream that ends short.\<close>

definition short_read :: "bytes \<Rightarrow> read_error" where
  "short_read bs = (if bs = [] then EOF else UnexpectedEOF)"

function readStreamFrames :: "bytes \<Rightarrow> bytes list \<times> read_error" where
  "readStreamFrames bs =
     (if length bs < 4 then ([], short_read bs)
      else let size = be32 (take 4 bs); rest = drop 4 bs in
        if size = 0 then readStreamFrames rest
        else if size > MaxFramePrefix then ([], UnexpectedEOF)
        else if length rest < size then ([], short_read rest)
        else map_prod (Cons (take size rest)) id (readStreamFrames (drop size rest)))"
  by pat_completeness auto
termination by (relation "measure length") auto

declare readStreamFrames.simps [simp del]

lemma be32_stream_frame:
  "length f < 2 ^ 32 \<Longrightarrow> be32 (take 4 (stream_frame f @ rest)) = length f"
  by (simp add: be32_def stream_frame_def le_value_exact unsigned_of_nat take_bit_nat_eq_self)

lemma read_one_frame:
  assumes "f \<noteq> []" "length f \<le> MaxFramePrefix"
  shows "readStreamFrames (stream_frame f @ rest) = map_prod (Cons f) id (readStreamFrames rest)"
proof -
  have "length f < 2 ^ 32" using assms(2) by simp
  note b = be32_stream_frame [OF this, of rest]
  have "drop 4 (stream_frame f @ rest) = f @ rest" "\<not> length (stream_frame f @ rest) < 4"
    by (simp_all add: stream_frame_def)
  with assms b show ?thesis by (subst readStreamFrames.simps) (simp add: Let_def)
qed

lemma read_cut_frame:
  assumes "f \<noteq> []" "length f \<le> MaxFramePrefix" "strict_prefix p (stream_frame f)"
  shows "fst (readStreamFrames p) = []"
proof (cases "length p < 4")
  case True
  then show ?thesis by (subst readStreamFrames.simps) simp
next
  case False
  from assms(3) obtain r where r: "stream_frame f = p @ r" "r \<noteq> []" by (auto simp: strict_prefix_def prefix_def)
  have "take 4 p = take 4 (stream_frame f @ [])" using r False by simp
  then have sz: "be32 (take 4 p) = length f" using be32_stream_frame [of f "[]"] assms(2) by simp
  have "length p < 4 + length f" using arg_cong [OF r(1), of length] r(2) by (auto simp: stream_frame_def)
  with False sz assms(1,2) show ?thesis by (subst readStreamFrames.simps) (simp add: Let_def)
qed

abbreviation framable :: "bytes list \<Rightarrow> bool" where
  "framable fs \<equiv> \<forall>f \<in> set fs. f \<noteq> [] \<and> length f \<le> MaxFramePrefix"

lemma read_all_frames: "framable fs \<Longrightarrow> readStreamFrames (concat (map stream_frame fs)) = (fs, EOF)"
proof (induction fs)
  case Nil
  then show ?case by (simp add: readStreamFrames.simps [of "[]"] short_read_def)
next
  case (Cons f fs)
  then show ?case by (simp add: read_one_frame)
qed

lemma read_some_frames:
  "prefix p (concat (map stream_frame fs)) \<Longrightarrow> framable fs \<Longrightarrow> prefix (fst (readStreamFrames p)) fs"
proof (induction fs arbitrary: p)
  case Nil
  then show ?case by (simp add: readStreamFrames.simps [of "[]"])
next
  case (Cons f fs)
  have f: "f \<noteq> []" "length f \<le> MaxFramePrefix" using Cons.prems by auto
  have "prefix p (stream_frame f) \<or> (\<exists>p'. p = stream_frame f @ p' \<and> prefix p' (concat (map stream_frame fs)))"
    using Cons.prems(1) by (auto simp: prefix_append)
  then consider "strict_prefix p (stream_frame f)"
    | p' where "p = stream_frame f @ p'" "prefix p' (concat (map stream_frame fs))"
    by (cases "p = stream_frame f") (auto simp: strict_prefix_def)
  then show ?case
  proof cases
    case 1
    from read_cut_frame [OF f 1] show ?thesis by simp
  next
    case 2
    from Cons.IH [OF 2(2)] Cons.prems(2) show ?thesis by (simp add: 2(1) read_one_frame [OF f])
  qed
qed

section \<open>Properties\<close>

text \<open>
  The framing of the reliable stream survives any cut: of the frames the peer wrote, a reader of
  any prefix of the byte stream delivers a prefix of the frames, each whole and unchanged, and a
  reader of the whole stream delivers all of them and ends with a clean end of file.
\<close>

theorem stream_framing_sound:
  assumes "\<forall>f \<in> set fs. f \<noteq> [] \<and> length f \<le> 2 ^ 20"
  shows "readStreamFrames (concat (map stream_frame fs)) = (fs, EOF) \<and>
    (\<forall>p. prefix p (concat (map stream_frame fs)) \<longrightarrow> prefix (fst (readStreamFrames p)) fs)"
  using read_all_frames [OF assms] read_some_frames [OF _ assms] by blast

theorem stream_framing_sound_witness:
  "readStreamFrames (stream_frame [1, 2] @ stream_frame [3]) = ([[1, 2], [3]], EOF)"
  using stream_framing_sound [of "[[1, 2], [3]]"] by simp

text \<open>
  C32. A drain of the reliable queue writes what was queued, in order and behind everything sent
  before, on either transport: when it succeeds the queue is empty and every frame that has a wire
  form was handed to the network; when a write fails the connection is closed and what was written
  is a prefix of the queue.
\<close>

theorem reliable_written_in_order:
  assumes "ws_drainReliable env (c, m) = (ok, c', m')"
    and "wt_drainReliable env (d, n) = (ok2, d', n')"
  shows "(if ok then oq_reliable (cs_queues c') = [] \<and>
             cs_sent c' = cs_sent c @ ws_writer.packets c (oq_reliable (cs_queues c))
           else isClosed (cs_queues c') \<and>
             (\<exists>sent. prefix sent (ws_writer.packets c (oq_reliable (cs_queues c))) \<and> cs_sent c' = cs_sent c @ sent)) \<and>
         (if ok2 then oq_reliable (cs_queues d') = [] \<and>
             cs_sent d' = cs_sent d @ wt_writer.packets d (oq_reliable (cs_queues d))
           else isClosed (cs_queues d') \<and>
             (\<exists>sent. prefix sent (wt_writer.packets d (oq_reliable (cs_queues d))) \<and> cs_sent d' = cs_sent d @ sent))"
  using ws_writer.drain_in_order [OF assms(1)] wt_writer.drain_in_order [OF assms(2)] by (simp split: if_splits)

definition example_conn_state :: "envelope list \<Rightarrow> conn_state" where
  "example_conn_state es = \<lparr>cs_queues = (newOutboundQueues 4 4)\<lparr>oq_reliable := es\<rparr>, cs_permission = PermissionEdit,
     cs_binaryFrames = False, cs_aggregateFrames = False, cs_transport = WebSocket, cs_sent = [],
     cs_closeSent = None\<rparr>"

definition example_env :: wire_env where
  "example_env = \<lparr>we_size = (\<lambda>_. 64), we_ok = (\<lambda>_ _. True)\<rparr>"

lemma example_drain:
  "fst (ws_drainReliable example_env (example_conn_state [envelope_zero], None)) = True"
  "fst (wt_drainReliable example_env (example_conn_state [envelope_zero], None)) = True"
  by (simp_all add: ws_drainReliable.simps wt_drainReliable.simps takeReliable_def example_conn_state_def example_env_def ws_write_def
      writeStream_def writeStreamBytes_def
      wireBytes_def marshals_def envelope_zero_def writeRaw_def begin_write_def end_write_def beginReliableWrite_def
      supportsBinaryFrames_def endReliableWrite_def newOutboundQueues_def Let_def)

theorem reliable_written_in_order_witness:
  "cs_sent (fst (snd (ws_drainReliable example_env (example_conn_state [envelope_zero], None)))) =
     [WSMessage (TextFrame envelope_zero)] \<and>
   cs_sent (fst (snd (wt_drainReliable example_env (example_conn_state [envelope_zero], None)))) =
     [StreamFrame (TextFrame envelope_zero)]"
proof -
  obtain c m where c: "ws_drainReliable example_env (example_conn_state [envelope_zero], None) = (True, c, m)"
    using example_drain(1) by (metis prod.collapse)
  obtain d n where d: "wt_drainReliable example_env (example_conn_state [envelope_zero], None) = (True, d, n)"
    using example_drain(2) by (metis prod.collapse)
  have w: "wireBytes (example_conn_state [envelope_zero]) envelope_zero = Some (TextFrame envelope_zero)"
    by (simp add: wireBytes_def marshals_def envelope_zero_def example_conn_state_def supportsBinaryFrames_def)
  from reliable_written_in_order [OF c d] w show ?thesis
    by (simp add: c d) (simp add: example_conn_state_def)
qed

end
