(* ===== verification/Interest_Index.thy ===== *)
theory Interest_Index
  imports Domain
begin

text \<open>
  Viewport interest: \<open>MemoryInterestIndex\<close> (\<open>internal/infrastructure/memory_interest_index.go\<close>) and
  \<open>InterestService\<close> (\<open>internal/application/interest_service.go\<close>). The index keeps the reported
  viewport of every connection and, per note, page and grid cell, the set of connections that watch
  the cell. The invariant says that the two directions agree; the operations of the port are
  specified on the viewports alone, and the cell index is shown to answer what they say.
  \<open>Interest.Cells\<close> allocates, so it can panic: an operation returns whether it panicked and the state it leaves
  (the deferred unlock releases the mutex in both cases).
\<close>

section \<open>The index\<close>

type_synonym conn_set = "(string, unit) gomap"
type_synonym cell_map = "(grid_cell, conn_set) gomap"

record interest_index =
  ix_byConnection :: "(string, interest) gomap"
  ix_byCell :: "(string, (string, cell_map) gomap) gomap"

definition NewMemoryInterestIndex :: interest_index where
  "NewMemoryInterestIndex = \<lparr>ix_byConnection = [], ix_byCell = []\<rparr>"

definition addToCellLocked ::
  "string \<Rightarrow> string \<Rightarrow> grid_cell \<Rightarrow> string \<Rightarrow> interest_index \<Rightarrow> interest_index" where
  "addToCellLocked noteID pageID cell connectionID idx =
     (let pages = gm_get [] noteID (ix_byCell idx);
          cells = gm_get [] pageID pages;
          connections = gm_get [] cell cells
      in idx\<lparr>ix_byCell := gm_put noteID
           (gm_put pageID (gm_put cell (gm_put connectionID () connections) cells) pages)
           (ix_byCell idx)\<rparr>)"

definition remove_from_cell :: "string \<Rightarrow> grid_cell \<Rightarrow> cell_map \<Rightarrow> cell_map" where
  "remove_from_cell connectionID cell cells = (case map_of cells cell of
     None \<Rightarrow> cells
   | Some connections \<Rightarrow> gm_put_or_drop cell (gm_del connectionID connections) cells)"

definition index_removeLocked :: "interest \<Rightarrow> interest_index \<Rightarrow> bool \<times> interest_index" where
  "index_removeLocked i idx = (case map_of (ix_byCell idx) (it_NoteID i) of
     None \<Rightarrow> (False, idx)
   | Some pages \<Rightarrow> (case map_of pages (it_PageID i) of
       None \<Rightarrow> (False, idx)
     | Some cells \<Rightarrow> (case Cells i of
         None \<Rightarrow> (True, idx)
       | Some cs \<Rightarrow> (let
           cells = fold (remove_from_cell (it_ConnectionID i)) cs cells;
           pages = (if cells = [] then gm_del (it_PageID i) pages else gm_put (it_PageID i) cells pages);
           byCell = (if pages = [] then gm_del (it_NoteID i) (ix_byCell idx)
                     else gm_put (it_NoteID i) pages (ix_byCell idx))
         in (False, idx\<lparr>ix_byCell := byCell\<rparr>)))))"

definition index_Update :: "interest \<Rightarrow> interest_index \<Rightarrow> bool \<times> interest_index" where
  "index_Update i idx =
     (let (panicked, idx) = (case map_of (ix_byConnection idx) (it_ConnectionID i) of
            None \<Rightarrow> (False, idx)
          | Some existing \<Rightarrow> index_removeLocked existing idx)
      in if panicked then (True, idx)
         else let idx = idx\<lparr>ix_byConnection := gm_put (it_ConnectionID i) i (ix_byConnection idx)\<rparr>
           in case Cells i of
                None \<Rightarrow> (True, idx)
              | Some cs \<Rightarrow> (False, fold (\<lambda>cell. addToCellLocked (it_NoteID i) (it_PageID i) cell
                  (it_ConnectionID i)) cs idx))"

definition index_Remove :: "string \<Rightarrow> interest_index \<Rightarrow> bool \<times> interest_index" where
  "index_Remove connectionID idx = (case map_of (ix_byConnection idx) connectionID of
     None \<Rightarrow> (False, idx)
   | Some existing \<Rightarrow> (let (panicked, idx) = index_removeLocked existing idx in
       if panicked then (True, idx)
       else (False, idx\<lparr>ix_byConnection := gm_del connectionID (ix_byConnection idx)\<rparr>)))"

definition index_Interested :: "string \<Rightarrow> event_location \<Rightarrow> interest_index \<Rightarrow> bool" where
  "index_Interested connectionID location idx = (case map_of (ix_byConnection idx) connectionID of
     None \<Rightarrow> True
   | Some i \<Rightarrow>
       if \<not> el_HasPoint location then el_PageID location = [] \<or> el_PageID location = it_PageID i
       else if el_PageID location \<noteq> [] \<and> el_PageID location \<noteq> it_PageID i then False
       else let cell = (go_div (f_to_int (el_X location)) GridCellSize,
                        go_div (f_to_int (el_Y location)) GridCellSize)
            in map_of (gm_get [] cell (gm_get [] (it_PageID i) (gm_get [] (it_NoteID i) (ix_byCell idx))))
                 connectionID \<noteq> None)"

definition index_AllowsPreview :: "string \<Rightarrow> string \<Rightarrow> interest_index \<Rightarrow> bool" where
  "index_AllowsPreview connectionID event idx = (case map_of (ix_byConnection idx) connectionID of
     None \<Rightarrow> True
   | Some i \<Rightarrow> interest_AllowsPreview i event)"

definition index_RemoveNote :: "string \<Rightarrow> interest_index \<Rightarrow> interest_index" where
  "index_RemoveNote noteID idx = idx\<lparr>ix_byCell := gm_del noteID (ix_byCell idx),
     ix_byConnection := fst (gm_delete_where (\<lambda>i. it_NoteID i = noteID) (ix_byConnection idx))\<rparr>"

definition index_Count :: "interest_index \<Rightarrow> nat" where
  "index_Count idx = length (ix_byConnection idx)"

section \<open>The service\<close>

record preview_payload =
  pv_Transform :: "bool option"
  pv_Ink :: "bool option"
  pv_Cursor :: "bool option"
  pv_Laser :: "bool option"

record interest_payload =
  ip_PageID :: string
  ip_X :: float64
  ip_Y :: float64
  ip_Width :: float64
  ip_Height :: float64
  ip_Preview :: "preview_payload option"

definition preview_payload_zero :: preview_payload where
  "preview_payload_zero = \<lparr>pv_Transform = None, pv_Ink = None, pv_Cursor = None, pv_Laser = None\<rparr>"

definition interest_payload_zero :: interest_payload where
  "interest_payload_zero = \<lparr>ip_PageID = [], ip_X = Fin 0, ip_Y = Fin 0, ip_Width = Fin 0,
     ip_Height = Fin 0, ip_Preview = None\<rparr>"

definition dec_preview_payload :: "preview_payload decoder" where
  "dec_preview_payload = dec_struct (\<lambda>k n v p.
     if EqualFold k ''transform'' then (let (b, e) = dec_ptr False dec_bool v (pv_Transform p) in (p\<lparr>pv_Transform := b\<rparr>, e))
     else if EqualFold k ''ink'' then (let (b, e) = dec_ptr False dec_bool v (pv_Ink p) in (p\<lparr>pv_Ink := b\<rparr>, e))
     else if EqualFold k ''cursor'' then (let (b, e) = dec_ptr False dec_bool v (pv_Cursor p) in (p\<lparr>pv_Cursor := b\<rparr>, e))
     else if EqualFold k ''laser'' then (let (b, e) = dec_ptr False dec_bool v (pv_Laser p) in (p\<lparr>pv_Laser := b\<rparr>, e))
     else (p, False))"

definition dec_interest_payload :: "interest_payload decoder" where
  "dec_interest_payload = dec_struct (\<lambda>k n v p.
     if EqualFold k ''pageId'' then (let (s, e) = dec_string v (ip_PageID p) in (p\<lparr>ip_PageID := s\<rparr>, e))
     else if EqualFold k ''x'' then (let (f, e) = dec_float v (ip_X p) in (p\<lparr>ip_X := f\<rparr>, e))
     else if EqualFold k ''y'' then (let (f, e) = dec_float v (ip_Y p) in (p\<lparr>ip_Y := f\<rparr>, e))
     else if EqualFold k ''width'' then (let (f, e) = dec_float v (ip_Width p) in (p\<lparr>ip_Width := f\<rparr>, e))
     else if EqualFold k ''height'' then (let (f, e) = dec_float v (ip_Height p) in (p\<lparr>ip_Height := f\<rparr>, e))
     else if EqualFold k ''preview'' then
       (let (q, e) = dec_ptr preview_payload_zero dec_preview_payload v (ip_Preview p) in (p\<lparr>ip_Preview := q\<rparr>, e))
     else (p, False))"

definition boolOr :: "bool option \<Rightarrow> bool \<Rightarrow> bool" where
  "boolOr v fallback = (case v of None \<Rightarrow> fallback | Some b \<Rightarrow> b)"

definition toDomain :: "preview_payload option \<Rightarrow> preview_preferences option" where
  "toDomain p = map_option (\<lambda>p. \<lparr>pp_Transform = boolOr (pv_Transform p) True,
     pp_Ink = boolOr (pv_Ink p) True, pp_Cursor = boolOr (pv_Cursor p) True,
     pp_Laser = boolOr (pv_Laser p) True\<rparr>) p"

text \<open>The service holds an optional index: without one nothing is recorded or filtered.\<close>

definition interest_Remove :: "string \<Rightarrow> interest_index option \<Rightarrow> bool \<times> interest_index option" where
  "interest_Remove connectionID index = (case index of
     None \<Rightarrow> (False, None)
   | Some idx \<Rightarrow> map_prod id Some (index_Remove connectionID idx))"

definition interest_Update ::
  "connection \<Rightarrow> raw \<Rightarrow> interest_index option \<Rightarrow> bool \<times> interest_index option" where
  "interest_Update conn payload index = (case index of
     None \<Rightarrow> (False, None)
   | Some idx \<Rightarrow> (let (parsed, err) = unmarshal dec_interest_payload interest_payload_zero payload in
       if err \<or> ip_PageID parsed = [] \<or> f_le (ip_Width parsed) (Fin 0) \<or> f_le (ip_Height parsed) (Fin 0)
       then map_prod id Some (index_Remove (cn_ID conn) idx)
       else map_prod id Some (index_Update
         \<lparr>it_ConnectionID = cn_ID conn, it_NoteID = cn_NoteID conn, it_PageID = ip_PageID parsed,
          it_X = ip_X parsed, it_Y = ip_Y parsed, it_Width = ip_Width parsed,
          it_Height = ip_Height parsed, it_Preview = toDomain (ip_Preview parsed)\<rparr> idx)))"

definition Interested :: "string \<Rightarrow> event_location \<Rightarrow> interest_index option \<Rightarrow> bool" where
  "Interested connectionID location index = (case index of
     None \<Rightarrow> True | Some idx \<Rightarrow> index_Interested connectionID location idx)"

definition AllowsPreview :: "string \<Rightarrow> string \<Rightarrow> interest_index option \<Rightarrow> bool" where
  "AllowsPreview connectionID event index = (case index of
     None \<Rightarrow> True | Some idx \<Rightarrow> index_AllowsPreview connectionID event idx)"

definition interest_Count :: "interest_index option \<Rightarrow> nat" where
  "interest_Count index = (case index of None \<Rightarrow> 0 | Some idx \<Rightarrow> index_Count idx)"

section \<open>The two directions agree\<close>

definition cell_conns :: "interest_index \<Rightarrow> string \<Rightarrow> string \<Rightarrow> grid_cell \<Rightarrow> conn_set" where
  "cell_conns idx n p c = gm_get [] c (gm_get [] p (gm_get [] n (ix_byCell idx)))"

abbreviation viewport :: "interest_index \<Rightarrow> string \<Rightarrow> interest option" where
  "viewport idx \<equiv> map_of (ix_byConnection idx)"

definition covers :: "interest \<Rightarrow> string \<Rightarrow> string \<Rightarrow> grid_cell \<Rightarrow> bool" where
  "covers i n p c \<longleftrightarrow> it_NoteID i = n \<and> it_PageID i = p \<and> (\<exists>cs. Cells i = Some cs \<and> c \<in> set cs)"

definition index_wf :: "interest_index \<Rightarrow> bool" where
  "index_wf idx \<longleftrightarrow> gm_wf (ix_byConnection idx) \<and>
     (\<forall>conn i. viewport idx conn = Some i \<longrightarrow> it_ConnectionID i = conn) \<and>
     (\<forall>n p c conn. map_of (cell_conns idx n p c) conn \<noteq> None \<longleftrightarrow>
        (\<exists>i. viewport idx conn = Some i \<and> covers i n p c))"

lemma index_wf_new [simp]: "index_wf NewMemoryInterestIndex"
  by (simp add: index_wf_def NewMemoryInterestIndex_def cell_conns_def)

lemma cell_conns_byConnection [simp]: "cell_conns (idx\<lparr>ix_byConnection := m\<rparr>) = cell_conns idx"
  by (simp add: cell_conns_def fun_eq_iff)

lemma gm_get_remove_from_cell:
  "gm_get [] c (remove_from_cell conn cell cells) =
    (if c = cell then gm_del conn (gm_get [] c cells) else gm_get [] c cells)"
proof (cases "map_of cells cell")
  case None
  then show ?thesis by (auto simp: remove_from_cell_def gm_get_def)
next
  case (Some conns)
  then have "gm_get [] cell cells = conns" by (simp add: gm_get_def)
  then show ?thesis using Some by (simp add: remove_from_cell_def)
qed

lemma gm_get_remove_from_cells:
  "gm_get [] c (fold (remove_from_cell conn) cs cells) =
    (if c \<in> set cs then gm_del conn (gm_get [] c cells) else gm_get [] c cells)"
  by (induction cs arbitrary: cells) (auto simp: gm_get_remove_from_cell)

lemma removeLocked_conns:
  assumes "index_removeLocked i idx = (False, idx')"
  shows "ix_byConnection idx' = ix_byConnection idx \<and> cell_conns idx' n p c =
    (if covers i n p c then gm_del (it_ConnectionID i) (cell_conns idx n p c) else cell_conns idx n p c)"
proof -
  consider "map_of (ix_byCell idx) (it_NoteID i) = None"
    | pages where "map_of (ix_byCell idx) (it_NoteID i) = Some pages" "map_of pages (it_PageID i) = None"
    | pages cells where "map_of (ix_byCell idx) (it_NoteID i) = Some pages" "map_of pages (it_PageID i) = Some cells"
    by fastforce
  then show ?thesis
  proof cases
    case 1
    with assms show ?thesis by (auto simp: index_removeLocked_def cell_conns_def covers_def gm_get_def)
  next
    case 2
    with assms show ?thesis by (auto simp: index_removeLocked_def cell_conns_def covers_def gm_get_def)
  next
    case 3
    then have g: "gm_get [] (it_NoteID i) (ix_byCell idx) = pages" "gm_get [] (it_PageID i) pages = cells"
      by (simp_all add: gm_get_def)
    from 3 assms obtain cs where cs: "Cells i = Some cs"
      by (auto simp: index_removeLocked_def split: option.splits)
    let ?cells = "fold (remove_from_cell (it_ConnectionID i)) cs cells"
    let ?pages = "gm_put_or_drop (it_PageID i) ?cells pages"
    have idx': "idx' = idx\<lparr>ix_byCell := gm_put_or_drop (it_NoteID i) ?pages (ix_byCell idx)\<rparr>"
      using 3 assms cs by (simp add: index_removeLocked_def Let_def gm_put_or_drop_def)
    show ?thesis
      unfolding idx' using g cs by (auto simp: cell_conns_def covers_def gm_get_remove_from_cells)
  qed
qed

lemma removeLocked_panic:
  "index_removeLocked i idx = (True, idx') \<Longrightarrow> idx' = idx"
  by (auto simp: index_removeLocked_def Let_def split: option.splits)

lemma addToCell_conns:
  "cell_conns (addToCellLocked n p c conn idx) n' p' c' =
    (if n' = n \<and> p' = p \<and> c' = c then gm_put conn () (cell_conns idx n p c) else cell_conns idx n' p' c')"
  "ix_byConnection (addToCellLocked n p c conn idx) = ix_byConnection idx"
  by (auto simp: addToCellLocked_def Let_def cell_conns_def)

lemma addToCells_conns:
  "(map_of (cell_conns (fold (\<lambda>c. addToCellLocked n p c conn) cs idx) n' p' c') x \<noteq> None) =
     (n' = n \<and> p' = p \<and> c' \<in> set cs \<and> x = conn \<or> map_of (cell_conns idx n' p' c') x \<noteq> None) \<and>
   ix_byConnection (fold (\<lambda>c. addToCellLocked n p c conn) cs idx) = ix_byConnection idx"
  by (induction cs arbitrary: idx) (auto simp: addToCell_conns)

text \<open>After the removal of its old viewport a connection watches no cell.\<close>

definition index_without :: "string \<Rightarrow> interest_index \<Rightarrow> interest_index \<Rightarrow> bool" where
  "index_without conn idx idx' \<longleftrightarrow> ix_byConnection idx' = ix_byConnection idx \<and>
     (\<forall>n p c x. map_of (cell_conns idx' n p c) x \<noteq> None \<longleftrightarrow>
        x \<noteq> conn \<and> (\<exists>i. viewport idx x = Some i \<and> covers i n p c))"

lemma removeLocked_without:
  assumes wf: "index_wf idx" and "viewport idx conn = Some i" and r: "index_removeLocked i idx = (False, idx')"
  shows "index_without conn idx idx'"
  using assms removeLocked_conns [OF r]
  by (auto simp: index_wf_def index_without_def simp del: map_of_eq_Some_iff)

lemma index_wf_put:
  assumes wf: "index_wf idx" and w: "index_without (it_ConnectionID i) idx idx'"
  shows "Cells i = None \<Longrightarrow> index_wf (idx'\<lparr>ix_byConnection := gm_put (it_ConnectionID i) i (ix_byConnection idx')\<rparr>)"
    and "Cells i = Some cs \<Longrightarrow> index_wf (fold (\<lambda>cell. addToCellLocked (it_NoteID i) (it_PageID i) cell (it_ConnectionID i)) cs
      (idx'\<lparr>ix_byConnection := gm_put (it_ConnectionID i) i (ix_byConnection idx')\<rparr>))"
proof -
  let ?idx = "idx'\<lparr>ix_byConnection := gm_put (it_ConnectionID i) i (ix_byConnection idx')\<rparr>"
  { assume n: "Cells i = None"
    then have "\<not> covers i n p x" for n p x by (simp add: covers_def)
    with wf w show "index_wf ?idx" by (auto simp: index_wf_def index_without_def simp del: map_of_eq_Some_iff) }
  assume s: "Cells i = Some cs"
  then have "covers i n p x \<longleftrightarrow> n = it_NoteID i \<and> p = it_PageID i \<and> x \<in> set cs" for n p x
    by (auto simp: covers_def)
  with wf w show "index_wf (fold (\<lambda>cell. addToCellLocked (it_NoteID i) (it_PageID i) cell (it_ConnectionID i)) cs ?idx)"
    unfolding index_wf_def addToCells_conns [THEN conjunct1] addToCells_conns [THEN conjunct2] index_without_def
    by (auto simp del: map_of_eq_Some_iff)
qed

lemma fresh_without:
  "index_wf idx \<Longrightarrow> viewport idx conn = None \<Longrightarrow> index_without conn idx idx"
  by (auto simp: index_wf_def index_without_def)

lemma index_wf_Update:
  assumes wf: "index_wf idx"
  shows "index_wf (snd (index_Update i idx))"
    and "fst (index_Update i idx) = False \<Longrightarrow> viewport (snd (index_Update i idx)) = (viewport idx)(it_ConnectionID i \<mapsto> i)"
proof -
  define r where "r = (case viewport idx (it_ConnectionID i) of
    None \<Rightarrow> (False, idx) | Some existing \<Rightarrow> index_removeLocked existing idx)"
  have up: "index_Update i idx = (if fst r then (True, snd r) else
      let idx = (snd r)\<lparr>ix_byConnection := gm_put (it_ConnectionID i) i (ix_byConnection (snd r))\<rparr> in
      case Cells i of None \<Rightarrow> (True, idx)
      | Some cs \<Rightarrow> (False, fold (\<lambda>cell. addToCellLocked (it_NoteID i) (it_PageID i) cell (it_ConnectionID i)) cs idx))"
    by (simp add: index_Update_def r_def case_prod_unfold Let_def)
  have same: "fst r \<Longrightarrow> snd r = idx"
    using removeLocked_panic [of _ idx] by (auto simp: r_def prod_eq_iff split: option.splits)
  have w: "\<not> fst r \<Longrightarrow> index_without (it_ConnectionID i) idx (snd r)"
    using removeLocked_without [OF wf] fresh_without [OF wf]
    by (auto simp: r_def prod_eq_iff split: option.splits)
  show "index_wf (snd (index_Update i idx))"
    using wf same index_wf_put [OF wf w] unfolding up by (auto simp: Let_def split: option.splits)
  show "fst (index_Update i idx) = False \<Longrightarrow> viewport (snd (index_Update i idx)) = (viewport idx)(it_ConnectionID i \<mapsto> i)"
    using w unfolding up by (auto simp: Let_def addToCells_conns index_without_def split: option.splits if_splits)
qed

lemma index_wf_Remove:
  assumes wf: "index_wf idx"
  shows "index_wf (snd (index_Remove conn idx))"
    and "fst (index_Remove conn idx) = False \<Longrightarrow> viewport (snd (index_Remove conn idx)) = (viewport idx)(conn := None)"
proof -
  { fix i idx'
    assume "index_without conn idx idx'"
    then have "index_wf (idx'\<lparr>ix_byConnection := gm_del conn (ix_byConnection idx')\<rparr>)"
      using wf by (auto simp: index_wf_def index_without_def simp del: map_of_eq_Some_iff) }
  then show "index_wf (snd (index_Remove conn idx))"
    using wf removeLocked_without [OF wf]
    by (auto simp: index_Remove_def split: option.splits prod.splits dest: removeLocked_panic)
  show "fst (index_Remove conn idx) = False \<Longrightarrow> viewport (snd (index_Remove conn idx)) = (viewport idx)(conn := None)"
  proof (cases "viewport idx conn")
    case None
    then show ?thesis by (simp add: index_Remove_def fun_upd_idem)
  next
    case (Some i)
    assume "fst (index_Remove conn idx) = False"
    with Some obtain idx' where r: "index_removeLocked i idx = (False, idx')"
      by (cases "index_removeLocked i idx") (auto simp: index_Remove_def split: if_splits)
    with Some removeLocked_conns [OF r] show ?thesis by (simp add: index_Remove_def)
  qed
qed

lemma index_wf_RemoveNote: "index_wf idx \<Longrightarrow> index_wf (index_RemoveNote n idx)"
  unfolding index_wf_def
  by (auto simp: index_RemoveNote_def cell_conns_def covers_def map_of_delete_where
      simp del: map_of_eq_Some_iff split: option.splits)

section \<open>The port and its contract\<close>

text \<open>
  What the relay may rely on (\<open>InterestIndex\<close> of \<open>internal/domain/interest.go\<close>): the answers depend on
  the reported viewports only. The locale is the contract, stated on the table of viewports.
\<close>

definition spec_Interested :: "(string \<Rightarrow> interest option) \<Rightarrow> string \<Rightarrow> event_location \<Rightarrow> bool" where
  "spec_Interested v conn loc = (case v conn of
     None \<Rightarrow> True
   | Some i \<Rightarrow> (el_PageID loc = [] \<or> el_PageID loc = it_PageID i) \<and>
       (el_HasPoint loc \<longrightarrow> covers i (it_NoteID i) (it_PageID i) (cellIndex (el_X loc), cellIndex (el_Y loc))))"

locale interest_port =
  fixes upd :: "interest \<Rightarrow> 's \<Rightarrow> bool \<times> 's"
    and rem :: "string \<Rightarrow> 's \<Rightarrow> bool \<times> 's"
    and interested :: "string \<Rightarrow> event_location \<Rightarrow> 's \<Rightarrow> bool"
    and view :: "'s \<Rightarrow> string \<Rightarrow> interest option"
    and wf :: "'s \<Rightarrow> bool"
  assumes wf_upd: "wf s \<Longrightarrow> wf (snd (upd i s))"
    and wf_rem: "wf s \<Longrightarrow> wf (snd (rem conn s))"
    and view_upd: "wf s \<Longrightarrow> fst (upd i s) = False \<Longrightarrow> view (snd (upd i s)) = (view s)(it_ConnectionID i \<mapsto> i)"
    and view_rem: "wf s \<Longrightarrow> fst (rem conn s) = False \<Longrightarrow> view (snd (rem conn s)) = (view s)(conn := None)"
    and interested_view: "wf s \<Longrightarrow> interested conn loc s = spec_Interested (view s) conn loc"
    and upd_cells: "fst (upd i s) = False \<Longrightarrow> Cells i \<noteq> None"
begin

text \<open>A point inside the reported rectangle is never filtered out.\<close>

lemma visible_after_update:
  assumes wf: "wf s" and ok: "upd i s = (False, s')"
    and size: "\<not> f_le (it_Width i) (Fin 0)" "\<not> f_le (it_Height i) (Fin 0)"
    and x: "f_le (it_X i) (el_X loc)" "f_le (el_X loc) (f_add (it_X i) (it_Width i))"
    and y: "f_le (it_Y i) (el_Y loc)" "f_le (el_Y loc) (f_add (it_Y i) (it_Height i))"
    and range: "in_int_range (it_X i)" "in_int_range (f_add (it_X i) (it_Width i))"
      "in_int_range (it_Y i)" "in_int_range (f_add (it_Y i) (it_Height i))"
    and page: "el_PageID loc = [] \<or> el_PageID loc = it_PageID i"
  shows "interested (it_ConnectionID i) loc s'"
proof -
  have wf': "wf s'" and v: "view s' (it_ConnectionID i) = Some i"
    using wf_upd [OF wf, of i] view_upd [OF wf, of i] ok by simp_all
  obtain cs where cs: "Cells i = Some cs" using upd_cells [of i s] ok by auto
  have rx: "in_int_range (el_X loc)" and ry: "in_int_range (el_Y loc)"
    using in_int_range_between x y range by blast+
  have "cellIndex (it_X i) \<le> cellIndex (el_X loc)"
    "cellIndex (el_X loc) \<le> cellIndex (f_add (it_X i) (it_Width i))"
    "cellIndex (it_Y i) \<le> cellIndex (el_Y loc)"
    "cellIndex (el_Y loc) \<le> cellIndex (f_add (it_Y i) (it_Height i))"
    using x y range rx ry by (auto intro: cellIndex_mono)
  then have "(cellIndex (el_X loc), cellIndex (el_Y loc)) \<in> set cs"
    unfolding set_Cells [OF cs size] by simp
  then show ?thesis using v cs page by (auto simp: interested_view [OF wf'] spec_Interested_def covers_def)
qed

end

lemma index_Interested_spec:
  "index_wf idx \<Longrightarrow> index_Interested conn loc idx = spec_Interested (viewport idx) conn loc"
  by (auto simp: index_Interested_def spec_Interested_def index_wf_def cellIndex_def cell_conns_def Let_def
      simp del: map_of_eq_Some_iff not_None_eq split: option.splits)

interpretation memory_interest: interest_port index_Update index_Remove index_Interested viewport index_wf
proof unfold_locales
  fix i and s :: interest_index
  assume "fst (index_Update i s) = False"
  then show "Cells i \<noteq> None"
    by (auto simp: index_Update_def Let_def case_prod_unfold split: if_splits option.splits)
qed (simp_all add: index_wf_Update index_wf_Remove index_Interested_spec)

section \<open>Properties\<close>

datatype index_call = CallUpdate interest | CallRemove string | CallRemoveNote string

fun index_call_step :: "index_call \<Rightarrow> interest_index \<Rightarrow> interest_index" where
  "index_call_step (CallUpdate i) idx = snd (index_Update i idx)"
| "index_call_step (CallRemove conn) idx = snd (index_Remove conn idx)"
| "index_call_step (CallRemoveNote n) idx = index_RemoveNote n idx"

lemma index_calls_wf: "index_wf idx \<Longrightarrow> index_wf (fold index_call_step calls idx)"
proof (induction calls arbitrary: idx)
  case (Cons c calls)
  then show ?case by (cases c) (auto simp: index_wf_Update index_wf_Remove index_wf_RemoveNote)
qed simp

text \<open>
  C24. The cell index refines the viewport table: in every state that viewport reports,
  disconnects and note removals can produce, the answer the cell maps give to
  \<open>Interested\<close> is the one the reported viewport of that very connection gives, whatever the other
  connections watch.
\<close>

theorem interest_refines_viewports:
  "let idx = fold index_call_step calls NewMemoryInterestIndex
   in index_Interested conn loc idx = spec_Interested (viewport idx) conn loc"
  using index_Interested_spec [OF index_calls_wf [OF index_wf_new]] by (simp add: Let_def)

text \<open>
  C25. No visible event is lost to the filter: once a viewport report of a connection was recorded,
  an event at a point inside the reported rectangle (on that page, or naming no page) is of interest
  to the connection. The corners have to be in the range of a 64-bit integer.
\<close>

theorem visible_point_never_filtered:
  assumes "index_wf idx" and "index_Update i idx = (False, idx')"
    and "\<not> f_le (it_Width i) (Fin 0)" and "\<not> f_le (it_Height i) (Fin 0)"
    and "f_le (it_X i) (el_X loc)" and "f_le (el_X loc) (f_add (it_X i) (it_Width i))"
    and "f_le (it_Y i) (el_Y loc)" and "f_le (el_Y loc) (f_add (it_Y i) (it_Height i))"
    and "in_int_range (it_X i)" and "in_int_range (f_add (it_X i) (it_Width i))"
    and "in_int_range (it_Y i)" and "in_int_range (f_add (it_Y i) (it_Height i))"
    and "el_PageID loc = [] \<or> el_PageID loc = it_PageID i"
  shows "index_Interested (it_ConnectionID i) loc idx'"
  by (rule memory_interest.visible_after_update [OF assms])

definition example_interest :: interest where
  "example_interest = \<lparr>it_ConnectionID = ''c1'', it_NoteID = ''n1'', it_PageID = ''p1'', it_X = Fin 0,
     it_Y = Fin 0, it_Width = Fin 1000, it_Height = Fin 800, it_Preview = None\<rparr>"

lemma example_Cells: "\<exists>cs. Cells example_interest = Some cs"
  by (simp add: Cells_def example_interest_def Let_def cellIndex_def go_div_def trunc_rat_def
      makeslice_ok_def wrap64_def)

theorem visible_point_never_filtered_witness:
  "index_Interested ''c1'' \<lparr>el_PageID = ''p1'', el_HasPoint = True, el_X = Fin 700, el_Y = Fin 20\<rparr>
    (snd (index_Update example_interest NewMemoryInterestIndex))"
proof -
  obtain idx' where ok: "index_Update example_interest NewMemoryInterestIndex = (False, idx')"
    using example_Cells by (auto simp: index_Update_def NewMemoryInterestIndex_def)
  have "index_Interested ''c1'' \<lparr>el_PageID = ''p1'', el_HasPoint = True, el_X = Fin 700, el_Y = Fin 20\<rparr> idx'"
    using visible_point_never_filtered [OF index_wf_new ok,
        of "\<lparr>el_PageID = ''p1'', el_HasPoint = True, el_X = Fin 700, el_Y = Fin 20\<rparr>"]
    by (simp add: example_interest_def in_int_range_def trunc_rat_def)
  then show ?thesis by (simp add: ok)
qed

definition huge_viewport :: raw where
  "huge_viewport = marshal (JObj [jmem ''pageId'' (JStr ''p''), jmem ''width'' (jint 34359738368),
     jmem ''height'' (jint 34359738368)])"

text \<open>
  A single viewport report can panic the handler: a rectangle with finite positive sides
  (here \<open>2^35\<close> units square at the origin) passes every check of \<open>InterestService.Update\<close>, and the
  slice its cells need exceeds what the runtime can allocate.
\<close>

theorem viewport_report_panics:
  "fst (interest_Update conn huge_viewport (Some NewMemoryInterestIndex))"
  by (simp add: interest_Update_def huge_viewport_def json_defs dec_interest_payload_def
      interest_payload_zero_def EqualFold_def upper_char_def Let_def
      index_Update_def NewMemoryInterestIndex_def Cells_def cellIndex_def go_div_def trunc_rat_def
      makeslice_ok_def wrap64_def)

end
