(* ===== verification/History_Previews.thy ===== *)
theory History_Previews
  imports Domain
begin

text \<open>
  Permits for undo and redo previews (\<open>internal/application/history_previews.go\<close>): the control
  channel registers them, a client's \<open>history.preview\<close> frame redeems a reference to one.
\<close>

section \<open>State and operations\<close>

record history_permit =
  hp_ID :: string
  hp_NoteID :: string
  hp_UserID :: string
  hp_ExpiresAt :: int
  hp_Payload :: raw

type_synonym history_previews = "(string, history_permit) gomap"

abbreviation (input) "maxPreviewPermits \<equiv> (1024 :: nat)"

datatype preview_error = InvalidPermit | CapacityReached | PermitExists

text \<open>\<open>json.Valid\<close> of a raw message: it holds a document.\<close>

definition json_Valid :: "raw \<Rightarrow> bool" where
  "json_Valid r \<longleftrightarrow> raw_doc r \<noteq> None"

definition Register ::
  "history_permit \<Rightarrow> time \<Rightarrow> history_previews \<Rightarrow> (preview_error, unit) outcome \<times> history_previews" where
  "Register permit now p =
     (if hp_ID permit = [] \<or> hp_NoteID permit = [] \<or> hp_UserID permit = [] \<or>
         raw_len (hp_Payload permit) > 48 * 1024 \<or> \<not> json_Valid (hp_Payload permit) \<or>
         hp_ExpiresAt permit \<le> unix_milli now \<or> hp_ExpiresAt permit > unix_milli (now + 30 * Second)
      then (Inl InvalidPermit, p)
      else let p = fst (gm_delete_where (\<lambda>item. hp_ExpiresAt item \<le> unix_milli now) p) in
        if length p \<ge> maxPreviewPermits then (Inl CapacityReached, p)
        else if map_of p (hp_ID permit) \<noteq> None then (Inl PermitExists, p)
        else (Inr (), gm_put (hp_ID permit) permit p))"

definition Revoke :: "string \<Rightarrow> string \<Rightarrow> history_previews \<Rightarrow> history_previews" where
  "Revoke noteID userID p = fst (gm_delete_where
     (\<lambda>item. hp_NoteID item = noteID \<and> (userID = [] \<or> hp_UserID item = userID)) p)"

record preview_request =
  pq_PermitID :: string
  pq_RequestID :: string
  pq_Ordinal :: int
  pq_Redo :: bool

definition dec_preview_request :: "preview_request decoder" where
  "dec_preview_request = dec_struct (\<lambda>k n v p.
     if EqualFold k ''permitId'' then (let (x, e) = dec_string v (pq_PermitID p) in (p\<lparr>pq_PermitID := x\<rparr>, e))
     else if EqualFold k ''requestId'' then (let (x, e) = dec_string v (pq_RequestID p) in (p\<lparr>pq_RequestID := x\<rparr>, e))
     else if EqualFold k ''ordinal'' then (let (x, e) = dec_uint64 v (pq_Ordinal p) in (p\<lparr>pq_Ordinal := x\<rparr>, e))
     else if EqualFold k ''redo'' then (let (x, e) = dec_bool v (pq_Redo p) in (p\<lparr>pq_Redo := x\<rparr>, e))
     else (p, False))"

text \<open>
  The document that answers a preview request. The payload of the permit appears as the document it was registered with and
  is counted with the length it was registered with; the encoder also strips its insignificant white space and escapes the
  characters of HTML, so that the length of the answer is that of the text before this rewriting. The contents are exact.
\<close>

definition preview_json :: "preview_request \<Rightarrow> history_permit \<Rightarrow> json" where
  "preview_json request permit =
     JObj [jmem ''version'' (jint 1), jmem ''requestId'' (JStr (pq_RequestID request)),
       jmem ''ordinal'' (jint (pq_Ordinal request)), jmem ''expiresAt'' (jint (hp_ExpiresAt permit)),
       (''preview'', raw_len (hp_Payload permit), case raw_doc (hp_Payload permit) of Some d \<Rightarrow> d | None \<Rightarrow> JNull),
       jmem ''redo'' (JBool (pq_Redo request))]"

definition Resolve ::
  "connection \<Rightarrow> permission \<Rightarrow> raw \<Rightarrow> time \<Rightarrow> history_previews \<Rightarrow> raw option" where
  "Resolve conn permission raw now p =
     (let (request, err) = unmarshal dec_preview_request
            \<lparr>pq_PermitID = [], pq_RequestID = [], pq_Ordinal = 0, pq_Redo = False\<rparr> raw in
      if raw_len raw > 1024 \<or> err \<or> pq_PermitID request = [] \<or> pq_RequestID request = [] \<or>
         length (pq_RequestID request) > 64 \<or> pq_Ordinal request = 0 then None
      else if permission \<noteq> PermissionEdit \<and> permission \<noteq> PermissionOwner then None
      else case map_of p (pq_PermitID request) of
        None \<Rightarrow> None
      | Some permit \<Rightarrow>
          if hp_NoteID permit \<noteq> cn_NoteID conn \<or> hp_UserID permit \<noteq> cn_UserID conn \<or>
             hp_ExpiresAt permit \<le> unix_milli now then None
          else Some (marshal (preview_json request permit)))"

section \<open>The table of permits\<close>

datatype preview_call = PRegister history_permit time | PRevoke string string

fun preview_call_step :: "preview_call \<Rightarrow> history_previews \<Rightarrow> history_previews" where
  "preview_call_step (PRegister permit now) p = snd (Register permit now p)"
| "preview_call_step (PRevoke noteID userID) p = Revoke noteID userID p"

definition previews_ok :: "history_previews \<Rightarrow> bool" where
  "previews_ok p \<longleftrightarrow> gm_wf p \<and> length p \<le> maxPreviewPermits \<and> list_all (\<lambda>(k, x). hp_ID x = k) p"

lemma previews_ok_delete_where: "previews_ok p \<Longrightarrow> previews_ok (fst (gm_delete_where P p))"
  by (auto simp: previews_ok_def gm_delete_where_eq list_all_iff intro: le_trans [OF length_filter_le])

lemma previews_ok_Register: "previews_ok p \<Longrightarrow> previews_ok (snd (Register permit now p))"
  using previews_ok_delete_where [of p "\<lambda>item. hp_ExpiresAt item \<le> unix_milli now"]
  by (auto simp: Register_def Let_def previews_ok_def length_gm_put list_all_iff set_gm_put)

lemma previews_ok_step: "previews_ok p \<Longrightarrow> previews_ok (preview_call_step call p)"
  by (cases call) (auto simp: previews_ok_Register Revoke_def previews_ok_delete_where)

lemma previews_ok_calls: "previews_ok p \<Longrightarrow> previews_ok (fold preview_call_step calls p)"
  by (induction calls arbitrary: p) (auto simp: previews_ok_step)

lemma previews_ok_entry: "previews_ok p \<Longrightarrow> map_of p k = Some x \<Longrightarrow> hp_ID x = k"
  by (auto simp: previews_ok_def list_all_iff)

text \<open>Entries come from registrations: nothing else puts a permit into the table.\<close>

fun registers :: "history_permit \<Rightarrow> preview_call \<Rightarrow> bool" where
  "registers x (PRegister permit now) \<longleftrightarrow> permit = x \<and> hp_ID x \<noteq> [] \<and> hp_NoteID x \<noteq> [] \<and> hp_UserID x \<noteq> [] \<and>
     json_Valid (hp_Payload x) \<and> unix_milli now < hp_ExpiresAt x \<and> hp_ExpiresAt x \<le> unix_milli (now + 30 * Second)"
| "registers x (PRevoke _ _) \<longleftrightarrow> False"

lemma step_origin:
  assumes "previews_ok p" "map_of (preview_call_step call p) k = Some x"
  shows "map_of p k = Some x \<or> registers x call"
proof (cases call)
  case (PRegister permit now)
  have "gm_wf p" using assms(1) by (simp add: previews_ok_def)
  with assms(2) PRegister show ?thesis
    by (auto simp: Register_def Let_def map_of_delete_where simp del: map_of_eq_Some_iff split: if_splits option.splits)
next
  case (PRevoke n u)
  have "gm_wf p" using assms(1) by (simp add: previews_ok_def)
  with assms(2) PRevoke show ?thesis
    by (auto simp: Revoke_def map_of_delete_where simp del: map_of_eq_Some_iff split: if_splits option.splits)
qed

lemma calls_origin:
  "previews_ok p \<Longrightarrow> map_of (fold preview_call_step calls p) k = Some x \<Longrightarrow>
     map_of p k = Some x \<or> (\<exists>call \<in> set calls. registers x call)"
proof (induction calls arbitrary: p)
  case (Cons call calls)
  then show ?case using step_origin [of p call k x] previews_ok_step by (auto simp del: map_of_eq_Some_iff)
qed simp

abbreviation (input) "empty_request \<equiv> \<lparr>pq_PermitID = [], pq_RequestID = [], pq_Ordinal = 0, pq_Redo = False\<rparr>"

lemma Resolve_Some:
  assumes "Resolve conn permission raw now p = Some payload"
  obtains request x where "unmarshal dec_preview_request empty_request raw = (request, False)"
    "map_of p (pq_PermitID request) = Some x" "hp_NoteID x = cn_NoteID conn" "hp_UserID x = cn_UserID conn"
    "unix_milli now < hp_ExpiresAt x" "CanDraw permission" "payload = marshal (preview_json request x)"
  using assms
  by (auto simp: Resolve_def Let_def CanDraw_def simp del: map_of_eq_Some_iff split: prod.splits if_splits option.splits)

lemma Resolve_same:
  assumes "\<And>k x. hp_NoteID x = cn_NoteID conn \<Longrightarrow> hp_UserID x = cn_UserID conn \<Longrightarrow> map_of p k = Some x \<longleftrightarrow> map_of q k = Some x"
  shows "Resolve conn permission raw now p = Resolve conn permission raw now q"
proof -
  have found: "Resolve conn permission raw now q = Some payload"
    if r: "Resolve conn permission raw now p = Some payload"
      and same: "\<And>k x. hp_NoteID x = cn_NoteID conn \<Longrightarrow> hp_UserID x = cn_UserID conn \<Longrightarrow> map_of p k = Some x \<Longrightarrow> map_of q k = Some x"
    for p q payload
  proof -
    from r obtain request x where x: "unmarshal dec_preview_request empty_request raw = (request, False)"
      "map_of p (pq_PermitID request) = Some x" "hp_NoteID x = cn_NoteID conn" "hp_UserID x = cn_UserID conn"
      by (rule Resolve_Some)
    have "Resolve conn permission raw now q = Resolve conn permission raw now p"
      unfolding Resolve_def Let_def x(1) prod.case x(2) same [OF x(3,4,2)] ..
    with r show ?thesis by simp
  qed
  show ?thesis
  proof (rule option.exhaust [of "Resolve conn permission raw now q"])
    fix payload
    assume q: "Resolve conn permission raw now q = Some payload"
    from found [OF this] assms show ?thesis unfolding q by blast
  next
    assume none: "Resolve conn permission raw now q = None"
    then show ?thesis
      using found [of p _ q] assms by (cases "Resolve conn permission raw now p") (auto simp del: map_of_eq_Some_iff)
  qed
qed

lemma Revoke_lookup:
  "gm_wf p \<Longrightarrow> map_of (Revoke n u p) k = (case map_of p k of None \<Rightarrow> None
     | Some x \<Rightarrow> if hp_NoteID x = n \<and> (u = [] \<or> hp_UserID x = u) then None else Some x)"
  by (simp add: Revoke_def map_of_delete_where)

lemma Revoke_resolves_nothing:
  assumes "gm_wf p" "u = [] \<or> u = cn_UserID conn"
  shows "Resolve conn permission raw now (Revoke (cn_NoteID conn) u p) = None"
proof (rule ccontr)
  assume "\<not> ?thesis"
  then obtain y where "Resolve conn permission raw now (Revoke (cn_NoteID conn) u p) = Some y" by blast
  then obtain request :: preview_request and z where "map_of (Revoke (cn_NoteID conn) u p) (pq_PermitID request) = Some z"
    "hp_NoteID z = cn_NoteID conn" "hp_UserID z = cn_UserID conn" by (rule Resolve_Some)
  with assms show False
    by (auto simp: Revoke_lookup simp del: map_of_eq_Some_iff split: option.splits if_splits)
qed

text \<open>What a relayed preview says: the request's own words and the permit's expiry and content.\<close>

lemma preview_json_members:
  "raw_doc (marshal (preview_json request x)) = Some (JObj ms) \<Longrightarrow>
     map_of ms ''requestId'' = Some (json_len (JStr (pq_RequestID request)), JStr (pq_RequestID request)) \<and>
     map_of ms ''ordinal'' = Some (json_len (jint (pq_Ordinal request)), jint (pq_Ordinal request)) \<and>
     map_of ms ''expiresAt'' = Some (json_len (jint (hp_ExpiresAt x)), jint (hp_ExpiresAt x)) \<and>
     map_of ms ''redo'' = Some (json_len (JBool (pq_Redo request)), JBool (pq_Redo request)) \<and>
     (\<forall>d. raw_doc (hp_Payload x) = Some d \<longrightarrow> map_of ms ''preview'' = Some (raw_len (hp_Payload x), d))"
  by (auto simp: preview_json_def marshal_def jmem_def)

section \<open>Properties\<close>

text \<open>
  C33. A preview reaches the room only under a live permit. Whatever sequence of registrations and
  revocations ran, the table holds at most 1024 permits; a request that resolves comes from an editor or owner
  and names, by its permit id, a permit that the control channel registered under that id for exactly that note and
  user, less than thirty seconds before it expires and not yet expired; and what is relayed repeats the
  request's id, ordinal and direction with the expiry and the content of that permit. Revoking the user or the whole
  note leaves nothing that resolves for that user on that note, and changes no answer for another note or user.
\<close>

theorem preview_needs_permit:
  assumes "p = fold preview_call_step calls []"
  shows "length p \<le> 1024 \<and>
    (\<forall>conn permission raw now payload. Resolve conn permission raw now p = Some payload \<longrightarrow>
      CanDraw permission \<and>
      (\<exists>request permit t content ms. unmarshal dec_preview_request empty_request raw = (request, False) \<and>
        PRegister permit t \<in> set calls \<and> hp_ID permit = pq_PermitID request \<and>
        hp_NoteID permit = cn_NoteID conn \<and> hp_UserID permit = cn_UserID conn \<and>
        unix_milli now < hp_ExpiresAt permit \<and> hp_ExpiresAt permit \<le> unix_milli (t + 30 * Second) \<and>
        raw_doc (hp_Payload permit) = Some content \<and> raw_doc payload = Some (JObj ms) \<and>
        map_option snd (map_of ms ''preview'') = Some content \<and>
        map_option snd (map_of ms ''requestId'') = Some (JStr (pq_RequestID request)) \<and>
        map_option snd (map_of ms ''ordinal'') = Some (jint (pq_Ordinal request)) \<and>
        map_option snd (map_of ms ''expiresAt'') = Some (jint (hp_ExpiresAt permit)) \<and>
        map_option snd (map_of ms ''redo'') = Some (JBool (pq_Redo request)))) \<and>
    (\<forall>conn permission raw now n u. Resolve conn permission raw now (Revoke n u p) =
       (if n = cn_NoteID conn \<and> (u = [] \<or> u = cn_UserID conn) then None else Resolve conn permission raw now p))"
proof (intro conjI allI impI)
  have ok: "previews_ok p" unfolding assms by (rule previews_ok_calls) (simp add: previews_ok_def)
  then have wf: "gm_wf p" by (simp add: previews_ok_def)
  show "length p \<le> 1024" using ok by (simp add: previews_ok_def)
  fix conn permission raw now
  show "Resolve conn permission raw now (Revoke n u p) =
      (if n = cn_NoteID conn \<and> (u = [] \<or> u = cn_UserID conn) then None else Resolve conn permission raw now p)" for n u
  proof (cases "n = cn_NoteID conn \<and> (u = [] \<or> u = cn_UserID conn)")
    case True
    with Revoke_resolves_nothing [OF wf] show ?thesis by simp
  next
    case False
    then have "Resolve conn permission raw now (Revoke n u p) = Resolve conn permission raw now p"
      by (intro Resolve_same) (auto simp: Revoke_lookup [OF wf] simp del: map_of_eq_Some_iff split: option.split)
    with False show ?thesis by (simp only: if_False)
  qed
  fix payload
  assume "Resolve conn permission raw now p = Some payload"
  then obtain request x where x: "unmarshal dec_preview_request empty_request raw = (request, False)"
    "map_of p (pq_PermitID request) = Some x" "hp_NoteID x = cn_NoteID conn" "hp_UserID x = cn_UserID conn"
    "unix_milli now < hp_ExpiresAt x" "CanDraw permission" "payload = marshal (preview_json request x)" by (rule Resolve_Some)
  show "CanDraw permission" by (rule x(6))
  from calls_origin [of "[]", OF _ x(2) [unfolded assms]] obtain call where call: "call \<in> set calls" "registers x call"
    by (auto simp: previews_ok_def)
  from call(2) have "\<exists>t content. call = PRegister x t \<and> hp_ExpiresAt x \<le> unix_milli (t + 30 * Second) \<and> raw_doc (hp_Payload x) = Some content"
    by (cases call) (auto simp: json_Valid_def)
  then obtain t content where t: "call = PRegister x t" "hp_ExpiresAt x \<le> unix_milli (t + 30 * Second)"
      "raw_doc (hp_Payload x) = Some content" by blast
  obtain ms where ms: "raw_doc (marshal (preview_json request x)) = Some (JObj ms)" by (simp add: preview_json_def marshal_def)
  from preview_json_members [OF ms] ms t call x previews_ok_entry [OF ok x(2)]
  show "\<exists>request permit t content ms. unmarshal dec_preview_request empty_request raw = (request, False) \<and>
        PRegister permit t \<in> set calls \<and> hp_ID permit = pq_PermitID request \<and>
        hp_NoteID permit = cn_NoteID conn \<and> hp_UserID permit = cn_UserID conn \<and>
        unix_milli now < hp_ExpiresAt permit \<and> hp_ExpiresAt permit \<le> unix_milli (t + 30 * Second) \<and>
        raw_doc (hp_Payload permit) = Some content \<and> raw_doc payload = Some (JObj ms) \<and>
        map_option snd (map_of ms ''preview'') = Some content \<and>
        map_option snd (map_of ms ''requestId'') = Some (JStr (pq_RequestID request)) \<and>
        map_option snd (map_of ms ''ordinal'') = Some (jint (pq_Ordinal request)) \<and>
        map_option snd (map_of ms ''expiresAt'') = Some (jint (hp_ExpiresAt permit)) \<and>
        map_option snd (map_of ms ''redo'') = Some (JBool (pq_Redo request))"
    by (intro exI [of _ request] exI [of _ x] exI [of _ t] exI [of _ content] exI [of _ ms]) simp
qed

definition example_permit :: history_permit where
  "example_permit = \<lparr>hp_ID = ''p'', hp_NoteID = ''n'', hp_UserID = ''u'', hp_ExpiresAt = 5000,
     hp_Payload = Raw 4 (Some JNull)\<rparr>"

definition example_request :: raw where
  "example_request = marshal (JObj [jmem ''permitId'' (JStr ''p''), jmem ''requestId'' (JStr ''r''),
     jmem ''ordinal'' (jint 1)])"

definition example_editor :: connection where
  "example_editor = \<lparr>cn_ID = ''c'', cn_SessionID = ''s'', cn_UserID = ''u'', cn_NoteID = ''n'',
     cn_ConnectedAt = 0, cn_Ref = 0\<rparr>"

lemma example_resolves:
  "Resolve example_editor PermissionEdit example_request 0 (fold preview_call_step [PRegister example_permit 0] []) \<noteq> None"
  by (simp add: Resolve_def Register_def example_permit_def example_request_def example_editor_def json_Valid_def
      gm_delete_where_def json_defs dec_preview_request_def EqualFold_def upper_char_def unix_milli_def gm_put_def
      escaped_len.simps digits10.simps int_lit_len_def rune_len_def)

theorem preview_needs_permit_witness:
  "\<exists>payload. Resolve example_editor PermissionEdit example_request 0 (fold preview_call_step [PRegister example_permit 0] []) = Some payload \<and>
     (\<exists>ms. raw_doc payload = Some (JObj ms) \<and> map_option snd (map_of ms ''preview'') = Some JNull)"
proof -
  from example_resolves obtain payload where
    r: "Resolve example_editor PermissionEdit example_request 0 (fold preview_call_step [PRegister example_permit 0] []) = Some payload"
    by blast
  obtain permit t content ms where m: "PRegister permit t \<in> set [PRegister example_permit 0]" "raw_doc (hp_Payload permit) = Some content"
      "raw_doc payload = Some (JObj ms)" "map_option snd (map_of ms ''preview'') = Some content"
    using preview_needs_permit [OF refl, THEN conjunct2, THEN conjunct1, rule_format, OF r] by blast
  then have "content = JNull" by (simp add: example_permit_def)
  with r m show ?thesis by blast
qed

end
