(* ===== verification/Strconv.thy ===== *)
theory Strconv
  imports Prelude
begin

text \<open>
  Decimal numbers as \<open>strconv.FormatInt\<close>, \<open>FormatUint\<close> and \<open>ParseInt\<close> write and read them, with
  the range check of 64-bit integers.
\<close>

definition dec_digit :: "nat \<Rightarrow> char" where
  "dec_digit n = char_of (48 + n mod 10)"

fun nat_dec :: "nat \<Rightarrow> string" where
  "nat_dec n = (if n < 10 then [dec_digit n] else nat_dec (n div 10) @ [dec_digit n])"

declare nat_dec.simps [simp del]

definition FormatInt :: "int \<Rightarrow> string" where
  "FormatInt i = (if i < 0 then CHR ''-'' # nat_dec (nat (- i)) else nat_dec (nat i))"

definition is_digit :: "char \<Rightarrow> bool" where
  "is_digit c \<longleftrightarrow> 48 \<le> (of_char c :: nat) \<and> (of_char c :: nat) \<le> 57"

definition digits_value :: "string \<Rightarrow> nat" where
  "digits_value s = foldl (\<lambda>n c. 10 * n + (of_char c - 48)) 0 s"

definition ParseInt :: "string \<Rightarrow> int option" where
  "ParseInt s =
     (let neg = (case s of c # _ \<Rightarrow> c = CHR ''-'' | [] \<Rightarrow> False);
          ds = (case s of c # r \<Rightarrow> if c = CHR ''-'' \<or> c = CHR ''+'' then r else s | [] \<Rightarrow> []);
          n = int (digits_value ds)
      in if ds = [] \<or> \<not> list_all is_digit ds then None
         else if \<not> neg \<and> n > max_int64 then None
         else if neg \<and> n > 2 ^ 63 then None
         else Some (if neg then - n else n))"

lemma of_char_dec_digit [simp]: "(of_char (dec_digit n) :: nat) = 48 + n mod 10"
proof -
  have "(48 + n mod 10) mod 256 = 48 + n mod 10" by simp
  then show ?thesis by (simp add: dec_digit_def del: char_of_nat)
qed

lemma nat_dec_digits: "list_all is_digit (nat_dec n)" "nat_dec n \<noteq> []" "digits_value (nat_dec n) = n"
proof -
  have "list_all is_digit (nat_dec n) \<and> nat_dec n \<noteq> [] \<and> digits_value (nat_dec n) = n"
  proof (induction n rule: nat_dec.induct)
    case (1 n)
    have d: "is_digit (dec_digit n)" by (simp add: is_digit_def)
    show ?case
    proof (cases "n < 10")
      case True
      then show ?thesis using d by (simp add: nat_dec.simps [of n] digits_value_def)
    next
      case False
      from "1.IH" [OF False] d show ?thesis
        using False by (simp add: nat_dec.simps [of n] digits_value_def)
    qed
  qed
  then show "list_all is_digit (nat_dec n)" "nat_dec n \<noteq> []" "digits_value (nat_dec n) = n" by blast+
qed

lemma ParseInt_FormatInt:
  assumes "min_int64 \<le> i" "i \<le> max_int64"
  shows "ParseInt (FormatInt i) = Some i"
proof (cases "i < 0")
  case True
  then show ?thesis using assms nat_dec_digits [of "nat (- i)"] by (simp add: ParseInt_def FormatInt_def Let_def)
next
  case False
  obtain c r where cr: "nat_dec (nat i) = c # r" using nat_dec_digits(2) by (cases "nat_dec (nat i)") auto
  then have "is_digit c" using nat_dec_digits(1) [of "nat i"] by simp
  then have "c \<noteq> CHR ''-''" "c \<noteq> CHR ''+''" by (auto simp: is_digit_def)
  with False assms cr nat_dec_digits [of "nat i"] show ?thesis
    by (simp add: ParseInt_def FormatInt_def Let_def)
qed

lemma FormatInt_newline: "CHR 0x0A \<notin> set (FormatInt i)"
proof -
  have "is_digit c" if "c \<in> set (nat_dec n)" for c n using that nat_dec_digits(1) [of n] by (simp add: list_all_iff)
  moreover have "\<not> is_digit CHR 0x0A" by (simp add: is_digit_def)
  ultimately show ?thesis by (auto simp: FormatInt_def)
qed

lemma nat_dec_inj: "nat_dec m = nat_dec n \<Longrightarrow> m = n"
  using nat_dec_digits(3) by metis

lemma nat_dec_chars: "c \<in> set (nat_dec n) \<Longrightarrow> is_digit c"
  using nat_dec_digits(1) [of n] by (simp add: list_all_iff)

end
