(* ===== verification/Room_Service.thy ===== *)
theory Room_Service
  imports Room_Store Connections Interest_Index History_Previews Strconv
begin

text \<open>
  The room service (\<open>internal/application/room_service.go\<close>): membership, presence, relay, the drain.
  Its state holds the directory, the table of live transport objects behind the directory's
  connections (addressed by \<open>cn_Ref\<close>), the shared metrics, the interest index and the history permits.
  Each operation runs at one instant \<open>now\<close> and mints its ids from \<open>newID\<close>, the function that gives
  the \<open>n\<close>-th id of the process.
\<close>

section \<open>State\<close>

record room_service =
  rs_rooms :: room_store
  rs_conns :: "nat \<Rightarrow> conn_state"
  rs_metrics :: "metrics option"
  rs_interest :: "interest_index option"
  rs_countsInterest :: bool
  rs_maxWebRTCPeers :: int
  rs_deltaSeq :: "64 word"
  rs_draining :: bool
  rs_ids :: nat
  rs_previews :: history_previews

definition NewRoomService :: "(nat \<Rightarrow> conn_state) \<Rightarrow> metrics option \<Rightarrow> room_service" where
  "NewRoomService conns m =
     \<lparr>rs_rooms = NewMemoryRoomStore, rs_conns = conns, rs_metrics = m, rs_interest = None, rs_countsInterest = False,
      rs_maxWebRTCPeers = 6, rs_deltaSeq = 0, rs_draining = False, rs_ids = 0, rs_previews = []\<rparr>"

definition SetMaxWebRTCPeers :: "int \<Rightarrow> room_service \<Rightarrow> room_service" where
  "SetMaxWebRTCPeers limit s = (if limit > 0 then s\<lparr>rs_maxWebRTCPeers := limit\<rparr> else s)"

definition SetInterest :: "interest_index option \<Rightarrow> bool \<Rightarrow> room_service \<Rightarrow> room_service" where
  "SetInterest interest hasMetrics s = s\<lparr>rs_interest := interest, rs_countsInterest := hasMetrics\<rparr>"

section \<open>Calls on one connection\<close>

definition conn_of :: "room_service \<Rightarrow> connection \<Rightarrow> conn_state" where
  "conn_of s c = rs_conns s (cn_Ref c)"

definition upd_conn :: "(conn_state \<Rightarrow> conn_state) \<Rightarrow> connection \<Rightarrow> room_service \<Rightarrow> room_service" where
  "upd_conn f c s = s\<lparr>rs_conns := (rs_conns s)(cn_Ref c := f (rs_conns s (cn_Ref c)))\<rparr>"

definition peer_SendReliable :: "envelope \<Rightarrow> connection \<Rightarrow> room_service \<Rightarrow> bool \<times> room_service" where
  "peer_SendReliable e c s = (case SendReliable e (conn_of s c, rs_metrics s) of (err, cs, m) \<Rightarrow>
     (err, s\<lparr>rs_conns := (rs_conns s)(cn_Ref c := cs), rs_metrics := m\<rparr>))"

definition peer_SendEphemeral :: "envelope \<Rightarrow> string \<Rightarrow> connection \<Rightarrow> room_service \<Rightarrow> room_service" where
  "peer_SendEphemeral e key c s = (case SendEphemeral e key (conn_of s c, rs_metrics s) of (cs, m) \<Rightarrow>
     s\<lparr>rs_conns := (rs_conns s)(cn_Ref c := cs), rs_metrics := m\<rparr>)"

definition peer_Close :: "string \<Rightarrow> connection \<Rightarrow> room_service \<Rightarrow> room_service" where
  "peer_Close reason c s = upd_conn (conn_Close reason) c s"

text \<open>Queue a reliable frame; a full queue closes the connection.\<close>

definition send_or_close :: "string \<Rightarrow> envelope \<Rightarrow> connection \<Rightarrow> room_service \<Rightarrow> bool \<times> room_service" where
  "send_or_close reason e c s = (case peer_SendReliable e c s of
     (True, s) \<Rightarrow> (True, peer_Close reason c s)
   | (False, s) \<Rightarrow> (False, s))"

section \<open>Envelopes and keys\<close>

definition service_envelope ::
  "(nat \<Rightarrow> string) \<Rightarrow> time \<Rightarrow> string \<Rightarrow> string \<Rightarrow> json \<Rightarrow> room_service \<Rightarrow> envelope \<times> room_service" where
  "service_envelope newID now noteID event payload s =
     (envelope_zero\<lparr>en_V := EnvelopeVersion, en_MessageID := newID (rs_ids s), en_Channel := ''note:'' @ noteID,
        en_Event := event, en_SentAt := unix_milli now, en_Payload := marshal payload\<rparr>,
      s\<lparr>rs_ids := Suc (rs_ids s)\<rparr>)"

record subject_fields =
  sf_StrokeID :: string
  sf_BlockID :: string
  sf_PageID :: string

definition dec_subject :: "subject_fields decoder" where
  "dec_subject = dec_struct (\<lambda>k n v p.
     if EqualFold k ''strokeId'' then (let (x, e) = dec_string v (sf_StrokeID p) in (p\<lparr>sf_StrokeID := x\<rparr>, e))
     else if EqualFold k ''blockId'' then (let (x, e) = dec_string v (sf_BlockID p) in (p\<lparr>sf_BlockID := x\<rparr>, e))
     else if EqualFold k ''pageId'' then (let (x, e) = dec_string v (sf_PageID p) in (p\<lparr>sf_PageID := x\<rparr>, e))
     else (p, False))"

definition subjectID :: "raw \<Rightarrow> string" where
  "subjectID payload =
     (let (fields, err) = unmarshal dec_subject \<lparr>sf_StrokeID = [], sf_BlockID = [], sf_PageID = []\<rparr> payload in
      if err then []
      else if sf_StrokeID fields \<noteq> [] then sf_StrokeID fields
      else if sf_BlockID fields \<noteq> [] then sf_BlockID fields
      else sf_PageID fields)"

definition isLiveInk :: "string \<Rightarrow> bool" where
  "isLiveInk event \<longleftrightarrow> event = ''ink.started'' \<or> event = ''ink.points''"

definition coalesceKey :: "string \<Rightarrow> envelope \<Rightarrow> room_service \<Rightarrow> string \<times> room_service" where
  "coalesceKey connectionID e s =
     (let key = connectionID @ ''|'' @ en_Event e @ ''|'' @ subjectID (en_Payload e) in
      if en_Event e = ''ink.points''
      then let seq = rs_deltaSeq s + 1 in (key @ ''|'' @ nat_dec (unat seq), s\<lparr>rs_deltaSeq := seq\<rparr>)
      else (key, s))"

section \<open>Broadcast\<close>

definition broadcastReliable ::
  "(nat \<Rightarrow> string) \<Rightarrow> time \<Rightarrow> string \<Rightarrow> string \<Rightarrow> string \<Rightarrow> json \<Rightarrow> room_service \<Rightarrow> room_service" where
  "broadcastReliable newID now noteID exceptConnectionID event payload s =
     (let (e, s) = service_envelope newID now noteID event payload s in
      fold (\<lambda>peer s. snd (send_or_close ''reliable queue overflow'' e peer s))
        (Peers noteID exceptConnectionID (rs_rooms s)) s)"

definition member_json :: "member \<Rightarrow> json" where
  "member_json m = JObj [jmem ''connectionId'' (JStr (mb_ConnectionID m)), jmem ''userId'' (JStr (mb_UserID m)),
     jmem ''sessionId'' (JStr (mb_SessionID m)), jmem ''joinedAt'' (jint (mb_JoinedAt m))]"

section \<open>Membership\<close>

text \<open>
  \<open>Join\<close> looks at the draining flag first and enters the room afterwards; a drain may begin between the two,
  so the second part is an operation of its own.
\<close>

definition join_room :: "(nat \<Rightarrow> string) \<Rightarrow> time \<Rightarrow> connection \<Rightarrow> room_service \<Rightarrow> room_service" where
  "join_room newID now conn s = (let
     s = s\<lparr>rs_rooms := snd (room_Join conn (rs_rooms s))\<rparr>;
     members = map MemberOf (Members (cn_NoteID conn) (rs_rooms s));
     (e, s) = service_envelope newID now (cn_NoteID conn) ''room.members''
       (JObj [jmem ''members'' (JArr (map member_json members)), jmem ''you'' (JStr (cn_ID conn))]) s;
     (_, s) = peer_SendReliable e conn s
   in broadcastReliable newID now (cn_NoteID conn) (cn_ID conn) ''presence.joined''
        (JObj [jmem ''member'' (member_json (MemberOf conn))]) s)"

definition svc_Join :: "(nat \<Rightarrow> string) \<Rightarrow> time \<Rightarrow> connection \<Rightarrow> room_service \<Rightarrow> room_service" where
  "svc_Join newID now conn s =
     (if rs_draining s then peer_Close ''server draining'' conn s else join_room newID now conn s)"

definition leave :: "(nat \<Rightarrow> string) \<Rightarrow> time \<Rightarrow> connection \<Rightarrow> bool \<Rightarrow> room_service \<Rightarrow> room_service" where
  "leave newID now conn announcePresence s =
     (let s = s\<lparr>rs_rooms := snd (room_Leave conn (rs_rooms s))\<rparr> in
      if \<not> announcePresence then s
      else broadcastReliable newID now (cn_NoteID conn) (cn_ID conn) ''presence.left''
        (JObj [jmem ''connectionId'' (JStr (cn_ID conn)), jmem ''sessionId'' (JStr (cn_SessionID conn)),
           jmem ''userId'' (JStr (cn_UserID conn))]) s)"

definition svc_Leave :: "(nat \<Rightarrow> string) \<Rightarrow> time \<Rightarrow> connection \<Rightarrow> room_service \<Rightarrow> room_service" where
  "svc_Leave newID now conn s = leave newID now conn (\<not> rs_draining s) s"

section \<open>Relay\<close>

datatype signaling_rejection = SignalingNoTarget | SignalingTargetAbsent | SignalingSelfTarget | SignalingRoomTooLarge

definition RelayToPeer ::
  "connection \<Rightarrow> envelope \<Rightarrow> room_service \<Rightarrow> (signaling_rejection, unit) outcome \<times> room_service" where
  "RelayToPeer sender e s =
     (if int (RoomSize (cn_NoteID sender) (rs_rooms s)) > rs_maxWebRTCPeers s then (Inl SignalingRoomTooLarge, s)
      else let target = SignalingTarget (en_Payload e) in
        if target = [] then (Inl SignalingNoTarget, s)
        else if target = cn_ID sender then (Inl SignalingSelfTarget, s)
        else case ConnectionByID (cn_NoteID sender) target (rs_rooms s) of
          None \<Rightarrow> (Inl SignalingTargetAbsent, s)
        | Some peer \<Rightarrow> (case send_or_close ''reliable queue overflow'' e peer s of
            (True, s) \<Rightarrow> (Inl SignalingTargetAbsent, s)
          | (False, s) \<Rightarrow> (Inr (), s)))"

text \<open>Whether the interest filter lets an ephemeral frame through to a peer.\<close>

definition wants :: "envelope \<Rightarrow> event_location \<Rightarrow> interest_index option \<Rightarrow> connection \<Rightarrow> bool" where
  "wants e location interest peer \<longleftrightarrow>
     \<not> ((\<not> isLiveInk (en_Event e) \<and> \<not> Interested (cn_ID peer) location interest) \<or>
        \<not> AllowsPreview (cn_ID peer) (en_Event e) interest)"

definition relay_ephemeral :: "connection \<Rightarrow> envelope \<Rightarrow> event_location \<Rightarrow> connection \<Rightarrow> nat \<times> room_service \<Rightarrow> nat \<times> room_service" where
  "relay_ephemeral sender e location peer = (\<lambda>(sent, s).
     if wants e location (rs_interest s) peer
     then let (key, s) = coalesceKey (cn_ID sender) e s in (Suc sent, peer_SendEphemeral e key peer s)
     else (sent, s))"

definition count_interest :: "nat \<Rightarrow> nat \<Rightarrow> room_service \<Rightarrow> room_service" where
  "count_interest sent peers s =
     (if rs_countsInterest s then s\<lparr>rs_metrics := map_option (\<lambda>m. m
        \<lparr>mt_InterestRecipientsTotal := mt_InterestRecipientsTotal m + int sent,
         mt_InterestEventsTotal := mt_InterestEventsTotal m + 1,
         mt_InterestFilteredTotal := mt_InterestFilteredTotal m + (int peers - int sent)\<rparr>) (rs_metrics s)\<rparr>
      else s)"

definition Relay :: "connection \<Rightarrow> envelope \<Rightarrow> room_service \<Rightarrow> room_service" where
  "Relay sender e s =
     (if rs_draining s then s
      else let class = ClassifyEvent (en_Event e) in
        if class = ClassSignaling then snd (RelayToPeer sender e s)
        else let peers = Peers (cn_NoteID sender) (cn_ID sender) (rs_rooms s) in
          if class = ClassEphemeral
          then let (sent, s) = fold (relay_ephemeral sender e (LocationOf (en_Payload e))) peers (0, s)
               in count_interest sent (length peers) s
          else fold (\<lambda>peer s. snd (send_or_close ''reliable queue overflow'' e peer s)) peers s)"

section \<open>Announcements and control\<close>

definition Announce ::
  "(nat \<Rightarrow> string) \<Rightarrow> time \<Rightarrow> string \<Rightarrow> string \<Rightarrow> string \<Rightarrow> json \<Rightarrow> room_service \<Rightarrow> room_service" where
  "Announce newID now noteID exceptConnectionID event payload s =
     (if rs_draining s then s else broadcastReliable newID now noteID exceptConnectionID event payload s)"

definition Notify ::
  "(nat \<Rightarrow> string) \<Rightarrow> time \<Rightarrow> connection \<Rightarrow> string \<Rightarrow> json \<Rightarrow> room_service \<Rightarrow> room_service" where
  "Notify newID now conn event payload s =
     (let (e, s) = service_envelope newID now (cn_NoteID conn) event payload s
      in snd (send_or_close ''reliable queue overflow'' e conn s))"

definition close_all :: "string \<Rightarrow> connection list \<Rightarrow> room_service \<Rightarrow> nat \<times> room_service" where
  "close_all reason conns s = (length conns, fold (peer_Close reason) conns s)"

definition DisconnectSession :: "string \<Rightarrow> string \<Rightarrow> room_service \<Rightarrow> nat \<times> room_service" where
  "DisconnectSession sessionID reason s = close_all reason (ConnectionsForSession sessionID (rs_rooms s)) s"

definition DisconnectUserFromNote :: "string \<Rightarrow> string \<Rightarrow> string \<Rightarrow> room_service \<Rightarrow> nat \<times> room_service" where
  "DisconnectUserFromNote noteID userID reason s =
     close_all reason (ConnectionsForUserOnNote noteID userID (rs_rooms s)) s"

definition ApplyPermission :: "string \<Rightarrow> permission \<Rightarrow> room_service \<Rightarrow> nat \<times> room_service" where
  "ApplyPermission sessionID permission s = (let conns = ConnectionsForSession sessionID (rs_rooms s) in
     (length conns, fold (upd_conn (SetPermission permission)) conns s))"

definition BeginDrain :: "(nat \<Rightarrow> string) \<Rightarrow> time \<Rightarrow> duration \<Rightarrow> room_service \<Rightarrow> nat \<times> room_service" where
  "BeginDrain newID now retryAfter s = (let
     s = s\<lparr>rs_draining := True\<rparr>;
     conns = AllConnections (rs_rooms s);
     payload = JObj [jmem ''retryAfterMs'' (jint (go_div retryAfter Millisecond))]
   in (length conns, fold (\<lambda>conn s.
        let (e, s) = service_envelope newID now (cn_NoteID conn) ''server.draining'' payload s
        in snd (send_or_close ''reliable queue overflow during drain'' e conn s)) conns s))"

text \<open>One poll of \<open>WaitForReliableDrain\<close>: whether anything reliable is still queued.\<close>

definition pending_reliable :: "room_service \<Rightarrow> int" where
  "pending_reliable s = sum_list (map (\<lambda>c. PendingReliable (cs_queues (conn_of s c))) (AllConnections (rs_rooms s)))"

definition CloseAll :: "string \<Rightarrow> room_service \<Rightarrow> nat \<times> room_service" where
  "CloseAll reason s = close_all reason (AllConnections (rs_rooms s)) s"

definition IsDraining :: "room_service \<Rightarrow> bool" where
  "IsDraining s = rs_draining s"

text \<open>
  \<open>WaitForReliableDrain\<close> polls, on a ticker, until nothing reliable is pending or the context's deadline
  passes. The rooms change under it: they are a function of the instant. It returns whether it saw
  nothing pending, and when. A tick that falls on the deadline loses against it.
\<close>

definition drain_interval :: "duration \<Rightarrow> duration" where
  "drain_interval d = (if d \<le> 0 then 10 * Millisecond else d)"

function WaitForReliableDrain :: "(time \<Rightarrow> room_service) \<Rightarrow> time \<Rightarrow> duration \<Rightarrow> time \<Rightarrow> bool \<times> time" where
  "WaitForReliableDrain rooms deadline interval now =
     (if pending_reliable (rooms now) = 0 then (True, now)
      else if deadline \<le> now + drain_interval interval then (False, max now deadline)
      else WaitForReliableDrain rooms deadline interval (now + drain_interval interval))"
  by pat_completeness auto
termination by (relation "measure (\<lambda>(_, deadline, _, now). nat (deadline - now))") (auto simp: drain_interval_def split: if_splits)

declare WaitForReliableDrain.simps [simp del]

section \<open>Actions on the connections of a list\<close>

text \<open>
  An action on one connection changes the state behind its address by \<open>eff\<close> and nothing else of the
  table; run over connections with distinct addresses it changes each of them once.
\<close>

abbreviation same_service :: "room_service \<Rightarrow> room_service \<Rightarrow> bool" where
  "same_service s t \<equiv> rs_rooms s = rs_rooms t \<and> rs_interest s = rs_interest t \<and> rs_draining s = rs_draining t \<and>
     rs_previews s = rs_previews t \<and> rs_maxWebRTCPeers s = rs_maxWebRTCPeers t \<and>
     rs_countsInterest s = rs_countsInterest t"

locale conn_action =
  fixes act :: "connection \<Rightarrow> room_service \<Rightarrow> room_service"
    and eff :: "conn_state \<Rightarrow> conn_state"
  assumes act_conns: "rs_conns (act c s) = (rs_conns s)(cn_Ref c := eff (rs_conns s (cn_Ref c)))"
    and act_frame: "same_service (act c s) s"
begin

lemma fold_conns:
  "distinct (map cn_Ref cs) \<Longrightarrow> rs_conns (fold act cs s) x =
     (if x \<in> cn_Ref ` set cs then eff (rs_conns s x) else rs_conns s x)"
  by (induction cs arbitrary: s) (auto simp: act_conns)

lemma fold_frame: "same_service (fold act cs s) s"
proof (induction cs arbitrary: s)
  case (Cons c cs)
  then show ?case using act_frame [of c s] by (metis fold_simps(2))
qed simp

end

text \<open>What a reliable send leaves behind in the receiver.\<close>

definition deliver :: "string \<Rightarrow> envelope \<Rightarrow> conn_state \<Rightarrow> conn_state" where
  "deliver reason e c = (case pushReliable e (cs_queues c) of (err, q) \<Rightarrow>
     if err then conn_Close reason (c\<lparr>cs_queues := q\<rparr>) else c\<lparr>cs_queues := q\<rparr>)"

interpretation sending: conn_action "\<lambda>c s. snd (send_or_close r e c s)" "deliver r e" for r e
  by unfold_locales
    (auto simp: send_or_close_def peer_SendReliable_def peer_Close_def upd_conn_def SendReliable_def deliver_def conn_of_def
      Let_def case_prod_unfold split: if_splits bool.splits)

interpretation closing: conn_action "peer_Close r" "conn_Close r" for r
  by unfold_locales (simp_all add: peer_Close_def upd_conn_def)

interpretation permitting: conn_action "upd_conn (SetPermission p)" "SetPermission p" for p
  by unfold_locales (simp_all add: upd_conn_def)

lemma deliver_open:
  "\<not> isClosed (cs_queues c) \<Longrightarrow> length (oq_reliable (cs_queues c)) < oq_reliableSize (cs_queues c) \<Longrightarrow>
     oq_reliable (cs_queues (deliver r e c)) = oq_reliable (cs_queues c) @ [e] \<and> \<not> isClosed (cs_queues (deliver r e c))"
  by (simp add: deliver_def pushReliable_def signal_def isClosed_def)

lemma deliver_full:
  "\<not> isClosed (cs_queues c) \<Longrightarrow> \<not> length (oq_reliable (cs_queues c)) < oq_reliableSize (cs_queues c) \<Longrightarrow>
     deliver r e c = conn_Close r c"
  by (simp add: deliver_def pushReliable_def)

lemma deliver_closed: "isClosed (cs_queues c) \<Longrightarrow> deliver r e c = c"
  by (simp add: deliver_def pushReliable_def)

lemma CloseReason_conn_Close:
  "\<not> isClosed (cs_queues c) \<Longrightarrow> CloseReason (cs_queues (conn_Close r c)) = r"
  by (simp add: conn_Close_def Let_def markClosedWith_def CloseReason_def isClosed_def)

section \<open>Well-formed services\<close>

text \<open>The directory is keyed correctly and no two of its connections share a transport object.\<close>

definition svc_wf :: "room_service \<Rightarrow> bool" where
  "svc_wf s \<longleftrightarrow> room_wf (rs_rooms s) \<and> inj_on cn_Ref (set (AllConnections (rs_rooms s)))"

lemma svc_wf_same: "same_service s t \<Longrightarrow> svc_wf t \<Longrightarrow> svc_wf s"
  by (simp add: svc_wf_def)

lemma peers_refs:
  assumes "svc_wf s"
  shows "distinct (map cn_Ref (Peers n x (rs_rooms s)))"
proof -
  have "set (Peers n x (rs_rooms s)) \<subseteq> set (AllConnections (rs_rooms s))"
    using assms memory_rooms.peers_everyone by (auto simp: svc_wf_def)
  then show ?thesis
    using assms memory_rooms.distinct_peers inj_on_subset by (auto simp: svc_wf_def distinct_map)
qed

lemma session_refs:
  assumes "svc_wf s"
  shows "distinct (map cn_Ref (ConnectionsForSession sid (rs_rooms s)))"
proof -
  have "ConnectionsForSession sid (rs_rooms s) = filter (\<lambda>c. cn_SessionID c = sid) (AllConnections (rs_rooms s))"
    by (simp add: ConnectionsForSession_def AllConnections_def filter_concat comp_def case_prod_unfold filter_map)
  with assms show ?thesis
    by (auto simp: svc_wf_def distinct_map memory_rooms.distinct_everyone intro: inj_on_subset)
qed

section \<open>The ephemeral relay\<close>

definition eph_key_base :: "string \<Rightarrow> envelope \<Rightarrow> string" where
  "eph_key_base cid e = cid @ ''|'' @ en_Event e @ ''|'' @ subjectID (en_Payload e)"

definition push_to :: "envelope \<Rightarrow> string \<Rightarrow> conn_state \<Rightarrow> conn_state" where
  "push_to e key c = c\<lparr>cs_queues := pushEphemeral e key (cs_queues c)\<rparr>"

definition stream_key :: "string \<Rightarrow> envelope \<Rightarrow> string \<Rightarrow> bool" where
  "stream_key cid e key \<longleftrightarrow> (if en_Event e = ''ink.points'' then \<exists>n. key = eph_key_base cid e @ ''|'' @ nat_dec n
     else key = eph_key_base cid e)"

lemma coalesceKey_stream: "stream_key cid e (fst (coalesceKey cid e s))"
  by (auto simp: stream_key_def coalesceKey_def eph_key_base_def Let_def)

lemma coalesceKey_frame [simp]:
  "rs_conns (snd (coalesceKey cid e s)) = rs_conns s" "same_service (snd (coalesceKey cid e s)) s"
  "rs_metrics (snd (coalesceKey cid e s)) = rs_metrics s"
  by (auto simp: coalesceKey_def Let_def)

lemma peer_SendEphemeral_frame [simp]:
  "rs_conns (peer_SendEphemeral e key c s) = (rs_conns s)(cn_Ref c := push_to e key (rs_conns s (cn_Ref c)))"
  "same_service (peer_SendEphemeral e key c s) s"
  by (auto simp: peer_SendEphemeral_def SendEphemeral_def push_to_def conn_of_def Let_def)

lemma relay_ephemeral_step:
  assumes "relay_ephemeral sender e loc p (n, s) = (n', s')"
  shows "same_service s' s \<and> n' = (if wants e loc (rs_interest s) p then Suc n else n) \<and>
    (if wants e loc (rs_interest s) p
     then \<exists>key. stream_key (cn_ID sender) e key \<and>
            rs_conns s' = (rs_conns s)(cn_Ref p := push_to e key (rs_conns s (cn_Ref p)))
     else rs_conns s' = rs_conns s)"
  using assms coalesceKey_stream [of "cn_ID sender" e s]
  by (auto simp: relay_ephemeral_def Let_def case_prod_unfold split: if_splits)

lemma relay_ephemeral_fold:
  assumes "fold (relay_ephemeral sender e loc) ps (n, s) = (n', s')" "distinct (map cn_Ref ps)"
  shows "same_service s' s \<and> n' = n + length (filter (wants e loc (rs_interest s)) ps) \<and>
    (\<forall>x. x \<notin> cn_Ref ` set (filter (wants e loc (rs_interest s)) ps) \<longrightarrow> rs_conns s' x = rs_conns s x) \<and>
    (\<forall>p \<in> set ps. wants e loc (rs_interest s) p \<longrightarrow>
       (\<exists>key. stream_key (cn_ID sender) e key \<and> rs_conns s' (cn_Ref p) = push_to e key (rs_conns s (cn_Ref p))))"
  using assms
proof (induction ps arbitrary: n s)
  case (Cons p ps)
  obtain n1 s1 where st: "relay_ephemeral sender e loc p (n, s) = (n1, s1)" by fastforce
  note a = relay_ephemeral_step [OF st]
  have int: "rs_interest s1 = rs_interest s" using a by simp
  have d: "cn_Ref p \<notin> cn_Ref ` set ps" "distinct (map cn_Ref ps)" using Cons.prems(2) by auto
  have "fold (relay_ephemeral sender e loc) ps (n1, s1) = (n', s')" using Cons.prems(1) st by simp
  note b = Cons.IH [OF this d(2), unfolded int]
  have p: "rs_conns s' (cn_Ref p) = rs_conns s1 (cn_Ref p)" using b d(1) by auto
  have others: "rs_conns s1 x = rs_conns s x" if "x \<noteq> cn_Ref p" for x
    using a that by (auto split: if_splits)
  have "same_service s' s" using a b by simp
  moreover have "n' = n + length (filter (wants e loc (rs_interest s)) (p # ps))" using a b by simp
  moreover have "\<forall>x. x \<notin> cn_Ref ` set (filter (wants e loc (rs_interest s)) (p # ps)) \<longrightarrow> rs_conns s' x = rs_conns s x"
    using a b others by (auto split: if_splits)
  moreover have "\<exists>key. stream_key (cn_ID sender) e key \<and> rs_conns s' (cn_Ref q) = push_to e key (rs_conns s (cn_Ref q))"
    if q: "q \<in> set (p # ps)" "wants e loc (rs_interest s) q" for q
  proof (cases "q = p")
    case True
    with a q p show ?thesis by (auto split: if_splits)
  next
    case False
    with q have ps: "q \<in> set ps" by simp
    with d(1) have "cn_Ref q \<noteq> cn_Ref p" by (metis imageI)
    with b q ps others show ?thesis by metis
  qed
  ultimately show ?case by blast
qed simp

lemma count_interest_frame [simp]:
  "rs_conns (count_interest a b s) = rs_conns s" "same_service (count_interest a b s) s"
  by (auto simp: count_interest_def)

lemma Relay_ephemeral:
  fixes sender :: connection
  assumes "svc_wf s" "\<not> rs_draining s" "ClassifyEvent (en_Event e) = ClassEphemeral"
  defines "peers \<equiv> Peers (cn_NoteID sender) (cn_ID sender) (rs_rooms s)"
    and "W \<equiv> wants e (LocationOf (en_Payload e)) (rs_interest s)"
  shows "(\<forall>x. x \<notin> cn_Ref ` set (filter W peers) \<longrightarrow> rs_conns (Relay sender e s) x = rs_conns s x) \<and>
    (\<forall>p \<in> set peers. W p \<longrightarrow> (\<exists>key. stream_key (cn_ID sender) e key \<and>
       rs_conns (Relay sender e s) (cn_Ref p) = push_to e key (rs_conns s (cn_Ref p))))"
proof -
  obtain n s1 where f: "fold (relay_ephemeral sender e (LocationOf (en_Payload e))) peers (0, s) = (n, s1)" by fastforce
  have "Relay sender e s = count_interest n (length peers) s1"
    using assms(2,3) f by (simp add: Relay_def peers_def Let_def)
  with relay_ephemeral_fold [OF f] peers_refs [OF assms(1)] show ?thesis
    unfolding peers_def W_def by simp
qed

section \<open>Where a relayed frame can end up\<close>

lemma RelayToPeer_target:
  assumes "rs_conns (snd (RelayToPeer sender e s)) x \<noteq> rs_conns s x"
  obtains p where "ConnectionByID (cn_NoteID sender) (SignalingTarget (en_Payload e)) (rs_rooms s) = Some p"
    "x = cn_Ref p" "SignalingTarget (en_Payload e) \<noteq> cn_ID sender"
    "int (RoomSize (cn_NoteID sender) (rs_rooms s)) \<le> rs_maxWebRTCPeers s"
    "rs_conns (snd (RelayToPeer sender e s)) x = deliver ''reliable queue overflow'' e (rs_conns s x)"
proof -
  have *: "int (RoomSize (cn_NoteID sender) (rs_rooms s)) \<le> rs_maxWebRTCPeers s \<and>
      SignalingTarget (en_Payload e) \<noteq> cn_ID sender \<and>
      (\<exists>p. ConnectionByID (cn_NoteID sender) (SignalingTarget (en_Payload e)) (rs_rooms s) = Some p \<and>
        snd (RelayToPeer sender e s) = snd (send_or_close ''reliable queue overflow'' e p s))"
    using assms by (auto simp: RelayToPeer_def Let_def split: if_splits option.splits prod.splits bool.splits)
  then obtain p where p: "ConnectionByID (cn_NoteID sender) (SignalingTarget (en_Payload e)) (rs_rooms s) = Some p"
    "snd (RelayToPeer sender e s) = snd (send_or_close ''reliable queue overflow'' e p s)" by blast
  with assms have "x = cn_Ref p" by (auto simp: sending.act_conns split: if_splits)
  with p * show ?thesis by (intro that [of p]) (simp_all add: sending.act_conns)
qed

lemma RelayToPeer_accepted:
  assumes "RelayToPeer sender e s = (Inr (), s')"
  obtains p where "ConnectionByID (cn_NoteID sender) (SignalingTarget (en_Payload e)) (rs_rooms s) = Some p"
    "send_or_close ''reliable queue overflow'' e p s = (False, s')"
proof -
  let ?target = "ConnectionByID (cn_NoteID sender) (SignalingTarget (en_Payload e)) (rs_rooms s)"
  have *: "(case ?target of None \<Rightarrow> (Inl SignalingTargetAbsent, s)
      | Some peer \<Rightarrow> (case send_or_close ''reliable queue overflow'' e peer s of
          (True, s) \<Rightarrow> (Inl SignalingTargetAbsent, s) | (False, s) \<Rightarrow> (Inr (), s))) = (Inr (), s')"
    using assms unfolding RelayToPeer_def Let_def by (meson Inl_Inr_False fst_conv prod.inject)
  then obtain p where p: "?target = Some p" by (cases ?target) simp_all
  obtain b t where bt: "send_or_close ''reliable queue overflow'' e p s = (b, t)" by fastforce
  with * p have "\<not> b" "t = s'" by (cases b; simp)+
  with p bt that show ?thesis by simp
qed

lemma send_or_close_accepted:
  assumes "send_or_close r e p s = (False, s')"
  shows "isClosed (cs_queues (conn_of s p)) \<or>
    oq_reliable (cs_queues (conn_of s' p)) = oq_reliable (cs_queues (conn_of s p)) @ [e]"
proof -
  have "\<not> fst (pushReliable e (cs_queues (conn_of s p)))"
    using assms by (auto simp: send_or_close_def peer_SendReliable_def SendReliable_def Let_def case_prod_unfold split: bool.splits)
  then have "isClosed (cs_queues (conn_of s p)) \<or>
      length (oq_reliable (cs_queues (conn_of s p))) < oq_reliableSize (cs_queues (conn_of s p))"
    by (auto simp: pushReliable_def split: if_splits)
  moreover have "conn_of s' p = deliver r e (conn_of s p)"
    using sending.act_conns [where r = r and e = e and c = p and s = s] assms by (simp add: conn_of_def)
  ultimately show ?thesis using deliver_open by metis
qed

lemma RelayToPeer_frame: "same_service (snd (RelayToPeer sender e s)) s"
proof -
  have "same_service s' s" if "send_or_close r e peer s = (b, s')" for r peer b s'
    using sending.act_frame [of r e peer s] that by simp
  then show ?thesis by (auto simp: RelayToPeer_def Let_def split: option.split prod.split bool.split)
qed

lemma Relay_frame: "same_service (Relay sender e s) s"
proof -
  have one: "same_service (snd (relay_ephemeral sender e loc p ns)) (snd ns)" for loc p ns
    by (cases ns) (auto simp: relay_ephemeral_def Let_def case_prod_unfold)
  have "same_service (snd (fold (relay_ephemeral sender e loc) ps ns)) (snd ns)" for loc ps ns
  proof (induction ps arbitrary: ns)
    case (Cons p ps)
    show ?case using Cons [of "relay_ephemeral sender e loc p ns"] one [of loc p ns] by simp
  qed simp
  from this [of "LocationOf (en_Payload e)" _ "(0, s)"] show ?thesis
    using RelayToPeer_frame [of sender e s] sending.fold_frame [of "''reliable queue overflow''" e]
    by (simp add: Relay_def Let_def case_prod_unfold)
qed

lemma Relay_confined:
  assumes "svc_wf s" "rs_conns (Relay sender e s) x \<noteq> rs_conns s x"
  shows "\<exists>p \<in> set (Peers (cn_NoteID sender) (cn_ID sender) (rs_rooms s)). cn_Ref p = x"
proof -
  have nd: "\<not> rs_draining s" using assms(2) by (auto simp: Relay_def)
  let ?peers = "Peers (cn_NoteID sender) (cn_ID sender) (rs_rooms s)"
  have wf: "room_wf (rs_rooms s)" using assms(1) by (simp add: svc_wf_def)
  consider "ClassifyEvent (en_Event e) = ClassSignaling" | "ClassifyEvent (en_Event e) = ClassEphemeral"
    | "ClassifyEvent (en_Event e) \<noteq> ClassSignaling" "ClassifyEvent (en_Event e) \<noteq> ClassEphemeral" by blast
  then show ?thesis
  proof cases
    case 1
    with assms(2) nd have "rs_conns (snd (RelayToPeer sender e s)) x \<noteq> rs_conns s x" by (simp add: Relay_def)
    then obtain p where p: "ConnectionByID (cn_NoteID sender) (SignalingTarget (en_Payload e)) (rs_rooms s) = Some p"
      "x = cn_Ref p" "SignalingTarget (en_Payload e) \<noteq> cn_ID sender" by (rule RelayToPeer_target)
    with memory_rooms.by_id_key [OF wf p(1)] show ?thesis
      by (intro bexI [of _ p]) (simp_all add: memory_rooms.set_peers [OF wf])
  next
    case 2
    have "x \<in> cn_Ref ` set (filter (wants e (LocationOf (en_Payload e)) (rs_interest s)) ?peers)"
      using conjunct1 [OF Relay_ephemeral [OF assms(1) nd 2, of sender]] assms(2) by blast
    then show ?thesis by auto
  next
    case 3
    with assms(2) nd sending.fold_conns [OF peers_refs [OF assms(1)]] show ?thesis
      by (auto simp: Relay_def Let_def split: if_splits)
  qed
qed

lemma Relay_reliable:
  assumes "svc_wf s" "\<not> rs_draining s" "ClassifyEvent (en_Event e) = ClassReliable"
    and "p \<in> set (Peers (cn_NoteID sender) (cn_ID sender) (rs_rooms s))"
  shows "conn_of (Relay sender e s) p = deliver ''reliable queue overflow'' e (conn_of s p)"
  using assms sending.fold_conns [OF peers_refs [OF assms(1)]] by (simp add: Relay_def Let_def conn_of_def)

lemma append_at_bar:
  "CHR ''|'' \<notin> set a \<Longrightarrow> CHR ''|'' \<notin> set b \<Longrightarrow> a @ CHR ''|'' # x = b @ CHR ''|'' # y \<longleftrightarrow> a = b \<and> x = y"
  by (auto simp: append_eq_append_conv2 append_eq_Cons_conv Cons_eq_append_conv)

lemma append_at_last_bar:
  assumes "CHR ''|'' \<notin> set x" "CHR ''|'' \<notin> set y" "a @ CHR ''|'' # x = b @ CHR ''|'' # y"
  shows "a = b \<and> x = y"
proof -
  have "rev x @ CHR ''|'' # rev a = rev y @ CHR ''|'' # rev b" using arg_cong [OF assms(3), of rev] by simp
  with append_at_bar [of "rev x" "rev y" "rev a" "rev b"] assms(1,2) show ?thesis by simp
qed

lemma nat_dec_bar: "CHR ''|'' \<notin> set (nat_dec n)"
proof
  assume "CHR ''|'' \<in> set (nat_dec n)"
  from nat_dec_chars [OF this] show False by (simp add: is_digit_def)
qed

lemma ephemeral_no_bar: "ClassifyEvent event = ClassEphemeral \<Longrightarrow> CHR ''|'' \<notin> set event"
  unfolding ClassEphemeral_iff by (auto simp: ephemeralEvents_def)

section \<open>An example room\<close>

definition example_member :: "nat \<Rightarrow> string \<Rightarrow> connection" where
  "example_member ref cid = \<lparr>cn_ID = cid, cn_SessionID = ''s-'' @ cid, cn_UserID = ''u-'' @ cid, cn_NoteID = ''n'',
     cn_ConnectedAt = 0, cn_Ref = ref\<rparr>"

abbreviation "alice \<equiv> example_member 2 ''a''"
abbreviation "bob \<equiv> example_member 3 ''b''"

definition example_service :: room_service where
  "example_service = (NewRoomService (\<lambda>_. example_conn_state []) None)
     \<lparr>rs_rooms := \<lparr>rm_rooms = [(''n'', [(''a'', alice), (''b'', bob)])]\<rparr>\<rparr>"

lemma example_service_simps [simp]:
  "rs_conns example_service x = example_conn_state []" "rs_interest example_service = None"
  "rs_draining example_service = False" "rs_rooms example_service = \<lparr>rm_rooms = [(''n'', [(''a'', alice), (''b'', bob)])]\<rparr>"
  "rs_maxWebRTCPeers example_service = 6" "conn_of example_service c = example_conn_state []"
  by (simp_all add: example_service_def NewRoomService_def conn_of_def)

lemma example_member_simps [simp]:
  "cn_ID (example_member r c) = c" "cn_NoteID (example_member r c) = ''n''" "cn_Ref (example_member r c) = r"
  by (simp_all add: example_member_def)

lemma example_conn_state_simps [simp]:
  "oq_reliable (cs_queues (example_conn_state es)) = es" "oq_reliableSize (cs_queues (example_conn_state es)) = 4"
  "isClosed (cs_queues (example_conn_state es)) = False"
  by (simp_all add: example_conn_state_def newOutboundQueues_def isClosed_def)

lemma example_everyone [simp]: "AllConnections \<lparr>rm_rooms = [(''n'', [(''a'', alice), (''b'', bob)])]\<rparr> = [alice, bob]"
  by (simp add: AllConnections_def)

lemma example_svc_wf: "svc_wf example_service"
  by (auto simp: svc_wf_def room_wf_def room_keyed_def)

definition example_frame :: "string \<Rightarrow> envelope" where
  "example_frame event = envelope_zero\<lparr>en_Event := event\<rparr>"

definition example_offer :: envelope where
  "example_offer = (example_frame ''rtc.offer'')\<lparr>en_Payload := marshal (JObj [jmem ''target'' (JStr ''b'')])\<rparr>"

lemma example_classes:
  "ClassifyEvent (en_Event (example_frame ''ink.commit'')) = ClassReliable"
  "ClassifyEvent (en_Event (example_frame ''cursor.moved'')) = ClassEphemeral"
  "ClassifyEvent (en_Event (example_frame ''ink.points'')) = ClassEphemeral"
  by (simp_all add: example_frame_def ClassEphemeral_iff ephemeralEvents_def ClassifyEvent_reliable reliableEvents_def)

lemma example_target: "SignalingTarget (en_Payload example_offer) = ''b''"
  by (simp add: example_offer_def SignalingTarget_def json_defs EqualFold_def upper_char_def ascii_def)

lemma example_accepts: "\<exists>s'. RelayToPeer alice example_offer example_service = (Inr (), s')"
  by (simp add: RelayToPeer_def example_target RoomSize_def room_of_def gm_get_def ConnectionByID_def send_or_close_def
      peer_SendReliable_def SendReliable_def pushReliable_def Let_def)

section \<open>Properties\<close>

text \<open>
  C6. Relay stays inside the sender's room: whatever the frame, a connection whose queue or state a
  relay changed is a member of the sender's note other than the sender; the directory of connections, the
  interest index, the history permits and the draining flag are unchanged.
\<close>

theorem relay_confined:
  assumes "svc_wf s"
  shows "(\<forall>x. rs_conns (Relay sender e s) x \<noteq> rs_conns s x \<longrightarrow>
      (\<exists>p \<in> set (AllConnections (rs_rooms s)). cn_Ref p = x \<and> cn_NoteID p = cn_NoteID sender \<and> cn_ID p \<noteq> cn_ID sender)) \<and>
    rs_rooms (Relay sender e s) = rs_rooms s \<and> rs_interest (Relay sender e s) = rs_interest s \<and>
    rs_previews (Relay sender e s) = rs_previews s \<and> rs_draining (Relay sender e s) = rs_draining s"
proof -
  have wf: "room_wf (rs_rooms s)" using assms by (simp add: svc_wf_def)
  have "\<exists>p \<in> set (AllConnections (rs_rooms s)). cn_Ref p = x \<and> cn_NoteID p = cn_NoteID sender \<and> cn_ID p \<noteq> cn_ID sender"
    if "rs_conns (Relay sender e s) x \<noteq> rs_conns s x" for x
    using Relay_confined [OF assms that] memory_rooms.peers_of_room [OF wf] memory_rooms.peers_everyone [OF wf] by blast
  with Relay_frame [of sender e s] show ?thesis by blast
qed

theorem relay_confined_witness:
  "\<exists>p \<in> set (AllConnections (rs_rooms example_service)). cn_Ref p = 3 \<and> cn_NoteID p = ''n'' \<and> cn_ID p \<noteq> ''a''"
proof -
  have "bob \<in> set (Peers (cn_NoteID alice) (cn_ID alice) (rs_rooms example_service))"
    by (simp add: Peers_def room_of_def gm_get_def)
  from Relay_reliable [OF example_svc_wf _ example_classes(1) this]
  have "rs_conns (Relay alice (example_frame ''ink.commit'') example_service) 3 \<noteq> rs_conns example_service 3"
    using deliver_open [of "example_conn_state []" "''reliable queue overflow''" "example_frame ''ink.commit''"]
    by (auto simp: conn_of_def)
  from relay_confined [OF example_svc_wf, THEN conjunct1, rule_format, OF this] show ?thesis by simp
qed

text \<open>
  C12. Reliable traffic is never silently lost: a relayed reliable frame is appended to the queue of
  every other open member of the room, and a member whose queue is full is closed with the reason
  \<open>reliable queue overflow\<close>, its queued frames intact.
\<close>

theorem reliable_reaches_every_peer:
  assumes "svc_wf s" and "\<not> IsDraining s" and "ClassifyEvent (en_Event e) = ClassReliable"
    and "p \<in> set (AllConnections (rs_rooms s))" and "cn_NoteID p = cn_NoteID sender" and "cn_ID p \<noteq> cn_ID sender"
    and "\<not> isClosed (cs_queues (conn_of s p))"
  shows "if length (oq_reliable (cs_queues (conn_of s p))) < oq_reliableSize (cs_queues (conn_of s p))
    then oq_reliable (cs_queues (conn_of (Relay sender e s) p)) = oq_reliable (cs_queues (conn_of s p)) @ [e] \<and>
      \<not> isClosed (cs_queues (conn_of (Relay sender e s) p))
    else CloseReason (cs_queues (conn_of (Relay sender e s) p)) = ''reliable queue overflow'' \<and>
      oq_reliable (cs_queues (conn_of (Relay sender e s) p)) = oq_reliable (cs_queues (conn_of s p))"
proof -
  have wf: "room_wf (rs_rooms s)" using assms(1) by (simp add: svc_wf_def)
  have "p \<in> set (Peers (cn_NoteID sender) (cn_ID sender) (rs_rooms s))"
    using assms(4-6) by (simp add: memory_rooms.set_peers [OF wf] memory_rooms.set_everyone [OF wf])
  from Relay_reliable [OF assms(1) _ assms(3) this] assms(2,7) show ?thesis
    by (simp add: IsDraining_def deliver_open deliver_full CloseReason_conn_Close)
qed

theorem reliable_reaches_every_peer_witness:
  "oq_reliable (cs_queues (conn_of (Relay alice (example_frame ''ink.commit'') example_service) bob)) =
     [example_frame ''ink.commit'']"
  using reliable_reaches_every_peer [OF example_svc_wf _ example_classes(1), of bob alice] by (simp add: IsDraining_def)

text \<open>
  C34. A negotiation message reaches at most one connection: the one it names, in the sender's own
  room and not the sender, in a room within the mesh limit; when delivery is reported, that
  connection has it queued or was already closing.
\<close>

theorem signalling_reaches_one_peer:
  assumes "svc_wf s" and "RelayToPeer sender e s = (r, s')"
  shows "(\<forall>x. rs_conns s' x \<noteq> rs_conns s x \<longrightarrow>
      (\<exists>p \<in> set (AllConnections (rs_rooms s)). cn_Ref p = x \<and> cn_ID p = SignalingTarget (en_Payload e) \<and>
        cn_NoteID p = cn_NoteID sender \<and> cn_ID p \<noteq> cn_ID sender \<and>
        int (RoomSize (cn_NoteID sender) (rs_rooms s)) \<le> rs_maxWebRTCPeers s)) \<and>
    (r = Inr () \<longrightarrow> (\<exists>p. ConnectionByID (cn_NoteID sender) (SignalingTarget (en_Payload e)) (rs_rooms s) = Some p \<and>
        (isClosed (cs_queues (conn_of s p)) \<or>
         oq_reliable (cs_queues (conn_of s' p)) = oq_reliable (cs_queues (conn_of s p)) @ [e])))"
proof -
  have wf: "room_wf (rs_rooms s)" using assms(1) by (simp add: svc_wf_def)
  have one: "\<exists>p \<in> set (AllConnections (rs_rooms s)). cn_Ref p = x \<and> cn_ID p = SignalingTarget (en_Payload e) \<and>
      cn_NoteID p = cn_NoteID sender \<and> cn_ID p \<noteq> cn_ID sender \<and>
      int (RoomSize (cn_NoteID sender) (rs_rooms s)) \<le> rs_maxWebRTCPeers s" if "rs_conns s' x \<noteq> rs_conns s x" for x
  proof -
    from that assms(2) have "rs_conns (snd (RelayToPeer sender e s)) x \<noteq> rs_conns s x" by simp
    then obtain p where p: "ConnectionByID (cn_NoteID sender) (SignalingTarget (en_Payload e)) (rs_rooms s) = Some p"
      "x = cn_Ref p" "SignalingTarget (en_Payload e) \<noteq> cn_ID sender"
      "int (RoomSize (cn_NoteID sender) (rs_rooms s)) \<le> rs_maxWebRTCPeers s" by (rule RelayToPeer_target)
    with memory_rooms.by_id_key [OF wf p(1)] memory_rooms.by_id_everyone [OF wf p(1)] show ?thesis by auto
  qed
  have "\<exists>p. ConnectionByID (cn_NoteID sender) (SignalingTarget (en_Payload e)) (rs_rooms s) = Some p \<and>
      (isClosed (cs_queues (conn_of s p)) \<or>
       oq_reliable (cs_queues (conn_of s' p)) = oq_reliable (cs_queues (conn_of s p)) @ [e])" if "r = Inr ()"
  proof -
    from assms(2) that have "RelayToPeer sender e s = (Inr (), s')" by simp
    then obtain p where "ConnectionByID (cn_NoteID sender) (SignalingTarget (en_Payload e)) (rs_rooms s) = Some p"
      "send_or_close ''reliable queue overflow'' e p s = (False, s')" by (rule RelayToPeer_accepted)
    then show ?thesis by (intro exI [of _ p] conjI send_or_close_accepted)
  qed
  with one show ?thesis by blast
qed

theorem signalling_reaches_one_peer_witness:
  "\<exists>p. ConnectionByID ''n'' ''b'' (rs_rooms example_service) = Some p \<and>
     oq_reliable (cs_queues (conn_of (snd (RelayToPeer alice example_offer example_service)) p)) = [example_offer]"
proof -
  from example_accepts obtain s' where s: "RelayToPeer alice example_offer example_service = (Inr (), s')" ..
  from signalling_reaches_one_peer [OF example_svc_wf s] s show ?thesis by (simp add: example_target)
qed

text \<open>
  C35. The interest filter narrows previews exactly: while the service is not draining, an ephemeral frame is
  pushed, under a key of its own stream, to every other member of the room whose viewport and preferences want it, and no other
  connection is touched.
\<close>

theorem ephemeral_relay_filtered:
  assumes "svc_wf s" and "\<not> IsDraining s" and "ClassifyEvent (en_Event e) = ClassEphemeral"
    and "p \<in> set (AllConnections (rs_rooms s))"
  shows "if cn_NoteID p = cn_NoteID sender \<and> cn_ID p \<noteq> cn_ID sender \<and>
      (isLiveInk (en_Event e) \<or> Interested (cn_ID p) (LocationOf (en_Payload e)) (rs_interest s)) \<and>
      AllowsPreview (cn_ID p) (en_Event e) (rs_interest s)
    then \<exists>key. stream_key (cn_ID sender) e key \<and>
      cs_queues (conn_of (Relay sender e s) p) = pushEphemeral e key (cs_queues (conn_of s p))
    else conn_of (Relay sender e s) p = conn_of s p"
proof -
  have wf: "room_wf (rs_rooms s)" and inj: "inj_on cn_Ref (set (AllConnections (rs_rooms s)))"
    using assms(1) by (simp_all add: svc_wf_def)
  let ?peers = "Peers (cn_NoteID sender) (cn_ID sender) (rs_rooms s)"
  let ?W = "wants e (LocationOf (en_Payload e)) (rs_interest s)"
  have peer: "p \<in> set ?peers \<longleftrightarrow> cn_NoteID p = cn_NoteID sender \<and> cn_ID p \<noteq> cn_ID sender"
  proof
    show "p \<in> set ?peers \<Longrightarrow> cn_NoteID p = cn_NoteID sender \<and> cn_ID p \<noteq> cn_ID sender"
      by (rule memory_rooms.peers_of_room [OF wf])
    show "cn_NoteID p = cn_NoteID sender \<and> cn_ID p \<noteq> cn_ID sender \<Longrightarrow> p \<in> set ?peers"
      using assms(4) unfolding memory_rooms.set_peers [OF wf] memory_rooms.set_everyone [OF wf] by simp
  qed
  have nd: "\<not> rs_draining s" using assms(2) by (simp add: IsDraining_def)
  note r = Relay_ephemeral [OF assms(1) nd assms(3), of sender]
  show ?thesis
  proof (cases "p \<in> set ?peers \<and> ?W p")
    case True
    with r obtain key where "stream_key (cn_ID sender) e key"
      "rs_conns (Relay sender e s) (cn_Ref p) = push_to e key (rs_conns s (cn_Ref p))" by blast
    with True peer show ?thesis by (auto simp: wants_def conn_of_def push_to_def)
  next
    case False
    have "cn_Ref p \<notin> cn_Ref ` set (filter ?W ?peers)"
      using False inj assms(4) memory_rooms.peers_everyone [OF wf] by (auto dest: inj_onD)
    with r have "conn_of (Relay sender e s) p = conn_of s p" by (simp add: conn_of_def)
    with False peer show ?thesis by (auto simp: wants_def)
  qed
qed

theorem ephemeral_relay_filtered_witness:
  "(\<exists>key. stream_key ''a'' (example_frame ''cursor.moved'') key \<and>
      cs_queues (conn_of (Relay alice (example_frame ''cursor.moved'') example_service) bob) =
        pushEphemeral (example_frame ''cursor.moved'') key (newOutboundQueues 4 4)) \<and>
   conn_of (Relay alice (example_frame ''cursor.moved'') example_service) alice = example_conn_state []"
  using ephemeral_relay_filtered [OF example_svc_wf _ example_classes(2), of bob alice]
    ephemeral_relay_filtered [OF example_svc_wf _ example_classes(2), of alice alice]
  by (simp add: IsDraining_def Interested_def AllowsPreview_def) (simp add: example_conn_state_def newOutboundQueues_def)

text \<open>
  Frames coalesce only inside one stream, and ink is never coalesced away: two queue keys are
  equal only for the same sender and event; snapshots then share their subject, and two batches of
  ink points have equal keys only at the same value of the sequence counter, which every key
  advances.
\<close>

theorem coalescing_per_stream:
  assumes "fst (coalesceKey c1 e1 s1) = fst (coalesceKey c2 e2 s2)"
    and "CHR ''|'' \<notin> set c1" and "CHR ''|'' \<notin> set c2"
    and "ClassifyEvent (en_Event e1) = ClassEphemeral" and "ClassifyEvent (en_Event e2) = ClassEphemeral"
  shows "c1 = c2 \<and> en_Event e1 = en_Event e2 \<and>
    (if en_Event e1 = ''ink.points''
     then rs_deltaSeq s1 = rs_deltaSeq s2 \<and> rs_deltaSeq (snd (coalesceKey c1 e1 s1)) = rs_deltaSeq s1 + 1
     else subjectID (en_Payload e1) = subjectID (en_Payload e2))"
proof -
  obtain r1 where r1: "fst (coalesceKey c1 e1 s1) = c1 @ CHR ''|'' # en_Event e1 @ CHR ''|'' # subjectID (en_Payload e1) @ r1"
    "r1 = (if en_Event e1 = ''ink.points'' then CHR ''|'' # nat_dec (unat (rs_deltaSeq s1 + 1)) else [])"
    by (simp add: coalesceKey_def Let_def)
  obtain r2 where r2: "fst (coalesceKey c2 e2 s2) = c2 @ CHR ''|'' # en_Event e2 @ CHR ''|'' # subjectID (en_Payload e2) @ r2"
    "r2 = (if en_Event e2 = ''ink.points'' then CHR ''|'' # nat_dec (unat (rs_deltaSeq s2 + 1)) else [])"
    by (simp add: coalesceKey_def Let_def)
  have eq: "c1 = c2" "en_Event e1 = en_Event e2" "subjectID (en_Payload e1) @ r1 = subjectID (en_Payload e2) @ r2"
    using assms(1) append_at_bar [OF assms(2,3)]
      append_at_bar [OF ephemeral_no_bar [OF assms(4)] ephemeral_no_bar [OF assms(5)]]
    unfolding r1(1) r2(1) by blast+
  show ?thesis
  proof (cases "en_Event e1 = ''ink.points''")
    case True
    then have "nat_dec (unat (rs_deltaSeq s1 + 1)) = nat_dec (unat (rs_deltaSeq s2 + 1))"
      using eq(2,3) r1(2) r2(2) append_at_last_bar [OF nat_dec_bar nat_dec_bar] by auto
    then have "unat (rs_deltaSeq s1 + 1) = unat (rs_deltaSeq s2 + 1)" by (rule nat_dec_inj)
    then have "rs_deltaSeq s1 + 1 = rs_deltaSeq s2 + 1" by (simp only: word_unat_eq_iff)
    with True eq show ?thesis by (simp add: coalesceKey_def Let_def)
  next
    case False
    with eq r1(2) r2(2) show ?thesis by simp
  qed
qed

theorem coalescing_per_stream_witness:
  "rs_deltaSeq (snd (coalesceKey ''a'' (example_frame ''ink.points'') example_service)) = rs_deltaSeq example_service + 1"
  using coalescing_per_stream [OF refl _ _ example_classes(3,3), of "''a''" example_service]
  by (simp add: example_frame_def)

end
