(* ===== verification/Write_Pump.thy ===== *)
theory Write_Pump
  imports Connections
begin

text \<open>
  The write pumps (\<open>writePump\<close> of \<open>ws_connection.go\<close> and \<open>wt_connection.go\<close>) one event at a time, and
  what every operation on a connection keeps: the reliable queue within its bound, the ephemeral queue
  well formed, and a wake-up pending whenever an open connection has something reliable to write.
\<close>

section \<open>The events of a pump\<close>

text \<open>The pump wakes for the reliable queue (which takes the token) or flushes on its ticker.\<close>

datatype pump_event = Wake | FlushTick

fun ws_writePump :: "wire_env \<Rightarrow> pump_event \<Rightarrow> conn_metrics \<Rightarrow> conn_metrics" where
  "ws_writePump env Wake (c, m) = (if oq_wake (cs_queues c)
     then snd (ws_drainReliable env (c\<lparr>cs_queues := (cs_queues c)\<lparr>oq_wake := False\<rparr>\<rparr>, m)) else (c, m))"
| "ws_writePump env FlushTick (c, m) = snd (ws_drainEphemeral env (c, m))"

fun wt_writePump :: "wire_env \<Rightarrow> pump_event \<Rightarrow> conn_metrics \<Rightarrow> conn_metrics" where
  "wt_writePump env Wake (c, m) = (if oq_wake (cs_queues c)
     then snd (wt_drainReliable env (c\<lparr>cs_queues := (cs_queues c)\<lparr>oq_wake := False\<rparr>\<rparr>, m)) else (c, m))"
| "wt_writePump env FlushTick (c, m) = snd (wt_drainEphemeral env (c, m))"

section \<open>The invariant of a connection\<close>

definition queues_ok :: "outbound_queues \<Rightarrow> bool" where
  "queues_ok q \<longleftrightarrow> length (oq_reliable q) \<le> oq_reliableSize q \<and> eph_wf q"

definition wake_ok :: "outbound_queues \<Rightarrow> bool" where
  "wake_ok q \<longleftrightarrow> oq_closed q \<or> oq_reliable q = [] \<or> oq_wake q"

definition conn_ok :: "conn_state \<Rightarrow> bool" where
  "conn_ok c \<longleftrightarrow> queues_ok (cs_queues c) \<and> wake_ok (cs_queues c) \<and> Valid (cs_permission c)"

named_theorems conn_keeps \<open>operations that keep the invariant of a connection\<close>

lemma conn_ok_new [conn_keeps]:
  "Valid (tk_Permission t) \<Longrightarrow> conn_ok (newWSConnection t n m)"
  "Valid (tk_Permission t) \<Longrightarrow> conn_ok (newWTConnection t n m d)"
  by (auto simp: conn_ok_def queues_ok_def wake_ok_def newWSConnection_def newWTConnection_def eph_wf_def
      newOutboundQueues_def)

lemma conn_ok_pushReliable:
  "conn_ok c \<Longrightarrow> conn_ok (c\<lparr>cs_queues := snd (pushReliable e (cs_queues c))\<rparr>)"
  by (auto simp: conn_ok_def queues_ok_def wake_ok_def pushReliable_def signal_def eph_wf_def isClosed_def)

lemma conn_ok_pushEphemeral:
  "conn_ok c \<Longrightarrow> conn_ok (c\<lparr>cs_queues := pushEphemeral e k (cs_queues c)\<rparr>)"
proof (cases "isClosed (cs_queues c)")
  case False
  assume ok: "conn_ok c"
  have "oq_reliable (shedOldest q) = oq_reliable q \<and> oq_reliableSize (shedOldest q) = oq_reliableSize q \<and>
    oq_wake (shedOldest q) = oq_wake q \<and> oq_closed (shedOldest q) = oq_closed q" for q
  proof (induction q rule: shedOldest.induct)
    case (1 q)
    then show ?case
      by (subst (1 2 3 4) shedOldest.simps) (auto simp: Let_def countDrop_def split: list.splits option.splits)
  qed
  then have same: "oq_reliable (pushEphemeral e k (cs_queues c)) = oq_reliable (cs_queues c)"
    "oq_reliableSize (pushEphemeral e k (cs_queues c)) = oq_reliableSize (cs_queues c)"
    "oq_wake (pushEphemeral e k (cs_queues c)) = oq_wake (cs_queues c)"
    "oq_closed (pushEphemeral e k (cs_queues c)) = oq_closed (cs_queues c)"
    by (auto simp: pushEphemeral_def Let_def countDrop_def split: option.splits)
  show ?thesis
    using ok pushEphemeral_refines(2) [OF _ False, of e k] by (simp add: conn_ok_def queues_ok_def wake_ok_def same)
qed (simp add: pushEphemeral_def)

lemma conn_ok_Close [conn_keeps]: "conn_ok c \<Longrightarrow> conn_ok (conn_Close r c)"
  by (auto simp: conn_ok_def queues_ok_def wake_ok_def conn_Close_def Let_def markClosedWith_def eph_wf_def)

lemma conn_ok_flags [conn_keeps]:
  "conn_ok c \<Longrightarrow> Valid p \<Longrightarrow> conn_ok (SetPermission p c)" "conn_ok (EnableBinaryFrames c) = conn_ok c"
  "conn_ok (EnableBinaryAggregates c) = conn_ok c" "conn_ok (c\<lparr>cs_sent := x\<rparr>) = conn_ok c"
  by (simp_all add: conn_ok_def SetPermission_def EnableBinaryFrames_def EnableBinaryAggregates_def)

lemma conn_ok_activity [conn_keeps]:
  "conn_ok (c\<lparr>cs_queues := markActivity now (cs_queues c)\<rparr>) = conn_ok c"
  "conn_ok (c\<lparr>cs_queues := snd (shouldTouch now i (cs_queues c))\<rparr>) = conn_ok c"
  by (simp_all add: conn_ok_def queues_ok_def wake_ok_def markActivity_def shouldTouch_def eph_wf_def)

lemma conn_ok_SendReliable [conn_keeps]: "conn_ok c \<Longrightarrow> conn_ok (fst (snd (SendReliable e (c, m))))"
  using conn_ok_pushReliable [of c e] by (simp add: SendReliable_def Let_def case_prod_unfold)

lemma conn_ok_SendEphemeral [conn_keeps]: "conn_ok c \<Longrightarrow> conn_ok (fst (SendEphemeral e k (c, m)))"
  by (simp add: SendEphemeral_def Let_def conn_ok_pushEphemeral)

section \<open>The pumps keep it\<close>

text \<open>A write leaves the queues alone, apart from closing them, and the permission.\<close>

definition writes_only :: "conn_state \<Rightarrow> conn_state \<Rightarrow> bool" where
  "writes_only c c' \<longleftrightarrow> cs_permission c' = cs_permission c \<and>
     (cs_queues c' = cs_queues c \<or> (\<exists>r. cs_queues c' = markClosedWith r (cs_queues c)))"

lemma queues_ok_frame [simp]:
  "queues_ok (markClosedWith r q) = queues_ok q" "queues_ok (beginReliableWrite q) = queues_ok q"
  "queues_ok (endReliableWrite q) = queues_ok q" "queues_ok (q\<lparr>oq_wake := w\<rparr>) = queues_ok q"
  by (simp_all add: queues_ok_def markClosedWith_def beginReliableWrite_def endReliableWrite_def eph_wf_def)

lemma wake_ok_closed [simp]: "wake_ok (markClosedWith r q)"
  by (simp add: wake_ok_def markClosedWith_def)

lemma writes_only_refl [simp]: "writes_only c c"
  by (simp add: writes_only_def)

lemma writes_only_ok: "writes_only c c' \<Longrightarrow> queues_ok (cs_queues c') = queues_ok (cs_queues c)"
  by (auto simp: writes_only_def)

lemma markClosed_twice: "markClosedWith r (markClosedWith r' q) = markClosedWith r' q"
  by (simp add: markClosedWith_def)

lemma writes_only_trans: "writes_only c c' \<Longrightarrow> writes_only c' c'' \<Longrightarrow> writes_only c c''"
  by (auto simp: writes_only_def markClosed_twice)

lemma writes_only_Close: "writes_only c (conn_Close r c)"
  by (auto simp: writes_only_def conn_Close_def Let_def)

lemma writes_only_sent: "writes_only c (c\<lparr>cs_sent := x\<rparr>)"
  by (simp add: writes_only_def)

lemma writeRaw_only: "writes_only c (fst (snd (writeRaw env w (c, m))))"
  by (simp add: writeRaw_def writes_only_Close writes_only_sent)

lemma ws_write_only: "writes_only c (fst (snd (ws_write env e (c, m))))"
  by (simp add: ws_write_def writeRaw_only split: option.split)

lemma writeStream_only: "writes_only c (fst (snd (writeStream env e (c, m))))"
  by (simp add: writeStream_def writeStreamBytes_def writes_only_Close writes_only_sent split: option.split)

lemma writeDatagram_only: "writes_only (fst cm) (fst (writeDatagram env e cm))"
proof (cases cm)
  case (Pair c m)
  then show ?thesis using writeStream_only [of c env e m]
    by (simp add: writeDatagram_def sendDatagram_def writes_only_sent Let_def split: option.split)
qed

lemma fold_writeDatagram_only: "writes_only (fst cm) (fst (fold (writeDatagram env) es cm))"
proof (induction es arbitrary: cm)
  case Nil
  then show ?case by simp
next
  case (Cons e es)
  then show ?case using writes_only_trans [OF writeDatagram_only Cons] by simp
qed

lemma ws_write_batch_only: "writes_only c (fst (snd (ws_write_batch env es (c, m))))"
proof (induction es arbitrary: c m)
  case Nil
  then show ?case by simp
next
  case (Cons e es)
  obtain b c1 m1 where w: "ws_write env e (c, m) = (b, c1, m1)" by (metis prod_cases3)
  have "writes_only c c1" using ws_write_only [of c env e m] w by simp
  with Cons [of c1 m1] w show ?case by (cases b) (auto intro: writes_only_trans)
qed

lemma ws_flush_batch_only: "writes_only c (fst (snd (ws_flush_batch env es (c, m))))"
  by (simp add: ws_flush_batch_def writeRaw_only ws_write_batch_only split: option.split)

lemma wt_flush_batch_only: "writes_only (fst cm) (fst (wt_flush_batch env es cm))"
  using fold_writeDatagram_only [of cm env es]
  by (cases cm) (simp add: wt_flush_batch_def sendDatagram_def writes_only_sent split: option.split)

text \<open>
  A drain of the reliable queue, once for both transports: whatever is queued, it ends with the queue
  empty or the connection closed.
\<close>

context reliable_writer
begin

lemma drain_queues_ok:
  assumes only: "\<And>c e m. writes_only c (fst (snd (put env e (c, m))))"
    and "queues_ok (cs_queues c)"
  shows "queues_ok (cs_queues (fst (snd (drain env (c, m))))) \<and> cs_permission (fst (snd (drain env (c, m)))) = cs_permission c"
  using assms(2)
proof (induction "oq_reliable (cs_queues c)" arbitrary: c m)
  case Nil
  then show ?case by (simp add: drain_step [of env c m] takeReliable_def)
next
  case (Cons e es)
  define q where "q = (cs_queues c)\<lparr>oq_reliable := es\<rparr>"
  obtain b c1 m1 where w: "put env e (begin_write q c, m) = (b, c1, m1)" by (metis prod_cases3)
  have d: "drain env (c, m) = (if b then drain env (end_write c1, m1) else (False, end_write c1, m1))"
    using Cons.hyps(2) [symmetric] w by (simp add: drain_step [of env c m] takeReliable_def q_def)
  have o: "writes_only (begin_write q c) c1" using only [of "begin_write q c" e m] w by simp
  have "queues_ok q"
    using Cons.prems Cons.hyps(2) [symmetric] by (auto simp: queues_ok_def q_def eph_wf_def)
  then have "queues_ok (cs_queues (end_write c1))"
    using writes_only_ok [OF o] by (simp add: end_write_def begin_write_def)
  moreover have "es = oq_reliable (cs_queues (end_write c1))"
    using o by (auto simp: writes_only_def begin_write_def beginReliableWrite_def q_def markClosedWith_def)
  moreover have "cs_permission (end_write c1) = cs_permission c"
    using o by (simp add: writes_only_def end_write_def begin_write_def)
  ultimately show ?case using Cons.hyps(1) [of "end_write c1"] d by simp
qed

lemma drain_conn_ok:
  assumes "\<And>c e m. writes_only c (fst (snd (put env e (c, m))))" "queues_ok (cs_queues c)" "Valid (cs_permission c)"
  shows "conn_ok (fst (snd (drain env (c, m))))"
proof -
  obtain ok c' m' where d: "drain env (c, m) = (ok, c', m')" by (metis prod_cases3)
  from drain_in_order [OF d] drain_queues_ok [OF assms(1,2), of m] assms(3) d show ?thesis
    by (cases ok) (auto simp: conn_ok_def wake_ok_def isClosed_def)
qed

end

lemma writes_only_conn_ok: "writes_only c c' \<Longrightarrow> conn_ok c \<Longrightarrow> conn_ok c'"
  by (auto simp: conn_ok_def writes_only_def)

lemma conn_ok_batch: "conn_ok c \<Longrightarrow> conn_ok (c\<lparr>cs_queues := snd (takeEphemeralBatch maxEphemeralAggregateFrames (cs_queues c))\<rparr>)"
  using takeEphemeralBatch_refines(3) [of "cs_queues c" 64]
  by (auto simp: conn_ok_def queues_ok_def wake_ok_def takeEphemeralBatch_def Let_def case_prod_unfold)

lemma conn_ok_ws_drainEphemeral: "conn_ok c \<Longrightarrow> conn_ok (fst (snd (ws_drainEphemeral env (c, m))))"
proof (induction env "(c, m)" arbitrary: c m rule: ws_drainEphemeral.induct)
  case (1 env c m)
  obtain batch q where t: "takeEphemeralBatch 64 (cs_queues c) = (batch, q)" by fastforce
  with 1(2) have q: "conn_ok (c\<lparr>cs_queues := q\<rparr>)" using conn_ok_batch [of c] by simp
  obtain b c1 m1 where w: "ws_flush_batch env batch (c\<lparr>cs_queues := q\<rparr>, m) = (b, c1, m1)" by (metis prod_cases3)
  have c1: "conn_ok c1" using writes_only_conn_ok [OF ws_flush_batch_only q] w by (metis fst_conv snd_conv)
  show ?case
  proof (cases "batch = [] \<or> \<not> b")
    case True
    then show ?thesis using t w q c1 by (auto simp: ws_drainEphemeral.simps [of env c m])
  next
    case False
    then have "conn_ok (fst (snd (ws_drainEphemeral env (c1, m1))))" using 1(1) [OF t [symmetric] _ w [symmetric] refl] c1 by simp
    with False t w show ?thesis by (simp add: ws_drainEphemeral.simps [of env c m])
  qed
qed

lemma conn_ok_wt_drainEphemeral: "conn_ok (fst cm) \<Longrightarrow> conn_ok (fst (snd (wt_drainEphemeral env cm)))"
proof (induction env cm rule: wt_drainEphemeral.induct)
  case (1 env c m)
  obtain batch q where t: "takeEphemeralBatch 64 (cs_queues c) = (batch, q)" by fastforce
  with 1(2) have q: "conn_ok (c\<lparr>cs_queues := q\<rparr>)" using conn_ok_batch [of c] by simp
  have c1: "conn_ok (fst (wt_flush_batch env batch (c\<lparr>cs_queues := q\<rparr>, m)))"
    using writes_only_conn_ok [OF wt_flush_batch_only] q by fastforce
  show ?case
  proof (cases "batch = []")
    case True
    then show ?thesis using t q by (simp add: wt_drainEphemeral.simps [of env c m])
  next
    case False
    then show ?thesis using 1(1) [OF t [symmetric] False c1] t by (simp add: wt_drainEphemeral.simps [of env c m])
  qed
qed

lemma conn_ok_ws_writePump [conn_keeps]: "conn_ok (fst cm) \<Longrightarrow> conn_ok (fst (ws_writePump env ev cm))"
proof (induction env ev cm rule: ws_writePump.induct)
  case (1 env c m)
  let ?c = "c\<lparr>cs_queues := (cs_queues c)\<lparr>oq_wake := False\<rparr>\<rparr>"
  have "queues_ok (cs_queues ?c)" "Valid (cs_permission ?c)" using 1 by (simp_all add: conn_ok_def)
  from ws_writer.drain_conn_ok [OF ws_write_only this, of env m] 1 show ?case by simp
qed (simp add: conn_ok_ws_drainEphemeral)

lemma conn_ok_wt_writePump [conn_keeps]: "conn_ok (fst cm) \<Longrightarrow> conn_ok (fst (wt_writePump env ev cm))"
proof (induction env ev cm rule: wt_writePump.induct)
  case (1 env c m)
  let ?c = "c\<lparr>cs_queues := (cs_queues c)\<lparr>oq_wake := False\<rparr>\<rparr>"
  have "queues_ok (cs_queues ?c)" "Valid (cs_permission ?c)" using 1 by (simp_all add: conn_ok_def)
  from wt_writer.drain_conn_ok [OF writeStream_only this, of env m] 1 show ?case by simp
qed (simp add: conn_ok_wt_drainEphemeral)

end
