(* ===== verification/Rooms_Safe.thy ===== *)
theory Rooms_Safe
  imports Room_Service Write_Pump
begin

text \<open>
  The invariant of the room service: the directory is keyed correctly, its connections have distinct
  addresses below the next free one, the queues of every connection are within their bounds with a
  wake-up pending when one is due, the history permits are at most 1024 and keyed by their id, and the
  interest index is consistent. Every operation of the service keeps it.
\<close>

definition rooms_ok :: "nat \<Rightarrow> room_service \<Rightarrow> bool" where
  "rooms_ok n r \<longleftrightarrow> svc_wf r \<and> (\<forall>c \<in> set (AllConnections (rs_rooms r)). cn_Ref c < n) \<and>
     (\<forall>x. conn_ok (rs_conns r x)) \<and> previews_ok (rs_previews r) \<and>
     (case rs_interest r of None \<Rightarrow> True | Some i \<Rightarrow> index_wf i)"

named_theorems rooms_keep \<open>operations that keep the invariant of the room service\<close>

lemma rooms_ok_conns:
  "rooms_ok n r \<Longrightarrow> same_service t r \<Longrightarrow> (\<And>x. conn_ok (rs_conns t x)) \<Longrightarrow> rooms_ok n t"
  by (simp add: rooms_ok_def svc_wf_def)

lemma rooms_ok_frame [simp]:
  "rooms_ok n (r\<lparr>rs_ids := i\<rparr>) = rooms_ok n r" "rooms_ok n (r\<lparr>rs_metrics := m\<rparr>) = rooms_ok n r"
  "rooms_ok n (r\<lparr>rs_deltaSeq := d\<rparr>) = rooms_ok n r" "rooms_ok n (r\<lparr>rs_draining := b\<rparr>) = rooms_ok n r"
  by (simp_all add: rooms_ok_def svc_wf_def)

lemma rooms_ok_previews: "rooms_ok n r \<Longrightarrow> previews_ok p \<Longrightarrow> rooms_ok n (r\<lparr>rs_previews := p\<rparr>)"
  by (simp add: rooms_ok_def svc_wf_def)

lemma rooms_ok_interest:
  "rooms_ok n r \<Longrightarrow> (case i of None \<Rightarrow> True | Some x \<Rightarrow> index_wf x) \<Longrightarrow> rooms_ok n (r\<lparr>rs_interest := i\<rparr>)"
  by (simp add: rooms_ok_def svc_wf_def)

lemma rooms_ok_put: "rooms_ok n r \<Longrightarrow> conn_ok c \<Longrightarrow> rooms_ok n (r\<lparr>rs_conns := (rs_conns r)(x := c)\<rparr>)"
  by (simp add: rooms_ok_def svc_wf_def)

section \<open>Calls on connections\<close>

lemma rooms_ok_upd:
  "rooms_ok n r \<Longrightarrow> conn_ok (f (rs_conns r (cn_Ref c))) \<Longrightarrow> rooms_ok n (upd_conn f c r)"
  by (simp add: upd_conn_def rooms_ok_put)

lemma rooms_ok_conn: "rooms_ok n r \<Longrightarrow> conn_ok (rs_conns r x)"
  by (simp add: rooms_ok_def)

lemma rooms_ok_Close [rooms_keep]: "rooms_ok n r \<Longrightarrow> rooms_ok n (peer_Close reason c r)"
  by (simp add: peer_Close_def rooms_ok_upd conn_ok_Close rooms_ok_conn)

lemma rooms_ok_SendReliable [rooms_keep]: "rooms_ok n r \<Longrightarrow> rooms_ok n (snd (peer_SendReliable e c r))"
  by (simp add: peer_SendReliable_def conn_of_def case_prod_unfold rooms_ok_put [OF _ conn_ok_SendReliable [OF rooms_ok_conn]])

lemma rooms_ok_SendEphemeral [rooms_keep]: "rooms_ok n r \<Longrightarrow> rooms_ok n (peer_SendEphemeral e k c r)"
  by (simp add: peer_SendEphemeral_def conn_of_def case_prod_unfold rooms_ok_put [OF _ conn_ok_SendEphemeral [OF rooms_ok_conn]])

lemma rooms_ok_send [rooms_keep]: "rooms_ok n r \<Longrightarrow> rooms_ok n (snd (send_or_close reason e c r))"
  using rooms_ok_SendReliable [of n r e c]
  by (auto simp: send_or_close_def case_prod_unfold split: bool.split intro: rooms_ok_Close)

lemma rooms_ok_fold:
  "(\<And>x r. x \<in> set xs \<Longrightarrow> rooms_ok n r \<Longrightarrow> rooms_ok n (f x r)) \<Longrightarrow> rooms_ok n r \<Longrightarrow> rooms_ok n (fold f xs r)"
  by (induction xs arbitrary: r) auto

lemma rooms_ok_envelope [rooms_keep]:
  "rooms_ok n r \<Longrightarrow> rooms_ok n (snd (service_envelope newID now note event payload r))"
  by (simp add: service_envelope_def)

lemma rooms_ok_broadcast [rooms_keep]:
  "rooms_ok n r \<Longrightarrow> rooms_ok n (broadcastReliable newID now note x event payload r)"
  by (auto simp: broadcastReliable_def Let_def case_prod_unfold intro!: rooms_ok_fold rooms_ok_send rooms_ok_envelope)

lemma rooms_ok_Announce [rooms_keep]: "rooms_ok n r \<Longrightarrow> rooms_ok n (Announce newID now note x event payload r)"
  by (simp add: Announce_def rooms_ok_broadcast)

lemma rooms_ok_Notify [rooms_keep]: "rooms_ok n r \<Longrightarrow> rooms_ok n (Notify newID now c event payload r)"
  by (simp add: Notify_def Let_def case_prod_unfold rooms_ok_send rooms_ok_envelope)

section \<open>Membership\<close>

lemma rooms_ok_Leave [rooms_keep]: "rooms_ok n r \<Longrightarrow> rooms_ok n (svc_Leave newID now c r)"
proof -
  assume ok: "rooms_ok n r"
  then have wf: "room_wf (rs_rooms r)" by (simp add: rooms_ok_def svc_wf_def)
  have sub: "set (AllConnections (snd (room_Leave c (rs_rooms r)))) \<subseteq> set (AllConnections (rs_rooms r))"
    using memory_rooms.everyone_leave [OF wf] by blast
  have "rooms_ok n (r\<lparr>rs_rooms := snd (room_Leave c (rs_rooms r))\<rparr>)"
    using ok room_wf_Leave [OF wf, of c] sub by (auto simp: rooms_ok_def svc_wf_def intro: inj_on_subset)
  then show ?thesis by (simp add: svc_Leave_def leave_def Let_def rooms_ok_broadcast)
qed

lemma rooms_ok_enter:
  assumes ok: "rooms_ok n r" and ref: "cn_Ref c = n"
  shows "rooms_ok (Suc n) (r\<lparr>rs_rooms := snd (room_Join c (rs_rooms r))\<rparr>)"
proof -
  have wf: "room_wf (rs_rooms r)" using ok by (simp add: rooms_ok_def svc_wf_def)
  have mem: "d = c \<or> d \<in> set (AllConnections (rs_rooms r))"
    if "d \<in> set (AllConnections (snd (room_Join c (rs_rooms r))))" for d
    using memory_rooms.everyone_join [OF wf that] by blast
  then have "\<forall>d \<in> set (AllConnections (snd (room_Join c (rs_rooms r)))). cn_Ref d < Suc n"
    using ok ref by (fastforce simp: rooms_ok_def)
  moreover have "inj_on cn_Ref (set (AllConnections (snd (room_Join c (rs_rooms r)))))"
  proof (rule inj_onI)
    fix x y
    assume "x \<in> set (AllConnections (snd (room_Join c (rs_rooms r))))" "y \<in> set (AllConnections (snd (room_Join c (rs_rooms r))))"
      "cn_Ref x = cn_Ref y"
    with mem [of x] mem [of y] ok ref show "x = y" by (fastforce simp: rooms_ok_def svc_wf_def inj_on_def)
  qed
  ultimately show ?thesis using ok room_wf_Join [OF wf, of c] by (simp add: rooms_ok_def svc_wf_def)
qed

lemma rooms_ok_later: "rooms_ok n r \<Longrightarrow> rooms_ok (Suc n) r"
  by (fastforce simp: rooms_ok_def)

lemma rooms_ok_join_room:
  assumes "rooms_ok n r" "cn_Ref c = n"
  shows "rooms_ok (Suc n) (join_room newID now c r)"
  using rooms_ok_enter [OF assms]
  by (auto simp: join_room_def Let_def case_prod_unfold
      intro!: rooms_ok_broadcast rooms_ok_SendReliable rooms_ok_envelope)

lemma rooms_ok_Join:
  assumes "rooms_ok n r" "cn_Ref c = n"
  shows "rooms_ok (Suc n) (svc_Join newID now c r)"
  using rooms_ok_join_room [OF assms] rooms_ok_later [OF assms(1)] by (auto simp: svc_Join_def intro!: rooms_ok_Close)

section \<open>Relay and control\<close>

lemma rooms_ok_key [rooms_keep]: "rooms_ok n r \<Longrightarrow> rooms_ok n (snd (coalesceKey cid e r))"
  by (simp add: coalesceKey_def Let_def)

lemma rooms_ok_relay_ephemeral: "rooms_ok n (snd p) \<Longrightarrow> rooms_ok n (snd (relay_ephemeral sender e loc peer p))"
  by (cases p) (simp add: relay_ephemeral_def Let_def case_prod_unfold rooms_ok_SendEphemeral rooms_ok_key)

lemma rooms_ok_relay_fold:
  "rooms_ok n (snd p) \<Longrightarrow> rooms_ok n (snd (fold (relay_ephemeral sender e loc) peers p))"
  by (induction peers arbitrary: p) (simp_all add: rooms_ok_relay_ephemeral)

lemma rooms_ok_RelayToPeer: "rooms_ok n r \<Longrightarrow> rooms_ok n (snd (RelayToPeer sender e r))"
proof -
  assume ok: "rooms_ok n r"
  have "rooms_ok n r'" if "send_or_close x e peer r = (b, r')" for x peer b r'
    using rooms_ok_send [OF ok, of x e peer] that by simp
  with ok show ?thesis by (auto simp: RelayToPeer_def Let_def split: option.split prod.split bool.split)
qed

lemma rooms_ok_Relay [rooms_keep]: "rooms_ok n r \<Longrightarrow> rooms_ok n (Relay sender e r)"
proof -
  assume ok: "rooms_ok n r"
  have "rooms_ok n (fold (\<lambda>peer r. snd (send_or_close x e peer r)) peers r)" for x peers
    using ok by (intro rooms_ok_fold rooms_ok_send)
  moreover have "rooms_ok n (count_interest k m (snd (fold (relay_ephemeral sender e loc) peers (j, r))))" for k m j loc peers
    using rooms_ok_relay_fold [of n "(j, r)"] ok by (simp add: count_interest_def)
  ultimately show ?thesis
    using ok rooms_ok_RelayToPeer [OF ok, of sender e] by (simp add: Relay_def Let_def case_prod_unfold)
qed

lemma rooms_ok_close_all [rooms_keep]: "rooms_ok n r \<Longrightarrow> rooms_ok n (snd (close_all reason cs r))"
  by (simp add: close_all_def rooms_ok_fold rooms_ok_Close)

lemma rooms_ok_ApplyPermission [rooms_keep]: "rooms_ok n r \<Longrightarrow> Valid p \<Longrightarrow> rooms_ok n (snd (ApplyPermission sid p r))"
  by (auto simp: ApplyPermission_def Let_def conn_ok_flags rooms_ok_conn intro!: rooms_ok_fold rooms_ok_upd)

lemma rooms_ok_Disconnect [rooms_keep]:
  "rooms_ok n r \<Longrightarrow> rooms_ok n (snd (DisconnectSession sid reason r))"
  "rooms_ok n r \<Longrightarrow> rooms_ok n (snd (DisconnectUserFromNote note user reason r))"
  "rooms_ok n r \<Longrightarrow> rooms_ok n (snd (CloseAll reason r))"
  by (simp_all add: DisconnectSession_def DisconnectUserFromNote_def CloseAll_def rooms_ok_close_all)

lemma rooms_ok_BeginDrain [rooms_keep]: "rooms_ok n r \<Longrightarrow> rooms_ok n (snd (BeginDrain newID now d r))"
  by (auto simp: BeginDrain_def Let_def case_prod_unfold intro!: rooms_ok_fold rooms_ok_send rooms_ok_envelope)

end
