(* ===== verification/Lock_Store.thy ===== *)
theory Lock_Store
  imports Domain
begin

text \<open>
  Geometry leases on blocks. First the abstract specification of the \<open>LockStore\<close> port
  (\<open>internal/domain/lock.go\<close>): a table from note and block to the lease, with one function per
  method. Then the port as a record of operations and the locale \<open>lock_port\<close> that says that an
  implementation refines the table. Last \<open>MemoryLockStore\<close>
  (\<open>internal/infrastructure/memory_lock_store.go\<close>): nested Go maps and a counter per session,
  every method under the store's mutex, shown to refine the table by an interpretation.
\<close>

section \<open>The specification: a table of leases\<close>

type_synonym lease_table = "string \<times> string \<Rightarrow> block_lock option"

definition leased :: "lease_table \<Rightarrow> string \<Rightarrow> (string \<times> string) set" where
  "leased v sid = {k. \<exists>l. v k = Some l \<and> lk_SessionID l = sid}"

abbreviation lock_key :: "block_lock \<Rightarrow> string \<times> string" where
  "lock_key l \<equiv> (lk_NoteID l, lk_BlockID l)"

definition denied :: "string \<Rightarrow> block_lock option \<Rightarrow> acquire_outcome" where
  "denied reason holder = \<lparr>ao_Lock = None, ao_Holder = holder, ao_Denial = reason\<rparr>"

definition granted :: "block_lock \<Rightarrow> acquire_outcome" where
  "granted l = \<lparr>ao_Lock = Some l, ao_Holder = None, ao_Denial = []\<rparr>"

definition held_by_other :: "block_lock \<Rightarrow> time \<Rightarrow> lease_table \<Rightarrow> bool" where
  "held_by_other l now v \<longleftrightarrow> (case v (lock_key l) of None \<Rightarrow> False
     | Some e \<Rightarrow> lk_ConnectionID e \<noteq> lk_ConnectionID l \<and> \<not> lock_IsExpired e now)"

definition reacquires :: "block_lock \<Rightarrow> lease_table \<Rightarrow> bool" where
  "reacquires l v \<longleftrightarrow> (case v (lock_key l) of None \<Rightarrow> False
     | Some e \<Rightarrow> lk_ConnectionID e = lk_ConnectionID l)"

definition spec_Acquire ::
  "block_lock \<Rightarrow> int \<Rightarrow> time \<Rightarrow> lease_table \<Rightarrow> acquire_outcome \<times> lease_table" where
  "spec_Acquire l maxPerSession now v =
     (if held_by_other l now v then (denied DenialHeldByOther (v (lock_key l)), v)
      else if \<not> reacquires l v \<and> 0 < maxPerSession \<and>
              maxPerSession \<le> int (card (leased v (lk_SessionID l)))
      then (denied DenialTooManyLocks None, v)
      else (granted l, v(lock_key l \<mapsto> l)))"

definition spec_Renew ::
  "string \<times> string \<Rightarrow> string \<Rightarrow> string \<Rightarrow> time \<Rightarrow> time \<Rightarrow> lease_table \<Rightarrow>
   (error, block_lock) outcome \<times> lease_table" where
  "spec_Renew k lockID connectionID expiresAt now v = (case v k of
     None \<Rightarrow> (Inl ErrLockNotFound, v)
   | Some e \<Rightarrow> if lock_IsExpired e now then (Inl ErrLockNotFound, v)
       else if lk_LockID e \<noteq> lockID \<or> lk_ConnectionID e \<noteq> connectionID then (Inl ErrLockNotHeld, v)
       else (Inr (e\<lparr>lk_ExpiresAt := expiresAt\<rparr>), v(k \<mapsto> e\<lparr>lk_ExpiresAt := expiresAt\<rparr>)))"

definition spec_Release ::
  "string \<times> string \<Rightarrow> string \<Rightarrow> string \<Rightarrow> lease_table \<Rightarrow> (error, block_lock) outcome \<times> lease_table" where
  "spec_Release k lockID connectionID v = (case v k of
     None \<Rightarrow> (Inl ErrLockNotFound, v)
   | Some e \<Rightarrow> if lk_LockID e \<noteq> lockID \<or> lk_ConnectionID e \<noteq> connectionID then (Inl ErrLockNotHeld, v)
       else (Inr e, v(k := None)))"

definition spec_drop :: "(block_lock \<Rightarrow> bool) \<Rightarrow> lease_table \<Rightarrow> lease_table" where
  "spec_drop P v k = (case v k of None \<Rightarrow> None | Some l \<Rightarrow> if P l then None else Some l)"

text \<open>The locks a sweep reports: each dropped lease once, in some order.\<close>

definition reports :: "(block_lock \<Rightarrow> bool) \<Rightarrow> lease_table \<Rightarrow> block_lock list \<Rightarrow> bool" where
  "reports P v ls \<longleftrightarrow> distinct ls \<and> set ls = {l. P l \<and> (\<exists>k. v k = Some l)}"

definition spec_Holder :: "string \<times> string \<Rightarrow> time \<Rightarrow> lease_table \<Rightarrow> block_lock option" where
  "spec_Holder k now v = (case v k of None \<Rightarrow> None
     | Some l \<Rightarrow> if lock_IsExpired l now then None else Some l)"

section \<open>The port\<close>

record 's lock_ops =
  lo_Acquire :: "block_lock option \<Rightarrow> int \<Rightarrow> time \<Rightarrow> 's \<Rightarrow> acquire_outcome \<times> 's"
  lo_Renew :: "string \<Rightarrow> string \<Rightarrow> string \<Rightarrow> string \<Rightarrow> time \<Rightarrow> time \<Rightarrow> 's \<Rightarrow> (error, block_lock) outcome \<times> 's"
  lo_Release :: "string \<Rightarrow> string \<Rightarrow> string \<Rightarrow> string \<Rightarrow> 's \<Rightarrow> (error, block_lock) outcome \<times> 's"
  lo_ReleaseAllForConnection :: "string \<Rightarrow> 's \<Rightarrow> block_lock list \<times> 's"
  lo_SweepExpired :: "time \<Rightarrow> 's \<Rightarrow> block_lock list \<times> 's"
  lo_Holder :: "string \<Rightarrow> string \<Rightarrow> time \<Rightarrow> 's \<Rightarrow> block_lock option"
  lo_Count :: "'s \<Rightarrow> nat"

locale lock_port =
  fixes ops :: "'s lock_ops"
    and view :: "'s \<Rightarrow> lease_table"
    and wf :: "'s \<Rightarrow> bool"
  assumes acquire_refines: "wf s \<Longrightarrow> map_prod id view (lo_Acquire ops (Some l) m now s) =
      spec_Acquire l m now (view s)"
    and renew_refines: "wf s \<Longrightarrow> map_prod id view (lo_Renew ops n b i c e now s) =
      spec_Renew (n, b) i c e now (view s)"
    and release_refines: "wf s \<Longrightarrow> map_prod id view (lo_Release ops n b i c s) =
      spec_Release (n, b) i c (view s)"
    and release_all_refines: "wf s \<Longrightarrow> view (snd (lo_ReleaseAllForConnection ops c s)) =
      spec_drop (\<lambda>l. lk_ConnectionID l = c) (view s)"
    and release_all_reports: "wf s \<Longrightarrow> reports (\<lambda>l. lk_ConnectionID l = c) (view s)
      (fst (lo_ReleaseAllForConnection ops c s))"
    and sweep_refines: "wf s \<Longrightarrow> view (snd (lo_SweepExpired ops now s)) =
      spec_drop (\<lambda>l. lock_IsExpired l now) (view s)"
    and sweep_reports: "wf s \<Longrightarrow> reports (\<lambda>l. lock_IsExpired l now) (view s) (fst (lo_SweepExpired ops now s))"
    and holder_refines: "wf s \<Longrightarrow> lo_Holder ops n b now s = spec_Holder (n, b) now (view s)"
    and count_refines: "wf s \<Longrightarrow> lo_Count ops s = card (dom (view s))"
    and wf_acquire: "wf s \<Longrightarrow> wf (snd (lo_Acquire ops arg m now s))"
    and wf_renew: "wf s \<Longrightarrow> wf (snd (lo_Renew ops n b i c e now s))"
    and wf_release: "wf s \<Longrightarrow> wf (snd (lo_Release ops n b i c s))"
    and wf_release_all: "wf s \<Longrightarrow> wf (snd (lo_ReleaseAllForConnection ops c s))"
    and wf_sweep: "wf s \<Longrightarrow> wf (snd (lo_SweepExpired ops now s))"
    and view_finite: "wf s \<Longrightarrow> finite (dom (view s))"
    and view_key: "wf s \<Longrightarrow> view s k = Some l \<Longrightarrow> lock_key l = k"

section \<open>The in-memory store\<close>

record lock_store =
  ls_locks :: "(string, (string, block_lock) gomap) gomap"
  ls_perSession :: "(string, int) gomap"

definition NewMemoryLockStore :: lock_store where
  "NewMemoryLockStore = \<lparr>ls_locks = [], ls_perSession = []\<rparr>"

text \<open>Reading a missing key of a Go map of ints yields 0, a missing inner map reads as empty.\<close>

definition session_count :: "lock_store \<Rightarrow> string \<Rightarrow> int" where
  "session_count s sid = (case map_of (ls_perSession s) sid of None \<Rightarrow> 0 | Some n \<Rightarrow> n)"

definition note_locks :: "lock_store \<Rightarrow> string \<Rightarrow> (string, block_lock) gomap" where
  "note_locks s noteID = (case map_of (ls_locks s) noteID of None \<Rightarrow> [] | Some bs \<Rightarrow> bs)"

definition decrementLocked :: "string \<Rightarrow> lock_store \<Rightarrow> lock_store" where
  "decrementLocked sessionID s =
     (if session_count s sessionID \<le> 1
      then s\<lparr>ls_perSession := gm_del sessionID (ls_perSession s)\<rparr>
      else s\<lparr>ls_perSession := gm_put sessionID (session_count s sessionID - 1) (ls_perSession s)\<rparr>)"

text \<open>\<open>delete(s.locks[noteID], blockID)\<close> on a note without a map is a no-op.\<close>

definition removeLocked :: "string \<Rightarrow> string \<Rightarrow> block_lock \<Rightarrow> lock_store \<Rightarrow> lock_store" where
  "removeLocked noteID blockID lock s =
     (let s1 = (case map_of (ls_locks s) noteID of None \<Rightarrow> s
          | Some bs \<Rightarrow> s\<lparr>ls_locks := gm_put noteID (gm_del blockID bs) (ls_locks s)\<rparr>);
          s2 = (if note_locks s1 noteID = [] then s1\<lparr>ls_locks := gm_del noteID (ls_locks s1)\<rparr> else s1)
      in decrementLocked (lk_SessionID lock) s2)"

definition lock_Acquire ::
  "block_lock option \<Rightarrow> int \<Rightarrow> time \<Rightarrow> lock_store \<Rightarrow> acquire_outcome \<times> lock_store" where
  "lock_Acquire lock maxPerSession now s = (case lock of
     None \<Rightarrow> (denied DenialHeldByOther None, s)
   | Some l \<Rightarrow> (let
       s = (if map_of (ls_locks s) (lk_NoteID l) = None
            then s\<lparr>ls_locks := gm_put (lk_NoteID l) [] (ls_locks s)\<rparr> else s);
       existing = map_of (note_locks s (lk_NoteID l)) (lk_BlockID l);
       reacquiring = (case existing of None \<Rightarrow> False | Some e \<Rightarrow> lk_ConnectionID e = lk_ConnectionID l)
     in if (case existing of None \<Rightarrow> False | Some e \<Rightarrow> \<not> reacquiring \<and> \<not> lock_IsExpired e now)
        then (denied DenialHeldByOther existing, s)
        else if \<not> reacquiring \<and> maxPerSession > 0 \<and> session_count s (lk_SessionID l) \<ge> maxPerSession
        then (denied DenialTooManyLocks None, s)
        else let
          s = (case existing of None \<Rightarrow> s | Some e \<Rightarrow> decrementLocked (lk_SessionID e) s);
          s = s\<lparr>ls_locks := gm_put (lk_NoteID l)
                (gm_put (lk_BlockID l) l (note_locks s (lk_NoteID l))) (ls_locks s)\<rparr>;
          s = s\<lparr>ls_perSession := gm_put (lk_SessionID l) (session_count s (lk_SessionID l) + 1)
                (ls_perSession s)\<rparr>
        in (granted l, s)))"

definition lock_Renew ::
  "string \<Rightarrow> string \<Rightarrow> string \<Rightarrow> string \<Rightarrow> time \<Rightarrow> time \<Rightarrow> lock_store \<Rightarrow>
   (error, block_lock) outcome \<times> lock_store" where
  "lock_Renew noteID blockID lockID connectionID expiresAt now s =
     (case map_of (note_locks s noteID) blockID of
        None \<Rightarrow> (Inl ErrLockNotFound, s)
      | Some existing \<Rightarrow>
          if lock_IsExpired existing now then (Inl ErrLockNotFound, s)
          else if lk_LockID existing \<noteq> lockID \<or> lk_ConnectionID existing \<noteq> connectionID
          then (Inl ErrLockNotHeld, s)
          else let renewed = existing\<lparr>lk_ExpiresAt := expiresAt\<rparr>
            in (Inr renewed, s\<lparr>ls_locks := gm_put noteID
                  (gm_put blockID renewed (note_locks s noteID)) (ls_locks s)\<rparr>))"

definition lock_Release ::
  "string \<Rightarrow> string \<Rightarrow> string \<Rightarrow> string \<Rightarrow> lock_store \<Rightarrow> (error, block_lock) outcome \<times> lock_store" where
  "lock_Release noteID blockID lockID connectionID s = (case map_of (ls_locks s) noteID of
     None \<Rightarrow> (Inl ErrLockNotFound, s)
   | Some blocks \<Rightarrow> (case map_of blocks blockID of
       None \<Rightarrow> (Inl ErrLockNotFound, s)
     | Some existing \<Rightarrow>
         if lk_LockID existing \<noteq> lockID \<or> lk_ConnectionID existing \<noteq> connectionID
         then (Inl ErrLockNotHeld, s)
         else (Inr existing, removeLocked noteID blockID existing s)))"

text \<open>
  The loops of \<open>ReleaseAllForConnection\<close> and \<open>SweepExpired\<close>: both ranges visit the entries that
  were present, and an entry is deleted only when it is visited.
\<close>

definition lock_ReleaseAllForConnection :: "string \<Rightarrow> lock_store \<Rightarrow> block_lock list \<times> lock_store" where
  "lock_ReleaseAllForConnection connectionID s =
     fold (\<lambda>(noteID, blocks). fold (\<lambda>(blockID, lock) (released, s).
         if lk_ConnectionID lock \<noteq> connectionID then (released, s)
         else (released @ [lock], removeLocked noteID blockID lock s)) blocks)
       (ls_locks s) ([], s)"

definition lock_SweepExpired :: "time \<Rightarrow> lock_store \<Rightarrow> block_lock list \<times> lock_store" where
  "lock_SweepExpired now s =
     fold (\<lambda>(noteID, blocks). fold (\<lambda>(blockID, lock) (expired, s).
         if \<not> lock_IsExpired lock now then (expired, s)
         else (expired @ [lock], removeLocked noteID blockID lock s)) blocks)
       (ls_locks s) ([], s)"

definition lock_Holder :: "string \<Rightarrow> string \<Rightarrow> time \<Rightarrow> lock_store \<Rightarrow> block_lock option" where
  "lock_Holder noteID blockID now s = (case map_of (note_locks s noteID) blockID of
     None \<Rightarrow> None
   | Some lock \<Rightarrow> if lock_IsExpired lock now then None else Some lock)"

definition lock_Count :: "lock_store \<Rightarrow> nat" where
  "lock_Count s = fold (\<lambda>(_, blocks) total. total + length blocks) (ls_locks s) 0"

definition memory_lock_ops :: "lock_store lock_ops" where
  "memory_lock_ops = \<lparr>lo_Acquire = lock_Acquire, lo_Renew = lock_Renew, lo_Release = lock_Release,
     lo_ReleaseAllForConnection = lock_ReleaseAllForConnection, lo_SweepExpired = lock_SweepExpired,
     lo_Holder = lock_Holder, lo_Count = lock_Count\<rparr>"

section \<open>The representation\<close>

definition lock_view :: "lock_store \<Rightarrow> lease_table" where
  "lock_view s = (\<lambda>(n, b). map_of (note_locks s n) b)"

text \<open>
  The invariant: maps have distinct keys, a lease is filed under its own note and block, and the
  counter of a session is the number of its leases, absent when that number is 0.
\<close>

definition counted :: "lease_table \<Rightarrow> (string, int) gomap \<Rightarrow> bool" where
  "counted v m \<longleftrightarrow> (\<forall>sid. map_of m sid =
     (if leased v sid = {} then None else Some (int (card (leased v sid)))))"

definition lock_shape :: "lock_store \<Rightarrow> bool" where
  "lock_shape s \<longleftrightarrow> gm_wf (ls_locks s) \<and> (\<forall>(n, bs) \<in> set (ls_locks s). gm_wf bs)"

definition lock_wf :: "lock_store \<Rightarrow> bool" where
  "lock_wf s \<longleftrightarrow> lock_shape s \<and> (\<forall>k l. lock_view s k = Some l \<longrightarrow> lock_key l = k) \<and>
     counted (lock_view s) (ls_perSession s)"

lemma lock_wf_new [simp]: "lock_wf NewMemoryLockStore"
  by (simp add: lock_wf_def lock_shape_def counted_def leased_def lock_view_def note_locks_def
      NewMemoryLockStore_def)

lemma leased_del: "leased (v(k := None)) sid = leased v sid - {k}"
  by (auto simp: leased_def)

lemma leased_put: "v k = None \<Longrightarrow> leased (v(k \<mapsto> l)) sid =
    (if lk_SessionID l = sid then insert k (leased v sid) else leased v sid)"
  by (auto simp: leased_def)

lemma leased_update: "v k = Some l \<Longrightarrow> lk_SessionID l' = lk_SessionID l \<Longrightarrow> leased (v(k \<mapsto> l')) sid = leased v sid"
  by (auto simp: leased_def)

lemma leased_subset: "leased v sid \<subseteq> dom v"
  by (auto simp: leased_def)

lemma finite_lock_view [simp]: "finite (dom (lock_view s))"
proof (rule finite_subset)
  show "dom (lock_view s) \<subseteq>
      (SIGMA n : fst ` set (ls_locks s). fst ` set (note_locks s n))"
    by (force simp: lock_view_def note_locks_def dom_map_of_conv_image_fst [symmetric]
        split: option.splits dest: map_of_SomeD)
qed auto

lemma finite_leased [simp]: "finite (leased (lock_view s) sid)"
  by (rule finite_subset [OF leased_subset finite_lock_view])

lemma counted_session_count:
  "counted v (ls_perSession s) \<Longrightarrow> session_count s sid = int (card (leased v sid))"
  by (auto simp: counted_def session_count_def)

lemma counted_decrement:
  assumes c: "counted v (ls_perSession s)" and k: "v k = Some l" and fin: "finite (dom v)"
  shows "counted (v(k := None)) (ls_perSession (decrementLocked (lk_SessionID l) s))"
proof -
  let ?sid = "lk_SessionID l"
  have mem: "k \<in> leased v ?sid" using k by (auto simp: leased_def)
  have other: "sid \<noteq> ?sid \<Longrightarrow> leased v sid - {k} = leased v sid" for sid
    using k by (auto simp: leased_def)
  have fin': "finite (leased v ?sid)" using fin leased_subset finite_subset by blast
  have n: "session_count s ?sid = int (card (leased v ?sid))"
    by (rule counted_session_count [OF c])
  have one: "int (card (leased v ?sid)) - 1 = int (card (leased v ?sid - {k}))"
    using mem fin' card_Suc_Diff1 by fastforce
  moreover have "card (leased v ?sid - {k}) = 0 \<longleftrightarrow> leased v ?sid - {k} = {}"
    using fin' by simp
  ultimately have last: "card (leased v ?sid) \<le> 1 \<longleftrightarrow> leased v ?sid - {k} = {}" by linarith
  show ?thesis unfolding counted_def leased_del
  proof
    fix sid
    show "map_of (ls_perSession (decrementLocked ?sid s)) sid =
        (if leased v sid - {k} = {} then None else Some (int (card (leased v sid - {k}))))"
      using c n last one
      by (cases "sid = ?sid") (simp_all add: counted_def decrementLocked_def other del: Diff_eq_empty_iff)
  qed
qed

lemma counted_increment:
  assumes c: "counted v (ls_perSession s)" and k: "v k = None" and fin: "finite (dom v)"
  shows "counted (v(k \<mapsto> l)) (gm_put (lk_SessionID l) (session_count s (lk_SessionID l) + 1) (ls_perSession s))"
proof -
  have "k \<notin> leased v sid" for sid using k by (auto simp: leased_def)
  moreover have "finite (leased v sid)" for sid using fin leased_subset finite_subset by blast
  ultimately show ?thesis
    using c by (auto simp: counted_def leased_put [of v k, OF k] counted_session_count [OF c])
qed

text \<open>How the updates of the nested maps act on the table.\<close>

lemma note_locks_put: "note_locks (s\<lparr>ls_locks := gm_put n bs (ls_locks s)\<rparr>) m = (if m = n then bs else note_locks s m)"
  by (simp add: note_locks_def)

lemma lock_view_put:
  "lock_view (s\<lparr>ls_locks := gm_put n bs (ls_locks s)\<rparr>) =
    (\<lambda>(m, b). if m = n then map_of bs b else lock_view s (m, b))"
  by (auto simp: lock_view_def note_locks_put)

lemma lock_view_put_block:
  "lock_view (s\<lparr>ls_locks := gm_put n (gm_put b l (note_locks s n)) (ls_locks s)\<rparr>) =
    (lock_view s)((n, b) \<mapsto> l)"
  unfolding lock_view_put by (auto simp: lock_view_def fun_eq_iff)

lemma lock_view_perSession [simp]: "lock_view (s\<lparr>ls_perSession := m\<rparr>) = lock_view s"
  by (simp add: lock_view_def note_locks_def)

lemma decrementLocked_locks [simp]: "ls_locks (decrementLocked sid s) = ls_locks s"
  by (simp add: decrementLocked_def)

lemma lock_view_decrement [simp]: "lock_view (decrementLocked sid s) = lock_view s"
  by (simp add: lock_view_def note_locks_def)

lemma note_locks_decrement [simp]: "note_locks (decrementLocked sid s) = note_locks s"
  by (simp add: note_locks_def fun_eq_iff)

lemma lock_shape_cong: "ls_locks s = ls_locks t \<Longrightarrow> lock_shape s = lock_shape t"
  by (simp add: lock_shape_def)

lemma lock_shape_note: "lock_shape s \<Longrightarrow> gm_wf (note_locks s n)"
  by (auto simp: lock_shape_def note_locks_def split: option.splits dest!: map_of_SomeD)

lemma lock_shape_put: "lock_shape s \<Longrightarrow> gm_wf bs \<Longrightarrow> lock_shape (s\<lparr>ls_locks := gm_put n bs (ls_locks s)\<rparr>)"
  by (auto simp: lock_shape_def set_gm_put)

lemma lock_shape_del: "lock_shape s \<Longrightarrow> lock_shape (s\<lparr>ls_locks := gm_del n (ls_locks s)\<rparr>)"
  by (simp add: lock_shape_def)

lemma removeLocked_shape: "lock_shape s \<Longrightarrow> lock_shape (removeLocked n b l s)"
  using lock_shape_put [of s "gm_del b (note_locks s n)" n] lock_shape_note [of s n]
    lock_shape_del [of "s\<lparr>ls_locks := gm_put n (gm_del b (note_locks s n)) (ls_locks s)\<rparr>" n]
    lock_shape_del [of s n]
  by (cases "map_of (ls_locks s) n")
    (auto simp: removeLocked_def Let_def note_locks_def lock_shape_cong [OF decrementLocked_locks])

lemma removeLocked_view: "lock_view (removeLocked n b l s) = (lock_view s)((n, b) := None)"
proof (cases "map_of (ls_locks s) n")
  case None
  then show ?thesis
    by (auto simp: removeLocked_def Let_def lock_view_def note_locks_def fun_eq_iff)
next
  case (Some bs)
  have "gm_del b bs = [] \<Longrightarrow> b' \<noteq> b \<Longrightarrow> map_of bs b' = None" for b' by (rule gm_del_empty)
  with Some show ?thesis
    by (auto simp: removeLocked_def Let_def lock_view_def note_locks_def fun_eq_iff)
qed

lemma removeLocked_counted:
  assumes "counted (lock_view s) (ls_perSession s)" "lock_view s (n, b) = Some l"
  shows "counted ((lock_view s)((n, b) := None)) (ls_perSession (removeLocked n b l s))"
proof -
  have "ls_perSession (removeLocked n b l s) = ls_perSession (decrementLocked (lk_SessionID l) s)"
    by (auto simp: removeLocked_def Let_def decrementLocked_def session_count_def split: option.splits)
  with counted_decrement [OF assms finite_lock_view] show ?thesis by simp
qed

lemma removeLocked_wf:
  "lock_wf s \<Longrightarrow> lock_view s (n, b) = Some l \<Longrightarrow> lock_wf (removeLocked n b l s)"
  using removeLocked_counted [of s n b l]
  by (auto simp: lock_wf_def removeLocked_shape removeLocked_view split: if_splits)

section \<open>The loops\<close>

definition lock_entries ::
  "(string, (string, block_lock) gomap) gomap \<Rightarrow> (string \<times> string \<times> block_lock) list" where
  "lock_entries m = concat (map (\<lambda>(n, bs). map (Pair n) bs) m)"

lemma fold_lock_entries:
  "fold (\<lambda>(n, bs). fold (f n) bs) m acc = fold (\<lambda>(n, e). f n e) (lock_entries m) acc"
  by (induction m arbitrary: acc) (auto simp: lock_entries_def fold_map comp_def)

lemma set_lock_entries: "lock_shape s \<Longrightarrow> (n, b, l) \<in> set (lock_entries (ls_locks s)) \<longleftrightarrow> lock_view s (n, b) = Some l"
proof -
  assume sh: "lock_shape s"
  have "(n, b, l) \<in> set (lock_entries (ls_locks s)) \<longleftrightarrow> (\<exists>bs. (n, bs) \<in> set (ls_locks s) \<and> (b, l) \<in> set bs)"
    by (auto simp: lock_entries_def)
  also have "\<dots> \<longleftrightarrow> (b, l) \<in> set (note_locks s n)"
    using sh by (auto simp: lock_shape_def note_locks_def split: option.splits)
  also have "\<dots> \<longleftrightarrow> lock_view s (n, b) = Some l"
    using lock_shape_note [OF sh, of n] by (simp add: lock_view_def)
  finally show ?thesis .
qed

lemma distinct_lock_entries:
  assumes "lock_shape s"
  shows "distinct (map (\<lambda>(n, b, l). (n, b)) (lock_entries (ls_locks s)))"
proof -
  have "gm_wf m \<Longrightarrow> \<forall>(n, bs) \<in> set m. gm_wf bs \<Longrightarrow> distinct (map (\<lambda>(n, b, l). (n, b)) (lock_entries m))" for m
  proof (induction m)
    case Nil
    then show ?case by (simp add: lock_entries_def)
  next
    case (Cons e m)
    obtain n bs where e: "e = (n, bs)" by (cases e)
    have "distinct (map (\<lambda>(n, b, l). (n, b)) (map (Pair n) bs))"
      using Cons.prems(2) e by (simp add: comp_def case_prod_unfold distinct_map inj_on_def)
    with Cons e show ?case by (force simp: lock_entries_def)
  qed
  with assms show ?thesis by (simp add: lock_shape_def)
qed

definition drop_step ::
  "(block_lock \<Rightarrow> bool) \<Rightarrow> string \<times> string \<times> block_lock \<Rightarrow> block_lock list \<times> lock_store \<Rightarrow>
   block_lock list \<times> lock_store" where
  "drop_step P = (\<lambda>(n, b, l) (acc, s). if \<not> P l then (acc, s) else (acc @ [l], removeLocked n b l s))"

lemma drop_loop:
  assumes "lock_wf s" "distinct (map (\<lambda>(n, b, l). (n, b)) es)"
    "\<forall>(n, b, l) \<in> set es. lock_view s (n, b) = Some l"
    "distinct acc" "\<forall>l \<in> set acc. lock_view s (lock_key l) = None"
    "fold (drop_step P) es (acc, s) = (acc', s')"
  shows "lock_wf s' \<and> distinct acc' \<and> set acc' = set acc \<union> {l. P l \<and> (\<exists>n b. (n, b, l) \<in> set es)} \<and>
    lock_view s' = (\<lambda>k. if \<exists>l. (fst k, snd k, l) \<in> set es \<and> P l then None else lock_view s k)"
  using assms
proof (induction es arbitrary: acc s)
  case Nil
  then show ?case by auto
next
  case (Cons e es)
  obtain n b l where e: "e = (n, b, l)" by (cases e)
  show ?case
  proof (cases "P l")
    case False
    with Cons.IH [OF Cons.prems(1) _ _ Cons.prems(4,5)] Cons.prems(2,3,6) e
    have "lock_wf s' \<and> distinct acc' \<and> set acc' = set acc \<union> {l. P l \<and> (\<exists>n b. (n, b, l) \<in> set es)} \<and>
      lock_view s' = (\<lambda>k. if \<exists>l. (fst k, snd k, l) \<in> set es \<and> P l then None else lock_view s k)"
      by (simp add: drop_step_def)
    moreover have "(\<exists>n b. (n, b, x) \<in> set (e # es)) \<and> P x \<longleftrightarrow> (\<exists>n b. (n, b, x) \<in> set es) \<and> P x" for x
      using e False by auto
    moreover have "(\<exists>x. (n', b', x) \<in> set (e # es) \<and> P x) \<longleftrightarrow> (\<exists>x. (n', b', x) \<in> set es \<and> P x)" for n' b'
      using e False by auto
    ultimately show ?thesis by (simp add: conj_commute)
  next
    case True
    let ?s = "removeLocked n b l s"
    have v: "lock_view s (n, b) = Some l" using Cons.prems(3) e by simp
    then have key: "lock_key l = (n, b)" using Cons.prems(1) by (auto simp: lock_wf_def)
    have fresh: "(n, b) \<notin> (\<lambda>(n, b, l). (n, b)) ` set es" using Cons.prems(2) e by simp
    have es: "\<forall>(n', b', l') \<in> set es. lock_view ?s (n', b') = Some l'"
      using Cons.prems(3) fresh by (force simp: removeLocked_view)
    have acc: "distinct (acc @ [l])" "\<forall>l' \<in> set (acc @ [l]). lock_view ?s (lock_key l') = None"
      using Cons.prems(4,5) v key by (auto simp: removeLocked_view)
    from Cons.IH [OF removeLocked_wf [OF Cons.prems(1) v] _ es acc] Cons.prems(2,6) e True
    have "lock_wf s' \<and> distinct acc' \<and> set acc' = insert l (set acc) \<union> {l. P l \<and> (\<exists>n b. (n, b, l) \<in> set es)} \<and>
      lock_view s' = (\<lambda>k. if \<exists>l. (fst k, snd k, l) \<in> set es \<and> P l then None else lock_view ?s k)"
      by (simp add: drop_step_def)
    with e True show ?thesis by (auto simp: removeLocked_view fun_eq_iff)
  qed
qed

lemma drop_all:
  assumes wf: "lock_wf s" and r: "fold (drop_step P) (lock_entries (ls_locks s)) ([], s) = (acc, s')"
  shows "lock_wf s'" "lock_view s' = spec_drop P (lock_view s)" "reports P (lock_view s) acc"
proof -
  have sh: "lock_shape s" using wf by (simp add: lock_wf_def)
  have es: "\<forall>(n, b, l) \<in> set (lock_entries (ls_locks s)). lock_view s (n, b) = Some l"
    using set_lock_entries [OF sh] by auto
  note d = drop_loop [OF wf distinct_lock_entries [OF sh] es _ _ r, simplified, unfolded set_lock_entries [OF sh]]
  from d show "lock_wf s'" by blast
  from d show "lock_view s' = spec_drop P (lock_view s)"
    by (auto simp: spec_drop_def fun_eq_iff split: option.splits)
  from d show "reports P (lock_view s) acc" by (auto simp: reports_def)
qed

lemma lock_ReleaseAll_loop:
  "lock_ReleaseAllForConnection c s =
    fold (drop_step (\<lambda>l. lk_ConnectionID l = c)) (lock_entries (ls_locks s)) ([], s)"
  unfolding lock_ReleaseAllForConnection_def fold_lock_entries
  by (rule fold_cong) (auto simp: drop_step_def)

lemma lock_SweepExpired_loop:
  "lock_SweepExpired now s = fold (drop_step (\<lambda>l. lock_IsExpired l now)) (lock_entries (ls_locks s)) ([], s)"
  unfolding lock_SweepExpired_def fold_lock_entries
  by (rule fold_cong) (auto simp: drop_step_def)

lemma lock_Count_card:
  assumes "lock_shape s"
  shows "lock_Count s = card (dom (lock_view s))"
proof -
  have "fold (\<lambda>(_, blocks) total. total + length blocks) m a = a + length (lock_entries m)" for m and a :: nat
    by (induction m arbitrary: a) (auto simp: lock_entries_def)
  then have "lock_Count s = length (map (\<lambda>(n, b, l). (n, b)) (lock_entries (ls_locks s)))"
    by (simp add: lock_Count_def)
  also have "\<dots> = card (set (map (\<lambda>(n, b, l). (n, b)) (lock_entries (ls_locks s))))"
    using distinct_card [OF distinct_lock_entries [OF assms]] by simp
  also have "set (map (\<lambda>(n, b, l). (n, b)) (lock_entries (ls_locks s))) = dom (lock_view s)"
    using set_lock_entries [OF assms] by (force simp: dom_def image_iff)
  finally show ?thesis .
qed

section \<open>Acquire, renew, release\<close>

definition ensure_note :: "string \<Rightarrow> lock_store \<Rightarrow> lock_store" where
  "ensure_note n s = (if map_of (ls_locks s) n = None
     then s\<lparr>ls_locks := gm_put n [] (ls_locks s)\<rparr> else s)"

lemma ensure_note_view [simp]: "lock_view (ensure_note n s) = lock_view s"
  by (auto simp: ensure_note_def lock_view_def note_locks_def fun_eq_iff)

lemma ensure_note_wf: "lock_wf s \<Longrightarrow> lock_wf (ensure_note n s)"
proof -
  assume wf: "lock_wf s"
  then have "lock_shape (ensure_note n s)"
    by (auto simp: ensure_note_def lock_wf_def intro!: lock_shape_put)
  moreover have "ls_perSession (ensure_note n s) = ls_perSession s" by (simp add: ensure_note_def)
  ultimately show ?thesis using wf by (simp add: lock_wf_def)
qed

definition store_lease :: "block_lock \<Rightarrow> lock_store \<Rightarrow> lock_store" where
  "store_lease l s = (let
     s = (case lock_view s (lock_key l) of None \<Rightarrow> s | Some e \<Rightarrow> decrementLocked (lk_SessionID e) s);
     s = s\<lparr>ls_locks := gm_put (lk_NoteID l)
           (gm_put (lk_BlockID l) l (note_locks s (lk_NoteID l))) (ls_locks s)\<rparr>
   in s\<lparr>ls_perSession := gm_put (lk_SessionID l) (session_count s (lk_SessionID l) + 1) (ls_perSession s)\<rparr>)"

lemma store_lease_view: "lock_view (store_lease l s) = (lock_view s)(lock_key l \<mapsto> l)"
  by (auto simp: store_lease_def Let_def lock_view_put_block split: option.splits)

lemma store_lease_wf:
  assumes wf: "lock_wf s"
  shows "lock_wf (store_lease l s)"
proof -
  define t where "t = (case lock_view s (lock_key l) of None \<Rightarrow> s | Some e \<Rightarrow> decrementLocked (lk_SessionID e) s)"
  define v where "v = (lock_view s)(lock_key l := None)"
  have t: "ls_locks t = ls_locks s" by (simp add: t_def split: option.splits)
  have fin: "finite (dom v)" unfolding v_def by (rule finite_subset [OF _ finite_lock_view [of s]]) auto
  have "counted v (ls_perSession t)"
    using wf counted_decrement [of "lock_view s" s "lock_key l"]
    by (auto simp: v_def t_def lock_wf_def fun_upd_idem split: option.splits)
  then have "counted (v(lock_key l \<mapsto> l))
      (gm_put (lk_SessionID l) (session_count t (lk_SessionID l) + 1) (ls_perSession t))"
    by (rule counted_increment [OF _ _ fin]) (simp add: v_def)
  moreover have "v(lock_key l \<mapsto> l) = (lock_view s)(lock_key l \<mapsto> l)" by (simp add: v_def)
  moreover have "store_lease l s = t\<lparr>ls_locks := gm_put (lk_NoteID l)
      (gm_put (lk_BlockID l) l (note_locks t (lk_NoteID l))) (ls_locks t),
      ls_perSession := gm_put (lk_SessionID l) (session_count t (lk_SessionID l) + 1) (ls_perSession t)\<rparr>"
    by (simp add: store_lease_def Let_def t_def session_count_def split: option.splits)
  moreover have "lock_shape (store_lease l s)"
  proof -
    have "lock_shape (s\<lparr>ls_locks := gm_put (lk_NoteID l)
        (gm_put (lk_BlockID l) l (note_locks s (lk_NoteID l))) (ls_locks s)\<rparr>)"
      using wf by (auto simp: lock_wf_def intro!: lock_shape_put lock_shape_note)
    moreover have "note_locks t = note_locks s" using t by (simp add: note_locks_def fun_eq_iff)
    ultimately show ?thesis using t by (simp add: store_lease_def Let_def t_def [symmetric] lock_shape_def)
  qed
  ultimately have "lock_shape (store_lease l s)" and
    "counted ((lock_view s)(lock_key l \<mapsto> l)) (ls_perSession (store_lease l s))" by simp_all
  moreover have "\<forall>k x. lock_view s k = Some x \<longrightarrow> lock_key x = k" using wf by (simp add: lock_wf_def)
  ultimately show ?thesis by (simp add: lock_wf_def store_lease_view)
qed

lemma lock_Acquire_cases:
  assumes "lock_wf s"
  shows "lock_Acquire (Some l) m now s = (let s = ensure_note (lk_NoteID l) s in
     if held_by_other l now (lock_view s) then (denied DenialHeldByOther (lock_view s (lock_key l)), s)
     else if \<not> reacquires l (lock_view s) \<and> 0 < m \<and> m \<le> int (card (leased (lock_view s) (lk_SessionID l)))
     then (denied DenialTooManyLocks None, s)
     else (granted l, store_lease l s))"
proof -
  let ?s = "ensure_note (lk_NoteID l) s"
  have "session_count ?s sid = int (card (leased (lock_view ?s) sid))" for sid
    using ensure_note_wf [OF assms] by (auto simp: lock_wf_def intro: counted_session_count)
  moreover have "map_of (note_locks ?s (lk_NoteID l)) (lk_BlockID l) = lock_view ?s (lock_key l)"
    by (simp add: lock_view_def)
  ultimately show ?thesis
    by (simp add: lock_Acquire_def ensure_note_def [symmetric] held_by_other_def reacquires_def
        store_lease_def Let_def conj_commute cong: if_cong split: option.split)
qed

lemma renew_store:
  assumes "lock_wf s" "lock_view s (n, b) = Some l" "lk_SessionID l' = lk_SessionID l" "lock_key l' = lock_key l"
  shows "lock_wf (s\<lparr>ls_locks := gm_put n (gm_put b l' (note_locks s n)) (ls_locks s)\<rparr>)"
proof -
  have "lock_shape (s\<lparr>ls_locks := gm_put n (gm_put b l' (note_locks s n)) (ls_locks s)\<rparr>)"
    using assms(1) by (auto simp: lock_wf_def intro!: lock_shape_put lock_shape_note)
  then show ?thesis
    using assms by (auto simp: lock_wf_def lock_view_put_block counted_def leased_update split: if_splits)
qed

interpretation memory_locks: lock_port memory_lock_ops lock_view lock_wf
proof unfold_locales
  fix s arg l m now
  assume wf: "lock_wf s"
  show "map_prod id lock_view (lo_Acquire memory_lock_ops (Some l) m now s) = spec_Acquire l m now (lock_view s)"
    by (simp add: memory_lock_ops_def lock_Acquire_cases [OF wf] spec_Acquire_def Let_def store_lease_view)
  show "lock_wf (snd (lo_Acquire memory_lock_ops arg m now s))"
    using wf by (cases arg)
      (auto simp: memory_lock_ops_def lock_Acquire_cases Let_def ensure_note_wf store_lease_wf,
        simp_all add: lock_Acquire_def)
next
  fix s n b i c e now
  assume wf: "lock_wf s"
  have mv: "map_of (note_locks s n) b = lock_view s (n, b)" by (simp add: lock_view_def)
  show "map_prod id lock_view (lo_Renew memory_lock_ops n b i c e now s) = spec_Renew (n, b) i c e now (lock_view s)"
    by (simp add: memory_lock_ops_def lock_Renew_def spec_Renew_def mv lock_view_put_block Let_def
        split: option.split)
  show "lock_wf (snd (lo_Renew memory_lock_ops n b i c e now s))"
    using wf by (auto simp: memory_lock_ops_def lock_Renew_def mv Let_def intro: renew_store split: option.split)
  have rv: "(case map_of (ls_locks s) n of None \<Rightarrow> None | Some bs \<Rightarrow> map_of bs b) = lock_view s (n, b)"
    by (simp add: lock_view_def note_locks_def split: option.split)
  have rel: "lock_Release n b i c s = (case lock_view s (n, b) of None \<Rightarrow> (Inl ErrLockNotFound, s)
     | Some e \<Rightarrow> if lk_LockID e \<noteq> i \<or> lk_ConnectionID e \<noteq> c then (Inl ErrLockNotHeld, s)
       else (Inr e, removeLocked n b e s))"
    unfolding rv [symmetric] by (simp add: lock_Release_def split: option.split)
  show "map_prod id lock_view (lo_Release memory_lock_ops n b i c s) = spec_Release (n, b) i c (lock_view s)"
    by (simp add: memory_lock_ops_def rel spec_Release_def removeLocked_view split: option.split)
  show "lock_wf (snd (lo_Release memory_lock_ops n b i c s))"
    using wf by (auto simp: memory_lock_ops_def rel removeLocked_wf split: option.split)
  show "lo_Holder memory_lock_ops n b now s = spec_Holder (n, b) now (lock_view s)"
    by (simp add: memory_lock_ops_def lock_Holder_def spec_Holder_def mv)
  show "lo_Count memory_lock_ops s = card (dom (lock_view s))"
    using wf by (simp add: memory_lock_ops_def lock_Count_card lock_wf_def)
next
  fix s c now
  assume wf: "lock_wf s"
  note d = drop_all [OF wf surjective_pairing]
  show "lock_view (snd (lo_ReleaseAllForConnection memory_lock_ops c s)) =
      spec_drop (\<lambda>l. lk_ConnectionID l = c) (lock_view s)"
    "reports (\<lambda>l. lk_ConnectionID l = c) (lock_view s) (fst (lo_ReleaseAllForConnection memory_lock_ops c s))"
    "lock_wf (snd (lo_ReleaseAllForConnection memory_lock_ops c s))"
    by (simp_all add: memory_lock_ops_def lock_ReleaseAll_loop d)
  show "lock_view (snd (lo_SweepExpired memory_lock_ops now s)) =
      spec_drop (\<lambda>l. lock_IsExpired l now) (lock_view s)"
    "reports (\<lambda>l. lock_IsExpired l now) (lock_view s) (fst (lo_SweepExpired memory_lock_ops now s))"
    "lock_wf (snd (lo_SweepExpired memory_lock_ops now s))"
    by (simp_all add: memory_lock_ops_def lock_SweepExpired_loop d)
qed (auto simp: lock_wf_def)

end
