(* ===== verification/Block_Lock_Service.thy ===== *)
theory Block_Lock_Service
  imports Lock_Store
begin

text \<open>
  \<open>BlockLockService\<close> (\<open>internal/application/block_lock_service.go\<close>): the arbiter of geometry
  leases. It builds the lease from the authenticated connection and hands it to the lock store
  behind its port. The locale \<open>lock_service\<close> proves, from the port's contract alone, that a lease
  excludes every other connection until it expires, whatever calls are interleaved.
\<close>

section \<open>The service\<close>

record lock_settings =
  bs_Lease :: duration
  bs_MaxPerSession :: int
  bs_SweepThreshold :: duration

definition NewBlockLockService :: "lock_settings \<Rightarrow> lock_settings" where
  "NewBlockLockService settings =
     (if bs_Lease settings \<le> 0 then settings\<lparr>bs_Lease := 5 * Second\<rparr> else settings)"

definition Request ::
  "'s lock_ops \<Rightarrow> lock_settings \<Rightarrow> connection \<Rightarrow> string \<Rightarrow> string \<Rightarrow> time \<Rightarrow> 's \<Rightarrow>
   acquire_outcome \<times> 's" where
  "Request ops st conn blockID lockID now s =
     (if blockID = [] \<or> lockID = [] then (denied DenialHeldByOther None, s)
      else lo_Acquire ops
        (Some \<lparr>lk_LockID = lockID, lk_BlockID = blockID, lk_NoteID = cn_NoteID conn,
           lk_ConnectionID = cn_ID conn, lk_SessionID = cn_SessionID conn,
           lk_UserID = cn_UserID conn, lk_AcquiredAt = now, lk_ExpiresAt = now + bs_Lease st\<rparr>)
        (bs_MaxPerSession st) now s)"

definition Renew ::
  "'s lock_ops \<Rightarrow> lock_settings \<Rightarrow> connection \<Rightarrow> string \<Rightarrow> string \<Rightarrow> time \<Rightarrow> 's \<Rightarrow>
   (error, block_lock) outcome \<times> 's" where
  "Renew ops st conn blockID lockID now s =
     lo_Renew ops (cn_NoteID conn) blockID lockID (cn_ID conn) (now + bs_Lease st) now s"

definition Release ::
  "'s lock_ops \<Rightarrow> connection \<Rightarrow> string \<Rightarrow> string \<Rightarrow> 's \<Rightarrow> (error, block_lock) outcome \<times> 's" where
  "Release ops conn blockID lockID s =
     lo_Release ops (cn_NoteID conn) blockID lockID (cn_ID conn) s"

definition ReleaseConnection :: "'s lock_ops \<Rightarrow> string \<Rightarrow> 's \<Rightarrow> block_lock list \<times> 's" where
  "ReleaseConnection ops connectionID s = lo_ReleaseAllForConnection ops connectionID s"

definition locks_SweepExpired :: "'s lock_ops \<Rightarrow> time \<Rightarrow> 's \<Rightarrow> block_lock list \<times> 's" where
  "locks_SweepExpired ops now s = lo_SweepExpired ops now s"

definition BlockedBy :: "'s lock_ops \<Rightarrow> connection \<Rightarrow> string \<Rightarrow> time \<Rightarrow> 's \<Rightarrow> block_lock option" where
  "BlockedBy ops conn blockID now s =
     (if blockID = [] then None
      else case lo_Holder ops (cn_NoteID conn) blockID now s of
        None \<Rightarrow> None
      | Some holder \<Rightarrow> if lk_ConnectionID holder = cn_ID conn then None else Some holder)"

definition ActiveLocks :: "'s lock_ops \<Rightarrow> 's \<Rightarrow> nat" where
  "ActiveLocks ops s = lo_Count ops s"

record public_holder =
  ph_BlockID :: string
  ph_LockID :: string
  ph_ConnectionID :: string
  ph_UserID :: string
  ph_ExpiresAt :: int

definition PublicHolderOf :: "block_lock \<Rightarrow> public_holder" where
  "PublicHolderOf lock = \<lparr>ph_BlockID = lk_BlockID lock, ph_LockID = lk_LockID lock,
     ph_ConnectionID = lk_ConnectionID lock, ph_UserID = lk_UserID lock,
     ph_ExpiresAt = unix_milli (lk_ExpiresAt lock)\<rparr>"

lemmas lock_service_defs = Request_def Renew_def Release_def ReleaseConnection_def
  locks_SweepExpired_def BlockedBy_def

section \<open>Interleaved calls\<close>

datatype lock_call =
    CallRequest connection string string time
  | CallRenew connection string string time
  | CallRelease connection string string
  | CallReleaseConnection string
  | CallLockSweep time

fun lock_call_step :: "'s lock_ops \<Rightarrow> lock_settings \<Rightarrow> lock_call \<Rightarrow> 's \<Rightarrow> 's" where
  "lock_call_step ops st (CallRequest c b i now) s = snd (Request ops st c b i now s)"
| "lock_call_step ops st (CallRenew c b i now) s = snd (Renew ops st c b i now s)"
| "lock_call_step ops st (CallRelease c b i) s = snd (Release ops c b i s)"
| "lock_call_step ops st (CallReleaseConnection cid) s = snd (ReleaseConnection ops cid s)"
| "lock_call_step ops st (CallLockSweep now) s = snd (locks_SweepExpired ops now s)"

definition lock_calls :: "'s lock_ops \<Rightarrow> lock_settings \<Rightarrow> lock_call list \<Rightarrow> 's \<Rightarrow> 's" where
  "lock_calls ops st = fold (lock_call_step ops st)"

text \<open>
  A call is harmless for the lease a connection was granted at time \<open>t\<close>: it happens before the
  lease runs out, and it is not that connection giving leases back.
\<close>

fun within_lease :: "string \<Rightarrow> time \<Rightarrow> duration \<Rightarrow> lock_call \<Rightarrow> bool" where
  "within_lease cid t lease (CallRequest c b i now) = (t \<le> now \<and> now < t + lease)"
| "within_lease cid t lease (CallRenew c b i now) = (t \<le> now \<and> now < t + lease)"
| "within_lease cid t lease (CallRelease c b i) = (cn_ID c \<noteq> cid)"
| "within_lease cid t lease (CallReleaseConnection c) = (c \<noteq> cid)"
| "within_lease cid t lease (CallLockSweep now) = (now < t + lease)"

text \<open>Every connection belongs to one session for its whole life.\<close>

fun call_session_ok :: "(string \<Rightarrow> string) \<Rightarrow> lock_call \<Rightarrow> bool" where
  "call_session_ok session_of (CallRequest c b i now) = (cn_SessionID c = session_of (cn_ID c))"
| "call_session_ok session_of _ = True"

text \<open>How long a call can make a lease on a block last.\<close>

fun lease_until :: "string \<times> string \<Rightarrow> duration \<Rightarrow> lock_call \<Rightarrow> time option" where
  "lease_until k lease (CallRequest c b i now) = (if (cn_NoteID c, b) = k then Some (now + lease) else None)"
| "lease_until k lease (CallRenew c b i now) = (if (cn_NoteID c, b) = k then Some (now + lease) else None)"
| "lease_until k lease _ = None"

definition lapsed_by :: "lease_table \<Rightarrow> string \<times> string \<Rightarrow> time \<Rightarrow> bool" where
  "lapsed_by v k now \<longleftrightarrow> (\<forall>e. v k = Some e \<longrightarrow> lk_ExpiresAt e \<le> now)"

definition holds_until :: "lease_table \<Rightarrow> string \<times> string \<Rightarrow> string \<Rightarrow> time \<Rightarrow> bool" where
  "holds_until v k cid t \<longleftrightarrow> (\<exists>e. v k = Some e \<and> lk_ConnectionID e = cid \<and> t \<le> lk_ExpiresAt e)"

lemma holds_untilD: "holds_until v k cid t \<Longrightarrow> now < t \<Longrightarrow>
    \<exists>e. v k = Some e \<and> lk_ConnectionID e = cid \<and> \<not> lock_IsExpired e now"
  by (auto simp: holds_until_def lock_IsExpired_def)

locale lock_service = lock_port ops view wf for ops :: "'s lock_ops" and view and wf +
  fixes st :: lock_settings
begin

lemma wf_lock_call: "wf s \<Longrightarrow> wf (lock_call_step ops st c s)"
  by (cases c) (auto simp: lock_service_defs wf_acquire wf_renew wf_release wf_release_all wf_sweep)

lemma wf_lock_calls: "wf s \<Longrightarrow> wf (lock_calls ops st cs s)"
  unfolding lock_calls_def by (induction cs arbitrary: s) (auto intro: wf_lock_call)

lemma view_acquire: "wf s \<Longrightarrow> view (snd (lo_Acquire ops (Some l) m now s)) = snd (spec_Acquire l m now (view s))"
  using acquire_refines [of s l m now] by (metis snd_map_prod)

lemma acquire_outcome: "wf s \<Longrightarrow> fst (lo_Acquire ops (Some l) m now s) = fst (spec_Acquire l m now (view s))"
  using acquire_refines [of s l m now] by (metis fst_map_prod id_apply)

lemma view_renew: "wf s \<Longrightarrow> view (snd (lo_Renew ops n b i c e now s)) = snd (spec_Renew (n, b) i c e now (view s))"
  using renew_refines [of s n b i c e now] by (metis snd_map_prod)

lemma view_release: "wf s \<Longrightarrow> view (snd (lo_Release ops n b i c s)) = snd (spec_Release (n, b) i c (view s))"
  using release_refines [of s n b i c] by (metis snd_map_prod)

lemmas call_views = view_acquire view_renew view_release release_all_refines sweep_refines

lemma holds_call:
  assumes "wf s" "holds_until (view s) k cid (t + bs_Lease st)" "within_lease cid t (bs_Lease st) c"
  shows "holds_until (view (lock_call_step ops st c s)) k cid (t + bs_Lease st)"
proof -
  obtain e where e: "view s k = Some e" "lk_ConnectionID e = cid" "t + bs_Lease st \<le> lk_ExpiresAt e"
    using assms(2) by (auto simp: holds_until_def)
  then have live: "now < t + bs_Lease st \<Longrightarrow> \<not> lock_IsExpired e now" for now
    by (simp add: lock_IsExpired_def)
  show ?thesis
    using assms(1,3) e live
    by (cases c) (auto simp: lock_service_defs call_views spec_Acquire_def spec_Renew_def spec_Release_def
        spec_drop_def held_by_other_def holds_until_def split: option.splits if_splits)
qed

lemma holds_calls:
  assumes "wf s" "holds_until (view s) k cid (t + bs_Lease st)" "\<forall>c \<in> set cs. within_lease cid t (bs_Lease st) c"
  shows "holds_until (view (lock_calls ops st cs s)) k cid (t + bs_Lease st)"
  using assms unfolding lock_calls_def
  by (induction cs arbitrary: s) (auto simp: holds_call wf_lock_call)

lemma Request_granted_holds:
  assumes "wf s" "Granted (fst (Request ops st conn b i t s))"
  shows "holds_until (view (snd (Request ops st conn b i t s))) (cn_NoteID conn, b) (cn_ID conn) (t + bs_Lease st)"
  using assms by (auto simp: Request_def acquire_outcome view_acquire spec_Acquire_def denied_def Granted_def
      holds_until_def split: if_splits)

lemma holder_excludes:
  assumes "wf s" "holds_until (view s) (cn_NoteID other, b) cid t" "cn_ID other \<noteq> cid" "now < t" "b \<noteq> []"
  shows "\<not> Granted (fst (Request ops st other b i now s))"
    and "\<exists>e. BlockedBy ops other b now s = Some e \<and> lk_ConnectionID e = cid"
proof -
  obtain e where e: "view s (cn_NoteID other, b) = Some e" "lk_ConnectionID e = cid" "\<not> lock_IsExpired e now"
    using holds_untilD [OF assms(2,4)] by blast
  then show "\<exists>e. BlockedBy ops other b now s = Some e \<and> lk_ConnectionID e = cid"
    using assms(1,3,5) by (auto simp: BlockedBy_def holder_refines spec_Holder_def)
  from e show "\<not> Granted (fst (Request ops st other b i now s))"
    using assms(1,3) by (auto simp: Request_def acquire_outcome spec_Acquire_def held_by_other_def
        denied_def Granted_def)
qed

text \<open>A lease lasts no longer than the last request or renewal for its block makes it.\<close>

lemma lapsed_call:
  assumes "wf s" "lapsed_by (view s) k now" "\<And>t. lease_until k (bs_Lease st) c = Some t \<Longrightarrow> t \<le> now"
  shows "lapsed_by (view (lock_call_step ops st c s)) k now"
  using assms
  by (cases c) (auto simp: lapsed_by_def lock_service_defs call_views spec_Acquire_def spec_Renew_def spec_Release_def
      spec_drop_def split: option.splits if_splits)

lemma lapsed_calls:
  assumes "wf s" "lapsed_by (view s) k now" "\<forall>c \<in> set cs. \<forall>t. lease_until k (bs_Lease st) c = Some t \<longrightarrow> t \<le> now"
  shows "lapsed_by (view (lock_calls ops st cs s)) k now"
  using assms unfolding lock_calls_def
  by (induction cs arbitrary: s) (auto simp: lapsed_call wf_lock_call)

lemma lapsed_is_free:
  assumes "wf s" "lapsed_by (view s) (cn_NoteID conn, b) now"
  shows "BlockedBy ops conn b now s = None" and "fst (Renew ops st conn b i now s) = Inl ErrLockNotFound"
    and "b \<noteq> [] \<Longrightarrow> i \<noteq> [] \<Longrightarrow> bs_MaxPerSession st \<le> 0 \<or> int (card (leased (view s) (cn_SessionID conn))) < bs_MaxPerSession st \<Longrightarrow>
      Granted (fst (Request ops st conn b i now s))"
proof -
  have e: "lock_IsExpired e now" if "view s (cn_NoteID conn, b) = Some e" for e
    using assms(2) that by (simp add: lapsed_by_def lock_IsExpired_def)
  show "BlockedBy ops conn b now s = None"
    using e assms(1) by (auto simp: BlockedBy_def holder_refines spec_Holder_def split: option.splits)
  have "fst (lo_Renew ops n b i c x now s) = fst (spec_Renew (n, b) i c x now (view s))" for n c x
    using renew_refines [OF assms(1), of n b i c x now] by (metis fst_map_prod id_apply)
  then show "fst (Renew ops st conn b i now s) = Inl ErrLockNotFound"
    using e by (auto simp: Renew_def spec_Renew_def split: option.splits)
  show "Granted (fst (Request ops st conn b i now s))" if "b \<noteq> []" "i \<noteq> []"
      "bs_MaxPerSession st \<le> 0 \<or> int (card (leased (view s) (cn_SessionID conn))) < bs_MaxPerSession st"
    using that e assms(1)
    by (auto simp: Request_def acquire_outcome spec_Acquire_def held_by_other_def granted_def Granted_def split: option.splits)
qed

text \<open>The ceiling on the leases of one session.\<close>

definition ceiling_inv :: "(string \<Rightarrow> string) \<Rightarrow> 's \<Rightarrow> bool" where
  "ceiling_inv session_of s \<longleftrightarrow> wf s \<and>
     (\<forall>k e. view s k = Some e \<longrightarrow> lk_SessionID e = session_of (lk_ConnectionID e)) \<and>
     (\<forall>sid. int (card (leased (view s) sid)) \<le> bs_MaxPerSession st)"

lemma leased_drop: "finite (dom v) \<Longrightarrow> card (leased (spec_drop P v) sid) \<le> card (leased v sid)"
  by (rule card_mono) (auto simp: leased_def spec_drop_def dom_def split: option.splits if_splits
      intro: finite_subset [of _ "dom v"])

lemma ceiling_acquire:
  assumes fin: "finite (dom v)"
    and own: "\<forall>k e. v k = Some e \<longrightarrow> lk_SessionID e = session_of (lk_ConnectionID e)"
    and le: "\<forall>sid. int (card (leased v sid)) \<le> m" and pos: "0 < m"
    and l: "lk_SessionID l = session_of (lk_ConnectionID l)"
  shows "int (card (leased (snd (spec_Acquire l m now v)) sid)) \<le> m"
proof -
  let ?k = "lock_key l"
  have finl: "finite (leased v sid)" by (rule finite_subset [OF leased_subset fin])
  consider "held_by_other l now v \<or> \<not> reacquires l v \<and> m \<le> int (card (leased v (lk_SessionID l)))"
    | "reacquires l v" "\<not> held_by_other l now v"
    | "\<not> reacquires l v" "int (card (leased v (lk_SessionID l))) < m" "\<not> held_by_other l now v" by linarith
  then show ?thesis
  proof cases
    case 1
    then show ?thesis using le pos by (auto simp: spec_Acquire_def)
  next
    case 2
    then obtain e where "v ?k = Some e" "lk_ConnectionID e = lk_ConnectionID l"
      by (auto simp: reacquires_def split: option.splits)
    then have "leased (v(?k \<mapsto> l)) sid = leased v sid"
      using own l by (intro leased_update [where l = e]) auto
    then show ?thesis using 2 le by (simp add: spec_Acquire_def)
  next
    case 3
    show ?thesis
    proof (cases "sid = lk_SessionID l")
      case True
      have "leased (v(?k \<mapsto> l)) sid \<subseteq> insert ?k (leased v sid)" by (auto simp: leased_def split: if_splits)
      then have "card (leased (v(?k \<mapsto> l)) sid) \<le> Suc (card (leased v sid))"
        using card_mono [of "insert ?k (leased v sid)" "leased (v(?k \<mapsto> l)) sid"] finl
        by (simp add: card_insert_if split: if_splits)
      then show ?thesis using 3 True by (simp add: spec_Acquire_def)
    next
      case False
      have "leased (v(?k \<mapsto> l)) sid \<subseteq> leased v sid" using False by (auto simp: leased_def split: if_splits)
      then have "card (leased (v(?k \<mapsto> l)) sid) \<le> card (leased v sid)" using finl by (rule card_mono [rotated])
      moreover have "int (card (leased v sid)) \<le> m" using le by blast
      ultimately show ?thesis using 3 by (simp add: spec_Acquire_def)
    qed
  qed
qed

lemma ceiling_call:
  assumes inv: "ceiling_inv session_of s" and pos: "0 < bs_MaxPerSession st" and c: "call_session_ok session_of c"
  shows "ceiling_inv session_of (lock_call_step ops st c s)"
proof -
  have w: "wf s" and own: "\<forall>k e. view s k = Some e \<longrightarrow> lk_SessionID e = session_of (lk_ConnectionID e)"
    and le: "\<forall>sid. int (card (leased (view s) sid)) \<le> bs_MaxPerSession st"
    using inv by (auto simp: ceiling_inv_def)
  note fin = view_finite [OF w]
  have own': "\<forall>k e. view (lock_call_step ops st c s) k = Some e \<longrightarrow> lk_SessionID e = session_of (lk_ConnectionID e)"
    using w own c
    by (cases c) (auto simp: lock_service_defs call_views spec_Acquire_def spec_Renew_def spec_Release_def
        spec_drop_def split: option.splits if_splits)
  have "int (card (leased (view (lock_call_step ops st c s)) sid)) \<le> bs_MaxPerSession st" for sid
  proof (cases c)
    case (CallRequest conn b i now)
    then show ?thesis
      using c le w ceiling_acquire [OF fin own le pos] by (auto simp: Request_def view_acquire)
  next
    case (CallRenew conn b i now)
    then have "leased (view (lock_call_step ops st c s)) sid = leased (view s) sid"
      using w by (auto simp: Renew_def view_renew spec_Renew_def leased_update split: option.splits)
    then show ?thesis using le by simp
  next
    case (CallRelease conn b i)
    have "card (leased (view s) sid - {k}) \<le> card (leased (view s) sid)" for k
      by (rule card_Diff1_le)
    with CallRelease have "card (leased (view (lock_call_step ops st c s)) sid) \<le> card (leased (view s) sid)"
      using w by (auto simp: Release_def view_release spec_Release_def leased_del split: option.splits)
    then show ?thesis using le by (meson of_nat_le_iff order_trans)
  next
    case (CallReleaseConnection x)
    then show ?thesis using w le leased_drop [OF fin]
      by (simp add: ReleaseConnection_def release_all_refines) (meson of_nat_le_iff order_trans)
  next
    case (CallLockSweep x)
    then show ?thesis using w le leased_drop [OF fin]
      by (simp add: locks_SweepExpired_def sweep_refines) (meson of_nat_le_iff order_trans)
  qed
  with own' wf_lock_call [OF w] show ?thesis by (simp add: ceiling_inv_def)
qed

lemma ceiling_calls:
  "ceiling_inv session_of s \<Longrightarrow> 0 < bs_MaxPerSession st \<Longrightarrow> \<forall>c \<in> set cs. call_session_ok session_of c \<Longrightarrow>
    ceiling_inv session_of (lock_calls ops st cs s)"
  unfolding lock_calls_def by (induction cs arbitrary: s) (auto simp: ceiling_call)

end

section \<open>The service over the in-memory store\<close>

interpretation mem_locks: lock_service memory_lock_ops lock_view lock_wf st for st
  by unfold_locales

definition example_conn :: "string \<Rightarrow> connection" where
  "example_conn cid = \<lparr>cn_ID = cid, cn_SessionID = ''s-'' @ cid, cn_UserID = ''u1'', cn_NoteID = ''n1'',
     cn_ConnectedAt = 0, cn_Ref = 0\<rparr>"

definition example_lock_settings :: lock_settings where
  "example_lock_settings = \<lparr>bs_Lease = 100, bs_MaxPerSession = 2, bs_SweepThreshold = 0\<rparr>"

lemmas lock_eval = example_conn_def example_lock_settings_def lock_service_defs memory_lock_ops_def
  lock_Acquire_def lock_Renew_def lock_Release_def lock_Holder_def NewMemoryLockStore_def note_locks_def
  session_count_def decrementLocked_def removeLocked_def lock_IsExpired_def granted_def denied_def
  Granted_def gm_put_def gm_del_def

section \<open>Properties\<close>

text \<open>
  C4. A granted lease is exclusive until it expires: whatever requests, renewals, releases,
  disconnects and sweeps of other connections are interleaved, and whatever the holder itself
  requests or renews, no other connection on the note is granted the block before the lease has
  run out, and each such connection is reported as blocked by the holder.
\<close>

theorem lease_exclusive:
  assumes "lock_wf s" and "Granted (fst (Request memory_lock_ops st conn b i t s))"
    and "\<forall>c \<in> set cs. within_lease (cn_ID conn) t (bs_Lease st) c"
    and "cn_ID other \<noteq> cn_ID conn" and "cn_NoteID other = cn_NoteID conn" and "now < t + bs_Lease st"
  shows "let s' = lock_calls memory_lock_ops st cs (snd (Request memory_lock_ops st conn b i t s)) in
    \<not> Granted (fst (Request memory_lock_ops st other b i' now s')) \<and>
    (\<exists>e. BlockedBy memory_lock_ops other b now s' = Some e \<and> lk_ConnectionID e = cn_ID conn)"
proof -
  let ?s1 = "snd (Request memory_lock_ops st conn b i t s)"
  let ?s' = "lock_calls memory_lock_ops st cs ?s1"
  have wf1: "lock_wf ?s1" using mem_locks.wf_lock_call [OF assms(1), of st "CallRequest conn b i t"] by simp
  have b: "b \<noteq> []" using assms(2) by (auto simp: Request_def Granted_def denied_def)
  have "holds_until (lock_view ?s') (cn_NoteID conn, b) (cn_ID conn) (t + bs_Lease st)"
    using mem_locks.Request_granted_holds [OF assms(1,2)] by (rule mem_locks.holds_calls [OF wf1 _ assms(3)])
  note h = this [folded assms(5)]
  show ?thesis
    using mem_locks.holder_excludes [OF mem_locks.wf_lock_calls [OF wf1] h assms(4,6) b] by (simp add: Let_def)
qed

theorem lease_exclusive_witness:
  "let st = example_lock_settings;
       s1 = snd (Request memory_lock_ops st (example_conn ''A'') ''blk'' ''L1'' 10 NewMemoryLockStore);
       s2 = lock_calls memory_lock_ops st [CallReleaseConnection ''B'', CallLockSweep 60] s1
   in \<not> Granted (fst (Request memory_lock_ops st (example_conn ''B'') ''blk'' ''L2'' 70 s2))"
proof -
  have g: "Granted (fst (Request memory_lock_ops example_lock_settings (example_conn ''A'') ''blk'' ''L1'' 10
      NewMemoryLockStore))"
    by (simp add: lock_eval)
  show ?thesis
    using lease_exclusive [OF lock_wf_new g, of "[CallReleaseConnection ''B'', CallLockSweep 60]"
        "example_conn ''B''" 70 "''L2''"]
    by (simp add: example_conn_def example_lock_settings_def Let_def)
qed

text \<open>
  C21. The ceiling on leases per session. When a ceiling is configured (\<open>MaxPerSession\<close> positive; the
  store reads zero or less as no ceiling) and every connection id requests under one session only, as every
  connection of the server does, then after any sequence of calls no session holds more than
  \<open>MaxPerSession\<close> leases, expired ones that were not swept yet included.
\<close>

theorem lease_ceiling:
  assumes "0 < bs_MaxPerSession st" and "\<forall>c \<in> set cs. call_session_ok session_of c"
  shows "int (card (leased (lock_view (lock_calls memory_lock_ops st cs NewMemoryLockStore)) sid))
    \<le> bs_MaxPerSession st"
proof -
  have "mem_locks.ceiling_inv st session_of NewMemoryLockStore"
    using assms(1) by (simp add: mem_locks.ceiling_inv_def lock_view_def note_locks_def
        NewMemoryLockStore_def leased_def lock_wf_new [unfolded NewMemoryLockStore_def])
  from mem_locks.ceiling_calls [OF this assms] show ?thesis by (simp add: mem_locks.ceiling_inv_def)
qed

theorem lease_ceiling_witness:
  "int (card (leased (lock_view (lock_calls memory_lock_ops example_lock_settings
      [CallRequest (example_conn ''A'') ''b1'' ''L1'' 1, CallRequest (example_conn ''A'') ''b2'' ''L2'' 2,
       CallRequest (example_conn ''A'') ''b3'' ''L3'' 3] NewMemoryLockStore)) ''s-A'')) \<le> 2"
  using lease_ceiling [of example_lock_settings
      "[CallRequest (example_conn ''A'') ''b1'' ''L1'' 1, CallRequest (example_conn ''A'') ''b2'' ''L2'' 2,
       CallRequest (example_conn ''A'') ''b3'' ''L3'' 3]" "\<lambda>cid. ''s-'' @ cid" "''s-A''"]
  by (simp add: example_conn_def example_lock_settings_def)

text \<open>
  C22. The disconnect path frees exactly the leases of the departing connection and reports each of
  them once, and the sweep does the same for exactly the expired ones; every other lease stays.
\<close>

theorem release_and_sweep_exact:
  assumes "lock_wf s"
  shows "reports (\<lambda>l. lk_ConnectionID l = cid) (lock_view s) (fst (ReleaseConnection memory_lock_ops cid s)) \<and>
    lock_view (snd (ReleaseConnection memory_lock_ops cid s)) =
      spec_drop (\<lambda>l. lk_ConnectionID l = cid) (lock_view s) \<and>
    reports (\<lambda>l. lock_IsExpired l now) (lock_view s) (fst (locks_SweepExpired memory_lock_ops now s)) \<and>
    lock_view (snd (locks_SweepExpired memory_lock_ops now s)) =
      spec_drop (\<lambda>l. lock_IsExpired l now) (lock_view s)"
  using assms memory_locks.release_all_reports memory_locks.release_all_refines
    memory_locks.sweep_reports memory_locks.sweep_refines
  by (simp add: ReleaseConnection_def locks_SweepExpired_def)

theorem release_and_sweep_exact_witness:
  "let s = snd (Request memory_lock_ops example_lock_settings (example_conn ''A'') ''blk'' ''L1'' 10 NewMemoryLockStore)
   in lock_view s (''n1'', ''blk'') \<noteq> None \<and>
     lock_view (snd (locks_SweepExpired memory_lock_ops 200 s)) (''n1'', ''blk'') = None"
proof -
  let ?s = "snd (Request memory_lock_ops example_lock_settings (example_conn ''A'') ''blk'' ''L1'' 10 NewMemoryLockStore)"
  have "lock_wf ?s"
    using mem_locks.wf_lock_call [OF lock_wf_new, of example_lock_settings
        "CallRequest (example_conn ''A'') ''blk'' ''L1'' 10"] by simp
  from release_and_sweep_exact [OF this, of "''A''" 200]
  have "lock_view (snd (locks_SweepExpired memory_lock_ops 200 ?s)) = spec_drop (\<lambda>l. lock_IsExpired l 200) (lock_view ?s)"
    by blast
  moreover have "\<exists>e. lock_view ?s (''n1'', ''blk'') = Some e \<and> lock_IsExpired e 200"
    by (simp add: lock_view_def lock_eval)
  ultimately show ?thesis by (auto simp: Let_def spec_drop_def)
qed

text \<open>
  C23. No block stays locked for longer than its lease. After any sequence of calls, once the lease period has passed since
  the last request or renewal for a block, by whomever, nobody is blocked from it any more, no renewal can
  bring a lease on it back, not even its holder's, and the next request that names it and a lock id is granted, swept or not, to any
  connection whose session is below its ceiling (the expired leases that were not swept yet counted).
\<close>

theorem abandoned_block_freed:
  assumes "\<forall>c \<in> set cs. \<forall>t. lease_until (cn_NoteID conn, b) (bs_Lease st) c = Some t \<longrightarrow> t \<le> now"
    and "s = lock_calls memory_lock_ops st cs NewMemoryLockStore"
  shows "BlockedBy memory_lock_ops conn b now s = None \<and>
    (\<forall>i. fst (Renew memory_lock_ops st conn b i now s) = Inl ErrLockNotFound) \<and>
    (\<forall>i. b \<noteq> [] \<and> i \<noteq> [] \<and>
       (bs_MaxPerSession st \<le> 0 \<or> int (card (leased (lock_view s) (cn_SessionID conn))) < bs_MaxPerSession st) \<longrightarrow>
       Granted (fst (Request memory_lock_ops st conn b i now s)))"
proof -
  have "lapsed_by (lock_view NewMemoryLockStore) (cn_NoteID conn, b) now"
    by (simp add: lapsed_by_def lock_view_def note_locks_def NewMemoryLockStore_def)
  then have "lapsed_by (lock_view s) (cn_NoteID conn, b) now"
    unfolding assms(2) using lock_wf_new assms(1) by (intro mem_locks.lapsed_calls)
  moreover have "lock_wf s" unfolding assms(2) by (rule mem_locks.wf_lock_calls [OF lock_wf_new])
  ultimately show ?thesis using mem_locks.lapsed_is_free [of s conn b now] by blast
qed

theorem abandoned_block_freed_witness:
  "Granted (fst (Request memory_lock_ops example_lock_settings (example_conn ''B'') ''blk'' ''L2'' 110
     (lock_calls memory_lock_ops example_lock_settings [CallRequest (example_conn ''A'') ''blk'' ''L1'' 10] NewMemoryLockStore)))"
proof -
  let ?s = "lock_calls memory_lock_ops example_lock_settings [CallRequest (example_conn ''A'') ''blk'' ''L1'' 10] NewMemoryLockStore"
  have late: "\<forall>c \<in> set [CallRequest (example_conn ''A'') ''blk'' ''L1'' 10]. \<forall>t.
      lease_until (cn_NoteID (example_conn ''B''), ''blk'') (bs_Lease example_lock_settings) c = Some t \<longrightarrow> t \<le> 110"
    by (simp add: example_conn_def example_lock_settings_def)
  have "leased (lock_view ?s) (cn_SessionID (example_conn ''B'')) = {}"
    by (auto simp: lock_calls_def leased_def lock_view_def lock_eval split: if_splits)
  then have "int (card (leased (lock_view ?s) (cn_SessionID (example_conn ''B'')))) < bs_MaxPerSession example_lock_settings"
    by (simp add: example_lock_settings_def)
  with abandoned_block_freed [OF late refl] show ?thesis by blast
qed

end
