(* ===== verification/Ticket_Store.thy ===== *)
theory Ticket_Store
  imports Domain
begin

text \<open>
  Connection tickets: the \<open>TicketStore\<close> port (\<open>internal/domain/ports.go\<close>) as a record of
  operations and a locale with its contract, and \<open>MemoryTicketStore\<close>
  (\<open>internal/infrastructure/memory_ticket_store.go\<close>) as the implementation that is shown to
  satisfy it. Each method runs under the store's mutex, so a method is one atomic step.
\<close>

section \<open>The port\<close>

record 's ticket_ops =
  to_Issue :: "connection_ticket option \<Rightarrow> 's \<Rightarrow> (error, unit) outcome \<times> 's"
  to_Consume :: "string \<Rightarrow> time \<Rightarrow> 's \<Rightarrow> (error, connection_ticket) outcome \<times> 's"
  to_SweepExpired :: "time \<Rightarrow> 's \<Rightarrow> nat \<times> 's"
  to_DeleteBySession :: "string \<Rightarrow> 's \<Rightarrow> nat \<times> 's"
  to_Count :: "'s \<Rightarrow> nat"

text \<open>A sequence of calls on a store, as concurrent handlers may interleave them.\<close>

datatype ticket_call = CallIssue "connection_ticket option" | CallConsume string time
  | CallSweep time | CallDeleteBySession string

fun ticket_call_step :: "'s ticket_ops \<Rightarrow> ticket_call \<Rightarrow> 's \<Rightarrow> 's" where
  "ticket_call_step ops (CallIssue t) s = snd (to_Issue ops t s)"
| "ticket_call_step ops (CallConsume v now) s = snd (to_Consume ops v now s)"
| "ticket_call_step ops (CallSweep now) s = snd (to_SweepExpired ops now s)"
| "ticket_call_step ops (CallDeleteBySession sid) s = snd (to_DeleteBySession ops sid s)"

definition ticket_calls :: "'s ticket_ops \<Rightarrow> ticket_call list \<Rightarrow> 's \<Rightarrow> 's" where
  "ticket_calls ops = fold (ticket_call_step ops)"

fun issues :: "string \<Rightarrow> ticket_call \<Rightarrow> bool" where
  "issues v (CallIssue (Some t)) = (tk_Value t = v)"
| "issues v _ = False"

locale ticket_port =
  fixes ops :: "'s ticket_ops"
    and view :: "'s \<Rightarrow> string \<Rightarrow> connection_ticket option"
    and wf :: "'s \<Rightarrow> bool"
  assumes issue_result: "fst (to_Issue ops arg s) =
      (case arg of Some t' \<Rightarrow> if tk_Value t' = [] then Inl ErrTicketNotFound else Inr ()
       | None \<Rightarrow> Inl ErrTicketNotFound)"
    and view_issue: "wf s \<Longrightarrow> view (snd (to_Issue ops arg s)) =
      (case arg of Some t' \<Rightarrow> if tk_Value t' = [] then view s else (view s)(tk_Value t' \<mapsto> t')
       | None \<Rightarrow> view s)"
    and consume_result: "wf s \<Longrightarrow> fst (to_Consume ops v now s) =
      (case view s v of None \<Rightarrow> Inl ErrTicketNotFound
       | Some t \<Rightarrow> if ticket_IsExpired t now then Inl ErrTicketExpired else Inr t)"
    and view_consume: "wf s \<Longrightarrow> view (snd (to_Consume ops v now s)) = (view s)(v := None)"
    and view_sweep: "wf s \<Longrightarrow> view (snd (to_SweepExpired ops now s)) k =
      (case view s k of None \<Rightarrow> None | Some t \<Rightarrow> if ticket_IsExpired t now then None else Some t)"
    and view_revoke: "wf s \<Longrightarrow> view (snd (to_DeleteBySession ops sid s)) k =
      (case view s k of None \<Rightarrow> None | Some t \<Rightarrow> if tk_SessionID t = sid then None else Some t)"
    and view_value: "wf s \<Longrightarrow> view s k = Some t \<Longrightarrow> tk_Value t = k"
    and wf_call: "wf s \<Longrightarrow> wf (ticket_call_step ops c s)"
begin

lemma wf_calls: "wf s \<Longrightarrow> wf (ticket_calls ops cs s)"
  unfolding ticket_calls_def by (induction cs arbitrary: s) (auto intro: wf_call)

lemma view_call_none:
  "wf s \<Longrightarrow> view s v = None \<Longrightarrow> \<not> issues v c \<Longrightarrow> view (ticket_call_step ops c s) v = None"
  by (cases c) (auto simp: view_issue view_consume view_sweep view_revoke split: option.splits)

lemma view_calls_none:
  assumes "wf s" "view s v = None" "\<forall>c \<in> set cs. \<not> issues v c"
  shows "view (ticket_calls ops cs s) v = None"
  using assms unfolding ticket_calls_def
  by (induction cs arbitrary: s) (auto simp: wf_call view_call_none)

text \<open>Redeeming a value spends it, whatever happens in between, until it is issued again.\<close>

lemma single_use:
  assumes "wf s" "\<forall>c \<in> set cs. \<not> issues v c"
  shows "fst (to_Consume ops v later (ticket_calls ops cs (snd (to_Consume ops v now s)))) =
    Inl ErrTicketNotFound"
proof -
  let ?s' = "snd (to_Consume ops v now s)"
  have wf': "wf ?s'" using wf_call [OF assms(1), of "CallConsume v now"] by simp
  have "view ?s' v = None" using assms(1) by (simp add: view_consume)
  then have "view (ticket_calls ops cs ?s') v = None"
    using wf' assms(2) by (intro view_calls_none)
  then show ?thesis by (simp add: consume_result wf_calls wf')
qed

lemma revoked_session_has_no_ticket:
  assumes "wf s" "fst (to_Consume ops v now (snd (to_DeleteBySession ops sid s))) = Inr t"
  shows "tk_SessionID t \<noteq> sid"
proof -
  have "wf (snd (to_DeleteBySession ops sid s))"
    using wf_call [OF assms(1), of "CallDeleteBySession sid"] by simp
  with assms(2) show ?thesis
    by (auto simp: consume_result view_revoke assms(1) split: option.splits if_splits)
qed

end

section \<open>The in-memory store\<close>

record ticket_store =
  ts_tickets :: "(string, connection_ticket) gomap"

definition NewMemoryTicketStore :: ticket_store where
  "NewMemoryTicketStore = \<lparr>ts_tickets = []\<rparr>"

definition ticket_Issue ::
  "connection_ticket option \<Rightarrow> ticket_store \<Rightarrow> (error, unit) outcome \<times> ticket_store" where
  "ticket_Issue ticket s = (case ticket of
     None \<Rightarrow> (Inl ErrTicketNotFound, s)
   | Some t \<Rightarrow> if tk_Value t = [] then (Inl ErrTicketNotFound, s)
       else (Inr (), s\<lparr>ts_tickets := gm_put (tk_Value t) t (ts_tickets s)\<rparr>))"

definition ticket_Consume ::
  "string \<Rightarrow> time \<Rightarrow> ticket_store \<Rightarrow> (error, connection_ticket) outcome \<times> ticket_store" where
  "ticket_Consume v now s = (case map_of (ts_tickets s) v of
     None \<Rightarrow> (Inl ErrTicketNotFound, s)
   | Some t \<Rightarrow> (let s' = s\<lparr>ts_tickets := gm_del v (ts_tickets s)\<rparr> in
       if ticket_IsExpired t now then (Inl ErrTicketExpired, s') else (Inr t, s')))"

definition ticket_SweepExpired :: "time \<Rightarrow> ticket_store \<Rightarrow> nat \<times> ticket_store" where
  "ticket_SweepExpired now s =
     (let (m, removed) = gm_delete_where (\<lambda>t. ticket_IsExpired t now) (ts_tickets s)
      in (removed, s\<lparr>ts_tickets := m\<rparr>))"

definition ticket_DeleteBySession :: "string \<Rightarrow> ticket_store \<Rightarrow> nat \<times> ticket_store" where
  "ticket_DeleteBySession sessionID s =
     (let (m, removed) = gm_delete_where (\<lambda>t. tk_SessionID t = sessionID) (ts_tickets s)
      in (removed, s\<lparr>ts_tickets := m\<rparr>))"

definition ticket_Count :: "ticket_store \<Rightarrow> nat" where
  "ticket_Count s = length (ts_tickets s)"

definition memory_ticket_ops :: "ticket_store ticket_ops" where
  "memory_ticket_ops = \<lparr>to_Issue = ticket_Issue, to_Consume = ticket_Consume,
     to_SweepExpired = ticket_SweepExpired, to_DeleteBySession = ticket_DeleteBySession,
     to_Count = ticket_Count\<rparr>"

definition ticket_wf :: "ticket_store \<Rightarrow> bool" where
  "ticket_wf s \<longleftrightarrow> gm_wf (ts_tickets s) \<and>
     list_all (\<lambda>(k, t). tk_Value t = k \<and> k \<noteq> []) (ts_tickets s)"

abbreviation ticket_view :: "ticket_store \<Rightarrow> string \<Rightarrow> connection_ticket option" where
  "ticket_view s \<equiv> map_of (ts_tickets s)"

lemmas ticket_defs = ticket_Issue_def ticket_Consume_def ticket_SweepExpired_def
  ticket_DeleteBySession_def memory_ticket_ops_def

lemma ticket_wf_filter:
  "ticket_wf s \<Longrightarrow> ticket_wf (s\<lparr>ts_tickets := fst (gm_delete_where P (ts_tickets s))\<rparr>)"
  by (auto simp: ticket_wf_def gm_delete_where_eq list_all_iff)

lemma ticket_wf_new [simp]: "ticket_wf NewMemoryTicketStore"
  by (simp add: ticket_wf_def NewMemoryTicketStore_def)

lemma ticket_wf_step [inv_intros]:
  "ticket_wf s \<Longrightarrow> ticket_wf (ticket_call_step memory_ticket_ops c s)"
proof (cases c)
  case (CallIssue t)
  then show "ticket_wf s \<Longrightarrow> ?thesis"
    by (auto simp: ticket_defs ticket_wf_def list_all_iff set_gm_put split: option.splits)
next
  case (CallConsume v now)
  then show "ticket_wf s \<Longrightarrow> ?thesis"
    by (auto simp: ticket_defs ticket_wf_def list_all_iff Let_def split: option.splits)
next
  case (CallSweep now)
  then show "ticket_wf s \<Longrightarrow> ?thesis"
    by (simp add: ticket_defs case_prod_unfold Let_def ticket_wf_filter)
next
  case (CallDeleteBySession sid)
  then show "ticket_wf s \<Longrightarrow> ?thesis"
    by (simp add: ticket_defs case_prod_unfold Let_def ticket_wf_filter)
qed

interpretation memory_tickets: ticket_port memory_ticket_ops ticket_view ticket_wf
proof unfold_locales
  fix s sid now k
  assume "ticket_wf s"
  then have "gm_wf (ts_tickets s)" by (simp add: ticket_wf_def)
  then show "ticket_view (snd (to_SweepExpired memory_ticket_ops now s)) k =
      (case ticket_view s k of None \<Rightarrow> None | Some t \<Rightarrow> if ticket_IsExpired t now then None else Some t)"
    and "ticket_view (snd (to_DeleteBySession memory_ticket_ops sid s)) k =
      (case ticket_view s k of None \<Rightarrow> None | Some t \<Rightarrow> if tk_SessionID t = sid then None else Some t)"
    by (simp_all add: ticket_defs case_prod_unfold Let_def map_of_delete_where)
next
  fix s k t
  assume "ticket_wf s" "ticket_view s k = Some t"
  then show "tk_Value t = k" by (auto simp: ticket_wf_def list_all_iff dest!: map_of_SomeD)
next
  fix s c
  assume "ticket_wf s"
  then show "ticket_wf (ticket_call_step memory_ticket_ops c s)" by (rule ticket_wf_step)
qed (auto simp: ticket_defs Let_def split: option.splits)

section \<open>Properties\<close>

text \<open>
  C2. A connection ticket is single use: after a redemption attempt for a value, every later
  attempt for the same value fails with \<open>ErrTicketNotFound\<close>, whatever issues, redemptions, sweeps
  and revocations other handlers interleave, as long as the value is not issued again.
\<close>

theorem ticket_single_use:
  assumes "ticket_wf s" and "\<forall>c \<in> set cs. \<not> issues v c"
  shows "fst (ticket_Consume v later
      (ticket_calls memory_ticket_ops cs (snd (ticket_Consume v now s)))) = Inl ErrTicketNotFound"
  using memory_tickets.single_use [OF assms, of later now] by (simp add: memory_ticket_ops_def)

definition example_ticket :: connection_ticket where
  "example_ticket = \<lparr>tk_Value = ''t1'', tk_SessionID = ''s1'', tk_UserID = ''u1'', tk_NoteID = ''n1'',
     tk_Permission = PermissionEdit, tk_ExpiresAt = 30, tk_CreatedAt = 0\<rparr>"

theorem ticket_single_use_witness:
  "let s = snd (ticket_Issue (Some example_ticket) NewMemoryTicketStore) in
   fst (ticket_Consume ''t1'' 5 s) = Inr example_ticket \<and>
   fst (ticket_Consume ''t1'' 7 (ticket_calls memory_ticket_ops [CallSweep 6]
     (snd (ticket_Consume ''t1'' 5 s)))) = Inl ErrTicketNotFound"
proof -
  let ?s = "snd (ticket_Issue (Some example_ticket) NewMemoryTicketStore)"
  have wf: "ticket_wf ?s"
    using ticket_wf_step [OF ticket_wf_new, of "CallIssue (Some example_ticket)"]
    by (simp add: memory_ticket_ops_def)
  have ok: "fst (ticket_Consume ''t1'' 5 ?s) = Inr example_ticket"
    by (simp add: ticket_defs NewMemoryTicketStore_def example_ticket_def ticket_IsExpired_def)
  show ?thesis
    using ok ticket_single_use [OF wf, of "[CallSweep 6]" "''t1''" 7 5] by (simp add: Let_def)
qed

end
