(* ===== verification/Session_Store.thy ===== *)
theory Session_Store
  imports Domain
begin

text \<open>
  Live canvas sessions: the \<open>SessionStore\<close> port (\<open>internal/domain/ports.go\<close>) with its contract,
  and \<open>MemorySessionStore\<close> (\<open>internal/infrastructure/memory_session_store.go\<close>).
\<close>

section \<open>The port\<close>

record 's session_ops =
  so_Save :: "canvas_session option \<Rightarrow> 's \<Rightarrow> (error, unit) outcome \<times> 's"
  so_Get :: "string \<Rightarrow> 's \<Rightarrow> canvas_session option"
  so_Delete :: "string \<Rightarrow> 's \<Rightarrow> bool \<times> 's"
  so_DeleteByUserAndNote :: "string \<Rightarrow> string \<Rightarrow> 's \<Rightarrow> nat \<times> 's"
  so_UpdatePermission :: "string \<Rightarrow> permission \<Rightarrow> 's \<Rightarrow> (error, unit) outcome \<times> 's"
  so_Touch :: "string \<Rightarrow> time \<Rightarrow> 's \<Rightarrow> (error, unit) outcome \<times> 's"
  so_SweepExpired :: "time \<Rightarrow> duration \<Rightarrow> 's \<Rightarrow> nat \<times> 's"
  so_Count :: "'s \<Rightarrow> nat"

locale session_port =
  fixes ops :: "'s session_ops"
    and view :: "'s \<Rightarrow> string \<Rightarrow> canvas_session option"
    and wf :: "'s \<Rightarrow> bool"
  assumes save_ok: "ss_ID x \<noteq> [] \<Longrightarrow> fst (so_Save ops (Some x) s) = Inr ()"
    and save_bad: "ss_ID x = [] \<Longrightarrow> so_Save ops (Some x) s = (Inl ErrSessionNotFound, s)"
    and view_save: "wf s \<Longrightarrow> ss_ID x \<noteq> [] \<Longrightarrow> view (snd (so_Save ops (Some x) s)) = (view s)(ss_ID x \<mapsto> x)"
    and get_view: "so_Get ops k s = view s k"
    and delete_result: "fst (so_Delete ops k s) = (view s k \<noteq> None)"
    and view_delete: "wf s \<Longrightarrow> view (snd (so_Delete ops k s)) = (view s)(k := None)"
    and view_delete_user: "wf s \<Longrightarrow> view (snd (so_DeleteByUserAndNote ops u n s)) k =
      (case view s k of None \<Rightarrow> None
       | Some x \<Rightarrow> if ss_UserID x = u \<and> ss_NoteID x = n then None else Some x)"
    and update_result: "fst (so_UpdatePermission ops k p s) =
      (if view s k = None then Inl ErrSessionNotFound else Inr ())"
    and view_update: "wf s \<Longrightarrow> view (snd (so_UpdatePermission ops k p s)) =
      (case view s k of None \<Rightarrow> view s | Some x \<Rightarrow> (view s)(k \<mapsto> x\<lparr>ss_Permission := p\<rparr>))"
    and view_touch: "wf s \<Longrightarrow> view (snd (so_Touch ops k now s)) =
      (case view s k of None \<Rightarrow> view s | Some x \<Rightarrow> (view s)(k \<mapsto> session_Touch x now))"
    and view_sweep: "wf s \<Longrightarrow> view (snd (so_SweepExpired ops now idle s)) k =
      (case view s k of None \<Rightarrow> None
       | Some x \<Rightarrow> if session_IsExpired x now \<or> session_IsIdle x now idle then None else Some x)"
    and view_id: "wf s \<Longrightarrow> view s k = Some x \<Longrightarrow> ss_ID x = k \<and> k \<noteq> []"
    and wf_save: "wf s \<Longrightarrow> wf (snd (so_Save ops arg s))"
    and wf_delete: "wf s \<Longrightarrow> wf (snd (so_Delete ops k s))"
    and wf_delete_user: "wf s \<Longrightarrow> wf (snd (so_DeleteByUserAndNote ops u n s))"
    and wf_update: "wf s \<Longrightarrow> wf (snd (so_UpdatePermission ops k p s))"
    and wf_touch: "wf s \<Longrightarrow> wf (snd (so_Touch ops k now s))"
    and wf_sweep: "wf s \<Longrightarrow> wf (snd (so_SweepExpired ops now idle s))"

section \<open>The in-memory store\<close>

record session_store =
  st_sessions :: "(string, canvas_session) gomap"

definition NewMemorySessionStore :: session_store where
  "NewMemorySessionStore = \<lparr>st_sessions = []\<rparr>"

definition session_Save ::
  "canvas_session option \<Rightarrow> session_store \<Rightarrow> (error, unit) outcome \<times> session_store" where
  "session_Save session s = (case session of
     None \<Rightarrow> (Inl ErrSessionNotFound, s)
   | Some x \<Rightarrow> if ss_ID x = [] then (Inl ErrSessionNotFound, s)
       else (Inr (), s\<lparr>st_sessions := gm_put (ss_ID x) x (st_sessions s)\<rparr>))"

definition session_Get :: "string \<Rightarrow> session_store \<Rightarrow> canvas_session option" where
  "session_Get sessionID s = map_of (st_sessions s) sessionID"

definition session_Delete :: "string \<Rightarrow> session_store \<Rightarrow> bool \<times> session_store" where
  "session_Delete sessionID s = (case map_of (st_sessions s) sessionID of
     None \<Rightarrow> (False, s)
   | Some _ \<Rightarrow> (True, s\<lparr>st_sessions := gm_del sessionID (st_sessions s)\<rparr>))"

definition session_DeleteByUserAndNote ::
  "string \<Rightarrow> string \<Rightarrow> session_store \<Rightarrow> nat \<times> session_store" where
  "session_DeleteByUserAndNote userID noteID s =
     (let (m, removed) = gm_delete_where (\<lambda>x. ss_UserID x = userID \<and> ss_NoteID x = noteID)
            (st_sessions s)
      in (removed, s\<lparr>st_sessions := m\<rparr>))"

definition session_UpdatePermission ::
  "string \<Rightarrow> permission \<Rightarrow> session_store \<Rightarrow> (error, unit) outcome \<times> session_store" where
  "session_UpdatePermission sessionID permission s = (case map_of (st_sessions s) sessionID of
     None \<Rightarrow> (Inl ErrSessionNotFound, s)
   | Some x \<Rightarrow> (Inr (), s\<lparr>st_sessions :=
       gm_put sessionID (x\<lparr>ss_Permission := permission\<rparr>) (st_sessions s)\<rparr>))"

definition session_store_Touch ::
  "string \<Rightarrow> time \<Rightarrow> session_store \<Rightarrow> (error, unit) outcome \<times> session_store" where
  "session_store_Touch sessionID now s = (case map_of (st_sessions s) sessionID of
     None \<Rightarrow> (Inl ErrSessionNotFound, s)
   | Some x \<Rightarrow> (Inr (), s\<lparr>st_sessions := gm_put sessionID (session_Touch x now) (st_sessions s)\<rparr>))"

definition session_SweepExpired :: "time \<Rightarrow> duration \<Rightarrow> session_store \<Rightarrow> nat \<times> session_store" where
  "session_SweepExpired now idleTimeout s =
     (let (m, removed) = gm_delete_where
            (\<lambda>x. session_IsExpired x now \<or> session_IsIdle x now idleTimeout) (st_sessions s)
      in (removed, s\<lparr>st_sessions := m\<rparr>))"

definition session_Count :: "session_store \<Rightarrow> nat" where
  "session_Count s = length (st_sessions s)"

definition memory_session_ops :: "session_store session_ops" where
  "memory_session_ops = \<lparr>so_Save = session_Save, so_Get = session_Get, so_Delete = session_Delete,
     so_DeleteByUserAndNote = session_DeleteByUserAndNote,
     so_UpdatePermission = session_UpdatePermission, so_Touch = session_store_Touch,
     so_SweepExpired = session_SweepExpired, so_Count = session_Count\<rparr>"

definition session_wf :: "session_store \<Rightarrow> bool" where
  "session_wf s \<longleftrightarrow> gm_wf (st_sessions s) \<and>
     list_all (\<lambda>(k, x). ss_ID x = k \<and> k \<noteq> []) (st_sessions s)"

abbreviation session_view :: "session_store \<Rightarrow> string \<Rightarrow> canvas_session option" where
  "session_view s \<equiv> map_of (st_sessions s)"

lemmas session_defs = session_Save_def session_Get_def session_Delete_def
  session_DeleteByUserAndNote_def session_UpdatePermission_def session_store_Touch_def
  session_SweepExpired_def

lemma session_wf_new [simp]: "session_wf NewMemorySessionStore"
  by (simp add: session_wf_def NewMemorySessionStore_def)

lemma session_wf_filter:
  "session_wf s \<Longrightarrow> session_wf (s\<lparr>st_sessions := fst (gm_delete_where P (st_sessions s))\<rparr>)"
  by (auto simp: session_wf_def gm_delete_where_eq list_all_iff)

lemma session_wf_put:
  "session_wf s \<Longrightarrow> ss_ID x = k \<Longrightarrow> k \<noteq> [] \<Longrightarrow>
    session_wf (s\<lparr>st_sessions := gm_put k x (st_sessions s)\<rparr>)"
  by (auto simp: session_wf_def list_all_iff set_gm_put)

lemma session_wf_del: "session_wf s \<Longrightarrow> session_wf (s\<lparr>st_sessions := gm_del k (st_sessions s)\<rparr>)"
  by (auto simp: session_wf_def list_all_iff)

lemma session_wf_lookup: "session_wf s \<Longrightarrow> session_view s k = Some x \<Longrightarrow> ss_ID x = k \<and> k \<noteq> []"
  by (auto simp: session_wf_def list_all_iff dest!: map_of_SomeD)

interpretation memory_sessions: session_port memory_session_ops session_view session_wf
proof unfold_locales
  fix s u n k now idle
  assume wf: "session_wf s"
  then have d: "gm_wf (st_sessions s)" by (simp add: session_wf_def)
  show "session_view (snd (so_DeleteByUserAndNote memory_session_ops u n s)) k =
      (case session_view s k of None \<Rightarrow> None
       | Some x \<Rightarrow> if ss_UserID x = u \<and> ss_NoteID x = n then None else Some x)"
    and "session_view (snd (so_SweepExpired memory_session_ops now idle s)) k =
      (case session_view s k of None \<Rightarrow> None
       | Some x \<Rightarrow> if session_IsExpired x now \<or> session_IsIdle x now idle then None else Some x)"
    using d by (simp_all add: memory_session_ops_def session_defs case_prod_unfold Let_def
        map_of_delete_where)
  show "session_wf (snd (so_DeleteByUserAndNote memory_session_ops u n s))"
    and "session_wf (snd (so_SweepExpired memory_session_ops now idle s))"
    using wf by (simp_all add: memory_session_ops_def session_defs case_prod_unfold Let_def
        session_wf_filter)
qed (auto simp: memory_session_ops_def session_defs session_wf_put session_wf_del session_wf_lookup
    session_Touch_def split: option.splits)

end
