(* ===== verification/Canvas_Tokens.thy ===== *)
theory Canvas_Tokens
  imports Domain
begin

text \<open>
  Credentials (\<open>internal/security/canvas_jwt_validator.go\<close>, \<open>connection_ticket.go\<close>). The JWT
  library call \<open>jwt.ParseWithClaims\<close> is a parameter \<open>parse\<close>: it returns the claims of a token
  whose signature, algorithm, issuer, audience and lifetime it accepted, or nothing. The program's
  own checks on the claims are the definition \<open>toCanvasClaims\<close>. Ticket values are the URL-safe
  base64 text of the bytes the random source delivered; the bytes are an argument.
\<close>

section \<open>Token claims\<close>

record token_claims =
  tc_NoteID :: string
  tc_SessionID :: string
  tc_Permission :: string
  tc_Subject :: string
  tc_ID :: string
  tc_IssuedAt :: "time option"
  tc_NotBefore :: "time option"
  tc_ExpiresAt :: "time option"

record canvas_claims =
  cc_UserID :: string
  cc_NoteID :: string
  cc_SessionID :: string
  cc_TokenID :: string
  cc_Permission :: permission
  cc_IssuedAt :: time
  cc_NotBefore :: time
  cc_ExpiresAt :: time

definition toCanvasClaims :: "token_claims \<Rightarrow> (error, canvas_claims) outcome" where
  "toCanvasClaims c =
     (if tc_Subject c = [] then Inl (ErrMissingClaim ''sub'')
      else if tc_NoteID c = [] then Inl (ErrMissingClaim ''nid'')
      else if tc_SessionID c = [] then Inl (ErrMissingClaim ''sid'')
      else if tc_ID c = [] then Inl (ErrMissingClaim ''jti'')
      else case tc_IssuedAt c of None \<Rightarrow> Inl (ErrMissingClaim ''iat'')
      | Some iat \<Rightarrow> (case tc_NotBefore c of None \<Rightarrow> Inl (ErrMissingClaim ''nbf'')
      | Some nbf \<Rightarrow> (case tc_ExpiresAt c of None \<Rightarrow> Inl (ErrMissingClaim ''exp'')
      | Some expiry \<Rightarrow> (case ParsePermission (tc_Permission c) of
          Inl _ \<Rightarrow> Inl (ErrMissingClaim ''perm'')
        | Inr permission \<Rightarrow> Inr \<lparr>cc_UserID = tc_Subject c, cc_NoteID = tc_NoteID c,
            cc_SessionID = tc_SessionID c, cc_TokenID = tc_ID c, cc_Permission = permission,
            cc_IssuedAt = iat, cc_NotBefore = nbf, cc_ExpiresAt = expiry\<rparr>))))"

definition Validate :: "(string \<Rightarrow> token_claims option) \<Rightarrow> string \<Rightarrow> (error, canvas_claims) outcome" where
  "Validate parse token = (case parse token of
     None \<Rightarrow> Inl ErrInvalidToken
   | Some claims \<Rightarrow> toCanvasClaims claims)"

lemma toCanvasClaims_complete:
  assumes "toCanvasClaims c = Inr x"
  shows "cc_UserID x = tc_Subject c \<and> cc_NoteID x = tc_NoteID c \<and> cc_SessionID x = tc_SessionID c \<and>
    cc_TokenID x = tc_ID c \<and> cc_Permission x = tc_Permission c \<and> Valid (cc_Permission x) \<and>
    cc_UserID x \<noteq> [] \<and> cc_NoteID x \<noteq> [] \<and> cc_SessionID x \<noteq> [] \<and> cc_TokenID x \<noteq> [] \<and>
    tc_ExpiresAt c = Some (cc_ExpiresAt x)"
  using assms
  by (auto simp: toCanvasClaims_def ParsePermission_Inr split: if_splits option.splits sum.splits)

lemma Validate_Inr:
  "Validate parse token = Inr x \<Longrightarrow>
    \<exists>c. parse token = Some c \<and> toCanvasClaims c = Inr x"
  by (auto simp: Validate_def split: option.splits)

section \<open>Ticket values\<close>

definition b64_alphabet :: string where
  "b64_alphabet = ''ABCDEFGHIJKLMNOPQRSTUVWXYZabcdefghijklmnopqrstuvwxyz0123456789-_''"

definition b64_char :: "nat \<Rightarrow> char" where
  "b64_char n = b64_alphabet ! (n mod 64)"

text \<open>\<open>base64.RawURLEncoding.EncodeToString\<close>: groups of three bytes, no padding.\<close>

fun b64url :: "bytes \<Rightarrow> string" where
  "b64url [] = []"
| "b64url [a] = (let n = unat a * 16 in [b64_char (n div 64), b64_char n])"
| "b64url [a, b] = (let n = (unat a * 256 + unat b) * 4 in
     [b64_char (n div 4096), b64_char (n div 64), b64_char n])"
| "b64url (a # b # c # r) = (let n = (unat a * 256 + unat b) * 256 + unat c in
     [b64_char (n div 262144), b64_char (n div 4096), b64_char (n div 64), b64_char n] @ b64url r)"

abbreviation "TicketBytes \<equiv> (32::nat)"

text \<open>The random source either fails or fills the buffer of \<open>TicketBytes\<close> bytes.\<close>

definition NewTicketValue :: "bytes option \<Rightarrow> (error, string) outcome" where
  "NewTicketValue entropy = (case entropy of
     None \<Rightarrow> Inl ErrTicketEntropy
   | Some buffer \<Rightarrow> Inr (b64url buffer))"

lemma length_b64url: "length (b64url bs) = (4 * length bs + 2) div 3"
  by (induction bs rule: b64url.induct) (auto simp: Let_def)

lemma b64_alphabet_distinct: "distinct b64_alphabet" "length b64_alphabet = 64"
  by (simp_all add: b64_alphabet_def)

lemma b64_char_inj: "b64_char m = b64_char n \<Longrightarrow> m mod 64 = n mod 64"
  unfolding b64_char_def
  using nth_eq_iff_index_eq [OF b64_alphabet_distinct(1), of "m mod 64" "n mod 64"]
  by (simp add: b64_alphabet_distinct(2))

lemma byte_bound [simp]: "unat (a :: byte) < 256"
proof -
  have "unat a < 2 ^ LENGTH(8)" by (rule unsigned_less)
  then show ?thesis by simp
qed

text \<open>The digits of a number in base 64 and in base 256 determine it.\<close>

lemma base64_digits:
  fixes x :: nat
  assumes "x < 16777216"
  shows "x = 262144 * (x div 262144 mod 64) + (4096 * (x div 4096 mod 64) + (64 * (x div 64 mod 64) + x mod 64))"
proof -
  have "x = x mod 16777216" using assms by simp
  also have "\<dots> = 262144 * (x div 262144 mod 64) + x mod 262144"
    using mod_mult2_eq [of x 262144 64] by simp
  also have "x mod 262144 = 4096 * (x div 4096 mod 64) + x mod 4096"
    using mod_mult2_eq [of x 4096 64] by simp
  also have "x mod 4096 = 64 * (x div 64 mod 64) + x mod 64"
    using mod_mult2_eq [of x 64 64] by simp
  finally show ?thesis .
qed

lemma b64_group:
  fixes m n :: nat
  assumes "m < 16777216" "n < 16777216" "m div 262144 mod 64 = n div 262144 mod 64"
    "m div 4096 mod 64 = n div 4096 mod 64" "m div 64 mod 64 = n div 64 mod 64" "m mod 64 = n mod 64"
  shows "m = n"
  using base64_digits [OF assms(1)] base64_digits [OF assms(2)] assms(3-6) by simp

lemma b64_group_short:
  fixes m n :: nat
  assumes "m < 262144" "n < 262144"
    "m div 4096 mod 64 = n div 4096 mod 64" "m div 64 mod 64 = n div 64 mod 64" "m mod 64 = n mod 64"
  shows "m = n"
proof (rule b64_group)
  show "m < 16777216" "n < 16777216" using assms(1,2) by linarith+
  show "m div 262144 mod 64 = n div 262144 mod 64" using div_less [OF assms(1)] div_less [OF assms(2)] by simp
qed (rule assms)+

lemma byte_scaled:
  fixes x y :: nat
  assumes "x < 256"
  shows "x * 16 < 4096" and "y < 256 \<Longrightarrow> (x * 256 + y) * 4 < 262144"
proof -
  show "x * 16 < 4096" using assms by simp
  assume "y < 256"
  with assms have "(x * 256 + y) * 4 \<le> (255 * 256 + 255) * 4" by (intro add_mono mult_le_mono) auto
  then show "(x * 256 + y) * 4 < 262144" by simp
qed

definition word24 :: "byte \<Rightarrow> byte \<Rightarrow> byte \<Rightarrow> nat" where
  "word24 a b c = (unat a * 256 + unat b) * 256 + unat c"

lemma word24_digits:
  "word24 a b c mod 256 = unat c" "word24 a b c div 256 mod 256 = unat b"
  "word24 a b c div 65536 = unat a"
proof -
  show "word24 a b c mod 256 = unat c"
    unfolding word24_def by (simp only: mod_mult_self3 mod_less byte_bound)
  have d: "word24 a b c div 256 = unat a * 256 + unat b"
    unfolding word24_def by (simp add: div_mult_self3 del: distrib_right_numeral)
  then show "word24 a b c div 256 mod 256 = unat b" by simp
  have "word24 a b c div (256 * 256) = word24 a b c div 256 div 256" by (simp only: div_mult2_eq)
  with d show "word24 a b c div 65536 = unat a" by simp
qed

lemma word24_bound [simp]: "word24 a b c < 16777216"
proof -
  have "x < 256 \<Longrightarrow> y < 256 \<Longrightarrow> z < 256 \<Longrightarrow> (x * 256 + y) * 256 + z \<le> (255 * 256 + 255) * 256 + 255"
    for x y z :: nat by (intro add_mono mult_le_mono) auto
  from this [OF byte_bound byte_bound byte_bound, of a b c]
  show ?thesis unfolding word24_def by simp
qed

lemma word24_inj: "word24 a b c = word24 a' b' c' \<Longrightarrow> a = a' \<and> b = b' \<and> c = c'"
  by (metis word24_digits word_unat_eq_iff)

lemma b64url_Cons3:
  "b64url (a # b # c # r) = b64_char (word24 a b c div 262144) # b64_char (word24 a b c div 4096) #
    b64_char (word24 a b c div 64) # b64_char (word24 a b c) # b64url r"
  by (simp add: Let_def word24_def)

lemma b64_step_inj:
  fixes a b c a' b' c' :: byte
  assumes "b64url (a # b # c # r) = b64url (a' # b' # c' # r')"
  shows "a = a' \<and> b = b' \<and> c = c' \<and> b64url r = b64url r'"
proof -
  from assms have eq: "b64_char (word24 a b c div 262144) = b64_char (word24 a' b' c' div 262144)"
    "b64_char (word24 a b c div 4096) = b64_char (word24 a' b' c' div 4096)"
    "b64_char (word24 a b c div 64) = b64_char (word24 a' b' c' div 64)"
    "b64_char (word24 a b c) = b64_char (word24 a' b' c')" "b64url r = b64url r'"
    unfolding b64url_Cons3 by simp_all
  have "word24 a b c = word24 a' b' c'"
    by (rule b64_group [OF word24_bound word24_bound]) (rule b64_char_inj, rule eq)+
  with eq(5) word24_inj [of a b c a' b' c'] show ?thesis by simp
qed

lemma b64url_inj: "length xs = length ys \<Longrightarrow> b64url xs = b64url ys \<Longrightarrow> xs = ys"
proof (induction xs arbitrary: ys rule: b64url.induct)
  case 1
  then show ?case by simp
next
  case (2 a)
  from "2.prems"(1) obtain a' where ys: "ys = [a']" by (cases ys) auto
  with "2.prems"(2) have "b64_char (unat a * 16 div 64) = b64_char (unat a' * 16 div 64)"
    "b64_char (unat a * 16) = b64_char (unat a' * 16)"
    by (simp_all only: b64url.simps Let_def list.inject)
  note d = this [THEN b64_char_inj]
  have "unat a * 16 < 4096" "unat a' * 16 < 4096" by (rule byte_scaled(1), rule byte_bound)+
  then have "unat a * 16 = unat a' * 16"
    by (intro b64_group_short [OF _ _ _ d]) (linarith | simp only: div_less)+
  then show ?case using ys by (simp add: word_unat_eq_iff)
next
  case (3 a b)
  from "3.prems"(1) obtain a' b' where ys: "ys = [a', b']" by (cases ys; cases "tl ys") auto
  let ?m = "unat a * 256 + unat b" and ?n = "unat a' * 256 + unat b'"
  from "3.prems"(2) ys have "b64_char (?m * 4 div 4096) = b64_char (?n * 4 div 4096)"
    "b64_char (?m * 4 div 64) = b64_char (?n * 4 div 64)" "b64_char (?m * 4) = b64_char (?n * 4)"
    by (simp_all only: b64url.simps Let_def list.inject)
  note d = this [THEN b64_char_inj]
  have "?m * 4 = ?n * 4"
    by (rule b64_group_short [OF byte_scaled(2) byte_scaled(2) d]) (rule byte_bound)+
  then have "word24 a b 0 = word24 a' b' 0" unfolding word24_def by simp
  then show ?case using ys word24_inj by blast
next
  case (4 a b c r)
  from "4.prems"(1) obtain a' b' c' r' where ys: "ys = a' # b' # c' # r'"
    by (cases ys; cases "tl ys"; cases "tl (tl ys)") auto
  have "a = a' \<and> b = b' \<and> c = c' \<and> b64url r = b64url r'"
    by (rule b64_step_inj) (rule "4.prems"(2) [unfolded ys])
  moreover have "length r = length r'" using "4.prems"(1) ys by simp
  ultimately show ?case using "4.IH" ys by blast
qed

end
