(* ===== verification/Session_Service.thy ===== *)
theory Session_Service
  imports Ticket_Store Session_Store Canvas_Tokens
begin

text \<open>
  \<open>SessionService\<close> (\<open>internal/application/session_service.go\<close>): trades an access token for a live
  session and a one-time ticket, refreshes, revokes and sweeps. The service holds its two stores
  behind the ports, so its operations take the port records as arguments; the lemmas are proved
  once in the locale \<open>session_ports\<close> from the two contracts and reach the in-memory stores by
  interpretation.
\<close>

section \<open>The service\<close>

record ('s, 't) session_deps =
  sd_sessions :: "'s session_ops"
  sd_tickets :: "'t ticket_ops"
  sd_parse :: "time \<Rightarrow> string \<Rightarrow> token_claims option"
  sd_ticketTTL :: duration

record ('s, 't) session_state =
  sv_sessions :: 's
  sv_tickets :: 't

record bootstrap_result =
  br_Session :: canvas_session
  br_Ticket :: connection_ticket
  br_TicketExpiresAt :: time

definition issueTicket ::
  "('s, 't) session_deps \<Rightarrow> bytes option \<Rightarrow> canvas_session \<Rightarrow> time \<Rightarrow> ('s, 't) session_state \<Rightarrow>
   (error, connection_ticket) outcome \<times> ('s, 't) session_state" where
  "issueTicket d entropy session now s = (case NewTicketValue entropy of
     Inl e \<Rightarrow> (Inl e, s)
   | Inr v \<Rightarrow> (let
       ticket = \<lparr>tk_Value = v, tk_SessionID = ss_ID session, tk_UserID = ss_UserID session,
         tk_NoteID = ss_NoteID session, tk_Permission = ss_Permission session,
         tk_ExpiresAt = now + sd_ticketTTL d, tk_CreatedAt = now\<rparr>;
       (res, ts) = to_Issue (sd_tickets d) (Some ticket) (sv_tickets s);
       s' = s\<lparr>sv_tickets := ts\<rparr>
     in case res of Inl e \<Rightarrow> (Inl e, s') | Inr _ \<Rightarrow> (Inr ticket, s')))"

definition Bootstrap ::
  "('s, 't) session_deps \<Rightarrow> bytes option \<Rightarrow> string \<Rightarrow> time \<Rightarrow> ('s, 't) session_state \<Rightarrow>
   (error, bootstrap_result) outcome \<times> ('s, 't) session_state" where
  "Bootstrap d entropy token now s = (case Validate (sd_parse d now) token of
     Inl _ \<Rightarrow> (Inl ErrSessionRejected, s)
   | Inr claims \<Rightarrow> (let
       session = \<lparr>ss_ID = cc_SessionID claims, ss_UserID = cc_UserID claims,
         ss_NoteID = cc_NoteID claims, ss_Permission = cc_Permission claims,
         ss_TokenJTI = cc_TokenID claims, ss_ExpiresAt = cc_ExpiresAt claims,
         ss_LastSeenAt = now, ss_CreatedAt = now\<rparr>;
       (res, ss) = so_Save (sd_sessions d) (Some session) (sv_sessions s);
       s' = s\<lparr>sv_sessions := ss\<rparr>
     in case res of Inl e \<Rightarrow> (Inl e, s')
        | Inr _ \<Rightarrow> (case issueTicket d entropy session now s' of
            (Inl e, s'') \<Rightarrow> (Inl e, s'')
          | (Inr ticket, s'') \<Rightarrow>
              (Inr \<lparr>br_Session = session, br_Ticket = ticket,
                 br_TicketExpiresAt = tk_ExpiresAt ticket\<rparr>, s''))))"

definition permissionRank :: "permission \<Rightarrow> nat" where
  "permissionRank p =
     (if p = PermissionOwner then 4 else if p = PermissionEdit then 3
      else if p = PermissionComment then 2 else if p = PermissionView then 1 else 0)"

text \<open>
  The part of \<open>RefreshSession\<close> between the \<open>Get\<close> and the \<open>Save\<close>. The two store calls are separate
  atomic steps, and other handlers may run between them.
\<close>

definition refresh_session_from ::
  "canvas_claims \<Rightarrow> canvas_session \<Rightarrow> time \<Rightarrow> (error, canvas_session) outcome" where
  "refresh_session_from claims session now =
     (if cc_SessionID claims \<noteq> ss_ID session \<or> cc_UserID claims \<noteq> ss_UserID session \<or>
         cc_NoteID claims \<noteq> ss_NoteID session
      then Inl ErrSessionRejected
      else let permission =
             (if permissionRank (cc_Permission claims) < permissionRank (ss_Permission session)
              then cc_Permission claims else ss_Permission session)
           in Inr (session_Touch (session\<lparr>ss_Permission := permission,
                ss_TokenJTI := cc_TokenID claims, ss_ExpiresAt := cc_ExpiresAt claims\<rparr>) now))"

definition RefreshSession ::
  "('s, 't) session_deps \<Rightarrow> string \<Rightarrow> string \<Rightarrow> time \<Rightarrow> ('s, 't) session_state \<Rightarrow>
   (error, canvas_session) outcome \<times> ('s, 't) session_state" where
  "RefreshSession d sessionID token now s = (case Validate (sd_parse d now) token of
     Inl _ \<Rightarrow> (Inl ErrSessionRejected, s)
   | Inr claims \<Rightarrow> (case so_Get (sd_sessions d) sessionID (sv_sessions s) of
       None \<Rightarrow> (Inl ErrSessionNotFound, s)
     | Some session \<Rightarrow> (case refresh_session_from claims session now of
         Inl e \<Rightarrow> (Inl e, s)
       | Inr session' \<Rightarrow> (let
           (res, ss) = so_Save (sd_sessions d) (Some session') (sv_sessions s);
           s' = s\<lparr>sv_sessions := ss\<rparr>
         in case res of Inl e \<Rightarrow> (Inl e, s') | Inr _ \<Rightarrow> (Inr session', s')))))"

definition ConsumeTicket ::
  "('s, 't) session_deps \<Rightarrow> string \<Rightarrow> time \<Rightarrow> ('s, 't) session_state \<Rightarrow>
   (error, connection_ticket) outcome \<times> ('s, 't) session_state" where
  "ConsumeTicket d v now s =
     (let (res, ts) = to_Consume (sd_tickets d) v now (sv_tickets s) in (res, s\<lparr>sv_tickets := ts\<rparr>))"

definition RevokeSession ::
  "('s, 't) session_deps \<Rightarrow> string \<Rightarrow> ('s, 't) session_state \<Rightarrow>
   (error, bool) outcome \<times> ('s, 't) session_state" where
  "RevokeSession d sessionID s =
     (if sessionID = [] then (Inl ErrSessionNotFound, s)
      else let
        (_, ts) = to_DeleteBySession (sd_tickets d) sessionID (sv_tickets s);
        (found, ss) = so_Delete (sd_sessions d) sessionID (sv_sessions s)
      in (Inr found, s\<lparr>sv_tickets := ts, sv_sessions := ss\<rparr>))"

definition RevokeUserFromNote ::
  "('s, 't) session_deps \<Rightarrow> string \<Rightarrow> string \<Rightarrow> ('s, 't) session_state \<Rightarrow>
   (error, nat) outcome \<times> ('s, 't) session_state" where
  "RevokeUserFromNote d noteID userID s =
     (if noteID = [] \<or> userID = [] then (Inl ErrSessionNotFound, s)
      else let (removed, ss) = so_DeleteByUserAndNote (sd_sessions d) userID noteID (sv_sessions s)
        in (Inr removed, s\<lparr>sv_sessions := ss\<rparr>))"

definition UpdateSessionPermission ::
  "('s, 't) session_deps \<Rightarrow> string \<Rightarrow> permission \<Rightarrow> ('s, 't) session_state \<Rightarrow>
   (error, unit) outcome \<times> ('s, 't) session_state" where
  "UpdateSessionPermission d sessionID permission s =
     (if \<not> Valid permission then (Inl ErrInvalidPermission, s)
      else let (res, ss) = so_UpdatePermission (sd_sessions d) sessionID permission (sv_sessions s)
        in (res, s\<lparr>sv_sessions := ss\<rparr>))"

definition service_Touch ::
  "('s, 't) session_deps \<Rightarrow> string \<Rightarrow> time \<Rightarrow> ('s, 't) session_state \<Rightarrow>
   (error, unit) outcome \<times> ('s, 't) session_state" where
  "service_Touch d sessionID now s =
     (let (res, ss) = so_Touch (sd_sessions d) sessionID now (sv_sessions s)
      in (res, s\<lparr>sv_sessions := ss\<rparr>))"

definition SweepTickets ::
  "('s, 't) session_deps \<Rightarrow> time \<Rightarrow> ('s, 't) session_state \<Rightarrow> nat \<times> ('s, 't) session_state" where
  "SweepTickets d now s =
     (let (n, ts) = to_SweepExpired (sd_tickets d) now (sv_tickets s) in (n, s\<lparr>sv_tickets := ts\<rparr>))"

definition SweepSessions ::
  "('s, 't) session_deps \<Rightarrow> duration \<Rightarrow> time \<Rightarrow> ('s, 't) session_state \<Rightarrow>
   nat \<times> ('s, 't) session_state" where
  "SweepSessions d idleTimeout now s =
     (let (n, ss) = so_SweepExpired (sd_sessions d) now idleTimeout (sv_sessions s)
      in (n, s\<lparr>sv_sessions := ss\<rparr>))"

definition service_Session ::
  "('s, 't) session_deps \<Rightarrow> string \<Rightarrow> ('s, 't) session_state \<Rightarrow> canvas_session option" where
  "service_Session d sessionID s = so_Get (sd_sessions d) sessionID (sv_sessions s)"

lemmas service_defs = issueTicket_def Bootstrap_def RefreshSession_def ConsumeTicket_def
  RevokeSession_def RevokeUserFromNote_def UpdateSessionPermission_def service_Touch_def
  SweepTickets_def SweepSessions_def service_Session_def Let_def case_prod_unfold

text \<open>The rank orders the vocabulary strictly: distinct valid permissions have distinct ranks.\<close>

lemma permissionRank_inj: "Valid p \<Longrightarrow> Valid q \<Longrightarrow> permissionRank p = permissionRank q \<Longrightarrow> p = q"
  by (auto simp: Valid_iff permissionRank_def)

lemma refresh_session_from_Inr:
  assumes "refresh_session_from claims x now = Inr y"
  shows "ss_ID y = ss_ID x \<and> ss_UserID y = ss_UserID x \<and> ss_NoteID y = ss_NoteID x \<and>
    ss_CreatedAt y = ss_CreatedAt x \<and> ss_ExpiresAt y = cc_ExpiresAt claims \<and>
    ss_LastSeenAt y = now \<and> cc_SessionID claims = ss_ID x \<and> cc_UserID claims = ss_UserID x \<and>
    cc_NoteID claims = ss_NoteID x \<and>
    permissionRank (ss_Permission y) =
      min (permissionRank (cc_Permission claims)) (permissionRank (ss_Permission x))"
  using assms by (auto simp: refresh_session_from_def session_Touch_def Let_def split: if_splits)

section \<open>What the service promises, from the contracts of its stores\<close>

locale session_ports =
  sp: session_port "sd_sessions d" sview swf + tp: ticket_port "sd_tickets d" tview twf
  for d :: "('s, 't) session_deps" and sview swf tview twf
begin

definition service_wf :: "('s, 't) session_state \<Rightarrow> bool" where
  "service_wf s \<longleftrightarrow> swf (sv_sessions s) \<and> twf (sv_tickets s)"

lemmas tp_wf_issue = tp.wf_call [of _ "CallIssue arg" for arg, simplified]
lemmas tp_wf_consume = tp.wf_call [of _ "CallConsume v now" for v now, simplified]
lemmas tp_wf_revoke = tp.wf_call [of _ "CallDeleteBySession sid" for sid, simplified]
lemmas tp_wf_sweep = tp.wf_call [of _ "CallSweep now" for now, simplified]

lemma Bootstrap_wf: "service_wf s \<Longrightarrow> service_wf (snd (Bootstrap d e token now s))"
  by (auto simp: service_wf_def service_defs sp.wf_save tp_wf_issue
      split: sum.splits)

lemma Refresh_wf: "service_wf s \<Longrightarrow> service_wf (snd (RefreshSession d sid token now s))"
  by (auto simp: service_wf_def service_defs sp.wf_save
      split: sum.splits option.splits)

lemma Consume_wf: "service_wf s \<Longrightarrow> service_wf (snd (ConsumeTicket d v now s))"
  by (simp add: service_wf_def service_defs tp_wf_consume)

lemma Revoke_wf: "service_wf s \<Longrightarrow> service_wf (snd (RevokeSession d sid s))"
  by (simp add: service_wf_def service_defs sp.wf_delete tp_wf_revoke)

lemma RevokeUser_wf: "service_wf s \<Longrightarrow> service_wf (snd (RevokeUserFromNote d n u s))"
  by (simp add: service_wf_def service_defs sp.wf_delete_user)

text \<open>A successful bootstrap: the claims become the session and the ticket.\<close>

lemma Bootstrap_Inr:
  assumes wf: "service_wf s" and ok: "Bootstrap d entropy token now s = (Inr r, s')"
  obtains claims where "Validate (sd_parse d now) token = Inr claims"
    and "ss_ID (br_Session r) = cc_SessionID claims" "ss_UserID (br_Session r) = cc_UserID claims"
    "ss_NoteID (br_Session r) = cc_NoteID claims" "ss_Permission (br_Session r) = cc_Permission claims"
    "ss_ExpiresAt (br_Session r) = cc_ExpiresAt claims"
    and "tk_SessionID (br_Ticket r) = cc_SessionID claims" "tk_UserID (br_Ticket r) = cc_UserID claims"
    "tk_NoteID (br_Ticket r) = cc_NoteID claims" "tk_Permission (br_Ticket r) = cc_Permission claims"
    "tk_ExpiresAt (br_Ticket r) = now + sd_ticketTTL d"
    and "sview (sv_sessions s') = (sview (sv_sessions s))(cc_SessionID claims \<mapsto> br_Session r)"
    and "tview (sv_tickets s') = (tview (sv_tickets s))(tk_Value (br_Ticket r) \<mapsto> br_Ticket r)"
proof -
  from ok obtain claims where c: "Validate (sd_parse d now) token = Inr claims"
    by (auto simp: Bootstrap_def split: sum.splits)
  then have "cc_SessionID claims \<noteq> []" using Validate_Inr toCanvasClaims_complete by blast
  with c ok wf show thesis
    by (intro that [OF c])
      (auto simp: Bootstrap_def issueTicket_def service_wf_def case_prod_unfold Let_def sp.view_save
        tp.view_issue tp.issue_result split: sum.splits if_splits)
qed

lemma Bootstrap_then_Consume:
  assumes wf: "service_wf s" and ok: "Bootstrap d entropy token now s = (Inr r, s')"
    and live: "later < now + sd_ticketTTL d"
  shows "fst (ConsumeTicket d (tk_Value (br_Ticket r)) later s') = Inr (br_Ticket r)"
proof (rule Bootstrap_Inr [OF wf ok])
  have "twf (sv_tickets s')" using Bootstrap_wf [OF wf, of entropy token now] ok
    by (simp add: service_wf_def)
  moreover assume "tk_ExpiresAt (br_Ticket r) = now + sd_ticketTTL d"
    "tview (sv_tickets s') = (tview (sv_tickets s))(tk_Value (br_Ticket r) \<mapsto> br_Ticket r)"
  ultimately show ?thesis using live
    by (simp add: ConsumeTicket_def case_prod_unfold Let_def tp.consume_result ticket_IsExpired_def)
qed

lemma Refresh_Inr:
  assumes wf: "service_wf s" and ok: "RefreshSession d sid token now s = (Inr y, s')"
  obtains claims x where "Validate (sd_parse d now) token = Inr claims"
    and "sview (sv_sessions s) sid = Some x" and "refresh_session_from claims x now = Inr y"
    and "sview (sv_sessions s') = (sview (sv_sessions s))(sid \<mapsto> y)"
    and "sv_tickets s' = sv_tickets s"
proof -
  from ok obtain claims x where c: "Validate (sd_parse d now) token = Inr claims"
    and x: "sview (sv_sessions s) sid = Some x"
    by (auto simp: RefreshSession_def sp.get_view split: sum.splits option.splits)
  from x wf have id: "ss_ID x = sid" "sid \<noteq> []" using sp.view_id by (auto simp: service_wf_def)
  from c x ok have r: "refresh_session_from claims x now = Inr y"
    by (auto simp: RefreshSession_def sp.get_view Let_def case_prod_unfold split: sum.splits)
  then have "ss_ID y = sid" using refresh_session_from_Inr id by blast
  with c x r ok wf id show thesis
    by (intro that [OF c x r])
      (auto simp: RefreshSession_def sp.get_view Let_def case_prod_unfold service_wf_def sp.view_save
        sp.save_ok)
qed

lemma Refresh_error_unchanged:
  assumes "service_wf s" "RefreshSession d sid token now s = (Inl e, s')"
  shows "s' = s"
proof (cases "\<exists>claims x y. Validate (sd_parse d now) token = Inr claims \<and>
    sview (sv_sessions s) sid = Some x \<and> refresh_session_from claims x now = Inr y")
  case True
  then obtain claims x y where h: "Validate (sd_parse d now) token = Inr claims"
    "sview (sv_sessions s) sid = Some x" "refresh_session_from claims x now = Inr y" by blast
  then have "ss_ID y \<noteq> []"
    using assms(1) sp.view_id refresh_session_from_Inr by (metis service_wf_def)
  with h assms(2) show ?thesis
    by (simp add: RefreshSession_def sp.get_view Let_def case_prod_unfold sp.save_ok)
next
  case False
  with assms(2) show ?thesis
    by (auto simp: RefreshSession_def sp.get_view split: sum.splits option.splits)
qed

lemma Revoke_final:
  assumes "service_wf s" "sid \<noteq> []"
  shows "service_Session d sid (snd (RevokeSession d sid s)) = None"
    and "fst (ConsumeTicket d v later (snd (RevokeSession d sid s))) = Inr t \<Longrightarrow> tk_SessionID t \<noteq> sid"
    and "other \<noteq> sid \<Longrightarrow> service_Session d other (snd (RevokeSession d sid s)) = service_Session d other s"
  using assms tp.revoked_session_has_no_ticket [of "sv_tickets s" v later "tk_SessionID t" t]
  by (auto simp: service_defs service_wf_def sp.get_view sp.view_delete)

end

section \<open>The service over the in-memory stores\<close>

definition memory_deps ::
  "(time \<Rightarrow> string \<Rightarrow> token_claims option) \<Rightarrow> duration \<Rightarrow> (session_store, ticket_store) session_deps" where
  "memory_deps parse ttl = \<lparr>sd_sessions = memory_session_ops, sd_tickets = memory_ticket_ops,
     sd_parse = parse, sd_ticketTTL = ttl\<rparr>"

interpretation mem: session_ports "memory_deps parse ttl" session_view session_wf ticket_view ticket_wf
  for parse ttl
  by (intro session_ports.intro)
    (simp_all add: memory_deps_def memory_sessions.session_port_axioms memory_tickets.ticket_port_axioms)

abbreviation service_ok :: "(session_store, ticket_store) session_state \<Rightarrow> bool" where
  "service_ok s \<equiv> session_wf (sv_sessions s) \<and> ticket_wf (sv_tickets s)"

lemma service_ok_wf: "service_ok s = mem.service_wf s"
  by (simp add: mem.service_wf_def)

lemma memory_deps_simps [simp]:
  "sd_sessions (memory_deps parse ttl) = memory_session_ops"
  "sd_tickets (memory_deps parse ttl) = memory_ticket_ops"
  "sd_parse (memory_deps parse ttl) = parse" "sd_ticketTTL (memory_deps parse ttl) = ttl"
  by (simp_all add: memory_deps_def)

definition example_claims :: token_claims where
  "example_claims = \<lparr>tc_NoteID = ''n1'', tc_SessionID = ''s1'', tc_Permission = PermissionEdit,
     tc_Subject = ''u1'', tc_ID = ''j1'', tc_IssuedAt = Some 0, tc_NotBefore = Some 0,
     tc_ExpiresAt = Some 300\<rparr>"

definition example_parse :: "time \<Rightarrow> string \<Rightarrow> token_claims option" where
  "example_parse now token = (if token = ''tok'' then Some example_claims
     else if token = ''weak'' then Some (example_claims\<lparr>tc_Permission := PermissionView, tc_ExpiresAt := Some 600\<rparr>)
     else None)"

definition example_state :: "(session_store, ticket_store) session_state" where
  "example_state = \<lparr>sv_sessions = NewMemorySessionStore, sv_tickets = NewMemoryTicketStore\<rparr>"

abbreviation "example_deps \<equiv> memory_deps example_parse 30"
abbreviation "example_entropy \<equiv> Some [1, 2, 3 :: byte]"

lemma example_ok: "service_ok example_state"
  by (simp add: example_state_def)

lemmas example_defs = example_state_def example_claims_def example_parse_def memory_deps_simps
  memory_session_ops_def memory_ticket_ops_def session_defs ticket_defs NewMemorySessionStore_def
  NewMemoryTicketStore_def Validate_def toCanvasClaims_def ParsePermission_def NewTicketValue_def
  refresh_session_from_def permissionRank_def session_Touch_def ticket_IsExpired_def

section \<open>Properties\<close>

text \<open>
  C20. A bootstrap that succeeds validated the token: the session it stores and the ticket it
  returns carry exactly the token's session, user, note and permission, and until the ticket's
  TTL has passed the ticket can be redeemed and yields that same snapshot.
\<close>

theorem bootstrap_ticket_redeemable:
  assumes "service_ok s" and "Bootstrap (memory_deps parse ttl) entropy token now s = (Inr r, s')"
    and "later < now + ttl"
  shows "\<exists>claims. Validate (parse now) token = Inr claims \<and>
    service_Session (memory_deps parse ttl) (cc_SessionID claims) s' = Some (br_Session r) \<and>
    ss_UserID (br_Session r) = cc_UserID claims \<and> ss_NoteID (br_Session r) = cc_NoteID claims \<and>
    ss_Permission (br_Session r) = cc_Permission claims \<and>
    fst (ConsumeTicket (memory_deps parse ttl) (tk_Value (br_Ticket r)) later s') = Inr (br_Ticket r) \<and>
    tk_SessionID (br_Ticket r) = cc_SessionID claims \<and> tk_UserID (br_Ticket r) = cc_UserID claims \<and>
    tk_NoteID (br_Ticket r) = cc_NoteID claims \<and> tk_Permission (br_Ticket r) = cc_Permission claims"
proof (rule mem.Bootstrap_Inr [OF assms(1) [unfolded service_ok_wf] assms(2)])
  fix claims
  assume "Validate (sd_parse (memory_deps parse ttl) now) token = Inr claims"
    "session_view (sv_sessions s') = (session_view (sv_sessions s))(cc_SessionID claims \<mapsto> br_Session r)"
    "ss_UserID (br_Session r) = cc_UserID claims" "ss_NoteID (br_Session r) = cc_NoteID claims"
    "ss_Permission (br_Session r) = cc_Permission claims"
    "tk_SessionID (br_Ticket r) = cc_SessionID claims" "tk_UserID (br_Ticket r) = cc_UserID claims"
    "tk_NoteID (br_Ticket r) = cc_NoteID claims" "tk_Permission (br_Ticket r) = cc_Permission claims"
  moreover have "fst (ConsumeTicket (memory_deps parse ttl) (tk_Value (br_Ticket r)) later s') =
      Inr (br_Ticket r)"
    using mem.Bootstrap_then_Consume [OF assms(1) [unfolded service_ok_wf] assms(2)] assms(3) by simp
  ultimately show ?thesis
    by (intro exI [of _ claims])
      (simp add: service_Session_def memory_session_ops_def session_Get_def)
qed

theorem bootstrap_ticket_redeemable_witness:
  "\<exists>r s'. Bootstrap example_deps example_entropy ''tok'' 5 example_state = (Inr r, s') \<and>
    fst (ConsumeTicket example_deps (tk_Value (br_Ticket r)) 10 s') = Inr (br_Ticket r)"
proof -
  obtain r s' where "Bootstrap example_deps example_entropy ''tok'' 5 example_state = (Inr r, s')"
    by (simp add: service_defs example_defs)
  with bootstrap_ticket_redeemable [OF example_ok this, of 10] show ?thesis by auto
qed

text \<open>
  C5. A refresh never escalates and never repoints a session: it succeeds only for a stored
  session whose id, user and note the new token repeats, all three and the creation time stay, the
  expiry becomes the token's, the permission becomes the lower of the token's and the session's, and no other session changes.
\<close>

theorem refresh_never_escalates:
  assumes "service_ok s" and "RefreshSession (memory_deps parse ttl) sid token now s = (Inr y, s')"
  shows "\<exists>claims x. Validate (parse now) token = Inr claims \<and> session_view (sv_sessions s) sid = Some x \<and>
    cc_SessionID claims = sid \<and> cc_UserID claims = ss_UserID x \<and> cc_NoteID claims = ss_NoteID x \<and>
    ss_ID y = sid \<and> ss_UserID y = ss_UserID x \<and> ss_NoteID y = ss_NoteID x \<and>
    ss_CreatedAt y = ss_CreatedAt x \<and> ss_ExpiresAt y = cc_ExpiresAt claims \<and>
    permissionRank (ss_Permission y) =
      min (permissionRank (cc_Permission claims)) (permissionRank (ss_Permission x)) \<and>
    session_view (sv_sessions s') = (session_view (sv_sessions s))(sid \<mapsto> y) \<and>
    sv_tickets s' = sv_tickets s"
proof (rule mem.Refresh_Inr [OF assms(1) [unfolded service_ok_wf] assms(2)])
  fix claims x
  assume "Validate (sd_parse (memory_deps parse ttl) now) token = Inr claims"
    and x: "session_view (sv_sessions s) sid = Some x" and r: "refresh_session_from claims x now = Inr y"
    and "session_view (sv_sessions s') = (session_view (sv_sessions s))(sid \<mapsto> y)"
    "sv_tickets s' = sv_tickets s"
  moreover have "ss_ID x = sid" using session_wf_lookup [OF _ x] assms(1) by blast
  ultimately show ?thesis using refresh_session_from_Inr [OF r]
    by (intro exI [of _ claims] exI [of _ x]) simp
qed

theorem refresh_never_escalates_witness:
  "let s = snd (Bootstrap example_deps example_entropy ''tok'' 5 example_state) in
   \<exists>y s'. RefreshSession example_deps ''s1'' ''weak'' 20 s = (Inr y, s') \<and> ss_ExpiresAt y = 600 \<and>
     permissionRank (ss_Permission y) = 1"
proof -
  let ?s = "snd (Bootstrap example_deps example_entropy ''tok'' 5 example_state)"
  have ok: "service_ok ?s"
    using mem.Bootstrap_wf [OF example_ok [unfolded service_ok_wf]] by (simp add: service_ok_wf)
  obtain y s' where r: "RefreshSession example_deps ''s1'' ''weak'' 20 ?s = (Inr y, s')"
    by (simp add: service_defs example_defs)
  obtain claims x where "Validate (example_parse 20) ''weak'' = Inr claims"
    "session_view (sv_sessions ?s) ''s1'' = Some x" "ss_ExpiresAt y = cc_ExpiresAt claims"
    "permissionRank (ss_Permission y) =
      min (permissionRank (cc_Permission claims)) (permissionRank (ss_Permission x))"
    using refresh_never_escalates [OF ok r] by blast
  then have "ss_ExpiresAt y = 600 \<and> permissionRank (ss_Permission y) = 1"
    by (auto simp: service_defs example_defs)
  with r show ?thesis by (auto simp: Let_def)
qed

text \<open>
  Revoking a session is final and local: the session is gone, no redemption at any later time
  yields a ticket of it, and every other session stays as it was.
\<close>

theorem revoke_session_final:
  assumes "service_ok s" and "sid \<noteq> []"
  shows "service_Session (memory_deps parse ttl) sid (snd (RevokeSession (memory_deps parse ttl) sid s)) = None \<and>
    (\<forall>v later t. fst (ConsumeTicket (memory_deps parse ttl) v later
        (snd (RevokeSession (memory_deps parse ttl) sid s))) = Inr t \<longrightarrow> tk_SessionID t \<noteq> sid) \<and>
    (\<forall>other. other \<noteq> sid \<longrightarrow>
       service_Session (memory_deps parse ttl) other (snd (RevokeSession (memory_deps parse ttl) sid s)) =
       service_Session (memory_deps parse ttl) other s)"
  using mem.Revoke_final [OF assms(1) [unfolded service_ok_wf] assms(2)] by blast

theorem revoke_session_final_witness:
  "let s = snd (Bootstrap example_deps example_entropy ''tok'' 5 example_state) in
   service_Session example_deps ''s1'' s \<noteq> None \<and>
   service_Session example_deps ''s1'' (snd (RevokeSession example_deps ''s1'' s)) = None"
proof -
  let ?s = "snd (Bootstrap example_deps example_entropy ''tok'' 5 example_state)"
  have ok: "service_ok ?s"
    using mem.Bootstrap_wf [OF example_ok [unfolded service_ok_wf]] by (simp add: service_ok_wf)
  have "service_Session example_deps ''s1'' ?s \<noteq> None" by (simp add: service_defs example_defs)
  with revoke_session_final [OF ok, of "''s1''"] show ?thesis by (simp add: Let_def)
qed

text \<open>
  Revoking a user from a note removes exactly that user's sessions on that note. It touches no
  ticket: one issued before the revocation stays redeemable until its TTL, with its permission.
\<close>

theorem revoke_user_leaves_tickets:
  assumes "service_ok s" and "n \<noteq> []" and "u \<noteq> []"
  shows "(\<forall>k. service_Session (memory_deps parse ttl) k (snd (RevokeUserFromNote (memory_deps parse ttl) n u s)) =
      (case service_Session (memory_deps parse ttl) k s of None \<Rightarrow> None
       | Some x \<Rightarrow> if ss_UserID x = u \<and> ss_NoteID x = n then None else Some x)) \<and>
    (\<forall>v later. fst (ConsumeTicket (memory_deps parse ttl) v later
        (snd (RevokeUserFromNote (memory_deps parse ttl) n u s))) =
       fst (ConsumeTicket (memory_deps parse ttl) v later s))"
proof -
  have "session_view (snd (so_DeleteByUserAndNote memory_session_ops u n (sv_sessions s))) k =
      (case session_view (sv_sessions s) k of None \<Rightarrow> None
       | Some x \<Rightarrow> if ss_UserID x = u \<and> ss_NoteID x = n then None else Some x)" for k
    using assms(1) memory_sessions.view_delete_user by blast
  then show ?thesis using assms(2,3) by (simp add: service_defs memory_sessions.get_view)
qed

theorem revoke_user_leaves_tickets_witness:
  "let s = snd (Bootstrap example_deps example_entropy ''tok'' 5 example_state);
       s' = snd (RevokeUserFromNote example_deps ''n1'' ''u1'' s) in
   service_Session example_deps ''s1'' s' = None \<and>
   (\<exists>t. fst (ConsumeTicket example_deps (b64url [1, 2, 3]) 10 s') = Inr t \<and>
     tk_UserID t = ''u1'' \<and> tk_NoteID t = ''n1'' \<and> tk_Permission t = PermissionEdit)"
proof -
  let ?s = "snd (Bootstrap example_deps example_entropy ''tok'' 5 example_state)"
  have ok: "service_ok ?s"
    using mem.Bootstrap_wf [OF example_ok [unfolded service_ok_wf]] by (simp add: service_ok_wf)
  have 1: "\<exists>x. service_Session example_deps ''s1'' ?s = Some x \<and> ss_UserID x = ''u1'' \<and> ss_NoteID x = ''n1''"
    by (simp add: service_defs example_defs)
  have 2: "\<exists>t. fst (ConsumeTicket example_deps (b64url [1, 2, 3]) 10 ?s) = Inr t \<and>
     tk_UserID t = ''u1'' \<and> tk_NoteID t = ''n1'' \<and> tk_Permission t = PermissionEdit"
    by (simp add: service_defs example_defs)
  show ?thesis
    using revoke_user_leaves_tickets [OF ok, of "''n1''" "''u1''" example_parse 30] 1 2 by (auto simp: Let_def)
qed

text \<open>
  The rule that a refresh never escalates does not extend to a bootstrap: after a live session
  was demoted, a bootstrap with the token that first opened it succeeds and stores the session with
  the token's permission again, and its ticket carries that permission.
\<close>

theorem bootstrap_undoes_demotion:
  assumes "service_ok s" and "Validate (parse now) token = Inr claims" and "buffer \<noteq> []"
    and "UpdateSessionPermission (memory_deps parse ttl) (cc_SessionID claims) p s = (Inr (), s1)"
  shows "\<exists>r s2. Bootstrap (memory_deps parse ttl) (Some buffer) token now s1 = (Inr r, s2) \<and>
    tk_Permission (br_Ticket r) = cc_Permission claims \<and>
    (\<exists>x. service_Session (memory_deps parse ttl) (cc_SessionID claims) s2 = Some x \<and>
      ss_Permission x = cc_Permission claims)"
proof -
  have "cc_SessionID claims \<noteq> []" using assms(2) Validate_Inr toCanvasClaims_complete by blast
  moreover have "b64url buffer \<noteq> []" using assms(3) by (cases buffer rule: b64url.cases) (auto simp: Let_def)
  ultimately show ?thesis using assms(2)
    by (simp add: service_defs memory_session_ops_def memory_ticket_ops_def session_Save_def
        session_Get_def ticket_Issue_def NewTicketValue_def)
qed

theorem bootstrap_undoes_demotion_witness:
  "let s = snd (Bootstrap example_deps example_entropy ''tok'' 5 example_state);
       s1 = snd (UpdateSessionPermission example_deps ''s1'' PermissionView s) in
   (\<exists>x. service_Session example_deps ''s1'' s1 = Some x \<and> ss_Permission x = PermissionView) \<and>
   (\<exists>r s2. Bootstrap example_deps example_entropy ''tok'' 9 s1 = (Inr r, s2) \<and>
     tk_Permission (br_Ticket r) = PermissionEdit)"
proof -
  let ?s = "snd (Bootstrap example_deps example_entropy ''tok'' 5 example_state)"
  let ?s1 = "snd (UpdateSessionPermission example_deps ''s1'' PermissionView ?s)"
  have ok: "service_ok ?s"
    using mem.Bootstrap_wf [OF example_ok [unfolded service_ok_wf]] by (simp add: service_ok_wf)
  obtain claims where c: "Validate (example_parse 9) ''tok'' = Inr claims" "cc_SessionID claims = ''s1''"
    "cc_Permission claims = PermissionEdit" by (simp add: example_defs)
  have "fst (UpdateSessionPermission example_deps ''s1'' PermissionView ?s) = Inr ()"
    by (simp add: service_defs example_defs Valid_iff)
  then have "UpdateSessionPermission example_deps (cc_SessionID claims) PermissionView ?s = (Inr (), ?s1)"
    using c(2) by (simp add: prod_eq_iff)
  from bootstrap_undoes_demotion [OF ok c(1) _ this, of "[1, 2, 3]"] c
  show ?thesis by (auto simp: Let_def service_defs example_defs Valid_iff)
qed

end
