(* ===== verification/Rate_Limiter.thy ===== *)
theory Rate_Limiter
  imports Domain
begin

text \<open>
  Rate limits (\<open>internal/security/rate_limiter.go\<close>, \<open>bootstrap_limiter.go\<close>): token buckets over
  64-bit floats, the per-class limits of a connection and the limiter of session creation. The
  float operations round as IEEE 754 does, so the bounds are proved for the rounded values.
\<close>

section \<open>Token buckets\<close>

record token_bucket =
  tb_tokens :: float64
  tb_capacity :: float64
  tb_refill :: float64
  tb_last :: time

definition NewTokenBucket :: "float64 \<Rightarrow> float64 \<Rightarrow> time \<Rightarrow> token_bucket" where
  "NewTokenBucket ratePerSecond burst now =
     \<lparr>tb_tokens = burst, tb_capacity = burst, tb_refill = ratePerSecond, tb_last = now\<rparr>"

definition bucket_Allow :: "time \<Rightarrow> token_bucket \<Rightarrow> bool \<times> token_bucket" where
  "bucket_Allow now b =
     (let elapsed = dur_seconds (time_sub now (tb_last b));
          b = (if f_lt (Fin 0) elapsed
               then b\<lparr>tb_tokens := f_min (tb_capacity b) (f_add (tb_tokens b) (f_mul elapsed (tb_refill b))),
                      tb_last := now\<rparr>
               else b)
      in if f_lt (tb_tokens b) (Fin 1) then (False, b)
         else (True, b\<lparr>tb_tokens := f_sub (tb_tokens b) (Fin 1)\<rparr>))"

definition Tokens :: "token_bucket \<Rightarrow> float64" where
  "Tokens b = tb_tokens b"

definition TokensAt :: "time \<Rightarrow> token_bucket \<Rightarrow> float64" where
  "TokensAt now b =
     (let elapsed = dur_seconds (time_sub now (tb_last b)) in
      if f_lt (Fin 0) elapsed
      then f_min (tb_capacity b) (f_add (tb_tokens b) (f_mul elapsed (tb_refill b)))
      else tb_tokens b)"

section \<open>The limits of one connection\<close>

record rate_limits =
  rl_ephemeral :: token_bucket
  rl_reliable :: token_bucket
  rl_signaling :: token_bucket

record rate_limit_settings =
  rs_EphemeralPerSecond :: float64
  rs_EphemeralBurst :: float64
  rs_ReliablePerSecond :: float64
  rs_ReliableBurst :: float64
  rs_SignalingPerSecond :: float64
  rs_SignalingBurst :: float64

definition NewRateLimits :: "rate_limit_settings \<Rightarrow> time \<Rightarrow> rate_limits" where
  "NewRateLimits settings now =
     \<lparr>rl_ephemeral = NewTokenBucket (rs_EphemeralPerSecond settings) (rs_EphemeralBurst settings) now,
      rl_reliable = NewTokenBucket (rs_ReliablePerSecond settings) (rs_ReliableBurst settings) now,
      rl_signaling = NewTokenBucket (rs_SignalingPerSecond settings) (rs_SignalingBurst settings) now\<rparr>"

definition limits_Allow :: "event_class \<Rightarrow> time \<Rightarrow> rate_limits \<Rightarrow> bool \<times> rate_limits" where
  "limits_Allow cls now r = (case cls of
     ClassEphemeral \<Rightarrow> (let (ok, b) = bucket_Allow now (rl_ephemeral r) in (ok, r\<lparr>rl_ephemeral := b\<rparr>))
   | ClassSignaling \<Rightarrow> (let (ok, b) = bucket_Allow now (rl_signaling r) in (ok, r\<lparr>rl_signaling := b\<rparr>))
   | _ \<Rightarrow> (let (ok, b) = bucket_Allow now (rl_reliable r) in (ok, r\<lparr>rl_reliable := b\<rparr>)))"

section \<open>The limiter of session creation\<close>

record bootstrap_limiter =
  bl_perUser :: "(string, token_bucket) gomap"
  bl_perIP :: "(string, token_bucket) gomap"
  bl_userRate :: float64
  bl_userBurst :: float64
  bl_ipRate :: float64
  bl_ipBurst :: float64
  bl_lastSweep :: time

record bootstrap_limit_settings =
  bls_PerUserPerMinute :: float64
  bls_PerUserBurst :: float64
  bls_PerIPPerMinute :: float64
  bls_PerIPBurst :: float64

definition NewBootstrapLimiter :: "bootstrap_limit_settings \<Rightarrow> time \<Rightarrow> bootstrap_limiter" where
  "NewBootstrapLimiter settings now = \<lparr>bl_perUser = [], bl_perIP = [],
     bl_userRate = f_div (bls_PerUserPerMinute settings) (Fin 60), bl_userBurst = bls_PerUserBurst settings,
     bl_ipRate = f_div (bls_PerIPPerMinute settings) (Fin 60), bl_ipBurst = bls_PerIPBurst settings,
     bl_lastSweep = now\<rparr>"

definition sweepLocked :: "time \<Rightarrow> bootstrap_limiter \<Rightarrow> bootstrap_limiter" where
  "sweepLocked now l =
     (if time_sub now (bl_lastSweep l) < Minute then l
      else l\<lparr>bl_lastSweep := now,
        bl_perIP := fst (gm_delete_where (\<lambda>b. f_le (bl_ipBurst l) (TokensAt now b)) (bl_perIP l)),
        bl_perUser := fst (gm_delete_where (\<lambda>b. f_le (bl_userBurst l) (TokensAt now b)) (bl_perUser l))\<rparr>)"

definition AllowIP :: "string \<Rightarrow> time \<Rightarrow> bootstrap_limiter \<Rightarrow> bool \<times> bootstrap_limiter" where
  "AllowIP ip now l =
     (if ip = [] \<or> f_le (bl_ipRate l) (Fin 0) \<or> f_le (bl_ipBurst l) (Fin 0) then (True, l)
      else let
        l = sweepLocked now l;
        bucket = (case map_of (bl_perIP l) ip of Some b \<Rightarrow> b
                  | None \<Rightarrow> NewTokenBucket (bl_ipRate l) (bl_ipBurst l) now);
        (ok, bucket) = bucket_Allow now bucket
      in (ok, l\<lparr>bl_perIP := gm_put ip bucket (bl_perIP l)\<rparr>))"

definition AllowUser :: "string \<Rightarrow> time \<Rightarrow> bootstrap_limiter \<Rightarrow> bool \<times> bootstrap_limiter" where
  "AllowUser userID now l =
     (if userID = [] \<or> f_le (bl_userRate l) (Fin 0) \<or> f_le (bl_userBurst l) (Fin 0) then (True, l)
      else let
        bucket = (case map_of (bl_perUser l) userID of Some b \<Rightarrow> b
                  | None \<Rightarrow> NewTokenBucket (bl_userRate l) (bl_userBurst l) now);
        (ok, bucket) = bucket_Allow now bucket
      in (ok, l\<lparr>bl_perUser := gm_put userID bucket (bl_perUser l)\<rparr>))"

definition TrackedIPs :: "bootstrap_limiter \<Rightarrow> nat" where
  "TrackedIPs l = length (bl_perIP l)"

definition TrackedUsers :: "bootstrap_limiter \<Rightarrow> nat" where
  "TrackedUsers l = length (bl_perUser l)"

text \<open>
  \<open>net.SplitHostPort\<close>: the host part, or nothing where it reports an error. The port follows the
  last colon; a bracketed host ends right before it; an unbracketed host has no colon of its own.
\<close>

definition index_of :: "char \<Rightarrow> string \<Rightarrow> nat option" where
  "index_of c s = (if c \<in> set s then Some (length (takeWhile (\<lambda>x. x \<noteq> c) s)) else None)"

definition last_index_of :: "char \<Rightarrow> string \<Rightarrow> nat option" where
  "last_index_of c s = map_option (\<lambda>i. length s - 1 - i) (index_of c (rev s))"

definition SplitHostPort_host :: "string \<Rightarrow> string option" where
  "SplitHostPort_host hostport = (case last_index_of CHR '':'' hostport of
     None \<Rightarrow> None
   | Some i \<Rightarrow>
       if hd hostport = CHR ''['' then
         (case index_of CHR '']'' hostport of
            None \<Rightarrow> None
          | Some e \<Rightarrow> if e + 1 \<noteq> i then None
              else if CHR ''['' \<in> set (drop 1 hostport) \<or> CHR '']'' \<in> set (drop (e + 1) hostport) then None
              else Some (take (e - 1) (drop 1 hostport)))
       else let host = take i hostport in
         if CHR '':'' \<in> set host then None
         else if CHR ''['' \<in> set hostport \<or> CHR '']'' \<in> set hostport then None
         else Some host)"

text \<open>The request's headers are given by their values, absent headers reading as the empty string.\<close>

definition ClientIP :: "string \<Rightarrow> string \<Rightarrow> string \<Rightarrow> string" where
  "ClientIP forwarded real_ip remoteAddr =
     (if forwarded \<noteq> [] then
        (let (first, _, found) = Cut CHR '','' forwarded in
         if found then TrimSpace first else TrimSpace forwarded)
      else if real_ip \<noteq> [] then TrimSpace real_ip
      else case SplitHostPort_host remoteAddr of None \<Rightarrow> remoteAddr | Some host \<Rightarrow> host)"

section \<open>Rounding of the elapsed time\<close>

lemma f_le_round64: "x \<le> y \<Longrightarrow> f_le (round64 x) (round64 y)"
proof -
  assume le: "x \<le> y"
  have "0 < f_bound" by (simp add: f_bound_def)
  then show ?thesis
    using rnd_mono [OF le] by (auto simp: round64_def Let_def abs_if split: if_splits)
qed

definition secs :: "duration \<Rightarrow> rat" where
  "secs d = rnd (of_int (d div Second) + rnd (of_int (d mod Second) / 1000000000))"

lemma frac_second:
  fixes d :: int
  shows "0 \<le> rnd (of_int (d mod Second) / 1000000000)" "rnd (of_int (d mod Second) / 1000000000) \<le> 1"
proof -
  have "0 \<le> d mod Second" "d mod Second < Second" by simp_all
  then have "(0::rat) \<le> of_int (d mod Second) / 1000000000" "of_int (d mod Second) / (1000000000::rat) \<le> 1"
    by (simp_all add: pos_divide_le_eq)
  moreover have "representable 1" using representable_int [of 1] by simp
  ultimately show "0 \<le> rnd (of_int (d mod Second) / 1000000000)" "rnd (of_int (d mod Second) / 1000000000) \<le> 1"
    using rnd_nonneg rnd_le_representable by blast+
qed

lemma dur_seconds_pos:
  assumes "0 \<le> d" "d \<le> max_int64"
  shows "dur_seconds d = Fin (secs d)"
proof -
  have q: "0 \<le> d div Second" "d div Second \<le> 9223372037"
    using assms by (auto simp: pos_imp_zdiv_nonneg_iff intro: order_trans [OF zdiv_mono1 [of d max_int64]])
  have r: "d - d div Second * Second = d mod Second" by (simp add: minus_div_mult_eq_mod)
  have "f_of_int (d mod Second) = Fin (of_int (d mod Second))"
    using pos_mod_bound [of Second d] pos_mod_sign [of Second d] by (intro f_of_int_exact) auto
  moreover have "\<bar>of_int (d mod Second) / (1000000000::rat)\<bar> \<le> 2 ^ 52"
    using pos_mod_bound [of Second d] pos_mod_sign [of Second d] by (simp add: pos_divide_le_eq)
  moreover have "f_of_int (d div Second) = Fin (of_int (d div Second))"
    using q by (intro f_of_int_exact) auto
  moreover have "\<bar>of_int (d div Second) + rnd (of_int (d mod Second) / 1000000000)\<bar> \<le> (2::rat) ^ 52"
  proof -
    have "(of_int (d div Second) :: rat) \<le> of_int 9223372037" using q(2) by (simp only: of_int_le_iff)
    moreover have "(0::rat) \<le> of_int (d div Second)" using q(1) by simp
    ultimately show ?thesis using frac_second [of d] by simp
  qed
  ultimately show ?thesis
    using assms by (simp add: dur_seconds_def go_div_pos r secs_def round64_small Let_def)
qed

lemma secs_mono: "0 \<le> d \<Longrightarrow> d \<le> e \<Longrightarrow> secs d \<le> secs e"
proof -
  assume "0 \<le> d" "d \<le> e"
  have q: "d div Second \<le> e div Second" using \<open>d \<le> e\<close> by (simp add: zdiv_mono1)
  show ?thesis unfolding secs_def
  proof (rule rnd_mono, cases "d div Second = e div Second")
    case True
    then have "d mod Second \<le> e mod Second"
      using \<open>d \<le> e\<close> div_mult_mod_eq [of d Second] div_mult_mod_eq [of e Second] by linarith
    then have "rnd (of_int (d mod Second) / 1000000000) \<le> rnd (of_int (e mod Second) / 1000000000)"
      by (intro rnd_mono divide_right_mono) auto
    with True show "of_int (d div Second) + rnd (of_int (d mod Second) / 1000000000)
      \<le> of_int (e div Second) + rnd (of_int (e mod Second) / 1000000000)" by simp
  next
    case False
    with q have "(of_int (d div Second) :: rat) + 1 \<le> of_int (e div Second)"
      by (metis of_int_1 of_int_add of_int_le_iff zless_imp_add1_zle less_le)
    then show "of_int (d div Second) + rnd (of_int (d mod Second) / 1000000000)
      \<le> of_int (e div Second) + rnd (of_int (e mod Second) / 1000000000)"
      using frac_second [of d] frac_second [of e] by linarith
  qed
qed

lemma secs_0 [simp]: "secs 0 = 0" by (simp add: secs_def)

lemma f_le_round64_left: "x \<le> y \<Longrightarrow> representable y \<Longrightarrow> \<bar>y\<bar> < f_bound \<Longrightarrow> f_le (round64 x) (Fin y)"
  using f_le_round64 [of x y] by (simp add: round64_representable)

lemma f_le_0_not_lt: "f_le x (Fin 0) \<Longrightarrow> \<not> f_lt (Fin 0) x"
  by (cases x) auto

lemma dur_seconds_nonpos: "d \<le> 0 \<Longrightarrow> f_le (dur_seconds d) (Fin 0)"
proof -
  assume "d \<le> 0"
  define e where "e = - d"
  have e: "0 \<le> e" "d = - e" using \<open>d \<le> 0\<close> by (simp_all add: e_def)
  have "f_le (f_of_int (- (e div Second))) (Fin 0)"
    unfolding f_of_int_def using e(1)
    by (intro f_le_round64_left) (auto simp: pos_imp_zdiv_nonneg_iff f_bound_def)
  moreover have m: "f_le (f_of_int (- (e mod Second))) (Fin 0)"
    unfolding f_of_int_def by (intro f_le_round64_left) (auto simp: f_bound_def)
  then have "f_le (f_div (f_of_int (- (e mod Second))) (Fin 1000000000)) (Fin 0)"
    by (cases "f_of_int (- (e mod Second))") (auto simp: f_bound_def divide_le_0_iff intro!: f_le_round64_left)
  ultimately have "f_le (f_add (f_of_int (- (e div Second))) (f_div (f_of_int (- (e mod Second))) (Fin 1000000000))) (Fin 0)"
    by (cases "f_of_int (- (e div Second))"; cases "f_div (f_of_int (- (e mod Second))) (Fin 1000000000)")
      (auto simp: f_bound_def intro!: f_le_round64_left)
  moreover have "dur_seconds d = f_add (f_of_int (- (e div Second))) (f_div (f_of_int (- (e mod Second))) (Fin 1000000000))"
    using e by (cases "e = 0") (auto simp: dur_seconds_def Let_def go_div_pos minus_div_mult_eq_mod [symmetric])
  ultimately show ?thesis by simp
qed

lemma dur_seconds_neg: "min_int64 \<le> d \<Longrightarrow> d \<le> 0 \<Longrightarrow> \<not> f_lt (Fin 0) (dur_seconds d)"
  using dur_seconds_nonpos f_le_0_not_lt by blast

lemma time_sub_range: "min_int64 \<le> time_sub t u" "time_sub t u \<le> max_int64"
  by (auto simp: time_sub_def)

section \<open>Buckets stay within their capacity\<close>

definition bucket_ok :: "token_bucket \<Rightarrow> bool" where
  "bucket_ok b \<longleftrightarrow> (\<exists>t c r. tb_tokens b = Fin t \<and> tb_capacity b = Fin c \<and> tb_refill b = Fin r \<and>
     0 \<le> t \<and> t \<le> c \<and> 0 \<le> r \<and> representable t \<and> representable c \<and> c < f_bound)"

text \<open>One refill: never less, never above the capacity.\<close>

lemma refill_bounds:
  assumes "0 \<le> e" "0 \<le> t" "t \<le> c" "0 \<le> r" "representable t" "representable c" "c < f_bound"
  shows "\<exists>t'. f_min (Fin c) (f_add (Fin t) (f_mul (Fin e) (Fin r))) = Fin t' \<and> t \<le> t' \<and> t' \<le> c \<and> representable t'"
proof (cases "round64 (e * r)")
  case (Fin p)
  then have p: "0 \<le> p" using round64_Fin [OF Fin] rnd_nonneg [of "e * r"] assms(1,4) by simp
  show ?thesis
  proof (cases "round64 (t + p)")
    case (Fin q)
    then have "q = rnd (t + p)" by (rule round64_Fin)
    moreover have "t \<le> rnd (t + p)" using p assms(5) by (intro rnd_ge_representable) auto
    ultimately show ?thesis using Fin \<open>round64 (e * r) = Fin p\<close> assms
      by (cases "q < c") (auto simp: f_min_def)
  next
    case (Inf s)
    have "0 \<le> rnd (t + p)" using p assms(2) by (intro rnd_nonneg) simp
    with Inf have "\<not> s" by (auto simp: round64_def Let_def split: if_splits)
    then show ?thesis using Inf \<open>round64 (e * r) = Fin p\<close> assms by (auto simp: f_min_def)
  next
    case NaN
    then show ?thesis by (simp add: round64_def Let_def split: if_splits)
  qed
next
  case (Inf s)
  have "0 \<le> rnd (e * r)" using assms(1,4) by (intro rnd_nonneg) simp
  with Inf have "\<not> s" by (auto simp: round64_def Let_def split: if_splits)
  then show ?thesis using Inf assms by (auto simp: f_min_def)
next
  case NaN
  then show ?thesis by (simp add: round64_def Let_def split: if_splits)
qed

lemma TokensAt_bounds:
  assumes "tb_tokens b = Fin t" "tb_capacity b = Fin c" "tb_refill b = Fin r"
    "0 \<le> t" "t \<le> c" "0 \<le> r" "representable t" "representable c" "c < f_bound"
  shows "\<exists>t'. TokensAt now b = Fin t' \<and> t \<le> t' \<and> t' \<le> c \<and> representable t'"
proof (cases "0 < time_sub now (tb_last b)")
  case True
  then have e: "dur_seconds (time_sub now (tb_last b)) = Fin (secs (time_sub now (tb_last b)))"
    using time_sub_range(2) by (intro dur_seconds_pos) auto
  have "0 \<le> secs (time_sub now (tb_last b))" using secs_mono [of 0 "time_sub now (tb_last b)"] True by simp
  from refill_bounds [OF this assms(4-9)] show ?thesis
    using assms by (simp add: TokensAt_def e Let_def)
next
  case False
  then have "\<not> f_lt (Fin 0) (dur_seconds (time_sub now (tb_last b)))"
    using time_sub_range(1) by (intro dur_seconds_neg) auto
  then show ?thesis using assms by (simp add: TokensAt_def Let_def)
qed

lemma bucket_Allow_TokensAt:
  "bucket_Allow now b =
    (let b' = b\<lparr>tb_tokens := TokensAt now b,
        tb_last := (if f_lt (Fin 0) (dur_seconds (time_sub now (tb_last b))) then now else tb_last b)\<rparr>
     in if f_lt (TokensAt now b) (Fin 1) then (False, b')
        else (True, b'\<lparr>tb_tokens := f_sub (TokensAt now b) (Fin 1)\<rparr>))"
  by (cases b) (simp add: bucket_Allow_def TokensAt_def Let_def)

lemma f_sub_one:
  assumes "1 \<le> t" "t < f_bound" "representable t"
  shows "\<exists>u. f_sub (Fin t) (Fin 1) = Fin u \<and> 0 \<le> u \<and> u \<le> t \<and> representable u"
proof -
  have u: "rnd (t - 1) \<le> t" "0 \<le> rnd (t - 1)"
    using assms rnd_le_representable [of "t - 1" t] rnd_nonneg [of "t - 1"] by auto
  then have "\<not> f_bound \<le> \<bar>rnd (t - 1)\<bar>" using assms(2) by auto
  then have "f_sub (Fin t) (Fin 1) = Fin (rnd (t - 1))" by (simp add: f_sub_def round64_def Let_def)
  with u show ?thesis by simp
qed

text \<open>Below \<open>2^53\<close> the subtraction of a token is exact.\<close>

lemma representable_minus_one:
  assumes "representable t" "1 \<le> t" "t < 2 ^ 53"
  shows "representable (t - 1)"
proof -
  obtain m e where me: "t = of_int m * 2 powi e" "\<bar>m\<bar> < 2 ^ 53" "- 1074 \<le> e"
    using assms(1) by (auto simp: representable_def)
  show ?thesis
  proof (cases "0 \<le> e")
    case True
    then have eq: "t - 1 = of_int (m * 2 ^ nat e - 1)" using me by (simp add: power_int_def)
    have "(of_int (m * 2 ^ nat e - 1) :: rat) < of_int (2 ^ 53)" "(of_int 0 :: rat) \<le> of_int (m * 2 ^ nat e - 1)"
      unfolding eq [symmetric] using assms(2,3) by simp_all
    then have "\<bar>m * 2 ^ nat e - 1\<bar> < 2 ^ 53" unfolding of_int_less_iff of_int_le_iff by simp
    then show ?thesis unfolding eq by (rule representable_int)
  next
    case False
    define k where "k = nat (- e)"
    have p: "(2::rat) powi e = 1 / 2 ^ k" using False by (simp add: power_int_def k_def power_one_over)
    then have eq: "t - 1 = of_int (m - 2 ^ k) * 2 powi e" using me(1) by (simp add: diff_divide_distrib)
    have "(2::rat) ^ k \<le> of_int m" using assms(2) me(1) p by (simp add: pos_le_divide_eq)
    then have "of_int (2 ^ k) \<le> (of_int m :: rat)" by simp
    then have "2 ^ k \<le> m" by (simp only: of_int_le_iff)
    moreover have "(0::int) < 2 ^ k" by simp
    ultimately have "\<bar>m - 2 ^ k\<bar> < 2 ^ 53" using me(2) by linarith
    with eq me(3) show ?thesis unfolding representable_def by blast
  qed
qed

lemma bucket_ok_Allow [inv_intros]: "bucket_ok b \<Longrightarrow> bucket_ok (snd (bucket_Allow now b))"
proof -
  assume "bucket_ok b"
  then obtain t c r where b: "tb_tokens b = Fin t" "tb_capacity b = Fin c" "tb_refill b = Fin r"
    "0 \<le> t" "t \<le> c" "0 \<le> r" "representable t" "representable c" "c < f_bound"
    unfolding bucket_ok_def by blast
  obtain t' where t': "TokensAt now b = Fin t'" "t \<le> t'" "t' \<le> c" "representable t'"
    using TokensAt_bounds [OF b] by blast
  show ?thesis
  proof (cases "t' < 1")
    case True
    with b t' show ?thesis by (auto simp: bucket_Allow_TokensAt Let_def bucket_ok_def)
  next
    case False
    then obtain u where "f_sub (Fin t') (Fin 1) = Fin u" "0 \<le> u" "u \<le> t'" "representable u"
      using f_sub_one [of t'] b t' by auto
    with False b t' show ?thesis by (auto simp: bucket_Allow_TokensAt Let_def bucket_ok_def)
  qed
qed

lemma bucket_ok_new:
  "0 \<le> r \<Longrightarrow> 0 \<le> c \<Longrightarrow> representable c \<Longrightarrow> c < f_bound \<Longrightarrow> bucket_ok (NewTokenBucket (Fin r) (Fin c) now)"
  by (simp add: bucket_ok_def NewTokenBucket_def)

section \<open>Bursts\<close>

fun bucket_run :: "time list \<Rightarrow> token_bucket \<Rightarrow> nat \<times> token_bucket" where
  "bucket_run [] b = (0, b)"
| "bucket_run (now # ts) b = (let (ok, b') = bucket_Allow now b; (n, b'') = bucket_run ts b'
     in ((if ok then Suc n else n), b''))"

lemma TokensAt_same: "dur_seconds (time_sub now now) = Fin 0"
  by (simp add: time_sub_def dur_seconds_def go_div_def Let_def)

lemma bucket_Allow_last: "now \<le> tb_last (snd (bucket_Allow now b))"
proof (cases "now \<le> tb_last b")
  case True
  then have "\<not> f_lt (Fin 0) (dur_seconds (time_sub now (tb_last b)))"
    using time_sub_range(1) by (intro dur_seconds_neg) (auto simp: time_sub_def)
  with True show ?thesis by (simp add: bucket_Allow_TokensAt Let_def)
next
  case False
  have pos: "0 < rnd (1 / 1000000000)"
    using rnd_ge_representable [of "of_int 1 / 2 ^ 30" "1 / 1000000000"] representable_scaled [of 1 30]
    by (auto intro: less_le_trans)
  from False have "1 \<le> time_sub now (tb_last b)" using time_sub_pos_iff [of now "tb_last b"] by simp
  then have "secs 1 \<le> secs (time_sub now (tb_last b))" by (intro secs_mono) auto
  moreover have "secs 1 = rnd (1 / 1000000000)" by (simp add: secs_def rnd_representable)
  ultimately have "f_lt (Fin 0) (dur_seconds (time_sub now (tb_last b)))"
    using pos time_sub_range(2) \<open>1 \<le> time_sub now (tb_last b)\<close> by (simp add: dur_seconds_pos)
  then show ?thesis by (simp add: bucket_Allow_TokensAt Let_def)
qed

lemma TokensAt_past: "now \<le> tb_last b \<Longrightarrow> TokensAt now b = tb_tokens b"
proof -
  assume "now \<le> tb_last b"
  then have "\<not> f_lt (Fin 0) (dur_seconds (time_sub now (tb_last b)))"
    using time_sub_range(1) by (intro dur_seconds_neg) (auto simp: time_sub_def)
  then show ?thesis by (simp add: TokensAt_def Let_def)
qed

lemma bucket_run_past:
  assumes "tb_tokens b = Fin t" "representable t" "0 \<le> t" "t < 2 ^ 53" "\<forall>x \<in> set ts. x \<le> tb_last b"
  shows "of_nat (fst (bucket_run ts b)) \<le> t"
  using assms
proof (induction ts arbitrary: b t)
  case Nil
  then show ?case by simp
next
  case (Cons now ts)
  have past: "TokensAt now b = Fin t" using Cons.prems by (simp add: TokensAt_past)
  have last: "\<not> f_lt (Fin 0) (dur_seconds (time_sub now (tb_last b)))"
    using Cons.prems time_sub_range(1) by (intro dur_seconds_neg) (auto simp: time_sub_def)
  show ?case
  proof (cases "t < 1")
    case True
    have "bucket_Allow now b = (False, b)"
      using True past last Cons.prems by (cases b) (simp add: bucket_Allow_TokensAt Let_def)
    with Cons show ?thesis by (simp add: case_prod_unfold Let_def)
  next
    case False
    have rep: "representable (t - 1)" using False Cons.prems by (intro representable_minus_one) auto
    moreover have "t < f_bound" using Cons.prems(4) by (simp add: f_bound_def)
    ultimately have "f_sub (Fin t) (Fin 1) = Fin (t - 1)"
      using False by (simp add: f_sub_def round64_representable)
    then have "bucket_Allow now b = (True, b\<lparr>tb_tokens := Fin (t - 1)\<rparr>)"
      using False past last by (cases b) (simp add: bucket_Allow_TokensAt Let_def)
    moreover have "of_nat (fst (bucket_run ts (b\<lparr>tb_tokens := Fin (t - 1)\<rparr>))) \<le> t - 1"
      using Cons.prems False rep by (intro Cons.IH) auto
    ultimately show ?thesis by (simp add: case_prod_unfold Let_def)
  qed
qed

lemma bucket_burst:
  assumes "bucket_ok b" "tb_capacity b = Fin c" "c < 2 ^ 53" "\<forall>x \<in> set ts. x = now"
  shows "of_nat (fst (bucket_run ts b)) \<le> c"
proof -
  obtain t r where b: "tb_tokens b = Fin t" "tb_refill b = Fin r" "0 \<le> t" "t \<le> c" "0 \<le> r" "representable t"
    "representable c" "c < f_bound" using assms(1,2) unfolding bucket_ok_def by auto
  obtain t' where t': "TokensAt now b = Fin t'" "t \<le> t'" "t' \<le> c" "representable t'"
    using TokensAt_bounds [OF b(1) assms(2) b(2-8)] by blast
  show ?thesis
  proof (cases ts)
    case Nil
    then show ?thesis using b by simp
  next
    case (Cons x ts')
    let ?b = "snd (bucket_Allow now b)"
    have past: "\<forall>x \<in> set ts'. x \<le> tb_last ?b" using assms(4) Cons bucket_Allow_last by auto
    show ?thesis
    proof (cases "t' < 1")
      case True
      then have a: "\<not> fst (bucket_Allow now b)" "tb_tokens ?b = Fin t'"
        using t' by (simp_all add: bucket_Allow_TokensAt Let_def)
      then have "of_nat (fst (bucket_run ts' ?b)) \<le> t'"
        using t' b assms(3) past by (intro bucket_run_past) auto
      then show ?thesis using a Cons assms(4) t' by (simp add: case_prod_unfold Let_def)
    next
      case False
      have rep: "representable (t' - 1)" using False t' assms(3) by (intro representable_minus_one) auto
      moreover have "t' < f_bound" using t' b by simp
      ultimately have "f_sub (Fin t') (Fin 1) = Fin (t' - 1)" using False by (simp add: f_sub_def round64_representable)
      then have a: "fst (bucket_Allow now b)" "tb_tokens ?b = Fin (t' - 1)"
        using t' False by (simp_all add: bucket_Allow_TokensAt Let_def)
      then have "of_nat (fst (bucket_run ts' ?b)) \<le> t' - 1"
        using t' False assms(3) past rep by (intro bucket_run_past) auto
      then show ?thesis using a Cons assms(4) t' by (simp add: case_prod_unfold Let_def)
    qed
  qed
qed

section \<open>Classes do not starve each other\<close>

definition limits_run :: "(event_class \<times> time) list \<Rightarrow> rate_limits \<Rightarrow> rate_limits" where
  "limits_run calls = fold (\<lambda>(cls, now) r. snd (limits_Allow cls now r)) calls"

fun bucket_of :: "event_class \<Rightarrow> rate_limits \<Rightarrow> token_bucket" where
  "bucket_of ClassEphemeral r = rl_ephemeral r"
| "bucket_of ClassSignaling r = rl_signaling r"
| "bucket_of _ r = rl_reliable r"

definition shares_bucket :: "event_class \<Rightarrow> event_class \<Rightarrow> bool" where
  "shares_bucket c d \<longleftrightarrow> c = d \<or> (c \<notin> {ClassEphemeral, ClassSignaling} \<and> d \<notin> {ClassEphemeral, ClassSignaling})"

lemma limits_Allow_bucket: "fst (limits_Allow cls now r) = fst (bucket_Allow now (bucket_of cls r))"
  by (cases cls) (simp_all add: limits_Allow_def case_prod_unfold Let_def)

lemma limits_Allow_other:
  "\<not> shares_bucket cls d \<Longrightarrow> bucket_of d (snd (limits_Allow cls now r)) = bucket_of d r"
  by (cases cls; cases d) (simp_all add: limits_Allow_def shares_bucket_def case_prod_unfold Let_def)

lemma limits_run_other:
  "\<forall>(cls, now) \<in> set calls. \<not> shares_bucket cls d \<Longrightarrow> bucket_of d (limits_run calls r) = bucket_of d r"
  unfolding limits_run_def by (induction calls arbitrary: r) (auto simp: limits_Allow_other)

section \<open>Sweeping full buckets is not observable\<close>

lemma f_le_add_mono: "f_le x y \<Longrightarrow> f_le (f_add (Fin t) x) (f_add (Fin t) y)"
proof -
  assume le: "f_le x y"
  have "f_le (Inf True) (round64 z)" "f_le (round64 z) (Inf False)" for z
    by (cases "round64 z"; simp add: round64_def Let_def split: if_splits)+
  with le show ?thesis by (cases x; cases y) (auto intro: f_le_round64)
qed

lemma TokensAt_full_later:
  assumes "bucket_ok b" "f_le (tb_capacity b) (TokensAt now b)" "now \<le> now'"
  shows "TokensAt now' b = tb_capacity b"
proof -
  obtain t c r where b: "tb_tokens b = Fin t" "tb_capacity b = Fin c" "tb_refill b = Fin r"
    "0 \<le> t" "t \<le> c" "0 \<le> r" "representable t" "representable c" "c < f_bound"
    using assms(1) unfolding bucket_ok_def by blast
  obtain u where u: "TokensAt now' b = Fin u" "t \<le> u" "u \<le> c" using TokensAt_bounds [OF b] by blast
  let ?d = "time_sub now (tb_last b)" and ?d' = "time_sub now' (tb_last b)"
  have "c \<le> u"
  proof (cases "0 < ?d")
    case False
    then have "TokensAt now b = Fin t"
      using b time_sub_pos_iff [of now "tb_last b"] by (simp add: TokensAt_past)
    with assms(2) b u show ?thesis by simp
  next
    case True
    have le: "?d \<le> ?d'" using assms(3) by (rule time_sub_mono)
    have pos: "f_lt (Fin 0) (dur_seconds d)" if "0 < d" "d \<le> max_int64" for d
    proof -
      have "secs 1 \<le> secs d" using that by (intro secs_mono) auto
      moreover have "0 < rnd (1 / 1000000000)"
        using rnd_ge_representable [of "of_int 1 / 2 ^ 30" "1 / 1000000000"] representable_scaled [of 1 30]
        by (auto intro: less_le_trans)
      ultimately show ?thesis using that by (simp add: dur_seconds_pos secs_def rnd_representable)
    qed
    have ds: "dur_seconds ?d = Fin (secs ?d)" "dur_seconds ?d' = Fin (secs ?d')"
      using True le time_sub_range(2) by (auto intro!: dur_seconds_pos)
    let ?x = "f_add (Fin t) (f_mul (Fin (secs ?d)) (Fin r))" and ?y = "f_add (Fin t) (f_mul (Fin (secs ?d')) (Fin r))"
    have eqs: "TokensAt now b = f_min (Fin c) ?x" "TokensAt now' b = f_min (Fin c) ?y"
      using True le pos [of ?d] pos [of ?d'] time_sub_range(2) b ds
      by (simp_all add: TokensAt_def Let_def del: f_add.simps f_mul.simps)
    have "f_le (f_mul (Fin (secs ?d)) (Fin r)) (f_mul (Fin (secs ?d')) (Fin r))"
      using True le b(6) by (simp add: f_le_round64 secs_mono mult_right_mono)
    then have "f_le ?x ?y"
      using f_le_add_mono by blast
    moreover have "f_le (Fin c) ?x" "\<not> f_is_nan ?x"
      using assms(2) b eqs(1) by (auto simp del: f_add.simps f_mul.simps simp: f_min_def split: if_splits)
        (cases ?x; simp)+
    ultimately have "f_le (Fin c) ?y" by (cases ?x; cases ?y) (auto simp del: f_add.simps f_mul.simps)
    then show ?thesis using u eqs(2) by (auto simp: f_min_def split: if_splits)
  qed
  with u b show ?thesis by simp
qed

text \<open>A bucket that is full again behaves like a new one from then on.\<close>

lemma bucket_Allow_fresh:
  assumes "bucket_ok b" "f_le (tb_capacity b) (TokensAt now b)" "tb_last b \<le> now"
  shows "bucket_Allow now b = bucket_Allow now (NewTokenBucket (tb_refill b) (tb_capacity b) now)"
proof -
  have full: "TokensAt now b = tb_capacity b" by (rule TokensAt_full_later [OF assms(1,2) order_refl])
  have "tb_last b = now" if "\<not> f_lt (Fin 0) (dur_seconds (time_sub now (tb_last b)))"
    using bucket_Allow_last [of now b] assms(3) that by (simp add: bucket_Allow_TokensAt Let_def split: if_splits)
  with full show ?thesis
    by (cases b) (simp add: bucket_Allow_TokensAt TokensAt_past TokensAt_same NewTokenBucket_def Let_def)
qed

lemma bucket_Allow_fixed [simp]:
  "tb_capacity (snd (bucket_Allow now b)) = tb_capacity b" "tb_refill (snd (bucket_Allow now b)) = tb_refill b"
  by (simp_all add: bucket_Allow_TokensAt Let_def)

text \<open>The settings with which a fresh bucket is well formed.\<close>

definition usable :: "float64 \<Rightarrow> float64 \<Rightarrow> bool" where
  "usable rate burst \<longleftrightarrow> (\<exists>r c. rate = Fin r \<and> burst = Fin c \<and> 0 \<le> r \<and> 0 \<le> c \<and> representable c \<and> c < f_bound)"

lemma usable_new: "usable rate burst \<Longrightarrow> bucket_ok (NewTokenBucket rate burst now)"
  by (auto simp: usable_def intro: bucket_ok_new)

lemma sweepLocked_settings [simp]:
  "bl_ipRate (sweepLocked now l) = bl_ipRate l" "bl_ipBurst (sweepLocked now l) = bl_ipBurst l"
  "bl_userRate (sweepLocked now l) = bl_userRate l" "bl_userBurst (sweepLocked now l) = bl_userBurst l"
  by (simp_all add: sweepLocked_def)

section \<open>The limiter that never sweeps\<close>

text \<open>
  The reference: one table of buckets that only grows. A sweep may drop a bucket of the limiter at any instant, and
  what it answers afterwards is compared with the reference call by call.
\<close>

definition unswept_Allow ::
  "float64 \<Rightarrow> float64 \<Rightarrow> string \<Rightarrow> time \<Rightarrow> (string \<rightharpoonup> token_bucket) \<Rightarrow> bool \<times> (string \<rightharpoonup> token_bucket)" where
  "unswept_Allow rate burst k now v =
     (if k = [] \<or> f_le rate (Fin 0) \<or> f_le burst (Fin 0) then (True, v)
      else let (ok, b) = bucket_Allow now (case v k of Some b \<Rightarrow> b | None \<Rightarrow> NewTokenBucket rate burst now)
        in (ok, v(k \<mapsto> b)))"

datatype limiter_call = AskIP string time | AskUser string time | SweepAt time

fun limiter_time :: "limiter_call \<Rightarrow> time" where
  "limiter_time (AskIP _ t) = t"
| "limiter_time (AskUser _ t) = t"
| "limiter_time (SweepAt t) = t"

fun limiter_answers :: "limiter_call list \<Rightarrow> bootstrap_limiter \<Rightarrow> bool list" where
  "limiter_answers [] l = []"
| "limiter_answers (AskIP ip t # cs) l = (let (ok, l) = AllowIP ip t l in ok # limiter_answers cs l)"
| "limiter_answers (AskUser u t # cs) l = (let (ok, l) = AllowUser u t l in ok # limiter_answers cs l)"
| "limiter_answers (SweepAt t # cs) l = limiter_answers cs (sweepLocked t l)"

fun unswept_answers ::
  "limiter_call list \<Rightarrow> bootstrap_limiter \<Rightarrow> (string \<rightharpoonup> token_bucket) \<Rightarrow> (string \<rightharpoonup> token_bucket) \<Rightarrow> bool list" where
  "unswept_answers [] l ips users = []"
| "unswept_answers (AskIP ip t # cs) l ips users =
     (let (ok, ips) = unswept_Allow (bl_ipRate l) (bl_ipBurst l) ip t ips in ok # unswept_answers cs l ips users)"
| "unswept_answers (AskUser u t # cs) l ips users =
     (let (ok, users) = unswept_Allow (bl_userRate l) (bl_userBurst l) u t users in ok # unswept_answers cs l ips users)"
| "unswept_answers (SweepAt t # cs) l ips users = unswept_answers cs l ips users"

text \<open>
  The simulation at an instant: the table agrees with the reference but for buckets that are full
  by then, which it may have dropped.
\<close>

definition swept_from ::
  "time \<Rightarrow> float64 \<Rightarrow> float64 \<Rightarrow> (string, token_bucket) gomap \<Rightarrow> (string \<rightharpoonup> token_bucket) \<Rightarrow> bool" where
  "swept_from now rate burst m v \<longleftrightarrow> gm_wf m \<and>
     (\<forall>k. map_of m k = v k \<or> map_of m k = None \<and> (\<exists>b. v k = Some b \<and> f_le burst (TokensAt now b))) \<and>
     (\<forall>k b. v k = Some b \<longrightarrow> bucket_ok b \<and> tb_capacity b = burst \<and> tb_refill b = rate \<and> tb_last b \<le> now)"

lemma bucket_ok_refl: "bucket_ok b \<Longrightarrow> f_le (tb_capacity b) (tb_capacity b)"
  by (auto simp: bucket_ok_def)

lemma bucket_Allow_bounded: "tb_last b \<le> now \<Longrightarrow> tb_last (snd (bucket_Allow now b)) \<le> now"
  by (simp add: bucket_Allow_TokensAt Let_def)

lemma swept_later:
  assumes "swept_from now rate burst m v" "now \<le> later"
  shows "swept_from later rate burst m v"
proof -
  have v: "bucket_ok b" "tb_capacity b = burst" "tb_refill b = rate" "tb_last b \<le> now" if "v k = Some b" for k b
    using assms(1) that by (auto simp: swept_from_def)
  have full: "f_le burst (TokensAt later b)" if "v k = Some b" "f_le burst (TokensAt now b)" for k b
    using TokensAt_full_later [of b now later] bucket_ok_refl [of b] v [OF that(1)] that(2) assms(2) by simp
  show ?thesis
    using assms v full unfolding swept_from_def by (metis order_trans)
qed

lemma swept_sweep:
  assumes "swept_from now rate burst m v"
  shows "swept_from now rate burst (fst (gm_delete_where (\<lambda>b. f_le burst (TokensAt now b)) m)) v"
proof -
  have wf: "gm_wf m" using assms by (simp add: swept_from_def)
  have "map_of (fst (gm_delete_where (\<lambda>b. f_le burst (TokensAt now b)) m)) k = v k \<or>
      map_of (fst (gm_delete_where (\<lambda>b. f_le burst (TokensAt now b)) m)) k = None \<and> (\<exists>b. v k = Some b \<and> f_le burst (TokensAt now b))" for k
  proof -
    have "map_of m k = v k \<or> map_of m k = None \<and> (\<exists>b. v k = Some b \<and> f_le burst (TokensAt now b))"
      using assms by (simp add: swept_from_def)
    then show ?thesis
      by (cases "v k") (auto simp: map_of_delete_where [OF wf] simp del: map_of_eq_Some_iff split: if_splits)
  qed
  with assms wf show ?thesis by (simp add: swept_from_def gm_wf_delete_where)
qed

lemma swept_Allow:
  assumes "swept_from now rate burst m v" "usable rate burst"
    and "(ok, b) = bucket_Allow now (case map_of m k of Some b \<Rightarrow> b | None \<Rightarrow> NewTokenBucket rate burst now)"
  shows "bucket_Allow now (case v k of Some b \<Rightarrow> b | None \<Rightarrow> NewTokenBucket rate burst now) = (ok, b)"
    and "swept_from now rate burst (gm_put k b m) (v(k \<mapsto> b))"
proof -
  let ?b = "case v k of Some b \<Rightarrow> b | None \<Rightarrow> NewTokenBucket rate burst now"
  have v: "bucket_ok b" "tb_capacity b = burst" "tb_refill b = rate" "tb_last b \<le> now" if "v k = Some b" for k b
    using assms(1) that by (auto simp: swept_from_def)
  have "map_of m k = v k \<or> map_of m k = None \<and> (\<exists>b. v k = Some b \<and> f_le burst (TokensAt now b))"
    using assms(1) by (simp add: swept_from_def)
  then show same: "bucket_Allow now ?b = (ok, b)"
    using assms(3) bucket_Allow_fresh v by (auto simp del: map_of_eq_Some_iff)
  have "bucket_ok ?b" "tb_capacity ?b = burst" "tb_refill ?b = rate" "tb_last ?b \<le> now"
    using v usable_new [OF assms(2), of now] by (auto simp: NewTokenBucket_def split: option.split)
  then have "bucket_ok b" "tb_capacity b = burst" "tb_refill b = rate" "tb_last b \<le> now"
    using bucket_ok_Allow [of ?b now] bucket_Allow_fixed [of now ?b] bucket_Allow_bounded [of ?b now] same by simp_all
  with assms(1) show "swept_from now rate burst (gm_put k b m) (v(k \<mapsto> b))"
    by (simp add: swept_from_def gm_wf_put del: map_of_eq_Some_iff)
qed

definition limiter_sim :: "time \<Rightarrow> bootstrap_limiter \<Rightarrow> bootstrap_limiter \<Rightarrow> (string \<rightharpoonup> token_bucket) \<Rightarrow> (string \<rightharpoonup> token_bucket) \<Rightarrow> bool" where
  "limiter_sim now l0 l ips users \<longleftrightarrow> bl_ipRate l = bl_ipRate l0 \<and> bl_ipBurst l = bl_ipBurst l0 \<and>
     bl_userRate l = bl_userRate l0 \<and> bl_userBurst l = bl_userBurst l0 \<and>
     swept_from now (bl_ipRate l0) (bl_ipBurst l0) (bl_perIP l) ips \<and>
     swept_from now (bl_userRate l0) (bl_userBurst l0) (bl_perUser l) users"

lemma sim_later: "limiter_sim now l0 l ips users \<Longrightarrow> now \<le> later \<Longrightarrow> limiter_sim later l0 l ips users"
  by (auto simp: limiter_sim_def intro: swept_later)

lemma sim_sweep: "limiter_sim now l0 l ips users \<Longrightarrow> limiter_sim now l0 (sweepLocked now l) ips users"
  using swept_sweep [of now "bl_ipRate l0" "bl_ipBurst l0" "bl_perIP l" ips]
    swept_sweep [of now "bl_userRate l0" "bl_userBurst l0" "bl_perUser l" users]
  by (auto simp: limiter_sim_def sweepLocked_def)

lemma sim_AllowIP:
  assumes "limiter_sim now l0 l ips users" "usable (bl_ipRate l0) (bl_ipBurst l0)" "AllowIP ip now l = (ok, l')"
  shows "\<exists>ips'. unswept_Allow (bl_ipRate l0) (bl_ipBurst l0) ip now ips = (ok, ips') \<and> limiter_sim now l0 l' ips' users"
proof (cases "ip = [] \<or> f_le (bl_ipRate l0) (Fin 0) \<or> f_le (bl_ipBurst l0) (Fin 0)")
  case True
  with assms show ?thesis by (auto simp: AllowIP_def unswept_Allow_def limiter_sim_def)
next
  case False
  let ?l = "sweepLocked now l"
  have sim: "limiter_sim now l0 ?l ips users" by (rule sim_sweep [OF assms(1)])
  then have set: "bl_ipRate ?l = bl_ipRate l0" "bl_ipBurst ?l = bl_ipBurst l0"
    and ips: "swept_from now (bl_ipRate l0) (bl_ipBurst l0) (bl_perIP ?l) ips" by (simp_all add: limiter_sim_def)
  let ?b = "bucket_Allow now (case map_of (bl_perIP ?l) ip of Some b \<Rightarrow> b | None \<Rightarrow> NewTokenBucket (bl_ipRate l0) (bl_ipBurst l0) now)"
  have "AllowIP ip now l = (fst ?b, ?l\<lparr>bl_perIP := gm_put ip (snd ?b) (bl_perIP ?l)\<rparr>)"
    using assms(1) False by (simp add: AllowIP_def Let_def case_prod_unfold limiter_sim_def cong: option.case_cong)
  with assms(3) have b: "(ok, snd ?b) = ?b" and l': "l' = ?l\<lparr>bl_perIP := gm_put ip (snd ?b) (bl_perIP ?l)\<rparr>" by (auto simp: prod_eq_iff)
  from swept_Allow [OF ips assms(2) b] False sim show ?thesis
    unfolding l' by (auto simp: unswept_Allow_def limiter_sim_def)
qed

lemma sim_AllowUser:
  assumes "limiter_sim now l0 l ips users" "usable (bl_userRate l0) (bl_userBurst l0)" "AllowUser u now l = (ok, l')"
  shows "\<exists>users'. unswept_Allow (bl_userRate l0) (bl_userBurst l0) u now users = (ok, users') \<and> limiter_sim now l0 l' ips users'"
proof (cases "u = [] \<or> f_le (bl_userRate l0) (Fin 0) \<or> f_le (bl_userBurst l0) (Fin 0)")
  case True
  with assms show ?thesis by (auto simp: AllowUser_def unswept_Allow_def limiter_sim_def)
next
  case False
  have users: "swept_from now (bl_userRate l0) (bl_userBurst l0) (bl_perUser l) users" using assms(1) by (simp add: limiter_sim_def)
  let ?b = "bucket_Allow now (case map_of (bl_perUser l) u of Some b \<Rightarrow> b | None \<Rightarrow> NewTokenBucket (bl_userRate l0) (bl_userBurst l0) now)"
  have "AllowUser u now l = (fst ?b, l\<lparr>bl_perUser := gm_put u (snd ?b) (bl_perUser l)\<rparr>)"
    using assms(1) False by (simp add: AllowUser_def Let_def case_prod_unfold limiter_sim_def cong: option.case_cong)
  with assms(3) have b: "(ok, snd ?b) = ?b" and l': "l' = l\<lparr>bl_perUser := gm_put u (snd ?b) (bl_perUser l)\<rparr>" by (auto simp: prod_eq_iff)
  from swept_Allow [OF users assms(2) b] False assms(1) show ?thesis
    unfolding l' by (auto simp: unswept_Allow_def limiter_sim_def)
qed

lemma sim_answers:
  assumes "usable (bl_ipRate l0) (bl_ipBurst l0)" "usable (bl_userRate l0) (bl_userBurst l0)"
    and "limiter_sim now l0 l ips users" "sorted (now # map limiter_time cs)"
  shows "limiter_answers cs l = unswept_answers cs l0 ips users"
  using assms(3,4)
proof (induction cs arbitrary: now l ips users)
  case (Cons c cs)
  let ?t = "limiter_time c"
  have rest: "sorted (?t # map limiter_time cs)" and le: "now \<le> ?t" using Cons.prems(2) by auto
  note sim = sim_later [OF Cons.prems(1) le]
  show ?case
  proof (cases c)
    case (AskIP ip t)
    obtain ok l' where a: "AllowIP ip t l = (ok, l')" by fastforce
    from sim_AllowIP [OF sim [unfolded AskIP limiter_time.simps] assms(1) a] Cons.IH rest AskIP a show ?thesis by auto
  next
    case (AskUser u t)
    obtain ok l' where a: "AllowUser u t l = (ok, l')" by fastforce
    from sim_AllowUser [OF sim [unfolded AskUser limiter_time.simps] assms(2) a] Cons.IH rest AskUser a show ?thesis by auto
  next
    case (SweepAt t)
    with Cons.IH [OF sim_sweep [OF sim] rest] show ?thesis by simp
  qed
qed simp

section \<open>Properties\<close>

text \<open>
  C26. A token bucket never overdraws: with a rate that is not negative and a capacity from zero up to \<open>2 ^ 53\<close>,
  whatever it went through before, of any number of calls at
  one instant it lets through at most its capacity, in IEEE arithmetic with the refill included.
\<close>

theorem bucket_bounds_burst:
  assumes "0 \<le> r" and "0 \<le> c" and "representable c" and "c < 2 ^ 53"
    and "b = snd (bucket_run history (NewTokenBucket (Fin r) (Fin c) start))"
    and "\<forall>x \<in> set ts. x = now"
  shows "of_nat (fst (bucket_run ts b)) \<le> c \<and>
    (\<exists>t. Tokens b = Fin t \<and> 0 \<le> t \<and> t \<le> c)"
proof -
  have ok_run: "bucket_ok b \<Longrightarrow> bucket_ok (snd (bucket_run h b)) \<and> tb_capacity (snd (bucket_run h b)) = tb_capacity b" for h b
    by (induction h arbitrary: b) (auto simp: case_prod_unfold Let_def bucket_ok_Allow)
  have "c < f_bound" using assms(4) by (simp add: f_bound_def)
  then have "bucket_ok (NewTokenBucket (Fin r) (Fin c) start)" using assms(1-3) by (intro bucket_ok_new) auto
  from ok_run [OF this] have b: "bucket_ok b" "tb_capacity b = Fin c"
    unfolding assms(5) by (simp_all add: NewTokenBucket_def)
  then show ?thesis using bucket_burst [OF b assms(4,6)] by (auto simp: bucket_ok_def Tokens_def)
qed

theorem bucket_bounds_burst_witness:
  "(of_nat (fst (bucket_run [7, 7, 7, 7] (snd (bucket_run [] (NewTokenBucket (Fin 1) (Fin 2) 0))))) :: rat) \<le> 2"
  using bucket_bounds_burst [of 1 2 "snd (bucket_run [] (NewTokenBucket (Fin 1) (Fin 2) 0))" "[]" 0 "[7, 7, 7, 7]" 7]
    representable_int [of 2] by simp

text \<open>
  One class cannot starve another: however many events of classes with other buckets were
  checked before, the answer for a class is what it would have been without them. (Durable events
  share the reliable bucket.)
\<close>

theorem rate_classes_independent:
  assumes "\<forall>(c, t) \<in> set flood. \<not> shares_bucket c cls"
  shows "fst (limits_Allow cls now (limits_run flood r)) = fst (limits_Allow cls now r)"
  using limits_run_other [OF assms] by (simp add: limits_Allow_bucket)

theorem rate_classes_independent_witness:
  "let r = \<lparr>rl_ephemeral = NewTokenBucket (Fin 1) (Fin 1) 0, rl_reliable = NewTokenBucket (Fin 1) (Fin 1) 0,
      rl_signaling = NewTokenBucket (Fin 1) (Fin 1) 0\<rparr> in
   fst (limits_Allow ClassReliable 0 (limits_run [(ClassEphemeral, 0), (ClassEphemeral, 0)] r))"
  using rate_classes_independent [of "[(ClassEphemeral, 0), (ClassEphemeral, 0)]" ClassReliable 0
      "\<lparr>rl_ephemeral = NewTokenBucket (Fin 1) (Fin 1) 0, rl_reliable = NewTokenBucket (Fin 1) (Fin 1) 0,
      rl_signaling = NewTokenBucket (Fin 1) (Fin 1) 0\<rparr>"]
  by (simp add: shares_bucket_def limits_Allow_def bucket_Allow_def NewTokenBucket_def Let_def TokensAt_same)

text \<open>
  C27. The sweep of the bootstrap limiter only frees memory. Take a limiter with finite, non-negative rates and bursts below the float
  range, from its creation on, and any sequence of calls in time order, for any addresses and users, with any number
  of sweeps between them beside those the calls make themselves: its answers are, one by one, those of a
  limiter that keeps every bucket it ever made.
\<close>

theorem limiter_sweep_unobservable:
  assumes "l = NewBootstrapLimiter settings start"
    and "usable (bl_ipRate l) (bl_ipBurst l)" and "usable (bl_userRate l) (bl_userBurst l)"
    and "sorted (start # map limiter_time calls)"
  shows "limiter_answers calls l = unswept_answers calls l Map.empty Map.empty"
proof -
  have "limiter_sim start l l Map.empty Map.empty"
    by (simp add: assms(1) limiter_sim_def swept_from_def NewBootstrapLimiter_def)
  from sim_answers [OF assms(2,3) this assms(4)] show ?thesis .
qed

text \<open>Two tokens, one spent at the start; the bucket is full again and swept two minutes later, then both tokens are there.\<close>

definition example_limits :: bootstrap_limit_settings where
  "example_limits = \<lparr>bls_PerUserPerMinute = Fin 0, bls_PerUserBurst = Fin 0, bls_PerIPPerMinute = Fin 60, bls_PerIPBurst = Fin 2\<rparr>"

theorem limiter_sweep_unobservable_witness:
  "limiter_answers [AskIP ''a'' 0, SweepAt (2 * Minute), AskIP ''a'' (2 * Minute), AskIP ''a'' (2 * Minute), AskIP ''a'' (2 * Minute)]
     (NewBootstrapLimiter example_limits 0) =
   unswept_answers [AskIP ''a'' 0, SweepAt (2 * Minute), AskIP ''a'' (2 * Minute), AskIP ''a'' (2 * Minute), AskIP ''a'' (2 * Minute)]
     (NewBootstrapLimiter example_limits 0) Map.empty Map.empty"
proof (rule limiter_sweep_unobservable [OF refl])
  have "f_div (Fin 60) (Fin 60) = Fin 1" "f_div (Fin 0) (Fin 60) = Fin 0"
    using representable_int [of 1] representable_int [of 0] by (simp_all add: round64_representable f_bound_def)
  then show "usable (bl_ipRate (NewBootstrapLimiter example_limits 0)) (bl_ipBurst (NewBootstrapLimiter example_limits 0))"
    "usable (bl_userRate (NewBootstrapLimiter example_limits 0)) (bl_userBurst (NewBootstrapLimiter example_limits 0))"
    using representable_int [of 2] representable_int [of 0]
    by (simp_all add: usable_def NewBootstrapLimiter_def example_limits_def f_bound_def)
qed simp

end
