(* ===== verification/Lock_Handler.thy ===== *)
theory Lock_Handler
  imports Room_Service Block_Lock_Service Session_Service Rate_Limiter
begin

text \<open>
  The server's state as the transports share it, and the lock protocol of a connection
  (\<open>internal/transport/block_lock_handler.go\<close>): the three client verbs, denials, announcements, the
  release on disconnect and the guard on geometry frames.
\<close>

section \<open>The server\<close>

text \<open>
  One record for what the handlers close over: the room service (with the connection table, the
  metrics, the interest index and the history permits), the session service's stores, the lock store
  (\<open>None\<close> when locks are not configured), the rate limits of each live connection, and the
  readiness flag of \<open>Health\<close>.
\<close>

record server =
  sr_rooms :: room_service
  sr_sessions :: "(session_store, ticket_store) session_state"
  sr_locks :: "lock_store option"
  sr_limits :: "nat \<Rightarrow> rate_limits"
  sr_draining :: bool

text \<open>What the handlers take from outside: minted ids, the reader of JSON text, the session service's
  dependencies, the lease settings.\<close>

record server_env =
  ev_newID :: "nat \<Rightarrow> string"
  ev_parse :: "bytes \<Rightarrow> raw"
  ev_deps :: "(session_store, ticket_store) session_deps"
  ev_locks :: lock_settings

definition on_rooms :: "(room_service \<Rightarrow> room_service) \<Rightarrow> server \<Rightarrow> server" where
  "on_rooms f s = s\<lparr>sr_rooms := f (sr_rooms s)\<rparr>"

definition count_metric :: "(metrics \<Rightarrow> metrics) \<Rightarrow> server \<Rightarrow> server" where
  "count_metric f s = on_rooms (\<lambda>r. r\<lparr>rs_metrics := map_option f (rs_metrics r)\<rparr>) s"

definition store_active_locks :: "server \<Rightarrow> server" where
  "store_active_locks s = (case sr_locks s of None \<Rightarrow> s
     | Some l \<Rightarrow> count_metric (\<lambda>m. m\<lparr>mt_BlockLocksActive := int (ActiveLocks memory_lock_ops l)\<rparr>) s)"

section \<open>Answers\<close>

definition holder_json :: "public_holder \<Rightarrow> json" where
  "holder_json h = JObj [jmem ''blockId'' (JStr (ph_BlockID h)), jmem ''lockId'' (JStr (ph_LockID h)),
     jmem ''connectionId'' (JStr (ph_ConnectionID h)), jmem ''userId'' (JStr (ph_UserID h)),
     jmem ''expiresAt'' (jint (ph_ExpiresAt h))]"

definition denial_json :: "string \<Rightarrow> string \<Rightarrow> string \<Rightarrow> block_lock option \<Rightarrow> json" where
  "denial_json blockID lockID reason holder = JObj ([jmem ''blockId'' (JStr blockID)] @
     (case holder of None \<Rightarrow> [] | Some h \<Rightarrow> [jmem ''heldBy'' (JObj [
        jmem ''connectionId'' (JStr (lk_ConnectionID h)), jmem ''expiresAt'' (jint (unix_milli (lk_ExpiresAt h))),
        jmem ''userId'' (JStr (lk_UserID h))])]) @
     [jmem ''lockId'' (JStr lockID), jmem ''reason'' (JStr reason)])"

definition deny ::
  "server_env \<Rightarrow> time \<Rightarrow> connection \<Rightarrow> string \<Rightarrow> string \<Rightarrow> string \<Rightarrow> block_lock option \<Rightarrow> server \<Rightarrow> server" where
  "deny env now conn blockID lockID reason holder s =
     (let s = count_metric (\<lambda>m. m\<lparr>mt_BlockLockDenied := mt_BlockLockDenied m + 1\<rparr>) s
      in on_rooms (Notify (ev_newID env) now conn ''block.lock.denied'' (denial_json blockID lockID reason holder)) s)"

definition announceReleased :: "server_env \<Rightarrow> time \<Rightarrow> string \<Rightarrow> block_lock \<Rightarrow> server \<Rightarrow> server" where
  "announceReleased env now event lock s =
     on_rooms (Announce (ev_newID env) now (lk_NoteID lock) [] event (holder_json (PublicHolderOf lock))) s"

section \<open>The verbs\<close>

record lock_request =
  lq_BlockID :: string
  lq_LockID :: string

definition dec_lock_request :: "lock_request decoder" where
  "dec_lock_request = dec_struct (\<lambda>k n v p.
     if EqualFold k ''blockId'' then (let (x, e) = dec_string v (lq_BlockID p) in (p\<lparr>lq_BlockID := x\<rparr>, e))
     else if EqualFold k ''lockId'' then (let (x, e) = dec_string v (lq_LockID p) in (p\<lparr>lq_LockID := x\<rparr>, e))
     else (p, False))"

definition handleLockRequest ::
  "server_env \<Rightarrow> time \<Rightarrow> connection \<Rightarrow> lock_request \<Rightarrow> lock_store \<Rightarrow> server \<Rightarrow> server" where
  "handleLockRequest env now conn parsed locks s =
     (let (out, locks) = Request memory_lock_ops (ev_locks env) conn (lq_BlockID parsed) (lq_LockID parsed) now locks;
          s = s\<lparr>sr_locks := Some locks\<rparr> in
      if \<not> Granted out
      then deny env now conn (lq_BlockID parsed) (lq_LockID parsed) (ao_Denial out) (ao_Holder out) s
      else case ao_Lock out of None \<Rightarrow> s
        | Some lock \<Rightarrow> (let granted = holder_json (PublicHolderOf lock); s = store_active_locks s;
            s = on_rooms (Notify (ev_newID env) now conn ''block.lock.granted'' granted) s
          in on_rooms (Announce (ev_newID env) now (cn_NoteID conn) (cn_ID conn) ''block.lock.granted'' granted) s))"

definition handleLockRenew ::
  "server_env \<Rightarrow> time \<Rightarrow> connection \<Rightarrow> lock_request \<Rightarrow> lock_store \<Rightarrow> server \<Rightarrow> server" where
  "handleLockRenew env now conn parsed locks s =
     (let (res, locks) = Renew memory_lock_ops (ev_locks env) conn (lq_BlockID parsed) (lq_LockID parsed) now locks;
          s = s\<lparr>sr_locks := Some locks\<rparr> in
      case res of
        Inl err \<Rightarrow> deny env now conn (lq_BlockID parsed) (lq_LockID parsed)
          (if err = ErrLockNotFound then ''expired'' else ''not-held'') None s
      | Inr renewed \<Rightarrow> on_rooms (Notify (ev_newID env) now conn ''block.lock.granted''
          (holder_json (PublicHolderOf renewed))) s)"

definition handleLockRelease ::
  "server_env \<Rightarrow> time \<Rightarrow> connection \<Rightarrow> lock_request \<Rightarrow> lock_store \<Rightarrow> server \<Rightarrow> server" where
  "handleLockRelease env now conn parsed locks s =
     (let (res, locks) = Release memory_lock_ops conn (lq_BlockID parsed) (lq_LockID parsed) locks;
          s = s\<lparr>sr_locks := Some locks\<rparr> in
      case res of Inl _ \<Rightarrow> s | Inr released \<Rightarrow> announceReleased env now ''block.lock.released'' released s)"

definition lock_verbs :: "string list" where
  "lock_verbs = [''block.lock.request'', ''block.lock.renew'', ''block.lock.release'']"

text \<open>True when the frame was consumed.\<close>

definition newBlockLockHandler ::
  "server_env \<Rightarrow> time \<Rightarrow> connection \<Rightarrow> string \<Rightarrow> raw \<Rightarrow> server \<Rightarrow> bool \<times> server" where
  "newBlockLockHandler env now conn event payload s =
     (if event \<notin> set lock_verbs then (False, s)
      else case sr_locks s of None \<Rightarrow> (True, s)
      | Some locks \<Rightarrow>
          (let (parsed, err) = unmarshal dec_lock_request \<lparr>lq_BlockID = [], lq_LockID = []\<rparr> payload in
           if err \<or> lq_BlockID parsed = [] \<or> lq_LockID parsed = []
           then (True, deny env now conn (lq_BlockID parsed) (lq_LockID parsed) ''malformed'' None s)
           else (True,
             if event = ''block.lock.request'' then handleLockRequest env now conn parsed locks s
             else if event = ''block.lock.renew'' then handleLockRenew env now conn parsed locks s
             else handleLockRelease env now conn parsed locks s)))"

definition releaseLocksOnDisconnect :: "server_env \<Rightarrow> time \<Rightarrow> string \<Rightarrow> server \<Rightarrow> server" where
  "releaseLocksOnDisconnect env now connectionID s = (case sr_locks s of
     None \<Rightarrow> s
   | Some locks \<Rightarrow>
       (let (released, locks) = ReleaseConnection memory_lock_ops connectionID locks;
            s = s\<lparr>sr_locks := Some locks\<rparr>
        in store_active_locks (fold (announceReleased env now ''block.lock.released'') released s)))"

section \<open>The guard on geometry\<close>

definition transformSubject :: "raw \<Rightarrow> string" where
  "transformSubject payload =
     (let (blockID, err) = unmarshal (dec_struct (\<lambda>k n v old.
            if EqualFold k ''blockId'' then dec_string v old else (old, False))) [] payload
      in if err then [] else blockID)"

text \<open>True when the frame may proceed.\<close>

definition newTransformGuard ::
  "server_env \<Rightarrow> time \<Rightarrow> connection \<Rightarrow> string \<Rightarrow> raw \<Rightarrow> server \<Rightarrow> bool \<times> server" where
  "newTransformGuard env now conn event payload s = (case sr_locks s of
     None \<Rightarrow> (True, s)
   | Some locks \<Rightarrow>
       if event \<noteq> ''block.transform.preview'' \<and> event \<noteq> ''block.transform.commit'' then (True, s)
       else let blockID = transformSubject payload in
         case BlockedBy memory_lock_ops conn blockID now locks of
           None \<Rightarrow> (True, s)
         | Some holder \<Rightarrow> (False,
             if event = ''block.transform.commit''
             then deny env now conn blockID [] DenialHeldByOther (Some holder) s else s))"

end
