(* ===== verification/Client_Frames.thy ===== *)
theory Client_Frames
  imports Lock_Handler
begin

text \<open>
  Inbound frames (\<open>internal/transport/client_frames.go\<close> and the refresh handler of
  \<open>webtransport_handler.go\<close>): one handler for both transports that parses, meters, authorises,
  dispatches, stamps and relays. The reader of JSON text is a parameter; a frame is a list of bytes.
\<close>

section \<open>The envelope a client sends\<close>

definition dec_seq :: "64 word option decoder" where
  "dec_seq v old = (let (x, e) = dec_ptr 0 dec_uint64 v (map_option uint old) in (map_option word_of_int x, e))"

definition dec_envelope :: "envelope decoder" where
  "dec_envelope = dec_struct (\<lambda>k n v p.
     if EqualFold k ''v'' then (let (x, e) = dec_int64 v (en_V p) in (p\<lparr>en_V := x\<rparr>, e))
     else if EqualFold k ''messageId'' then (let (x, e) = dec_string v (en_MessageID p) in (p\<lparr>en_MessageID := x\<rparr>, e))
     else if EqualFold k ''sessionId'' then (let (x, e) = dec_string v (en_SessionID p) in (p\<lparr>en_SessionID := x\<rparr>, e))
     else if EqualFold k ''channel'' then (let (x, e) = dec_string v (en_Channel p) in (p\<lparr>en_Channel := x\<rparr>, e))
     else if EqualFold k ''event'' then (let (x, e) = dec_string v (en_Event p) in (p\<lparr>en_Event := x\<rparr>, e))
     else if EqualFold k ''actorId'' then (let (x, e) = dec_ptr [] dec_string v (en_ActorID p) in (p\<lparr>en_ActorID := x\<rparr>, e))
     else if EqualFold k ''origin'' then (let (x, e) = dec_ptr [] dec_string v (en_Origin p) in (p\<lparr>en_Origin := x\<rparr>, e))
     else if EqualFold k ''seq'' then (let (x, e) = dec_seq v (en_Seq p) in (p\<lparr>en_Seq := x\<rparr>, e))
     else if EqualFold k ''sentAt'' then (let (x, e) = dec_int64 v (en_SentAt p) in (p\<lparr>en_SentAt := x\<rparr>, e))
     else if EqualFold k ''payload'' then (p\<lparr>en_Payload := dec_raw n v\<rparr>, False)
     else (p, False))"

text \<open>The first stage: a frame that parses, and whether it was a binary one.\<close>

definition parse_frame :: "server_env \<Rightarrow> bytes \<Rightarrow> (envelope \<times> bool) option" where
  "parse_frame env data =
     (if IsBinaryFrame data then map_option (\<lambda>e. (e, True)) (DecodeClientFrame data)
      else let (e, err) = unmarshal dec_envelope envelope_zero (ev_parse env data) in
        if err \<or> en_Event e = [] then None else Some (e, False))"

section \<open>Replies and the refresh of a session\<close>

definition reply :: "server_env \<Rightarrow> time \<Rightarrow> connection \<Rightarrow> string \<Rightarrow> json \<Rightarrow> server \<Rightarrow> server" where
  "reply env now conn event payload s = on_rooms (\<lambda>r.
     snd (peer_SendReliable (envelope_zero\<lparr>en_V := EnvelopeVersion, en_MessageID := ev_newID env (rs_ids r),
       en_SessionID := cn_SessionID conn, en_Channel := ''note:'' @ cn_NoteID conn, en_Event := event,
       en_SentAt := unix_milli now, en_Payload := marshal payload\<rparr>) conn (r\<lparr>rs_ids := Suc (rs_ids r)\<rparr>))) s"

definition auth_token :: "raw \<Rightarrow> string" where
  "auth_token payload =
     (let (token, err) = unmarshal (dec_struct (\<lambda>k n v old.
            if EqualFold k ''token'' then dec_string v old else (old, False))) [] payload
      in if err then [] else token)"

definition newAuthRefreshHandler :: "server_env \<Rightarrow> time \<Rightarrow> connection \<Rightarrow> raw \<Rightarrow> server \<Rightarrow> server" where
  "newAuthRefreshHandler env now conn payload s =
     (let rejected = count_metric (\<lambda>m. m\<lparr>mt_AuthRefreshRejected := mt_AuthRefreshRejected m + 1\<rparr>) in
      if auth_token payload = []
      then reply env now conn ''auth.rejected'' (JObj [jmem ''reason'' (JStr ''missing-token'')]) (rejected s)
      else case RefreshSession (ev_deps env) (cn_SessionID conn) (auth_token payload) now (sr_sessions s) of
        (Inl _, ss) \<Rightarrow>
          reply env now conn ''auth.rejected'' (JObj [jmem ''reason'' (JStr ''rejected'')]) (rejected (s\<lparr>sr_sessions := ss\<rparr>))
      | (Inr session, ss) \<Rightarrow> (let
          s = s\<lparr>sr_sessions := ss\<rparr>;
          s = (if ss_Permission session \<noteq> cs_permission (conn_of (sr_rooms s) conn)
               then on_rooms (\<lambda>r. snd (ApplyPermission (ss_ID session) (ss_Permission session) r)) s else s);
          s = count_metric (\<lambda>m. m\<lparr>mt_AuthRefreshAccepted := mt_AuthRefreshAccepted m + 1\<rparr>) s
        in reply env now conn ''auth.refreshed'' (JObj [jmem ''expiresAt'' (jint (unix_milli (ss_ExpiresAt session))),
             jmem ''permission'' (JStr (ss_Permission session)), jmem ''sessionId'' (JStr (ss_ID session))]) s))"

section \<open>Capabilities and viewport reports\<close>

definition aggregate_capability :: "raw \<Rightarrow> bool" where
  "aggregate_capability payload =
     (let (n, err) = unmarshal (dec_struct (\<lambda>k n v old.
            if EqualFold k ''binaryAggregateVersion'' then dec_int64 v old else (old, False))) 0 payload
      in \<not> err \<and> n \<ge> 1)"

text \<open>True when the update panicked.\<close>

definition newInterestUpdateHandler :: "connection \<Rightarrow> raw \<Rightarrow> server \<Rightarrow> bool \<times> server" where
  "newInterestUpdateHandler conn payload s =
     (let (panicked, index) = interest_Update conn payload (rs_interest (sr_rooms s));
          s = on_rooms (\<lambda>r. r\<lparr>rs_interest := index\<rparr>) s
      in (panicked, if panicked then s
            else count_metric (\<lambda>m. m\<lparr>mt_InterestUpdatesTotal := mt_InterestUpdatesTotal m + 1\<rparr>) s))"

section \<open>The handler\<close>

text \<open>What became of a frame: dropped, consumed by the server, relayed as the given envelope, or a
  panic in the handler.\<close>

datatype frame_result = Dropped_frame | Consumed | Relayed envelope | Panicked

abbreviation (input) "sessionTouchInterval \<equiv> Second"

definition touch_session :: "server_env \<Rightarrow> time \<Rightarrow> connection \<Rightarrow> server \<Rightarrow> server" where
  "touch_session env now conn s =
     (let (due, q) = shouldTouch now sessionTouchInterval (cs_queues (conn_of (sr_rooms s) conn));
          s = on_rooms (upd_conn (\<lambda>c. c\<lparr>cs_queues := q\<rparr>) conn) s
      in if due then s\<lparr>sr_sessions := snd (service_Touch (ev_deps env) (cn_SessionID conn) now (sr_sessions s))\<rparr> else s)"

definition stamp_frame :: "server_env \<Rightarrow> time \<Rightarrow> connection \<Rightarrow> envelope \<Rightarrow> room_service \<Rightarrow> envelope \<times> room_service" where
  "stamp_frame env now conn e r =
     (let e = (Stamp e (cn_SessionID conn) (cn_ID conn) (cn_UserID conn) (unix_milli now))
            \<lparr>en_Channel := ''note:'' @ cn_NoteID conn\<rparr> in
      if en_MessageID e = [] then (e\<lparr>en_MessageID := ev_newID env (rs_ids r)\<rparr>, r\<lparr>rs_ids := Suc (rs_ids r)\<rparr>)
      else (e, r))"

text \<open>Everything after the permission check.\<close>

definition dispatch_frame ::
  "server_env \<Rightarrow> time \<Rightarrow> connection \<Rightarrow> envelope \<Rightarrow> server \<Rightarrow> frame_result \<times> server" where
  "dispatch_frame env now conn e s =
     (if en_Event e = ''heartbeat''
      then (Consumed, reply env now conn ''heartbeat.ack'' (JObj [jmem ''serverTime'' (jint (unix_milli now))]) s)
      else if en_Event e = ''auth.refresh''
      then (Consumed, newAuthRefreshHandler env now conn (en_Payload e) s)
      else if en_Event e = ''protocol.capabilities''
      then (Consumed, if aggregate_capability (en_Payload e) then on_rooms (upd_conn EnableBinaryAggregates conn) s else s)
      else if en_Event e = ''interest.update''
      then (let (panicked, s) = newInterestUpdateHandler conn (en_Payload e) s in
            (if panicked then Panicked else Consumed, s))
      else case newBlockLockHandler env now conn (en_Event e) (en_Payload e) s of
        (True, s) \<Rightarrow> (Consumed, s)
      | (False, s) \<Rightarrow> (case newTransformGuard env now conn (en_Event e) (en_Payload e) s of
          (False, s) \<Rightarrow> (Dropped_frame, s)
        | (True, s) \<Rightarrow>
            (case (if en_Event e = ''history.preview''
                   then map_option (\<lambda>payload. e\<lparr>en_Payload := payload\<rparr>)
                     (Resolve conn (cs_permission (conn_of (sr_rooms s) conn)) (en_Payload e) now (rs_previews (sr_rooms s)))
                   else Some e) of
               None \<Rightarrow> (Dropped_frame, s)
             | Some e \<Rightarrow> (let (e, r) = stamp_frame env now conn e (sr_rooms s)
                 in (Relayed e, s\<lparr>sr_rooms := Relay conn e r\<rparr>)))))"

definition handleClientFrame ::
  "server_env \<Rightarrow> time \<Rightarrow> connection \<Rightarrow> bytes \<Rightarrow> server \<Rightarrow> frame_result \<times> server" where
  "handleClientFrame env now conn data s =
     (if sr_draining s then (Dropped_frame, s)
      else let s = count_metric (\<lambda>m. m\<lparr>mt_MessagesIn := mt_MessagesIn m + 1,
             mt_IncomingBytes := mt_IncomingBytes m + int (length data)\<rparr>) s in
        case parse_frame env data of
          None \<Rightarrow> (Dropped_frame, s)
        | Some (e, binary) \<Rightarrow> (let
            s = (if binary then on_rooms (upd_conn EnableBinaryFrames conn) s else s);
            s = touch_session env now conn s;
            (ok, limits) = limits_Allow (ClassifyEvent (en_Event e)) now (sr_limits s (cn_Ref conn));
            s = s\<lparr>sr_limits := (sr_limits s)(cn_Ref conn := limits)\<rparr>
          in if \<not> ok then (Dropped_frame, s)
             else if \<not> MayPublish (cs_permission (conn_of (sr_rooms s) conn)) (en_Event e) then (Dropped_frame, s)
             else dispatch_frame env now conn e s))"

end
