(* ===== verification/Server_Safe.thy ===== *)
theory Server_Safe
  imports Rooms_Safe Client_Frames
begin

text \<open>
  The invariant of the server, kept by every inbound frame: the room service's invariant, the session
  and ticket stores well formed and holding only permissions of the vocabulary, the lock store well formed.
\<close>

text \<open>The stores are well formed, and every session and ticket in them has a permission of the vocabulary.\<close>

definition service_safe :: "(session_store, ticket_store) session_state \<Rightarrow> bool" where
  "service_safe ss \<longleftrightarrow> service_ok ss \<and>
     (\<forall>k x. session_view (sv_sessions ss) k = Some x \<longrightarrow> Valid (ss_Permission x)) \<and>
     (\<forall>k t. ticket_view (sv_tickets ss) k = Some t \<longrightarrow> Valid (tk_Permission t))"

definition server_ok :: "nat \<Rightarrow> server \<Rightarrow> bool" where
  "server_ok n s \<longleftrightarrow> rooms_ok n (sr_rooms s) \<and> service_safe (sr_sessions s) \<and>
     (case sr_locks s of None \<Rightarrow> True | Some l \<Rightarrow> lock_wf l)"

text \<open>The session service the program wires works on the in-memory stores.\<close>

definition memory_env :: "server_env \<Rightarrow> bool" where
  "memory_env env \<longleftrightarrow> (\<exists>parse ttl. ev_deps env = memory_deps parse ttl)"

section \<open>Frames of the record\<close>

lemma server_ok_on_rooms:
  "server_ok n s \<Longrightarrow> (rooms_ok n (sr_rooms s) \<Longrightarrow> rooms_ok n (f (sr_rooms s))) \<Longrightarrow> server_ok n (on_rooms f s)"
  by (simp add: server_ok_def on_rooms_def)

lemma server_ok_count [simp]: "server_ok n (count_metric f s) = server_ok n s"
  by (simp add: server_ok_def count_metric_def on_rooms_def)

lemma server_ok_active [simp]: "server_ok n (store_active_locks s) = server_ok n s"
  by (simp add: store_active_locks_def split: option.split)

lemma server_ok_limits [simp]: "server_ok n (s\<lparr>sr_limits := l\<rparr>) = server_ok n s"
  by (simp add: server_ok_def)

lemma server_ok_draining [simp]: "server_ok n (s\<lparr>sr_draining := b\<rparr>) = server_ok n s"
  by (simp add: server_ok_def)

lemma server_ok_sessions: "server_ok n s \<Longrightarrow> service_safe ss \<Longrightarrow> server_ok n (s\<lparr>sr_sessions := ss\<rparr>)"
  by (simp add: server_ok_def)

lemma server_ok_locks: "server_ok n s \<Longrightarrow> lock_wf l \<Longrightarrow> server_ok n (s\<lparr>sr_locks := Some l\<rparr>)"
  by (simp add: server_ok_def)

lemma server_ok_rooms: "server_ok n s \<Longrightarrow> rooms_ok n r \<Longrightarrow> server_ok n (s\<lparr>sr_rooms := r\<rparr>)"
  by (simp add: server_ok_def)

lemma server_okD:
  "server_ok n s \<Longrightarrow> rooms_ok n (sr_rooms s)" "server_ok n s \<Longrightarrow> service_safe (sr_sessions s)"
  "server_ok n s \<Longrightarrow> sr_locks s = Some l \<Longrightarrow> lock_wf l"
  by (simp_all add: server_ok_def)

lemma server_ok_fold:
  "(\<And>x s. server_ok n s \<Longrightarrow> server_ok n (f x s)) \<Longrightarrow> server_ok n s \<Longrightarrow> server_ok n (fold f xs s)"
  by (induction xs arbitrary: s) auto

section \<open>The session service\<close>

lemma Validate_permission: "Validate parse token = Inr claims \<Longrightarrow> Valid (cc_Permission claims) \<and> cc_SessionID claims \<noteq> []"
  using Validate_Inr toCanvasClaims_complete by blast

lemma refresh_permission:
  "refresh_session_from claims x now = Inr y \<Longrightarrow> Valid (cc_Permission claims) \<Longrightarrow> Valid (ss_Permission x) \<Longrightarrow> Valid (ss_Permission y)"
  by (auto simp: refresh_session_from_def session_Touch_def Let_def split: if_splits)

lemma service_safeI:
  "service_ok ss \<Longrightarrow> (\<And>k x. session_view (sv_sessions ss) k = Some x \<Longrightarrow> Valid (ss_Permission x)) \<Longrightarrow>
     (\<And>k t. ticket_view (sv_tickets ss) k = Some t \<Longrightarrow> Valid (tk_Permission t)) \<Longrightarrow> service_safe ss"
  by (simp add: service_safe_def)

text \<open>The stores' laws, as steps that keep the predicate.\<close>

lemma safe_save:
  assumes "service_safe ss" "Valid (ss_Permission x)"
  shows "service_safe (ss\<lparr>sv_sessions := snd (so_Save memory_session_ops (Some x) (sv_sessions ss))\<rparr>)"
proof (cases "ss_ID x = []")
  case True
  with assms show ?thesis by (simp add: memory_sessions.save_bad)
next
  case False
  with assms show ?thesis
    by (auto simp: service_safe_def memory_sessions.wf_save memory_sessions.view_save simp del: map_of_eq_Some_iff split: if_splits)
qed

lemma safe_issue:
  assumes "service_safe ss" "Valid (tk_Permission t)"
  shows "service_safe (ss\<lparr>sv_tickets := snd (to_Issue memory_ticket_ops (Some t) (sv_tickets ss))\<rparr>)"
  using assms mem.tp_wf_issue [of "sv_tickets ss"]
  by (auto simp: service_safe_def memory_tickets.view_issue simp del: map_of_eq_Some_iff split: if_splits)

lemma safe_Bootstrap:
  assumes "service_safe ss"
  shows "service_safe (snd (Bootstrap (memory_deps parse ttl) e token now ss))"
proof (cases "Validate (parse now) token")
  case (Inr claims)
  let ?x = "\<lparr>ss_ID = cc_SessionID claims, ss_UserID = cc_UserID claims, ss_NoteID = cc_NoteID claims,
    ss_Permission = cc_Permission claims, ss_TokenJTI = cc_TokenID claims, ss_ExpiresAt = cc_ExpiresAt claims,
    ss_LastSeenAt = now, ss_CreatedAt = now\<rparr>"
  have v: "Valid (cc_Permission claims)" using Validate_permission [OF Inr] by simp
  then have s1: "service_safe (ss\<lparr>sv_sessions := snd (so_Save memory_session_ops (Some ?x) (sv_sessions ss))\<rparr>)"
    by (intro safe_save assms) simp
  have "service_safe (snd (issueTicket (memory_deps parse ttl) e ?x now t))" if "service_safe t" for t
    using that v by (auto simp: issueTicket_def Let_def case_prod_unfold intro!: safe_issue split: sum.split)
  from this [OF s1] s1 show ?thesis
    by (auto simp: Bootstrap_def Inr Let_def case_prod_unfold split: sum.split prod.split)
qed (use assms in \<open>simp add: Bootstrap_def\<close>)

lemma safe_Refresh:
  assumes "service_safe ss"
  shows "service_safe (snd (RefreshSession (memory_deps parse ttl) sid token now ss))"
    and "RefreshSession (memory_deps parse ttl) sid token now ss = (Inr y, ss') \<Longrightarrow> Valid (ss_Permission y)"
proof -
  have y: "Valid (ss_Permission y)"
    if "Validate (parse now) token = Inr claims" "session_view (sv_sessions ss) sid = Some x" "refresh_session_from claims x now = Inr y"
    for claims x y
    using that assms Validate_permission by (intro refresh_permission [OF that(3)]) (auto simp: service_safe_def simp del: map_of_eq_Some_iff)
  show "service_safe (snd (RefreshSession (memory_deps parse ttl) sid token now ss))"
    using assms y by (auto simp: RefreshSession_def Let_def case_prod_unfold memory_sessions.get_view
        simp del: map_of_eq_Some_iff intro!: safe_save split: sum.split option.split)
  show "RefreshSession (memory_deps parse ttl) sid token now ss = (Inr y, ss') \<Longrightarrow> Valid (ss_Permission y)"
    using y by (auto simp: RefreshSession_def Let_def case_prod_unfold memory_sessions.get_view
        simp del: map_of_eq_Some_iff split: sum.splits option.splits)
qed

lemma safe_Consume:
  assumes "service_safe ss"
  shows "service_safe (snd (ConsumeTicket (memory_deps parse ttl) v now ss))"
    and "ConsumeTicket (memory_deps parse ttl) v now ss = (Inr t, ss') \<Longrightarrow> Valid (tk_Permission t)"
proof -
  show "service_safe (snd (ConsumeTicket (memory_deps parse ttl) v now ss))"
    using assms mem.tp_wf_consume [of "sv_tickets ss"]
    by (auto simp: service_safe_def ConsumeTicket_def Let_def case_prod_unfold memory_tickets.view_consume
        simp del: map_of_eq_Some_iff split: if_splits)
  show "ConsumeTicket (memory_deps parse ttl) v now ss = (Inr t, ss') \<Longrightarrow> Valid (tk_Permission t)"
    using assms by (auto simp: service_safe_def ConsumeTicket_def Let_def case_prod_unfold memory_tickets.consume_result
        simp del: map_of_eq_Some_iff split: option.splits if_splits)
qed

lemma safe_control:
  assumes "service_safe ss"
  shows "service_safe (snd (RevokeSession (memory_deps parse ttl) sid ss))"
    "service_safe (snd (RevokeUserFromNote (memory_deps parse ttl) n u ss))"
    "service_safe (snd (UpdateSessionPermission (memory_deps parse ttl) sid p ss))"
    "service_safe (snd (service_Touch (memory_deps parse ttl) sid now ss))"
    "service_safe (snd (SweepTickets (memory_deps parse ttl) now ss))"
    "service_safe (snd (SweepSessions (memory_deps parse ttl) idle now ss))"
  using assms mem.tp_wf_sweep [of "sv_tickets ss"] mem.tp_wf_revoke [of "sv_tickets ss"]
  by (auto simp: service_safe_def service_defs memory_sessions.wf_update memory_sessions.wf_touch memory_sessions.wf_sweep
      memory_sessions.wf_delete memory_sessions.wf_delete_user memory_sessions.view_delete memory_sessions.view_delete_user
      memory_sessions.view_update memory_sessions.view_touch memory_sessions.view_sweep memory_tickets.view_sweep
      memory_tickets.view_revoke session_Touch_def simp del: map_of_eq_Some_iff split: option.splits if_splits)

lemma service_safe_calls:
  assumes "memory_env env" "service_safe ss"
  shows "service_safe (snd (Bootstrap (ev_deps env) e token now ss))"
    "service_safe (snd (RefreshSession (ev_deps env) sid token now ss))"
    "service_safe (snd (ConsumeTicket (ev_deps env) v now ss))"
    "service_safe (snd (RevokeSession (ev_deps env) sid ss))"
    "service_safe (snd (RevokeUserFromNote (ev_deps env) n u ss))"
    "service_safe (snd (UpdateSessionPermission (ev_deps env) sid p ss))"
    "service_safe (snd (service_Touch (ev_deps env) sid now ss))"
    "service_safe (snd (SweepTickets (ev_deps env) now ss))"
    "service_safe (snd (SweepSessions (ev_deps env) idle now ss))"
  using assms by (auto simp: memory_env_def safe_Bootstrap safe_Refresh(1) safe_Consume(1) safe_control)

lemma service_safe_result:
  assumes "memory_env env" "service_safe ss"
  shows "Bootstrap (ev_deps env) e token now ss = (x, ss') \<Longrightarrow> service_safe ss'"
    "RefreshSession (ev_deps env) sid token now ss = (y, ss') \<Longrightarrow> service_safe ss'"
    "ConsumeTicket (ev_deps env) v now ss = (z, ss') \<Longrightarrow> service_safe ss'"
    "RevokeSession (ev_deps env) sid ss = (w, ss') \<Longrightarrow> service_safe ss'"
    "RevokeUserFromNote (ev_deps env) n u ss = (k, ss') \<Longrightarrow> service_safe ss'"
    "UpdateSessionPermission (ev_deps env) sid p ss = (i, ss') \<Longrightarrow> service_safe ss'"
    "RefreshSession (ev_deps env) sid token now ss = (Inr session, ss') \<Longrightarrow> Valid (ss_Permission session)"
    "ConsumeTicket (ev_deps env) v now ss = (Inr t, ss') \<Longrightarrow> Valid (tk_Permission t)"
  using service_safe_calls [OF assms] assms safe_Refresh(2) safe_Consume(2) by (metis snd_conv memory_env_def)+

section \<open>The lock protocol\<close>

lemma server_ok_deny: "server_ok n s \<Longrightarrow> server_ok n (deny env now conn b i reason h s)"
  by (simp add: deny_def Let_def server_ok_on_rooms rooms_ok_Notify)

lemma server_ok_announce: "server_ok n s \<Longrightarrow> server_ok n (announceReleased env now event lock s)"
  by (simp add: announceReleased_def server_ok_on_rooms rooms_ok_Announce)

lemma lock_wf_service:
  assumes "lock_wf l"
  shows "lock_wf (snd (Request memory_lock_ops st c b i now l))" "lock_wf (snd (Renew memory_lock_ops st c b i now l))"
    "lock_wf (snd (Release memory_lock_ops c b i l))" "lock_wf (snd (ReleaseConnection memory_lock_ops cid l))"
    "lock_wf (snd (locks_SweepExpired memory_lock_ops now l))"
  using mem_locks.wf_lock_call [OF assms, of st "CallRequest c b i now"] mem_locks.wf_lock_call [OF assms, of st "CallRenew c b i now"]
    mem_locks.wf_lock_call [OF assms, of _ "CallRelease c b i"] mem_locks.wf_lock_call [OF assms, of _ "CallReleaseConnection cid"]
    mem_locks.wf_lock_call [OF assms, of _ "CallLockSweep now"]
  by simp_all

lemma server_ok_lock_verbs:
  assumes ok: "server_ok n s" and l: "lock_wf locks"
  shows "server_ok n (handleLockRequest env now conn p locks s)" "server_ok n (handleLockRenew env now conn p locks s)"
    "server_ok n (handleLockRelease env now conn p locks s)"
  using server_ok_locks [OF ok lock_wf_service(1) [OF l]] server_ok_locks [OF ok lock_wf_service(2) [OF l]]
    server_ok_locks [OF ok lock_wf_service(3) [OF l]]
  by (auto simp: handleLockRequest_def handleLockRenew_def handleLockRelease_def Let_def case_prod_unfold
      server_ok_deny server_ok_announce split: option.split sum.split
      intro!: server_ok_on_rooms rooms_ok_Announce rooms_ok_Notify)

lemma server_ok_lock_handler:
  "server_ok n s \<Longrightarrow> server_ok n (snd (newBlockLockHandler env now conn event payload s))"
  by (auto simp: newBlockLockHandler_def Let_def case_prod_unfold server_ok_deny server_ok_lock_verbs server_okD(3)
      split: option.split)

lemma server_ok_guard: "server_ok n s \<Longrightarrow> server_ok n (snd (newTransformGuard env now conn event payload s))"
  by (simp add: newTransformGuard_def Let_def server_ok_deny split: option.split)

lemma server_ok_release:
  assumes "server_ok n s"
  shows "server_ok n (releaseLocksOnDisconnect env now cid s)"
proof (cases "sr_locks s")
  case (Some l)
  then have "server_ok n (s\<lparr>sr_locks := Some (snd (ReleaseConnection memory_lock_ops cid l))\<rparr>)"
    using assms server_okD(3) by (intro server_ok_locks lock_wf_service) auto
  with Some show ?thesis
    by (auto simp: releaseLocksOnDisconnect_def Let_def case_prod_unfold intro!: server_ok_fold server_ok_announce)
qed (simp add: releaseLocksOnDisconnect_def assms)

section \<open>Inbound frames\<close>

lemma server_ok_reply: "server_ok n s \<Longrightarrow> server_ok n (reply env now conn event payload s)"
  by (auto simp: reply_def intro!: server_ok_on_rooms rooms_ok_SendReliable)

lemma server_ok_refresh:
  assumes env: "memory_env env" and ok: "server_ok n s"
  shows "server_ok n (newAuthRefreshHandler env now conn payload s)"
proof -
  have "server_ok n (s\<lparr>sr_sessions := ss\<rparr>)"
    if "RefreshSession (ev_deps env) sid token now (sr_sessions s) = (res, ss)" for sid token res ss
    using service_safe_result(2) [OF env server_okD(2) [OF ok] that] ok by (simp add: server_ok_sessions)
  with ok show ?thesis
    by (auto simp: newAuthRefreshHandler_def Let_def split: prod.split sum.split
        intro!: server_ok_reply server_ok_on_rooms rooms_ok_ApplyPermission
        dest: service_safe_result(7) [OF env server_okD(2) [OF ok]])
qed

lemma interest_keeps:
  assumes "case i of None \<Rightarrow> True | Some x \<Rightarrow> index_wf x"
  shows "case snd (interest_Update conn payload i) of None \<Rightarrow> True | Some x \<Rightarrow> index_wf x"
    and "case snd (interest_Remove cid i) of None \<Rightarrow> True | Some x \<Rightarrow> index_wf x"
  using assms by (auto simp: interest_Update_def interest_Remove_def Let_def case_prod_unfold index_wf_Update(1) index_wf_Remove(1)
      split: option.splits)

lemma rooms_ok_index: "rooms_ok n r \<Longrightarrow> case rs_interest r of None \<Rightarrow> True | Some x \<Rightarrow> index_wf x"
  by (simp add: rooms_ok_def)

lemma server_ok_interest: "server_ok n s \<Longrightarrow> server_ok n (snd (newInterestUpdateHandler conn payload s))"
  by (simp add: newInterestUpdateHandler_def Let_def case_prod_unfold)
    (intro impI conjI server_ok_on_rooms rooms_ok_interest interest_keeps rooms_ok_index server_okD(1))

lemma server_ok_touch:
  assumes "memory_env env" "server_ok n s"
  shows "server_ok n (touch_session env now conn s)"
proof -
  have "server_ok n (on_rooms (upd_conn (\<lambda>c. c\<lparr>cs_queues := snd (shouldTouch now Second
      (cs_queues (conn_of (sr_rooms s) conn)))\<rparr>) conn) s)"
    using assms(2) by (intro server_ok_on_rooms rooms_ok_upd) (auto simp: conn_of_def conn_ok_activity dest: rooms_ok_conn)
  moreover from this have "service_safe (snd (service_Touch (ev_deps env) sid now (sr_sessions
      (on_rooms (upd_conn (\<lambda>c. c\<lparr>cs_queues := snd (shouldTouch now Second (cs_queues (conn_of (sr_rooms s) conn)))\<rparr>) conn) s))))" for sid
    by (intro service_safe_calls(7) assms server_okD(2))
  ultimately show ?thesis by (simp add: touch_session_def Let_def case_prod_unfold server_ok_sessions)
qed

lemma server_ok_dispatch:
  assumes env: "memory_env env" and ok: "server_ok n s"
  shows "server_ok n (snd (dispatch_frame env now conn e s))"
proof -
  have lock: "server_ok n s'" if "newBlockLockHandler env now conn event payload s = (b, s')" for event payload b s'
    using server_ok_lock_handler [OF ok, of env now conn event payload] that by simp
  have guard: "server_ok n s''" if "server_ok n s'" "newTransformGuard env now conn event payload s' = (b, s'')" for event payload b s' s''
    using server_ok_guard [OF that(1), of env now conn event payload] that by simp
  have stamp: "server_ok n (s'\<lparr>sr_rooms := Relay conn e'' r\<rparr>)"
    if "server_ok n s'" "stamp_frame env now conn e' (sr_rooms s') = (e'', r)" for s' e' e'' r
    using that server_okD(1) [OF that(1)]
    by (auto simp: stamp_frame_def Let_def split: if_splits intro!: server_ok_rooms rooms_ok_Relay)
  have report: "server_ok n s'" if "newInterestUpdateHandler conn payload s = (b, s')" for payload b s'
    using server_ok_interest [OF ok, of conn payload] that by simp
  have caps: "server_ok n (on_rooms (upd_conn EnableBinaryAggregates conn) s)"
    using ok by (intro server_ok_on_rooms rooms_ok_upd) (auto simp: conn_ok_flags dest: rooms_ok_conn)
  show ?thesis
    using ok caps
    by (auto simp: dispatch_frame_def Let_def server_ok_reply server_ok_refresh [OF env]
        split: prod.split bool.split option.split dest: report)
      (blast intro: stamp guard lock)+
qed

lemma server_ok_frame:
  assumes env: "memory_env env" and ok: "server_ok n s"
  shows "server_ok n (snd (handleClientFrame env now conn data s))"
proof -
  have bin: "server_ok n (if b then on_rooms (upd_conn EnableBinaryFrames conn) t else t)" if "server_ok n t" for b t
    using that by (auto intro!: server_ok_on_rooms rooms_ok_upd simp: conn_ok_flags dest: rooms_ok_conn)
  have touched: "server_ok n (touch_session env now conn (if b then on_rooms (upd_conn EnableBinaryFrames conn) (count_metric f s)
      else count_metric f s))" for b f
    using ok by (intro server_ok_touch [OF env] bin) simp
  show ?thesis
    using ok touched
    by (simp add: handleClientFrame_def Let_def case_prod_unfold server_ok_dispatch [OF env] split: option.split)
qed

end
