(* ===== verification/Config.thy ===== *)
theory Config
  imports Go_Float Strconv
begin

text \<open>
  Configuration (\<open>internal/config/config.go\<close>, \<open>dotenv.go\<close>): the environment, the \<open>.env\<close> file that
  fills it, and the settings read from it. The process environment is a map from names to values.
\<close>

section \<open>Reading the environment\<close>

type_synonym environment = "string \<Rightarrow> string option"

definition env_string :: "environment \<Rightarrow> string \<Rightarrow> string \<Rightarrow> string" where
  "env_string vars key fallback = (case vars key of
     Some v \<Rightarrow> if TrimSpace v \<noteq> [] then TrimSpace v else fallback | None \<Rightarrow> fallback)"

definition integer :: "environment \<Rightarrow> string \<Rightarrow> int \<Rightarrow> int" where
  "integer vars key fallback = (case vars key of
     None \<Rightarrow> fallback
   | Some raw \<Rightarrow> (case ParseInt (TrimSpace raw) of None \<Rightarrow> fallback | Some v \<Rightarrow> v))"

definition ParseBool :: "string \<Rightarrow> bool option" where
  "ParseBool s = (if s \<in> set [''1'', ''t'', ''T'', ''true'', ''TRUE'', ''True''] then Some True
     else if s \<in> set [''0'', ''f'', ''F'', ''false'', ''FALSE'', ''False''] then Some False else None)"

definition boolean :: "environment \<Rightarrow> string \<Rightarrow> bool \<Rightarrow> bool" where
  "boolean vars key fallback = (case vars key of
     None \<Rightarrow> fallback
   | Some raw \<Rightarrow> (case ParseBool (TrimSpace raw) of None \<Rightarrow> fallback | Some v \<Rightarrow> v))"

definition seconds :: "environment \<Rightarrow> string \<Rightarrow> int \<Rightarrow> duration" where
  "seconds vars key fallback = wrap64 (integer vars key fallback * Second)"

definition splitAndTrim :: "string \<Rightarrow> string list" where
  "splitAndTrim v = filter (\<lambda>t. t \<noteq> []) (map TrimSpace (Split CHR '','' v))"

section \<open>The .env file\<close>

definition unquote :: "string \<Rightarrow> string" where
  "unquote v =
     (if length v \<ge> 2 then
        let first = hd v; final = last v in
        if (first = CHR 0x22 \<or> first = CHR 0x27) \<and> first = final then butlast (tl v) else v
      else v)"

definition TrimPrefix :: "string \<Rightarrow> string \<Rightarrow> string" where
  "TrimPrefix s p = (if HasPrefix s p then drop (length p) s else s)"

text \<open>\<open>os.Setenv\<close> refuses an empty name, a name with \<open>=\<close> or NUL, and a value with NUL.\<close>

definition setenv_ok :: "string \<Rightarrow> string \<Rightarrow> bool" where
  "setenv_ok key v \<longleftrightarrow> key \<noteq> [] \<and> CHR ''='' \<notin> set key \<and> CHR 0x00 \<notin> set key \<and> CHR 0x00 \<notin> set v"

text \<open>The assignment a line of the file makes, if any.\<close>

definition line_assignment :: "string \<Rightarrow> (string \<times> string) option" where
  "line_assignment ls =
     (let line = TrimSpace ls in
      if line = [] \<or> HasPrefix line ''#'' then None
      else let (key, v, found) = Cut CHR ''='' (TrimPrefix line ''export '') in
        if \<not> found then None
        else if TrimSpace key = [] then None
        else Some (TrimSpace key, unquote (TrimSpace v)))"

abbreviation (input) "maxScanTokenSize \<equiv> (65536 :: nat)"

text \<open>The scanner loop; True is an error (a line too long for the scanner, or a refused variable).\<close>

fun load_lines :: "string list \<Rightarrow> environment \<Rightarrow> bool \<times> environment" where
  "load_lines [] vars = (False, vars)"
| "load_lines (ls # rest) vars =
     (if length ls \<ge> maxScanTokenSize then (True, vars)
      else case line_assignment ls of
        None \<Rightarrow> load_lines rest vars
      | Some (key, v) \<Rightarrow>
          if vars key \<noteq> None then load_lines rest vars
          else if \<not> setenv_ok key v then (True, vars)
          else load_lines rest (vars(key \<mapsto> v)))"

datatype dotenv_file = NoFile | OpenFails | FileLines "string list"

definition loadDotEnv :: "dotenv_file \<Rightarrow> environment \<Rightarrow> bool \<times> environment" where
  "loadDotEnv file vars = (case file of NoFile \<Rightarrow> (False, vars) | OpenFails \<Rightarrow> (True, vars)
     | FileLines ls \<Rightarrow> load_lines ls vars)"

section \<open>The settings\<close>

record config =
  cf_HTTPAddr :: string
  cf_AllowedOrigins :: "string list"
  cf_CanvasJWTIssuer :: string
  cf_CanvasJWTAudience :: string
  cf_CanvasJWTPublicKeyFile :: string
  cf_CanvasJWTLeeway :: duration
  cf_InternalHMACCurrentKeyID :: string
  cf_InternalHMACCurrentSecret :: string
  cf_InternalHMACPreviousKeyID :: string
  cf_InternalHMACPreviousSecret :: string
  cf_InternalHMACMaxClockSkew :: duration
  cf_ConnectionTicketTTL :: duration
  cf_ConnectionTicketSweep :: duration
  cf_SessionHeartbeat :: duration
  cf_SessionIdleTimeout :: duration
  cf_WebSocketURL :: string
  cf_WebTransportURL :: string
  cf_WebRTCMaxPeers :: int
  cf_StunURLs :: "string list"
  cf_TurnURLs :: "string list"
  cf_TurnUsername :: string
  cf_TurnCredential :: string
  cf_WebTransportAddr :: string
  cf_TLSCertFile :: string
  cf_TLSKeyFile :: string
  cf_MaxDatagramBytes :: int
  cf_EphemeralQueueSize :: int
  cf_ReliableQueueSize :: int
  cf_EphemeralBinaryEnabled :: bool
  cf_EphemeralRatePerConnection :: float64
  cf_EphemeralBurstPerConnection :: float64
  cf_ReliableRatePerConnection :: float64
  cf_ReliableBurstPerConnection :: float64
  cf_SignalingRatePerConnection :: float64
  cf_SignalingBurstPerConnection :: float64
  cf_BootstrapRatePerUserPerMinute :: float64
  cf_BootstrapBurstPerUser :: float64
  cf_BootstrapRatePerIPPerMinute :: float64
  cf_BootstrapBurstPerIP :: float64
  cf_BlockLockLease :: duration
  cf_BlockLockRenew :: duration
  cf_MaxActiveBlockLocksPerSess :: int
  cf_BlockLockSweep :: duration
  cf_ShutdownGrace :: duration

definition read_config :: "environment \<Rightarrow> config" where
  "read_config vars = (let rate = (\<lambda>key fallback. f_of_int (integer vars key fallback)) in
     \<lparr>cf_HTTPAddr = env_string vars ''HTTP_ADDR'' '':8080'',
      cf_AllowedOrigins = splitAndTrim (env_string vars ''ALLOWED_ORIGINS'' ''http://localhost:3000''),
      cf_CanvasJWTIssuer = env_string vars ''CANVAS_JWT_ISSUER'' ''mypol-api'',
      cf_CanvasJWTAudience = env_string vars ''CANVAS_JWT_AUDIENCE'' ''canvas-realtime'',
      cf_CanvasJWTPublicKeyFile = env_string vars ''CANVAS_JWT_PUBLIC_KEY_FILE'' [],
      cf_CanvasJWTLeeway = seconds vars ''CANVAS_JWT_LEEWAY_SECONDS'' 5,
      cf_InternalHMACCurrentKeyID = env_string vars ''INTERNAL_HMAC_CURRENT_KEY_ID'' [],
      cf_InternalHMACCurrentSecret = env_string vars ''INTERNAL_HMAC_CURRENT_SECRET'' [],
      cf_InternalHMACPreviousKeyID = env_string vars ''INTERNAL_HMAC_PREVIOUS_KEY_ID'' [],
      cf_InternalHMACPreviousSecret = env_string vars ''INTERNAL_HMAC_PREVIOUS_SECRET'' [],
      cf_InternalHMACMaxClockSkew = seconds vars ''INTERNAL_HMAC_MAX_CLOCK_SKEW_SECONDS'' 30,
      cf_ConnectionTicketTTL = seconds vars ''CONNECTION_TICKET_TTL_SECONDS'' 30,
      cf_ConnectionTicketSweep = seconds vars ''CONNECTION_TICKET_SWEEP_SECONDS'' 10,
      cf_SessionHeartbeat = seconds vars ''SESSION_HEARTBEAT_SECONDS'' 15,
      cf_SessionIdleTimeout = seconds vars ''SESSION_IDLE_TIMEOUT_SECONDS'' 45,
      cf_WebSocketURL = env_string vars ''WEBSOCKET_URL'' [],
      cf_WebTransportURL = env_string vars ''WEBTRANSPORT_URL'' [],
      cf_WebRTCMaxPeers = integer vars ''WEBRTC_MAX_PEERS'' 6,
      cf_StunURLs = splitAndTrim (env_string vars ''STUN_URLS'' ''stun:stun.l.google.com:19302''),
      cf_TurnURLs = splitAndTrim (env_string vars ''TURN_URLS'' []),
      cf_TurnUsername = env_string vars ''TURN_USERNAME'' [],
      cf_TurnCredential = env_string vars ''TURN_CREDENTIAL'' [],
      cf_WebTransportAddr = env_string vars ''WEBTRANSPORT_ADDR'' [],
      cf_TLSCertFile = env_string vars ''TLS_CERT_FILE'' [],
      cf_TLSKeyFile = env_string vars ''TLS_KEY_FILE'' [],
      cf_MaxDatagramBytes = integer vars ''MAX_DATAGRAM_BYTES'' 1100,
      cf_EphemeralQueueSize = integer vars ''EPHEMERAL_QUEUE_SIZE'' 64,
      cf_ReliableQueueSize = integer vars ''RELIABLE_QUEUE_SIZE'' 128,
      cf_EphemeralBinaryEnabled = boolean vars ''EPHEMERAL_BINARY_ENABLED'' True,
      cf_EphemeralRatePerConnection = rate ''EPHEMERAL_RATE_PER_CONNECTION'' 360,
      cf_EphemeralBurstPerConnection = rate ''EPHEMERAL_BURST_PER_CONNECTION'' 540,
      cf_ReliableRatePerConnection = rate ''RELIABLE_RATE_PER_CONNECTION'' 120,
      cf_ReliableBurstPerConnection = rate ''RELIABLE_BURST_PER_CONNECTION'' 240,
      cf_SignalingRatePerConnection = rate ''SIGNALING_RATE_PER_CONNECTION'' 30,
      cf_SignalingBurstPerConnection = rate ''SIGNALING_BURST_PER_CONNECTION'' 60,
      cf_BootstrapRatePerUserPerMinute = rate ''BOOTSTRAP_RATE_PER_USER_PER_MINUTE'' 30,
      cf_BootstrapBurstPerUser = rate ''BOOTSTRAP_BURST_PER_USER'' 10,
      cf_BootstrapRatePerIPPerMinute = rate ''BOOTSTRAP_RATE_PER_IP_PER_MINUTE'' 600,
      cf_BootstrapBurstPerIP = rate ''BOOTSTRAP_BURST_PER_IP'' 100,
      cf_BlockLockLease = seconds vars ''BLOCK_LOCK_LEASE_SECONDS'' 5,
      cf_BlockLockRenew = seconds vars ''BLOCK_LOCK_RENEW_SECONDS'' 2,
      cf_MaxActiveBlockLocksPerSess = integer vars ''MAX_ACTIVE_BLOCK_LOCKS_PER_SESSION'' 4,
      cf_BlockLockSweep = Second,
      cf_ShutdownGrace = seconds vars ''SHUTDOWN_GRACE_SECONDS'' 5\<rparr>)"

datatype config_error = DotEnvError | MissingPublicKey

definition Load :: "dotenv_file \<Rightarrow> environment \<Rightarrow> (config_error, config) outcome" where
  "Load file vars = (case loadDotEnv file vars of
     (True, _) \<Rightarrow> Inl DotEnvError
   | (False, vars) \<Rightarrow> (let cfg = read_config vars in
       if cf_CanvasJWTPublicKeyFile cfg = [] then Inl MissingPublicKey else Inr cfg))"

definition InternalControlEnabled :: "config \<Rightarrow> bool" where
  "InternalControlEnabled c \<longleftrightarrow> cf_InternalHMACCurrentKeyID c \<noteq> [] \<and> cf_InternalHMACCurrentSecret c \<noteq> []"

definition WebTransportEnabled :: "config \<Rightarrow> bool" where
  "WebTransportEnabled c \<longleftrightarrow> cf_WebTransportAddr c \<noteq> [] \<and> cf_TLSCertFile c \<noteq> [] \<and> cf_TLSKeyFile c \<noteq> []"

section \<open>Facts\<close>

text \<open>The file only fills gaps: what the environment sets, it keeps.\<close>

lemma load_lines_keeps: "vars key = Some v \<Longrightarrow> snd (load_lines ls vars) key = Some v"
  by (induction ls arbitrary: vars) (auto split: option.splits, metis fun_upd_other option.distinct(1))

text \<open>Among the file's own assignments to a variable the first one counts.\<close>

lemma load_lines_first:
  assumes "snd (load_lines ls vars) key = Some v" "vars key = None"
  shows "\<exists>pre l post. ls = pre @ l # post \<and> line_assignment l = Some (key, v) \<and>
    (\<forall>l' \<in> set pre. \<forall>v'. line_assignment l' \<noteq> Some (key, v'))"
  using assms
proof (induction ls arbitrary: vars)
  case (Cons l rest)
  show ?case
  proof (cases "\<exists>v'. line_assignment l = Some (key, v')")
    case True
    then obtain v' where v': "line_assignment l = Some (key, v')" by blast
    with Cons(2,3) have "snd (load_lines rest (vars(key \<mapsto> v'))) key = Some v"
      by (auto split: if_splits)
    then have "v' = v" using load_lines_keeps [of "vars(key \<mapsto> v')" key v' rest] by simp
    with v' show ?thesis by (intro exI [of _ "[]"] exI [of _ l] exI [of _ rest]) simp
  next
    case False
    with Cons(2,3) obtain vars' where "snd (load_lines rest vars') key = Some v" "vars' key = None"
      by (cases "line_assignment l") (auto split: if_splits dest: spec)
    from Cons(1) [OF this] obtain pre l' post where "rest = pre @ l' # post" "line_assignment l' = Some (key, v)"
      "\<forall>l'' \<in> set pre. \<forall>v'. line_assignment l'' \<noteq> Some (key, v')" by blast
    with False show ?thesis by (intro exI [of _ "l # pre"] exI [of _ l'] exI [of _ post]) auto
  qed
qed simp

lemma splitAndTrim_nonempty: "[] \<notin> set (splitAndTrim v)"
  by (simp add: splitAndTrim_def)

lemma unquote_quoted: "c \<in> {CHR 0x22, CHR 0x27} \<Longrightarrow> unquote (c # v @ [c]) = v"
  by (auto simp: unquote_def)

section \<open>Properties\<close>

text \<open>
  The environment wins over the file, and the file is read deterministically: a variable that is
  already set keeps its value, a variable the file adds has the value of the first line that assigns
  it, and a configuration is never loaded without the key that verifies tokens.
\<close>

theorem dotenv_only_fills_gaps:
  assumes "Load (FileLines ls) vars = Inr cfg"
  shows "cf_CanvasJWTPublicKeyFile cfg \<noteq> [] \<and>
    (\<exists>vars'. cfg = read_config vars' \<and> (\<forall>key. case vars key of
       Some v \<Rightarrow> vars' key = Some v
     | None \<Rightarrow> (case vars' key of None \<Rightarrow> True
         | Some v \<Rightarrow> \<exists>pre l post. ls = pre @ l # post \<and> line_assignment l = Some (key, v) \<and>
             (\<forall>l' \<in> set pre. \<forall>v'. line_assignment l' \<noteq> Some (key, v')))))"
proof -
  obtain err vars' where l: "load_lines ls vars = (err, vars')" by fastforce
  with assms have c: "cfg = read_config vars'" "cf_CanvasJWTPublicKeyFile cfg \<noteq> []"
    by (auto simp: Load_def loadDotEnv_def Let_def split: bool.splits if_splits)
  moreover have "case vars key of Some v \<Rightarrow> vars' key = Some v
     | None \<Rightarrow> (case vars' key of None \<Rightarrow> True
         | Some v \<Rightarrow> \<exists>pre l post. ls = pre @ l # post \<and> line_assignment l = Some (key, v) \<and>
             (\<forall>l' \<in> set pre. \<forall>v'. line_assignment l' \<noteq> Some (key, v')))" for key
  proof (cases "vars key")
    case None
    then show ?thesis using load_lines_first [of ls vars key] l by (simp split: option.split)
  next
    case (Some v)
    then show ?thesis using load_lines_keeps [of vars key v ls] l by simp
  qed
  ultimately show ?thesis by blast
qed

end
