(* ===== verification/Origin.thy ===== *)
theory Origin
  imports Prelude
begin

text \<open>
  Which browser origins may connect (\<open>internal/transport/origin.go\<close>) and the CORS wrapper of the
  router (\<open>internal/transport/router.go\<close>). A wildcard entry is split at its stars; the compiled
  expression is the literal segments with \<open>[^/]*\<close> between them, anchored at both ends. The cache of
  compiled expressions does not change any answer and is left out.
\<close>

section \<open>The allow-list\<close>

definition originPattern :: "string \<Rightarrow> string list" where
  "originPattern entry = Split CHR ''*'' entry"

text \<open>The anchored match of \<open>lit [^/]* lit [^/]* ... lit\<close>.\<close>

fun MatchString :: "string list \<Rightarrow> string \<Rightarrow> bool" where
  "MatchString [] s \<longleftrightarrow> s = []"
| "MatchString [lit] s \<longleftrightarrow> s = lit"
| "MatchString (lit # rest) s \<longleftrightarrow> HasPrefix s lit \<and>
     (let r = drop (length lit) s in
      list_ex (\<lambda>n. CHR ''/'' \<notin> set (take n r) \<and> MatchString rest (drop n r)) [0..<Suc (length r)])"

fun originAllowed :: "string list \<Rightarrow> string \<Rightarrow> bool" where
  "originAllowed allowed origin \<longleftrightarrow> origin \<noteq> [] \<and>
     list_ex (\<lambda>entry. entry \<noteq> [] \<and>
       (entry = origin \<or> CHR ''*'' \<in> set entry \<and> MatchString (originPattern entry) origin)) allowed"

declare originAllowed.simps [simp del]

section \<open>The CORS wrapper\<close>

definition isInternalPath :: "string \<Rightarrow> bool" where
  "isInternalPath path \<longleftrightarrow>
     length path \<ge> length ''/internal/'' \<and> take (length ''/internal/'') path = ''/internal/''"

text \<open>What the wrapper does with a request: refuse it, answer a preflight, or pass it on; the option
  is the value of \<open>Access-Control-Allow-Origin\<close>.\<close>

datatype cors_result = CorsForbidden | CorsPreflight "string option" | CorsNext "string option"

definition withCORS :: "string list \<Rightarrow> string \<Rightarrow> string \<Rightarrow> string \<Rightarrow> cors_result" where
  "withCORS allowedOrigins origin path method =
     (if origin \<noteq> [] \<and> isInternalPath path then CorsForbidden
      else let echo = (if originAllowed allowedOrigins origin then Some origin else None) in
        if method = ''OPTIONS'' then CorsPreflight echo else CorsNext echo)"

section \<open>What a pattern matches\<close>

text \<open>The strings of a pattern: the segments with slash-free fillers between them.\<close>

fun spread :: "string list \<Rightarrow> string list \<Rightarrow> string" where
  "spread (lit # l2 # rest) (w # ws) = lit @ w @ spread (l2 # rest) ws"
| "spread (lit # _) _ = lit"
| "spread [] _ = []"

lemma MatchString_iff:
  "segs \<noteq> [] \<Longrightarrow> MatchString segs s \<longleftrightarrow>
     (\<exists>ws. Suc (length ws) = length segs \<and> (\<forall>w \<in> set ws. CHR ''/'' \<notin> set w) \<and> s = spread segs ws)"
proof (induction segs s rule: MatchString.induct)
  case (2 lit s)
  then show ?case by auto
next
  case (3 lit l2 rest s)
  show ?case
  proof
    assume "MatchString (lit # l2 # rest) s"
    then obtain n where p: "HasPrefix s lit" and n: "n < Suc (length (drop (length lit) s))"
      "CHR ''/'' \<notin> set (take n (drop (length lit) s))" "MatchString (l2 # rest) (drop n (drop (length lit) s))"
      by (auto simp: Let_def list_ex_iff simp del: upt_Suc)
    from "3.IH" [OF refl, of n] n obtain ws where ws: "Suc (length ws) = length (l2 # rest)" "\<forall>w \<in> set ws. CHR ''/'' \<notin> set w"
      "drop n (drop (length lit) s) = spread (l2 # rest) ws" by fastforce
    have "s = lit @ take n (drop (length lit) s) @ spread (l2 # rest) ws"
      unfolding ws(3) [symmetric] append_take_drop_id using p by (auto simp: HasPrefix_iff)
    with ws n show "\<exists>ws. Suc (length ws) = length (lit # l2 # rest) \<and> (\<forall>w \<in> set ws. CHR ''/'' \<notin> set w) \<and>
        s = spread (lit # l2 # rest) ws"
      by (intro exI [of _ "take n (drop (length lit) s) # ws"]) auto
  next
    assume "\<exists>ws. Suc (length ws) = length (lit # l2 # rest) \<and> (\<forall>w \<in> set ws. CHR ''/'' \<notin> set w) \<and>
        s = spread (lit # l2 # rest) ws"
    then obtain w ws where ws: "Suc (length ws) = length (l2 # rest)" "CHR ''/'' \<notin> set w"
      "\<forall>w \<in> set ws. CHR ''/'' \<notin> set w" "s = lit @ w @ spread (l2 # rest) ws"
      by (auto simp: length_Suc_conv)
    have "MatchString (l2 # rest) (drop (length w) (drop (length lit) s))"
      using "3.IH" [OF refl, of "length w"] ws by (simp, blast)
    with ws show "MatchString (lit # l2 # rest) s"
      by (auto simp: Let_def list_ex_iff HasPrefix_def simp del: upt_Suc intro!: bexI [of _ "length w"])
  qed
qed simp

lemma Split_slashes: "count_list s CHR ''/'' = sum_list (map (\<lambda>l. count_list l CHR ''/'') (Split CHR ''*'' s))"
  by (induction s) (auto split: list.splits)

lemma spread_slashes:
  "Suc (length ws) = length segs \<Longrightarrow> \<forall>w \<in> set ws. CHR ''/'' \<notin> set w \<Longrightarrow>
     count_list (spread segs ws) CHR ''/'' = sum_list (map (\<lambda>l. count_list l CHR ''/'') segs)"
  by (induction segs ws rule: spread.induct) auto

lemma spread_head: "Suc (length ws) = length (lit # segs) \<Longrightarrow> HasPrefix (spread (lit # segs) ws) lit"
  by (cases segs; cases ws) (auto simp: HasPrefix_iff)

section \<open>Properties\<close>

text \<open>
  A wildcard stays between two slashes: an admitted origin is on the list literally or fills the
  stars of an entry with slash-free text, so it has the scheme and the text up to the first star of
  that entry and exactly as many slashes.
\<close>

theorem origin_wildcard_bounded:
  assumes "originAllowed allowed origin"
  shows "\<exists>entry \<in> set allowed. count_list origin CHR ''/'' = count_list entry CHR ''/'' \<and>
    HasPrefix origin (hd (originPattern entry))"
proof -
  from assms obtain entry where e: "entry \<in> set allowed" "entry = origin \<or> MatchString (originPattern entry) origin"
    by (auto simp: originAllowed.simps list_ex_iff)
  have ne: "originPattern entry \<noteq> []" by (simp add: originPattern_def)
  have pre: "HasPrefix s (hd (Split c s))" for s c
    by (induction s) (auto simp: HasPrefix_def split: list.splits)
  from e(2) show ?thesis
  proof
    assume "entry = origin"
    with e(1) pre show ?thesis by (auto simp: originPattern_def)
  next
    assume "MatchString (originPattern entry) origin"
    then obtain ws where ws: "Suc (length ws) = length (originPattern entry)" "\<forall>w \<in> set ws. CHR ''/'' \<notin> set w"
      "origin = spread (originPattern entry) ws" using MatchString_iff [OF ne] by blast
    obtain lit segs where sg: "originPattern entry = lit # segs" using ne by (cases "originPattern entry") auto
    have "count_list origin CHR ''/'' = count_list entry CHR ''/''"
      unfolding ws(3) spread_slashes [OF ws(1,2)] Split_slashes [of entry] by (simp add: originPattern_def)
    with e(1) ws sg spread_head [of ws lit segs] show ?thesis by auto
  qed
qed

lemma example_origin: "originAllowed [''http://192.168.*.*:3000''] ''http://192.168.1.7:3000''"
  by (simp add: originAllowed.simps originPattern_def HasPrefix_def Let_def)

theorem origin_wildcard_bounded_witness:
  "\<exists>entry \<in> set [''http://192.168.*.*:3000'']. count_list ''http://192.168.1.7:3000'' CHR ''/'' = count_list entry CHR ''/''"
  using origin_wildcard_bounded [OF example_origin] by blast

text \<open>
  The wildcard does widen past the host an entry names: since a star matches dots as well, the
  entry for a private address range admits a public host that merely starts with the same text.
\<close>

theorem origin_wildcard_admits_other_host:
  "originAllowed [''http://192.168.*.*:3000''] ''http://192.168.1.evil.com:3000'' \<and>
   \<not> originAllowed [''http://192.168.*.*:3000''] ''http://evil.com/192.168.1.1:3000''"
  by (simp add: originAllowed.simps originPattern_def HasPrefix_def Let_def)

text \<open>
  No browser reaches the control plane, and no origin is reflected unchecked: a request that
  carries an origin is refused on every internal path, preflights included, and the origin is echoed
  only when the allow-list admits it.
\<close>

theorem cors_guards_control_plane:
  "(withCORS allowed origin path method = CorsForbidden \<longleftrightarrow> origin \<noteq> [] \<and> HasPrefix path ''/internal/'') \<and>
   (withCORS allowed origin path method = CorsNext (Some echoed) \<longleftrightarrow>
      echoed = origin \<and> originAllowed allowed origin \<and> \<not> isInternalPath path \<and> method \<noteq> ''OPTIONS'') \<and>
   (withCORS allowed origin path method = CorsPreflight (Some echoed) \<longleftrightarrow>
      echoed = origin \<and> originAllowed allowed origin \<and> \<not> isInternalPath path \<and> method = ''OPTIONS'')"
  by (auto simp: withCORS_def isInternalPath_def HasPrefix_def Let_def originAllowed.simps split: if_splits
      dest: arg_cong [of _ _ length])

end
