(* ===== verification/Hmac_Validator.thy ===== *)
theory Hmac_Validator
  imports Domain Sha256 Strconv
begin

text \<open>
  Authentication of internal control requests (\<open>internal/security/hmac_request_validator.go\<close>):
  the canonical request, its signature, the clock-skew check with the saturating and wrapping
  arithmetic of \<open>time.Duration\<close>, and the nonce cache.
\<close>

section \<open>The validator\<close>

record hmac_key =
  hk_KeyID :: string
  hk_Secret :: string

record hmac_request =
  hr_Method :: string
  hr_Path :: string
  hr_KeyID :: string
  hr_Nonce :: string
  hr_Signature :: string
  hr_Timestamp :: string

datatype hmac_error = ErrMissingSignatureHeaders | ErrUnknownKeyID | ErrClockSkew
  | ErrReplayedNonce | ErrBadSignature

definition HashBody :: "bytes \<Rightarrow> string" where
  "HashBody body = hex_encode (sha256 body)"

definition CanonicalRequest :: "string \<Rightarrow> string \<Rightarrow> int \<Rightarrow> string \<Rightarrow> bytes \<Rightarrow> string" where
  "CanonicalRequest m path timestamp nonce body =
     ToUpper m @ [CHR 0x0A] @ path @ [CHR 0x0A] @ FormatInt timestamp @ [CHR 0x0A] @
     nonce @ [CHR 0x0A] @ HashBody body"

definition Sign :: "string \<Rightarrow> string \<Rightarrow> string" where
  "Sign secret canonical = hex_encode (hmac_sha256 (to_bytes secret) (to_bytes canonical))"

record hmac_validator =
  hv_current :: hmac_key
  hv_previous :: hmac_key
  hv_maxSkew :: duration
  hv_nonces :: "(string, time) gomap"

definition NewHMACValidator :: "hmac_key \<Rightarrow> hmac_key \<Rightarrow> duration \<Rightarrow> hmac_validator" where
  "NewHMACValidator current previous maxSkew =
     \<lparr>hv_current = current, hv_previous = previous, hv_maxSkew = maxSkew, hv_nonces = []\<rparr>"

definition Configured :: "hmac_validator \<Rightarrow> bool" where
  "Configured v \<longleftrightarrow> hk_KeyID (hv_current v) \<noteq> [] \<and> hk_Secret (hv_current v) \<noteq> []"

definition secretFor :: "hmac_validator \<Rightarrow> string \<Rightarrow> (hmac_error, string) outcome" where
  "secretFor v keyID =
     (if hk_KeyID (hv_current v) \<noteq> [] \<and> keyID = hk_KeyID (hv_current v) then Inr (hk_Secret (hv_current v))
      else if hk_KeyID (hv_previous v) \<noteq> [] \<and> keyID = hk_KeyID (hv_previous v)
      then Inr (hk_Secret (hv_previous v))
      else Inl ErrUnknownKeyID)"

definition rememberNonce :: "string \<Rightarrow> time \<Rightarrow> hmac_validator \<Rightarrow> bool \<times> hmac_validator" where
  "rememberNonce nonce now v =
     (if map_of (hv_nonces v) nonce \<noteq> None then (False, v)
      else let cutoff = now + wrap64 (- 2 * hv_maxSkew v);
               kept = fst (gm_delete_where (\<lambda>seen. seen < cutoff) (hv_nonces v))
        in (True, v\<lparr>hv_nonces := gm_put nonce now kept\<rparr>))"

text \<open>The drift of a timestamp: the difference saturates, its negation wraps around.\<close>

definition drift_of :: "time \<Rightarrow> int \<Rightarrow> duration" where
  "drift_of now timestamp =
     (let drift = time_sub now (time_unix timestamp) in if drift < 0 then wrap64 (- drift) else drift)"

definition hmac_Validate ::
  "hmac_request \<Rightarrow> bytes \<Rightarrow> time \<Rightarrow> hmac_validator \<Rightarrow> (hmac_error, unit) outcome \<times> hmac_validator" where
  "hmac_Validate r body now v =
     (if hr_KeyID r = [] \<or> hr_Nonce r = [] \<or> hr_Signature r = [] \<or> hr_Timestamp r = []
      then (Inl ErrMissingSignatureHeaders, v)
      else case secretFor v (hr_KeyID r) of
        Inl e \<Rightarrow> (Inl e, v)
      | Inr secret \<Rightarrow> (case ParseInt (hr_Timestamp r) of
          None \<Rightarrow> (Inl ErrClockSkew, v)
        | Some timestamp \<Rightarrow>
            if drift_of now timestamp > hv_maxSkew v then (Inl ErrClockSkew, v)
            else let
              canonical = CanonicalRequest (hr_Method r) (hr_Path r) timestamp (hr_Nonce r) body;
              expected = Sign secret canonical
            in if expected \<noteq> hr_Signature r then (Inl ErrBadSignature, v)
               else case rememberNonce (hr_Nonce r) now v of
                 (False, v') \<Rightarrow> (Inl ErrReplayedNonce, v')
               | (True, v') \<Rightarrow> (Inr (), v')))"

definition NonceCount :: "hmac_validator \<Rightarrow> nat" where
  "NonceCount v = length (hv_nonces v)"

definition hmac_run :: "(hmac_request \<times> bytes \<times> time) list \<Rightarrow> hmac_validator \<Rightarrow> hmac_validator" where
  "hmac_run calls = fold (\<lambda>(r, body, now) v. snd (hmac_Validate r body now v)) calls"

section \<open>Facts\<close>

lemma hmac_Validate_Inr:
  assumes "hmac_Validate r body now v = (Inr (), v')"
  obtains ts secret where "ParseInt (hr_Timestamp r) = Some ts" "secretFor v (hr_KeyID r) = Inr secret"
    "drift_of now ts \<le> hv_maxSkew v"
    "hr_Signature r = Sign secret (CanonicalRequest (hr_Method r) (hr_Path r) ts (hr_Nonce r) body)"
    "map_of (hv_nonces v) (hr_Nonce r) = None" "rememberNonce (hr_Nonce r) now v = (True, v')"
  using assms by (auto simp: hmac_Validate_def Let_def rememberNonce_def split: if_splits sum.splits option.splits)

lemma hmac_Validate_settings:
  "hv_maxSkew (snd (hmac_Validate r body now v)) = hv_maxSkew v"
  "hv_current (snd (hmac_Validate r body now v)) = hv_current v"
  "hv_previous (snd (hmac_Validate r body now v)) = hv_previous v"
  "gm_wf (hv_nonces v) \<Longrightarrow> gm_wf (hv_nonces (snd (hmac_Validate r body now v)))"
  by (auto simp: hmac_Validate_def rememberNonce_def Let_def split: sum.splits option.splits)

text \<open>A nonce stays cached as long as the cut-off has not passed its time.\<close>

lemma hmac_Validate_keeps:
  assumes "gm_wf (hv_nonces v)" "map_of (hv_nonces v) k = Some seen" "now + wrap64 (- 2 * hv_maxSkew v) \<le> seen"
  shows "map_of (hv_nonces (snd (hmac_Validate r body now v))) k \<noteq> None"
    and "\<exists>seen'. map_of (hv_nonces (snd (hmac_Validate r body now v))) k = Some seen' \<and> seen \<le> seen'"
proof -
  have "map_of (fst (gm_delete_where (\<lambda>a. a < now + wrap64 (- 2 * hv_maxSkew v)) (hv_nonces v))) k = Some seen"
    using assms by (simp add: map_of_delete_where del: map_of_eq_Some_iff)
  then show *: "\<exists>seen'. map_of (hv_nonces (snd (hmac_Validate r body now v))) k = Some seen' \<and> seen \<le> seen'"
    using assms(2) by (auto simp: hmac_Validate_def rememberNonce_def Let_def simp del: map_of_eq_Some_iff
        split: sum.splits option.splits)
  then show "map_of (hv_nonces (snd (hmac_Validate r body now v))) k \<noteq> None" by auto
qed

lemma hmac_run_keeps:
  assumes "gm_wf (hv_nonces v)" "map_of (hv_nonces v) k = Some seen" "0 \<le> hv_maxSkew v" "hv_maxSkew v < 2 ^ 62"
    "\<forall>(r, body, now) \<in> set calls. now - 2 * hv_maxSkew v \<le> seen"
  shows "map_of (hv_nonces (hmac_run calls v)) k \<noteq> None"
  using assms
proof (induction calls arbitrary: v seen)
  case Nil
  then show ?case by (simp add: hmac_run_def)
next
  case (Cons c calls)
  obtain r body now where c: "c = (r, body, now)" by (cases c)
  let ?v = "snd (hmac_Validate r body now v)"
  have "wrap64 (- 2 * hv_maxSkew v) = - 2 * hv_maxSkew v" using Cons.prems(3,4) by (intro wrap64_id) auto
  then have "now + wrap64 (- 2 * hv_maxSkew v) \<le> seen" using Cons.prems(5) c by simp
  from hmac_Validate_keeps(2) [OF Cons.prems(1,2) this] obtain seen' where
    "map_of (hv_nonces ?v) k = Some seen'" "seen \<le> seen'" by blast
  moreover have "\<forall>(r, body, now) \<in> set calls. now - 2 * hv_maxSkew ?v \<le> seen'"
    using Cons.prems(5) \<open>seen \<le> seen'\<close> by (fastforce simp: hmac_Validate_settings)
  ultimately have "map_of (hv_nonces (hmac_run calls ?v)) k \<noteq> None"
    using Cons.prems by (intro Cons.IH) (auto simp: hmac_Validate_settings)
  then show ?case using c by (simp add: hmac_run_def)
qed

lemma drift_bound:
  assumes "drift_of now ts \<le> skew" "0 \<le> skew" "skew < max_int64" "time_unix ts - now < 2 ^ 63"
  shows "\<bar>now - time_unix ts\<bar> \<le> skew"
  using assms by (auto simp: drift_of_def time_sub_def Let_def split: if_splits)

lemma hmac_run_settings [simp]: "hv_maxSkew (hmac_run calls v) = hv_maxSkew v"
  unfolding hmac_run_def by (induction calls arbitrary: v) (auto simp: hmac_Validate_settings)

text \<open>Splitting a text seen a newline that the left part does not contain.\<close>

lemma append_sep_inj:
  "a @ c # b = a' @ c # b' \<Longrightarrow> c \<notin> set a \<Longrightarrow> c \<notin> set a' \<Longrightarrow> a = a' \<and> b = b'"
proof (induction a arbitrary: a')
  case Nil
  then show ?case by (cases a') auto
next
  case (Cons x a)
  then show ?case by (cases a') auto
qed

lemma append_sep_inj_right:
  assumes "a @ c # b = a' @ c # b'" "c \<notin> set b" "c \<notin> set b'"
  shows "a = a' \<and> b = b'"
proof -
  have "rev b @ c # rev a = rev b' @ c # rev a'"
    using arg_cong [OF assms(1), of rev] by simp
  then have "rev b = rev b' \<and> rev a = rev a'" using assms(2,3) by (intro append_sep_inj) auto
  then show ?thesis by simp
qed

section \<open>Properties\<close>

text \<open>
  C28. A control request cannot be replayed inside its window: once a request was accepted, no later
  request with the same nonce and timestamp is accepted, whatever other requests come in between, as
  long as the clock does not run backwards and the timestamp is less than 292 years ahead.
\<close>

theorem control_request_not_replayable:
  assumes "gm_wf (hv_nonces v)" and "0 \<le> hv_maxSkew v" and "hv_maxSkew v < 2 ^ 62"
    and "hmac_Validate r body t0 v = (Inr (), v1)"
    and "\<forall>(r', body', t) \<in> set calls. t0 \<le> t \<and> t \<le> t1" and "t0 \<le> t1"
    and "hr_Nonce r2 = hr_Nonce r" and "hr_Timestamp r2 = hr_Timestamp r"
    and "\<forall>ts. ParseInt (hr_Timestamp r) = Some ts \<longrightarrow> time_unix ts - t0 < 2 ^ 63"
  shows "fst (hmac_Validate r2 body2 t1 (hmac_run calls v1)) \<noteq> Inr ()"
proof
  assume "fst (hmac_Validate r2 body2 t1 (hmac_run calls v1)) = Inr ()"
  then obtain v2 where acc: "hmac_Validate r2 body2 t1 (hmac_run calls v1) = (Inr (), v2)"
    by (metis prod.collapse)
  from assms(4) obtain ts secret where ts: "ParseInt (hr_Timestamp r) = Some ts" "drift_of t0 ts \<le> hv_maxSkew v"
    and rem: "rememberNonce (hr_Nonce r) t0 v = (True, v1)" by (rule hmac_Validate_Inr) blast
  have v1: "hv_maxSkew v1 = hv_maxSkew v" "gm_wf (hv_nonces v1)"
    using hmac_Validate_settings(1) [of r body t0 v] hmac_Validate_settings(4) [of v r body t0] assms(1,4) by auto
  have seen: "map_of (hv_nonces v1) (hr_Nonce r) = Some t0"
    using rem by (auto simp: rememberNonce_def Let_def split: if_splits)
  from acc obtain ts2 where ts2: "ParseInt (hr_Timestamp r2) = Some ts2" "drift_of t1 ts2 \<le> hv_maxSkew v"
    and fresh: "map_of (hv_nonces (hmac_run calls v1)) (hr_Nonce r2) = None"
    by (rule hmac_Validate_Inr) (auto simp: v1)
  have "ts2 = ts" using ts ts2 assms(8) by simp
  moreover have far: "time_unix ts - t0 < 2 ^ 63" using assms(9) ts(1) by blast
  ultimately have "\<bar>t0 - time_unix ts\<bar> \<le> hv_maxSkew v" "\<bar>t1 - time_unix ts\<bar> \<le> hv_maxSkew v"
    using drift_bound [OF ts(2) assms(2)] drift_bound [of t1 ts "hv_maxSkew v"] ts2(2) assms(2,3,6) by auto
  then have "t1 \<le> t0 + 2 * hv_maxSkew v" by linarith
  then have "\<forall>(r, body, now) \<in> set calls. now - 2 * hv_maxSkew v1 \<le> t0"
    using assms(5) v1(1) by fastforce
  then have "map_of (hv_nonces (hmac_run calls v1)) (hr_Nonce r) \<noteq> None"
    using hmac_run_keeps [OF v1(2) seen] v1(1) assms(2,3) by simp
  with fresh assms(7) show False by simp
qed

definition example_key :: hmac_key where
  "example_key = \<lparr>hk_KeyID = ''k1'', hk_Secret = ''secret''\<rparr>"

definition example_validator :: hmac_validator where
  "example_validator = NewHMACValidator example_key \<lparr>hk_KeyID = [], hk_Secret = []\<rparr> (30 * Second)"

text \<open>A request that its sender signed with the example key.\<close>

definition signed_request :: "string \<Rightarrow> int \<Rightarrow> bytes \<Rightarrow> hmac_request" where
  "signed_request nonce ts body = \<lparr>hr_Method = ''POST'', hr_Path = ''/internal/v1/x'', hr_KeyID = ''k1'',
     hr_Nonce = nonce, hr_Signature = Sign ''secret'' (CanonicalRequest ''POST'' ''/internal/v1/x'' ts nonce body),
     hr_Timestamp = FormatInt ts\<rparr>"

lemma Sign_not_Nil [simp]: "Sign secret canonical \<noteq> []"
  by (simp add: Sign_def flip: length_0_conv)

lemma FormatInt_not_Nil [simp]: "FormatInt i \<noteq> []"
  by (simp add: FormatInt_def nat_dec_digits)

lemma signed_request_accepted:
  assumes "min_int64 \<le> ts" "ts \<le> max_int64" "nonce \<noteq> []" "drift_of now ts \<le> hv_maxSkew v"
    "map_of (hv_nonces v) nonce = None" "hv_current v = example_key"
  shows "fst (hmac_Validate (signed_request nonce ts body) body now v) = Inr ()"
  using assms
  by (simp add: hmac_Validate_def signed_request_def secretFor_def example_key_def ParseInt_FormatInt
      rememberNonce_def Let_def)

lemma example_drift: "drift_of (100 * Second) 99 = Second" "drift_of (101 * Second) 99 = 2 * Second"
  by (simp_all add: drift_of_def time_sub_def time_unix_exact)

theorem control_request_not_replayable_witness:
  "\<exists>v1. hmac_Validate (signed_request ''n1'' 99 []) [] (100 * Second) example_validator = (Inr (), v1) \<and>
    fst (hmac_Validate (signed_request ''n1'' 99 []) [] (101 * Second) (hmac_run
      [(signed_request ''n2'' 99 [], [], 100 * Second)] v1)) \<noteq> Inr ()"
proof -
  have "fst (hmac_Validate (signed_request ''n1'' 99 []) [] (100 * Second) example_validator) = Inr ()"
    by (rule signed_request_accepted) (simp_all add: example_validator_def NewHMACValidator_def example_drift [simplified])
  then obtain v1 where v1: "hmac_Validate (signed_request ''n1'' 99 []) [] (100 * Second) example_validator = (Inr (), v1)"
    by (metis prod.collapse)
  have "ParseInt (hr_Timestamp (signed_request ''n1'' 99 [])) = Some 99"
    using ParseInt_FormatInt [of 99] by (simp add: signed_request_def)
  then have "fst (hmac_Validate (signed_request ''n1'' 99 []) [] (101 * Second) (hmac_run
      [(signed_request ''n2'' 99 [], [], 100 * Second)] v1)) \<noteq> Inr ()"
    by (intro control_request_not_replayable [OF _ _ _ v1])
      (simp_all add: example_validator_def NewHMACValidator_def time_unix_exact)
  with v1 show ?thesis by blast
qed

text \<open>
  The window check has a hole at its far end: for a timestamp more than 292 years ahead the
  difference saturates at the least duration, whose negation wraps around to itself, so the drift is
  negative and passes. Such a signed request is accepted, and accepted again once its nonce has been
  evicted.
\<close>

theorem far_future_request_replayable:
  assumes "min_int64 \<le> ts" and "ts \<le> max_int64" and "time_unix ts - t1 \<ge> 2 ^ 63"
    and "hv_current v = example_key" and "gm_wf (hv_nonces v)" and "map_of (hv_nonces v) nonce = None"
    and "0 \<le> hv_maxSkew v" and "hv_maxSkew v < 2 ^ 62"
    and "nonce \<noteq> []" and "other \<noteq> []" and "other \<noteq> nonce" and "map_of (hv_nonces v) other = None"
    and "t0 + 2 * hv_maxSkew v < t1"
  shows "let (res0, v0) = hmac_Validate (signed_request nonce ts body) body t0 v;
      (_, v1) = hmac_Validate (signed_request other ts body) body t1 v0
    in res0 = Inr () \<and> fst (hmac_Validate (signed_request nonce ts body) body t1 v1) = Inr ()"
proof -
  have d: "drift_of t ts = min_int64" if "t \<le> t1" for t
  proof -
    have "time_sub t (time_unix ts) = min_int64" using assms(3) that by (auto simp: time_sub_def)
    then show ?thesis by (simp add: drift_of_def wrap64_def)
  qed
  have w: "wrap64 (- 2 * hv_maxSkew v) = - 2 * hv_maxSkew v" using assms(7,8) by (intro wrap64_id) auto
  let ?v0 = "snd (hmac_Validate (signed_request nonce ts body) body t0 v)"
  let ?v1 = "snd (hmac_Validate (signed_request other ts body) body t1 ?v0)"
  have ok0: "fst (hmac_Validate (signed_request nonce ts body) body t0 v) = Inr ()"
    using assms d [of t0] by (intro signed_request_accepted) auto
  have n0: "hv_nonces ?v0 = gm_put nonce t0 (fst (gm_delete_where (\<lambda>seen. seen < t0 - 2 * hv_maxSkew v) (hv_nonces v)))"
    using ok0 w by (auto simp: hmac_Validate_def rememberNonce_def Let_def signed_request_def
        split: sum.splits option.splits if_splits)
  have fresh: "map_of (hv_nonces ?v0) other = None"
    using assms(5,11,12) by (simp add: n0 map_of_delete_where)
  have ok1: "fst (hmac_Validate (signed_request other ts body) body t1 ?v0) = Inr ()"
    using assms d [of t1] fresh by (intro signed_request_accepted) (auto simp: hmac_Validate_settings)
  have "map_of (hv_nonces ?v1) nonce = None"
  proof -
    have "hv_nonces ?v1 = gm_put other t1 (fst (gm_delete_where (\<lambda>seen. seen < t1 - 2 * hv_maxSkew v) (hv_nonces ?v0)))"
      using ok1 w by (auto simp: hmac_Validate_def [of _ _ t1] rememberNonce_def Let_def signed_request_def [of other]
          hmac_Validate_settings split: sum.splits option.splits if_splits)
    moreover have "gm_wf (hv_nonces ?v0)" using assms(5) hmac_Validate_settings(4) by blast
    ultimately show ?thesis using assms(11,13) by (simp add: map_of_delete_where n0)
  qed
  then have "fst (hmac_Validate (signed_request nonce ts body) body t1 ?v1) = Inr ()"
    using assms d [of t1] by (intro signed_request_accepted) (auto simp: hmac_Validate_settings)
  with ok0 show ?thesis by (simp add: case_prod_unfold Let_def)
qed

theorem far_future_request_replayable_witness:
  "let (res0, v0) = hmac_Validate (signed_request ''n1'' 99999999999 []) [] (100 * Second) example_validator;
      (_, v1) = hmac_Validate (signed_request ''n2'' 99999999999 []) [] (161 * Second) v0
    in res0 = Inr () \<and> fst (hmac_Validate (signed_request ''n1'' 99999999999 []) [] (161 * Second) v1) = Inr ()"
  by (rule far_future_request_replayable)
    (simp_all add: example_validator_def NewHMACValidator_def time_unix_exact)

text \<open>
  The signed text pins the request down: with newline-free methods and nonces, two requests with
  the same canonical text have the same upper-cased method, path, timestamp, nonce and body hash, even
  when a decoded path contains newlines.
\<close>

theorem canonical_request_injective:
  assumes "CanonicalRequest m path ts nonce body = CanonicalRequest m' path' ts' nonce' body'"
    and "CHR 0x0A \<notin> set (ToUpper m)" and "CHR 0x0A \<notin> set (ToUpper m')"
    and "CHR 0x0A \<notin> set nonce" and "CHR 0x0A \<notin> set nonce'"
    and "min_int64 \<le> ts" and "ts \<le> max_int64" and "min_int64 \<le> ts'" and "ts' \<le> max_int64"
  shows "ToUpper m = ToUpper m' \<and> path = path' \<and> ts = ts' \<and> nonce = nonce' \<and> HashBody body = HashBody body'"
proof -
  let ?nl = "CHR 0x0A"
  have hash: "?nl \<notin> set (HashBody b)" for b unfolding HashBody_def by (rule hex_encode_newline)
  have m: "ToUpper m = ToUpper m'"
    and "path @ ?nl # FormatInt ts @ ?nl # nonce @ ?nl # HashBody body =
      path' @ ?nl # FormatInt ts' @ ?nl # nonce' @ ?nl # HashBody body'"
    using append_sep_inj [OF assms(1) [unfolded CanonicalRequest_def append_Cons append_Nil]] assms(2,3) by blast+
  then have "(path @ ?nl # FormatInt ts @ ?nl # nonce) @ ?nl # HashBody body =
      (path' @ ?nl # FormatInt ts' @ ?nl # nonce') @ ?nl # HashBody body'" by simp
  note h = append_sep_inj_right [OF this hash hash]
  then have "(path @ ?nl # FormatInt ts) @ ?nl # nonce = (path' @ ?nl # FormatInt ts') @ ?nl # nonce'" by simp
  note n = append_sep_inj_right [OF this assms(4,5)]
  then have "path @ ?nl # FormatInt ts = path' @ ?nl # FormatInt ts'" by blast
  note t = append_sep_inj_right [OF this FormatInt_newline FormatInt_newline]
  then have "ts = ts'" using ParseInt_FormatInt [OF assms(6,7)] ParseInt_FormatInt [OF assms(8,9)]
    by (metis option.inject)
  with m h n t show ?thesis by blast
qed

theorem canonical_request_injective_witness:
  "CanonicalRequest ''POST'' ''/a'' 1 ''n'' [] \<noteq> CanonicalRequest ''POST'' ''/b'' 1 ''n'' []"
proof -
  have "CHR 0x0A \<notin> set (ToUpper ''POST'')" by (simp add: ToUpper_def upper_char_def)
  then show ?thesis
    using canonical_request_injective [of "''POST''" "''/a''" 1 "''n''" "[]" "''POST''" "''/b''" 1 "''n''" "[]"]
    by auto
qed

end
