(* ===== verification/Handlers.thy ===== *)
theory Handlers
  imports Client_Frames Config Origin Hmac_Validator
begin

text \<open>
  The HTTP side (\<open>internal/transport/handlers.go\<close>, \<open>history_previews.go\<close>, \<open>router.go\<close>): health,
  bootstrap and the signed control plane, and the router in front of them. A request is given by the
  parts the handlers read; a response is the status with the value handed to the encoder.
\<close>

section \<open>Requests, responses and the state of the handlers\<close>

text \<open>
  Headers, query and path values read as the empty string when they are absent. The body is what the
  reader delivers, and whether it ends in an error. Method and path are those of the signed request.
\<close>

record http_request =
  hq_signed :: hmac_request
  hq_Host :: string
  hq_TLS :: bool
  hq_Origin :: string
  hq_Authorization :: string
  hq_ForwardedFor :: string
  hq_RealIP :: string
  hq_ForwardedProto :: string
  hq_RemoteAddr :: string
  hq_ticket :: string
  hq_Body :: "bytes \<times> bool"

record ICEServer =
  ic_URLs :: "string list"
  ic_Username :: string
  ic_Credential :: string

record BootstrapResponse =
  bo_SessionID :: string
  bo_ConnectionTicket :: string
  bo_TicketExpiresAt :: time
  bo_WebSocketURL :: string
  bo_WebTransportURL :: string
  bo_ICEServers :: "ICEServer list"
  bo_MaxWebRTCPeers :: int
  bo_Permission :: string
  bo_NoteID :: string
  bo_HeartbeatSeconds :: int
  bo_BinaryEphemeralVersion :: int
  bo_BlockLockLeaseSeconds :: int
  bo_BlockLockRenewSeconds :: int

datatype http_body = JsonBody json | BootstrapBody BootstrapResponse | TextBody string | MetricsBody snapshot

type_synonym http_response = "nat \<times> http_body"

text \<open>
  The state behind the handlers: the server, the validator of control requests, the limiter of
  bootstraps, the redeemed tickets of the requests whose upgrade is under way, and the address the
  next transport object gets. A ticket waits at three places of its handler: redeemed but before the second readiness
  check, past that check while the transport is being set up, and past the check in \<open>Join\<close>
  but not yet in its room (there with the instant its connection was made).
\<close>

record site =
  si_server :: server
  si_hmac :: hmac_validator
  si_bootstrap :: bootstrap_limiter
  si_admitted :: "connection_ticket list"
  si_upgrading :: "connection_ticket list"
  si_joining :: "(time \<times> connection_ticket) list"
  si_nextRef :: nat

definition on_server :: "(server \<Rightarrow> server) \<Rightarrow> site \<Rightarrow> site" where
  "on_server f s = s\<lparr>si_server := f (si_server s)\<rparr>"

definition writeError :: "nat \<Rightarrow> string \<Rightarrow> string \<Rightarrow> http_response" where
  "writeError status code message = (status, JsonBody (JObj [jmem ''error''
     (JObj [jmem ''code'' (JStr code), jmem ''message'' (JStr message)])]))"

definition status_body :: "string \<Rightarrow> http_body" where
  "status_body v = JsonBody (JObj [jmem ''status'' (JStr v)])"

section \<open>Health\<close>

definition Healthz :: http_response where
  "Healthz = (200, status_body ''ok'')"

definition Readyz :: "site \<Rightarrow> http_response" where
  "Readyz s = (if sr_draining (si_server s) then (503, status_body ''draining'') else (200, status_body ''ready''))"

definition StartDraining :: "server \<Rightarrow> server" where
  "StartDraining s = s\<lparr>sr_draining := True\<rparr>"

section \<open>Bootstrap\<close>

definition bearerToken :: "http_request \<Rightarrow> string" where
  "bearerToken r = (let header = hq_Authorization r; prefix = ''Bearer '' in
     if header = [] then []
     else if length header \<le> length prefix \<or> \<not> EqualFold (take (length prefix) header) prefix then []
     else TrimSpace (drop (length prefix) header))"

definition websocketURL :: "config \<Rightarrow> http_request \<Rightarrow> string" where
  "websocketURL cfg r =
     (if cf_WebSocketURL cfg \<noteq> [] then cf_WebSocketURL cfg
      else if hq_Host r = [] then []
      else (if hq_TLS r \<or> EqualFold (hq_ForwardedProto r) ''https'' then ''wss'' else ''ws'') @
           ''://'' @ hq_Host r @ ''/ws'')"

definition iceServers :: "config \<Rightarrow> ICEServer list" where
  "iceServers cfg =
     (if cf_StunURLs cfg \<noteq> [] then [\<lparr>ic_URLs = cf_StunURLs cfg, ic_Username = [], ic_Credential = []\<rparr>] else []) @
     (if cf_TurnURLs cfg \<noteq> [] \<and> cf_TurnUsername cfg \<noteq> []
      then [\<lparr>ic_URLs = cf_TurnURLs cfg, ic_Username = cf_TurnUsername cfg, ic_Credential = cf_TurnCredential cfg\<rparr>]
      else [])"

definition bootstrap_response :: "config \<Rightarrow> http_request \<Rightarrow> bootstrap_result \<Rightarrow> BootstrapResponse" where
  "bootstrap_response cfg r result =
     \<lparr>bo_SessionID = ss_ID (br_Session result), bo_ConnectionTicket = tk_Value (br_Ticket result),
      bo_TicketExpiresAt = br_TicketExpiresAt result, bo_WebSocketURL = websocketURL cfg r,
      bo_WebTransportURL = cf_WebTransportURL cfg, bo_ICEServers = iceServers cfg,
      bo_MaxWebRTCPeers = cf_WebRTCMaxPeers cfg, bo_Permission = ss_Permission (br_Session result),
      bo_NoteID = ss_NoteID (br_Session result),
      bo_HeartbeatSeconds = f_to_int (dur_seconds (cf_SessionHeartbeat cfg)),
      bo_BinaryEphemeralVersion = (if cf_EphemeralBinaryEnabled cfg then 3 else 0),
      bo_BlockLockLeaseSeconds = f_to_int (dur_seconds (cf_BlockLockLease cfg)),
      bo_BlockLockRenewSeconds = f_to_int (dur_seconds (cf_BlockLockRenew cfg))\<rparr>"

text \<open>The entropy is what the random source gives the ticket that is minted.\<close>

definition handler_Bootstrap ::
  "server_env \<Rightarrow> config \<Rightarrow> bytes option \<Rightarrow> time \<Rightarrow> http_request \<Rightarrow> site \<Rightarrow> http_response \<times> site" where
  "handler_Bootstrap env cfg entropy now r s =
     (let throttled = count_metric (\<lambda>m. m\<lparr>mt_BootstrapThrottled := mt_BootstrapThrottled m + 1\<rparr>) in
      if sr_draining (si_server s) then (writeError 503 ''DRAINING'' ''Server is shutting down.'', s)
      else case AllowIP (ClientIP (hq_ForwardedFor r) (hq_RealIP r) (hq_RemoteAddr r)) now (si_bootstrap s) of
        (False, l) \<Rightarrow> (writeError 429 ''RATE_LIMITED'' ''Too many requests.'', on_server throttled (s\<lparr>si_bootstrap := l\<rparr>))
      | (True, l) \<Rightarrow> (let s = s\<lparr>si_bootstrap := l\<rparr> in
          if bearerToken r = [] then (writeError 401 ''MISSING_TOKEN'' ''A canvas access token is required.'', s)
          else case Bootstrap (ev_deps env) entropy (bearerToken r) now (sr_sessions (si_server s)) of
            (Inl _, ss) \<Rightarrow> (writeError 401 ''INVALID_TOKEN'' ''The canvas access token was rejected.'',
              on_server (\<lambda>v. count_metric (\<lambda>m. m\<lparr>mt_SessionAuthFailures := mt_SessionAuthFailures m + 1\<rparr>)
                (v\<lparr>sr_sessions := ss\<rparr>)) s)
          | (Inr result, ss) \<Rightarrow> (let s = on_server (\<lambda>v. v\<lparr>sr_sessions := ss\<rparr>) s in
              case AllowUser (ss_UserID (br_Session result)) now (si_bootstrap s) of
                (False, l) \<Rightarrow> (writeError 429 ''RATE_LIMITED'' ''Too many session requests.'',
                  on_server (\<lambda>v. throttled v\<lparr>sr_sessions := snd (RevokeSession (ev_deps env) (ss_ID (br_Session result))
                    (sr_sessions v))\<rparr>) (s\<lparr>si_bootstrap := l\<rparr>))
              | (True, l) \<Rightarrow> ((200, BootstrapBody (bootstrap_response cfg r result)),
                  on_server (count_metric (\<lambda>m. m\<lparr>mt_TicketsIssued := mt_TicketsIssued m + 1\<rparr>))
                    (s\<lparr>si_bootstrap := l\<rparr>)))))"

section \<open>Internal control\<close>

abbreviation (input) "MaxControlBodyBytes \<equiv> (65536 :: nat)"

text \<open>\<open>io.ReadAll\<close> of the limited reader: nothing past the limit is read, so an error there is not met.\<close>

definition read_limited :: "bytes \<times> bool \<Rightarrow> bytes option" where
  "read_limited = (\<lambda>(bs, fails). if fails \<and> length bs < MaxControlBodyBytes then None else Some (take MaxControlBodyBytes bs))"

definition authenticateInternal :: "time \<Rightarrow> http_request \<Rightarrow> site \<Rightarrow> (http_response, bytes) outcome \<times> site" where
  "authenticateInternal now r s =
     (if \<not> Configured (si_hmac s)
      then (Inl (writeError 503 ''CONTROL_DISABLED'' ''Internal control is not configured.''), s)
      else case read_limited (hq_Body r) of
        None \<Rightarrow> (Inl (writeError 400 ''INVALID_BODY'' ''Could not read request body.''), s)
      | Some body \<Rightarrow> (case hmac_Validate (hq_signed r) body now (si_hmac s) of
          (Inl _, v) \<Rightarrow> (Inl (writeError 401 ''INVALID_SIGNATURE'' ''Request signature was rejected.''), s\<lparr>si_hmac := v\<rparr>)
        | (Inr _, v) \<Rightarrow> (Inr body, s\<lparr>si_hmac := v\<rparr>)))"

record revokeSessionRequest =
  rq_SessionID :: string

definition dec_revoke :: "revokeSessionRequest decoder" where
  "dec_revoke = dec_struct (\<lambda>k n v p.
     if EqualFold k ''sessionId'' then (let (x, e) = dec_string v (rq_SessionID p) in (p\<lparr>rq_SessionID := x\<rparr>, e))
     else (p, False))"

record updatePermissionRequest =
  uq_SessionID :: string
  uq_Permission :: string

definition dec_update :: "updatePermissionRequest decoder" where
  "dec_update = dec_struct (\<lambda>k n v p.
     if EqualFold k ''sessionId'' then (let (x, e) = dec_string v (uq_SessionID p) in (p\<lparr>uq_SessionID := x\<rparr>, e))
     else if EqualFold k ''permission'' then (let (x, e) = dec_string v (uq_Permission p) in (p\<lparr>uq_Permission := x\<rparr>, e))
     else (p, False))"

definition handler_RevokeSession :: "server_env \<Rightarrow> time \<Rightarrow> http_request \<Rightarrow> site \<Rightarrow> http_response \<times> site" where
  "handler_RevokeSession env now r s = (case authenticateInternal now r s of
     (Inl e, s) \<Rightarrow> (e, s)
   | (Inr body, s) \<Rightarrow>
       (let (request, err) = unmarshal dec_revoke \<lparr>rq_SessionID = []\<rparr> (ev_parse env body) in
        if err \<or> rq_SessionID request = [] then (writeError 400 ''INVALID_BODY'' ''sessionId is required.'', s)
        else case RevokeSession (ev_deps env) (rq_SessionID request) (sr_sessions (si_server s)) of
          (Inl _, ss) \<Rightarrow> (writeError 400 ''INVALID_BODY'' ''sessionId is required.'',
            on_server (\<lambda>v. v\<lparr>sr_sessions := ss\<rparr>) s)
        | (Inr removed, ss) \<Rightarrow>
            (let (disconnected, rooms) = DisconnectSession (rq_SessionID request) ''session revoked'' (sr_rooms (si_server s))
             in ((200, JsonBody (JObj [jmem ''disconnected'' (jint (int disconnected)), jmem ''revoked'' (JBool removed)])),
                 on_server (\<lambda>v. v\<lparr>sr_sessions := ss, sr_rooms := rooms\<rparr>) s))))"

definition handler_UpdateSessionPermission ::
  "server_env \<Rightarrow> time \<Rightarrow> http_request \<Rightarrow> site \<Rightarrow> http_response \<times> site" where
  "handler_UpdateSessionPermission env now r s = (case authenticateInternal now r s of
     (Inl e, s) \<Rightarrow> (e, s)
   | (Inr body, s) \<Rightarrow>
       (let (request, err) = unmarshal dec_update \<lparr>uq_SessionID = [], uq_Permission = []\<rparr> (ev_parse env body) in
        if err \<or> uq_SessionID request = []
        then (writeError 400 ''INVALID_BODY'' ''sessionId and permission are required.'', s)
        else case ParsePermission (uq_Permission request) of
          Inl _ \<Rightarrow> (writeError 400 ''INVALID_PERMISSION'' ''Unrecognised permission.'', s)
        | Inr permission \<Rightarrow>
            (case UpdateSessionPermission (ev_deps env) (uq_SessionID request) permission (sr_sessions (si_server s)) of
               (Inl e, ss) \<Rightarrow> (let s = on_server (\<lambda>v. v\<lparr>sr_sessions := ss\<rparr>) s in
                 if e = ErrSessionNotFound then ((200, JsonBody (JObj [jmem ''updated'' (JBool False)])), s)
                 else (writeError 400 ''INVALID_BODY'' ''Could not update permission.'', s))
             | (Inr _, ss) \<Rightarrow>
                 (let (applied, rooms) = ApplyPermission (uq_SessionID request) permission (sr_rooms (si_server s))
                  in ((200, JsonBody (JObj [jmem ''connections'' (jint (int applied)), jmem ''updated'' (JBool True)])),
                      on_server (\<lambda>v. v\<lparr>sr_sessions := ss, sr_rooms := rooms\<rparr>) s)))))"

definition handler_RevokeUserFromNote ::
  "server_env \<Rightarrow> time \<Rightarrow> string \<Rightarrow> string \<Rightarrow> http_request \<Rightarrow> site \<Rightarrow> http_response \<times> site" where
  "handler_RevokeUserFromNote env now noteID userID r s = (case authenticateInternal now r s of
     (Inl e, s) \<Rightarrow> (e, s)
   | (Inr _, s) \<Rightarrow> (case RevokeUserFromNote (ev_deps env) noteID userID (sr_sessions (si_server s)) of
       (Inl _, ss) \<Rightarrow> (writeError 400 ''INVALID_PATH'' ''noteId and userId are required.'',
         on_server (\<lambda>v. v\<lparr>sr_sessions := ss\<rparr>) s)
     | (Inr removed, ss) \<Rightarrow>
         (let (disconnected, rooms) = DisconnectUserFromNote noteID userID ''access revoked'' (sr_rooms (si_server s));
              rooms = rooms\<lparr>rs_previews := Revoke noteID userID (rs_previews rooms)\<rparr>
          in ((200, JsonBody (JObj [jmem ''disconnected'' (jint (int disconnected)),
                jmem ''revokedSessions'' (jint (int removed))])),
              on_server (\<lambda>v. v\<lparr>sr_sessions := ss, sr_rooms := rooms\<rparr>) s))))"

definition dec_permit :: "history_permit decoder" where
  "dec_permit = dec_struct (\<lambda>k n v p.
     if EqualFold k ''permitId'' then (let (x, e) = dec_string v (hp_ID p) in (p\<lparr>hp_ID := x\<rparr>, e))
     else if EqualFold k ''noteId'' then (let (x, e) = dec_string v (hp_NoteID p) in (p\<lparr>hp_NoteID := x\<rparr>, e))
     else if EqualFold k ''userId'' then (let (x, e) = dec_string v (hp_UserID p) in (p\<lparr>hp_UserID := x\<rparr>, e))
     else if EqualFold k ''expiresAt'' then (let (x, e) = dec_int64 v (hp_ExpiresAt p) in (p\<lparr>hp_ExpiresAt := x\<rparr>, e))
     else if EqualFold k ''payload'' then (p\<lparr>hp_Payload := dec_raw n v\<rparr>, False)
     else (p, False))"

fun preview_error_text :: "preview_error \<Rightarrow> string" where
  "preview_error_text InvalidPermit = ''invalid history preview permit''"
| "preview_error_text CapacityReached = ''history preview capacity reached''"
| "preview_error_text PermitExists = ''history preview permit already exists''"

definition RegisterHistoryPreview :: "server_env \<Rightarrow> time \<Rightarrow> http_request \<Rightarrow> site \<Rightarrow> http_response \<times> site" where
  "RegisterHistoryPreview env now r s = (case authenticateInternal now r s of
     (Inl e, s) \<Rightarrow> (e, s)
   | (Inr body, s) \<Rightarrow>
       (let (permit, err) = unmarshal dec_permit
              \<lparr>hp_ID = [], hp_NoteID = [], hp_UserID = [], hp_ExpiresAt = 0, hp_Payload = raw_nil\<rparr> (ev_parse env body) in
        if err then (writeError 400 ''INVALID_BODY'' ''Invalid preview permit.'', s)
        else let (res, p) = Register permit now (rs_previews (sr_rooms (si_server s)));
                 s = on_server (on_rooms (\<lambda>v. v\<lparr>rs_previews := p\<rparr>)) s
          in case res of
            Inl e \<Rightarrow> (writeError 400 ''INVALID_PREVIEW'' (preview_error_text e), s)
          | Inr _ \<Rightarrow> ((200, JsonBody (JObj [jmem ''accepted'' (JBool True)])), s)))"

definition RevokeHistoryPreviews :: "time \<Rightarrow> string \<Rightarrow> string \<Rightarrow> http_request \<Rightarrow> site \<Rightarrow> http_response \<times> site" where
  "RevokeHistoryPreviews now noteID userID r s = (case authenticateInternal now r s of
     (Inl e, s) \<Rightarrow> (e, s)
   | (Inr _, s) \<Rightarrow> ((200, JsonBody (JObj [jmem ''revoked'' (JBool True)])),
       on_server (on_rooms (\<lambda>v. v\<lparr>rs_previews := Revoke noteID userID (rs_previews v)\<rparr>)) s))"

end
