(* ===== verification/Site.thy ===== *)
theory Site
  imports Handlers
begin

text \<open>
  The program around the handlers: the router (\<open>internal/transport/router.go\<close>), the admission and the
  life of a connection (\<open>websocket_handler.go\<close>, \<open>webtransport_handler.go\<close>, \<open>close_reason.go\<close>) and
  what \<open>cmd/server/main.go\<close> wires, ticks and drains.
\<close>

section \<open>The router\<close>

datatype endpoint = EpHealthz | EpReadyz | EpMetrics | EpBootstrap | EpWebSocket | EpRevokeSession
  | EpHistoryPreviews | EpHistoryRevoke string string | EpPermission | EpRevokeUser string string

text \<open>
  The patterns of the mux, for a clean path without percent escapes: a GET pattern also takes HEAD, a
  wildcard is one non-empty segment.
\<close>

definition note_user_path :: "string list \<Rightarrow> string list \<Rightarrow> bool" where
  "note_user_path p final \<longleftrightarrow> length p = 7 + length final \<and> take 4 p = [[], ''internal'', ''v1'', ''notes''] \<and>
     p ! 4 \<noteq> [] \<and> p ! 5 = ''users'' \<and> p ! 6 \<noteq> [] \<and> drop 7 p = final"

definition NewRouter :: "string \<Rightarrow> string \<Rightarrow> endpoint option" where
  "NewRouter method path = (let p = Split CHR ''/'' path in
     if method = ''GET'' \<or> method = ''HEAD'' then
       (if path = ''/healthz'' then Some EpHealthz
        else if path = ''/readyz'' then Some EpReadyz
        else if path = ''/metrics'' then Some EpMetrics
        else if path = ''/ws'' then Some EpWebSocket
        else None)
     else if method = ''POST'' then
       (if path = ''/v1/sessions/bootstrap'' then Some EpBootstrap
        else if path = ''/internal/v1/sessions/revoke'' then Some EpRevokeSession
        else if path = ''/internal/v1/history/previews'' then Some EpHistoryPreviews
        else if note_user_path p [''history'', ''revoke''] then Some (EpHistoryRevoke (p ! 4) (p ! 6))
        else if path = ''/internal/v1/sessions/permission'' then Some EpPermission
        else if note_user_path p [''revoke''] then Some (EpRevokeUser (p ! 4) (p ! 6))
        else None)
     else None)"

section \<open>Admission\<close>

text \<open>
  A ticket is redeemed before the upgrade; the redeemed ticket then waits in \<open>si_admitted\<close> for the
  rest of the handler, so that other requests and a drain may come between.
\<close>

definition ServeWebSocket_admit ::
  "server_env \<Rightarrow> config \<Rightarrow> time \<Rightarrow> http_request \<Rightarrow> site \<Rightarrow> http_response option \<times> site" where
  "ServeWebSocket_admit env cfg now r s =
     (if sr_draining (si_server s) then (Some (503, TextBody ''draining''), s)
      else if hq_Origin r \<noteq> [] \<and> \<not> originAllowed (cf_AllowedOrigins cfg) (hq_Origin r)
      then (Some (403, TextBody ''origin not allowed''), s)
      else if hq_ticket r = [] then (Some (401, TextBody ''ticket required''), s)
      else case ConsumeTicket (ev_deps env) (hq_ticket r) now (sr_sessions (si_server s)) of
        (Inl _, ss) \<Rightarrow> (Some (401, TextBody ''ticket rejected''), on_server (\<lambda>v. v\<lparr>sr_sessions := ss\<rparr>) s)
      | (Inr ticket, ss) \<Rightarrow> (None, (on_server (\<lambda>v. count_metric
          (\<lambda>m. m\<lparr>mt_TicketsConsumed := mt_TicketsConsumed m + 1\<rparr>) (v\<lparr>sr_sessions := ss\<rparr>)) s)
            \<lparr>si_admitted := si_admitted s @ [ticket]\<rparr>))"

definition ServeWebTransport_admit ::
  "server_env \<Rightarrow> config \<Rightarrow> time \<Rightarrow> http_request \<Rightarrow> site \<Rightarrow> http_response option \<times> site" where
  "ServeWebTransport_admit env cfg now r s =
     (if sr_draining (si_server s) then (Some (503, TextBody ''draining''), s)
      else if hq_Origin r \<noteq> [] \<and> \<not> originAllowed (cf_AllowedOrigins cfg) (hq_Origin r)
      then (Some (403, TextBody ''origin not allowed''), s)
      else if hq_ticket r = [] then (Some (401, TextBody ''ticket required''), s)
      else case ConsumeTicket (ev_deps env) (hq_ticket r) now (sr_sessions (si_server s)) of
        (Inl _, ss) \<Rightarrow> (Some (401, TextBody ''ticket rejected''), on_server (\<lambda>v. v\<lparr>sr_sessions := ss\<rparr>) s)
      | (Inr ticket, ss) \<Rightarrow> (None, (on_server (\<lambda>v. count_metric
          (\<lambda>m. m\<lparr>mt_TicketsConsumed := mt_TicketsConsumed m + 1\<rparr>) (v\<lparr>sr_sessions := ss\<rparr>)) s)
            \<lparr>si_admitted := si_admitted s @ [ticket]\<rparr>))"

section \<open>Opening a connection\<close>

definition rateLimits :: "config \<Rightarrow> rate_limit_settings" where
  "rateLimits cfg = \<lparr>rs_EphemeralPerSecond = cf_EphemeralRatePerConnection cfg,
     rs_EphemeralBurst = cf_EphemeralBurstPerConnection cfg, rs_ReliablePerSecond = cf_ReliableRatePerConnection cfg,
     rs_ReliableBurst = cf_ReliableBurstPerConnection cfg, rs_SignalingPerSecond = cf_SignalingRatePerConnection cfg,
     rs_SignalingBurst = cf_SignalingBurstPerConnection cfg\<rparr>"

text \<open>\<open>make(chan)\<close> of pointers panics on a negative or unaddressable size.\<close>

definition makechan_ok :: "int \<Rightarrow> bool" where
  "makechan_ok n \<longleftrightarrow> 0 \<le> n \<and> 8 * n \<le> 2 ^ 48 - 96"

definition count_rooms :: "int \<Rightarrow> server \<Rightarrow> server" where
  "count_rooms delta s = count_metric (\<lambda>m. m\<lparr>mt_ActiveConnections := mt_ActiveConnections m + delta,
     mt_ActiveRooms := int (RoomCount (rs_rooms (sr_rooms s)))\<rparr>) s"

text \<open>The transport object is stored at its address, handed to \<open>Join\<close>, or to its second part, and counted.\<close>

definition open_connection ::
  "server_env \<Rightarrow> config \<Rightarrow> time \<Rightarrow> (connection \<Rightarrow> room_service \<Rightarrow> room_service) \<Rightarrow> connection_ticket \<Rightarrow> conn_state \<Rightarrow> site \<Rightarrow>
   connection \<times> site" where
  "open_connection env cfg openedAt join ticket c s = (let
     srv = si_server s; r = sr_rooms srv; ref = si_nextRef s;
     conn = \<lparr>cn_ID = ev_newID env (rs_ids r), cn_SessionID = tk_SessionID ticket, cn_UserID = tk_UserID ticket,
       cn_NoteID = tk_NoteID ticket, cn_ConnectedAt = openedAt, cn_Ref = ref\<rparr>;
     r = r\<lparr>rs_ids := Suc (rs_ids r), rs_conns := (rs_conns r)(ref := c)\<rparr>;
     srv = srv\<lparr>sr_rooms := r, sr_limits := (sr_limits srv)(ref := NewRateLimits (rateLimits cfg) openedAt)\<rparr>;
     srv = on_rooms (join conn) srv;
     srv = count_rooms 1 srv
   in (conn, s\<lparr>si_server := srv, si_nextRef := Suc ref\<rparr>))"

text \<open>
  The connection is made and \<open>Join\<close> reads the draining flag: it closes the connection, or goes on to
  the room, for which the ticket waits in \<open>si_joining\<close>. Until it is in the room the object is known to its own goroutine only, so
  it gets its address there. A queue size the runtime refuses is a panic of the handler, which the HTTP server recovers.
\<close>

definition ws_object :: "config \<Rightarrow> connection_ticket \<Rightarrow> conn_state" where
  "ws_object cfg ticket = newWSConnection ticket (nat (cf_EphemeralQueueSize cfg)) (nat (cf_ReliableQueueSize cfg))"

definition runConnection_open :: "server_env \<Rightarrow> config \<Rightarrow> time \<Rightarrow> connection_ticket \<Rightarrow> site \<Rightarrow> site" where
  "runConnection_open env cfg now ticket s =
     (if \<not> makechan_ok (cf_ReliableQueueSize cfg) then s
      else if IsDraining (sr_rooms (si_server s))
      then snd (open_connection env cfg now (svc_Join (ev_newID env) now) ticket (ws_object cfg ticket) s)
      else s\<lparr>si_joining := si_joining s @ [(now, ticket)]\<rparr>)"

definition runConnection_join :: "server_env \<Rightarrow> config \<Rightarrow> time \<Rightarrow> time \<times> connection_ticket \<Rightarrow> site \<Rightarrow> site" where
  "runConnection_join env cfg now j s = snd (open_connection env cfg (fst j) (join_room (ev_newID env) now) (snd j)
     (ws_object cfg (snd j)) (s\<lparr>si_joining := remove1 j (si_joining s)\<rparr>))"

abbreviation (input) "DefaultMaxDatagramBytes \<equiv> (1100 :: int)"

definition wt_object :: "config \<Rightarrow> connection_ticket \<Rightarrow> conn_state" where
  "wt_object cfg ticket = newWTConnection ticket (nat (cf_EphemeralQueueSize cfg)) (nat (cf_ReliableQueueSize cfg))
     (if cf_MaxDatagramBytes cfg \<le> 0 then DefaultMaxDatagramBytes else cf_MaxDatagramBytes cfg)"

definition open_session ::
  "server_env \<Rightarrow> config \<Rightarrow> time \<Rightarrow> (connection \<Rightarrow> room_service \<Rightarrow> room_service) \<Rightarrow> connection_ticket \<Rightarrow> site \<Rightarrow> site" where
  "open_session env cfg openedAt join ticket s =
     (let (conn, s) = open_connection env cfg openedAt join ticket (wt_object cfg ticket) s
      in on_server (on_rooms (upd_conn (\<lambda>c. c\<lparr>cs_queues := markActivity openedAt (cs_queues c)\<rparr>) conn)) s)"

text \<open>The flag says whether the client opened its control stream in time.\<close>

definition runWebTransportSession_open ::
  "server_env \<Rightarrow> config \<Rightarrow> time \<Rightarrow> bool \<Rightarrow> connection_ticket \<Rightarrow> site \<Rightarrow> site" where
  "runWebTransportSession_open env cfg now streamAccepted ticket s =
     (if \<not> streamAccepted then s
      else if \<not> makechan_ok (cf_ReliableQueueSize cfg) then s
      else if IsDraining (sr_rooms (si_server s)) then open_session env cfg now (svc_Join (ev_newID env) now) ticket s
      else s\<lparr>si_joining := si_joining s @ [(now, ticket)]\<rparr>)"

definition runWebTransportSession_join :: "server_env \<Rightarrow> config \<Rightarrow> time \<Rightarrow> time \<times> connection_ticket \<Rightarrow> site \<Rightarrow> site" where
  "runWebTransportSession_join env cfg now j s =
     open_session env cfg (fst j) (join_room (ev_newID env) now) (snd j) (s\<lparr>si_joining := remove1 j (si_joining s)\<rparr>)"

text \<open>
  The rest of the two handlers. The readiness check again, as a step of its own: then the transport is set up, which may fail and
  which for WebTransport takes up to ten seconds, and the session starts.
\<close>

definition ServeWebSocket_upgrade :: "connection_ticket \<Rightarrow> site \<Rightarrow> http_response option \<times> site" where
  "ServeWebSocket_upgrade ticket s = (let s = s\<lparr>si_admitted := remove1 ticket (si_admitted s)\<rparr> in
     if sr_draining (si_server s) then (Some (503, TextBody ''draining''), s)
     else (None, s\<lparr>si_upgrading := si_upgrading s @ [ticket]\<rparr>))"

definition ServeWebSocket_accept :: "server_env \<Rightarrow> config \<Rightarrow> time \<Rightarrow> bool \<Rightarrow> connection_ticket \<Rightarrow> site \<Rightarrow> site" where
  "ServeWebSocket_accept env cfg now accepted ticket s = (let s = s\<lparr>si_upgrading := remove1 ticket (si_upgrading s)\<rparr> in
     if \<not> accepted then s else runConnection_open env cfg now ticket s)"

definition ServeWebTransport_upgrade :: "connection_ticket \<Rightarrow> site \<Rightarrow> http_response option \<times> site" where
  "ServeWebTransport_upgrade ticket s = (let s = s\<lparr>si_admitted := remove1 ticket (si_admitted s)\<rparr> in
     if sr_draining (si_server s) then (Some (503, TextBody ''draining''), s)
     else (None, s\<lparr>si_upgrading := si_upgrading s @ [ticket]\<rparr>))"

definition ServeWebTransport_accept :: "server_env \<Rightarrow> config \<Rightarrow> time \<Rightarrow> bool \<Rightarrow> bool \<Rightarrow> connection_ticket \<Rightarrow> site \<Rightarrow> site" where
  "ServeWebTransport_accept env cfg now upgraded streamAccepted ticket s =
     (let s = s\<lparr>si_upgrading := remove1 ticket (si_upgrading s)\<rparr> in
      if \<not> upgraded then s else runWebTransportSession_open env cfg now streamAccepted ticket s)"

section \<open>The end of a connection\<close>

text \<open>What the library's errors say of themselves (\<open>errors.Is\<close>, \<open>CloseStatus\<close>, \<open>errors.As\<close>).\<close>

record read_failure =
  rf_Canceled :: bool
  rf_DeadlineExceeded :: bool
  rf_CloseStatus :: int
  rf_SessionError :: "(bool \<times> int) option"

definition client_closed :: "int \<Rightarrow> string" where
  "client_closed code = ''client closed ('' @ FormatInt code @ '')''"

definition wsReadEndReason :: "read_failure \<Rightarrow> string" where
  "wsReadEndReason err =
     (if rf_DeadlineExceeded err then ''idle timeout''
      else if rf_CloseStatus err \<noteq> - 1 then client_closed (rf_CloseStatus err)
      else ''read failed'')"

definition wtReadEndReason :: "read_failure \<Rightarrow> string \<Rightarrow> string" where
  "wtReadEndReason err fallback =
     (if rf_DeadlineExceeded err then ''idle timeout''
      else case rf_SessionError err of
        Some (True, code) \<Rightarrow> client_closed code
      | _ \<Rightarrow> fallback)"

text \<open>The fields of the log line, and the reason counted.\<close>

definition recordClose ::
  "connection \<Rightarrow> string \<Rightarrow> time \<Rightarrow> time \<Rightarrow> server \<Rightarrow> (string \<times> json) list \<times> server" where
  "recordClose conn transport openedAt now s =
     (let reason = CloseReason (cs_queues (conn_of (sr_rooms s) conn)) in
      ([(''connectionId'', JStr (cn_ID conn)), (''sessionId'', JStr (cn_SessionID conn)),
        (''transport'', JStr transport), (''reason'', JStr reason),
        (''openSeconds'', jint (f_to_int (dur_seconds (time_sub now openedAt))))],
       count_metric (ObserveClose reason) s))"

text \<open>The deferred calls of both transports, last one first.\<close>

definition close_connection :: "server_env \<Rightarrow> time \<Rightarrow> connection \<Rightarrow> server \<Rightarrow> server" where
  "close_connection env now conn s = (let
     s = on_rooms (peer_Close ''handler returned'' conn) s;
     s = on_rooms (svc_Leave (ev_newID env) now conn) s;
     s = count_rooms (- 1) s;
     s = on_rooms (\<lambda>r. r\<lparr>rs_interest := snd (interest_Remove (cn_ID conn) (rs_interest r))\<rparr>) s
   in releaseLocksOnDisconnect env now (cn_ID conn) s)"

definition end_connection :: "server_env \<Rightarrow> time \<Rightarrow> string \<Rightarrow> string \<Rightarrow> connection \<Rightarrow> server \<Rightarrow> server" where
  "end_connection env now reason transport conn s =
     close_connection env now conn (snd (recordClose conn transport (cn_ConnectedAt conn) now
       (on_rooms (peer_Close reason conn) s)))"

definition runConnection_end :: "server_env \<Rightarrow> time \<Rightarrow> read_failure \<Rightarrow> connection \<Rightarrow> server \<Rightarrow> server" where
  "runConnection_end env now err conn s =
     end_connection env now (if rf_Canceled err then ''server shutdown'' else wsReadEndReason err) ''websocket'' conn s"

text \<open>A WebTransport session ends with its context, its datagrams, its stream or its watchdog.\<close>

datatype wt_end = ContextDone | DatagramsEnded read_failure | StreamEnded read_failure | IdleTick

fun wt_end_reason :: "wt_end \<Rightarrow> string" where
  "wt_end_reason ContextDone = ''server shutdown''"
| "wt_end_reason (DatagramsEnded err) = wtReadEndReason err ''datagram read ended''"
| "wt_end_reason (StreamEnded err) = wtReadEndReason err ''control stream ended''"
| "wt_end_reason IdleTick = ''idle timeout''"

definition watch_interval :: "duration \<Rightarrow> duration" where
  "watch_interval idleTimeout = (let interval = go_div idleTimeout 4 in
     if interval < 10 * Millisecond then 10 * Millisecond else interval)"

text \<open>
  One tick of the watchdog: whether it ends the session, because the connection is closed already (then
  its further close changes nothing) or because it has been idle for too long.
\<close>

definition watchIdle :: "config \<Rightarrow> time \<Rightarrow> connection \<Rightarrow> server \<Rightarrow> bool" where
  "watchIdle cfg now conn s \<longleftrightarrow> isClosed (cs_queues (conn_of (sr_rooms s) conn)) \<or>
     idleFor now (cs_queues (conn_of (sr_rooms s) conn)) > cf_SessionIdleTimeout cfg"

definition runWebTransportSession_end ::
  "server_env \<Rightarrow> config \<Rightarrow> time \<Rightarrow> wt_end \<Rightarrow> connection \<Rightarrow> server \<Rightarrow> server" where
  "runWebTransportSession_end env cfg now cause conn s =
     (if cause = IdleTick \<and> \<not> watchIdle cfg now conn s then s
      else end_connection env now (wt_end_reason cause) ''webtransport'' conn s)"

text \<open>An inbound WebTransport frame marks the client active first.\<close>

definition wt_frame :: "server_env \<Rightarrow> time \<Rightarrow> connection \<Rightarrow> bytes \<Rightarrow> server \<Rightarrow> frame_result \<times> server" where
  "wt_frame env now conn data s = handleClientFrame env now conn data
     (on_rooms (upd_conn (\<lambda>c. c\<lparr>cs_queues := markActivity now (cs_queues c)\<rparr>) conn) s)"

section \<open>The main program\<close>

text \<open>Identifiers are the random bytes in base64; the text is the clock's, for a failed random source.\<close>

definition newID :: "bytes option \<Rightarrow> string \<Rightarrow> string" where
  "newID entropy clock = (case entropy of None \<Rightarrow> clock | Some buffer \<Rightarrow> b64url buffer)"

definition expireLocks_tick :: "server_env \<Rightarrow> time \<Rightarrow> server \<Rightarrow> server" where
  "expireLocks_tick env now s = (case sr_locks s of
     None \<Rightarrow> s
   | Some locks \<Rightarrow> (let
       (expired, locks) = locks_SweepExpired memory_lock_ops now locks;
       s = s\<lparr>sr_locks := Some locks\<rparr>;
       s = fold (\<lambda>lock. on_rooms (Announce (ev_newID env) now (lk_NoteID lock) [] ''block.lock.expired''
             (holder_json (PublicHolderOf lock)))) expired s
     in if expired \<noteq> [] then store_active_locks s else s))"

definition sweepLoop_tick :: "server_env \<Rightarrow> config \<Rightarrow> time \<Rightarrow> server \<Rightarrow> server" where
  "sweepLoop_tick env cfg now s = (let
     (tickets, ss) = SweepTickets (ev_deps env) now (sr_sessions s);
     (_, ss) = SweepSessions (ev_deps env) (cf_SessionIdleTimeout cfg) now ss;
     s = s\<lparr>sr_sessions := ss\<rparr>
   in if tickets > 0 then count_metric (\<lambda>m. m\<lparr>mt_TicketsExpired := mt_TicketsExpired m + int tickets\<rparr>) s else s)"

text \<open>
  The shutdown of \<open>run\<close>: fail readiness (\<open>StartDraining\<close>), announce the drain, wait, close. Each is a step of its own; other
  work may run between them.
\<close>

definition begin_drain :: "server_env \<Rightarrow> config \<Rightarrow> time \<Rightarrow> server \<Rightarrow> server" where
  "begin_drain env cfg now s = on_rooms (\<lambda>r. snd (BeginDrain (ev_newID env) now (cf_ShutdownGrace cfg) r)) s"

definition finish_shutdown :: "server \<Rightarrow> server" where
  "finish_shutdown s = on_rooms (\<lambda>r. snd (CloseAll ''server draining'' r)) s"

text \<open>
  What \<open>run\<close> builds from the configuration. The connection table and the table of limits are total
  functions of the address; their values before an address is handed out are never read.
\<close>

definition lock_settings_of :: "config \<Rightarrow> lock_settings" where
  "lock_settings_of cfg = NewBlockLockService
     \<lparr>bs_Lease = cf_BlockLockLease cfg, bs_MaxPerSession = cf_MaxActiveBlockLocksPerSess cfg, bs_SweepThreshold = 0\<rparr>"

definition NewHandlers :: "server \<Rightarrow> hmac_validator \<Rightarrow> config \<Rightarrow> time \<Rightarrow> site" where
  "NewHandlers srv hmac cfg now = \<lparr>si_server = srv, si_hmac = hmac,
     si_bootstrap = NewBootstrapLimiter
       \<lparr>bls_PerUserPerMinute = cf_BootstrapRatePerUserPerMinute cfg, bls_PerUserBurst = cf_BootstrapBurstPerUser cfg,
        bls_PerIPPerMinute = cf_BootstrapRatePerIPPerMinute cfg, bls_PerIPBurst = cf_BootstrapBurstPerIP cfg\<rparr> now,
     si_admitted = [], si_upgrading = [], si_joining = [], si_nextRef = 0\<rparr>"

declare NewHandlers_def [simp]

definition run_site :: "config \<Rightarrow> time \<Rightarrow> conn_state \<Rightarrow> site" where
  "run_site cfg now unused = (let
     rooms = SetInterest (Some NewMemoryInterestIndex) True
       (SetMaxWebRTCPeers (cf_WebRTCMaxPeers cfg) (NewRoomService (\<lambda>_. unused) (Some metrics_New)))
   in NewHandlers
        \<lparr>sr_rooms = rooms, sr_sessions = \<lparr>sv_sessions = NewMemorySessionStore, sv_tickets = NewMemoryTicketStore\<rparr>,
         sr_locks = Some NewMemoryLockStore, sr_limits = (\<lambda>_. NewRateLimits (rateLimits cfg) now), sr_draining = False\<rparr>
        (NewHMACValidator
         \<lparr>hk_KeyID = cf_InternalHMACCurrentKeyID cfg, hk_Secret = cf_InternalHMACCurrentSecret cfg\<rparr>
         \<lparr>hk_KeyID = cf_InternalHMACPreviousKeyID cfg, hk_Secret = cf_InternalHMACPreviousSecret cfg\<rparr>
         (cf_InternalHMACMaxClockSkew cfg)) cfg now)"

section \<open>Serving a request\<close>

text \<open>
  The router behind the CORS wrapper: the echoed origin, and the response, or none when the request
  went on to its upgrade.
\<close>

definition serve ::
  "server_env \<Rightarrow> config \<Rightarrow> bytes option \<Rightarrow> time \<Rightarrow> http_request \<Rightarrow> site \<Rightarrow> (string option \<times> http_response option) \<times> site" where
  "serve env cfg entropy now r s =
     (let path = hr_Path (hq_signed r); method = hr_Method (hq_signed r);
          answer = (\<lambda>echo (resp, s). ((echo, Some resp), s)) in
      case withCORS (cf_AllowedOrigins cfg) (hq_Origin r) path method of
        CorsForbidden \<Rightarrow> ((None, Some (403, TextBody ''forbidden'')), s)
      | CorsPreflight echo \<Rightarrow> ((echo, Some (204, TextBody [])), s)
      | CorsNext echo \<Rightarrow> (case NewRouter method path of
          None \<Rightarrow> answer echo ((if NewRouter ''GET'' path \<noteq> None \<or> NewRouter ''POST'' path \<noteq> None then 405 else 404, TextBody []), s)
        | Some EpHealthz \<Rightarrow> answer echo (Healthz, s)
        | Some EpReadyz \<Rightarrow> answer echo (Readyz s, s)
        | Some EpMetrics \<Rightarrow> answer echo ((200, case rs_metrics (sr_rooms (si_server s)) of
            Some m \<Rightarrow> MetricsBody (Snapshot m) | None \<Rightarrow> TextBody []), s)
        | Some EpBootstrap \<Rightarrow> answer echo (handler_Bootstrap env cfg entropy now r s)
        | Some EpWebSocket \<Rightarrow> (let (resp, s) = ServeWebSocket_admit env cfg now r s in ((echo, resp), s))
        | Some EpRevokeSession \<Rightarrow> answer echo (handler_RevokeSession env now r s)
        | Some EpHistoryPreviews \<Rightarrow> answer echo (RegisterHistoryPreview env now r s)
        | Some (EpHistoryRevoke n u) \<Rightarrow> answer echo (RevokeHistoryPreviews now n u r s)
        | Some EpPermission \<Rightarrow> answer echo (handler_UpdateSessionPermission env now r s)
        | Some (EpRevokeUser n u) \<Rightarrow> answer echo (handler_RevokeUserFromNote env now n u r s)))"

end
