(* ===== verification/Site_Machine.thy ===== *)
theory Site_Machine
  imports Server_Safe Site
begin

text \<open>
  The program as a transition system: every request, every stage of an upgrade, every inbound frame, write, tick and
  shutdown stage is a step, in any order and at any instants, with whatever the network and the random source
  deliver. An upgrade has three stages after the request that redeemed its ticket (the second readiness check, the
  transport and the check in \<open>Join\<close>, the room), and a shutdown three, so a drain may begin between any two of them.
  The invariant of the server holds in every state it can reach.
\<close>

section \<open>Steps\<close>

definition pump_conn ::
  "(conn_metrics \<Rightarrow> conn_metrics) \<Rightarrow> connection \<Rightarrow> room_service \<Rightarrow> room_service" where
  "pump_conn f conn r = (case f (conn_of r conn, rs_metrics r) of (c, m) \<Rightarrow>
     r\<lparr>rs_conns := (rs_conns r)(cn_Ref conn := c), rs_metrics := m\<rparr>)"

inductive site_step :: "server_env \<Rightarrow> config \<Rightarrow> site \<Rightarrow> site \<Rightarrow> bool" for env cfg where
  request: "site_step env cfg s (snd (serve env cfg entropy now r s))"
| wt_request: "site_step env cfg s (snd (ServeWebTransport_admit env cfg now r s))"
| ws_upgrade: "ticket \<in> set (si_admitted s) \<Longrightarrow> site_step env cfg s (snd (ServeWebSocket_upgrade ticket s))"
| wt_upgrade: "ticket \<in> set (si_admitted s) \<Longrightarrow> site_step env cfg s (snd (ServeWebTransport_upgrade ticket s))"
| ws_accept: "ticket \<in> set (si_upgrading s) \<Longrightarrow>
    site_step env cfg s (ServeWebSocket_accept env cfg now accepted ticket s)"
| wt_accept: "ticket \<in> set (si_upgrading s) \<Longrightarrow>
    site_step env cfg s (ServeWebTransport_accept env cfg now upgraded stream ticket s)"
| ws_join: "j \<in> set (si_joining s) \<Longrightarrow> site_step env cfg s (runConnection_join env cfg now j s)"
| wt_join: "j \<in> set (si_joining s) \<Longrightarrow> site_step env cfg s (runWebTransportSession_join env cfg now j s)"
| ws_frame: "cn_Ref conn < si_nextRef s \<Longrightarrow>
    site_step env cfg s (on_server (\<lambda>v. snd (handleClientFrame env now conn data v)) s)"
| wt_frame: "cn_Ref conn < si_nextRef s \<Longrightarrow>
    site_step env cfg s (on_server (\<lambda>v. snd (wt_frame env now conn data v)) s)"
| ws_pump: "cn_Ref conn < si_nextRef s \<Longrightarrow>
    site_step env cfg s (on_server (on_rooms (pump_conn (ws_writePump wire ev) conn)) s)"
| wt_pump: "cn_Ref conn < si_nextRef s \<Longrightarrow>
    site_step env cfg s (on_server (on_rooms (pump_conn (wt_writePump wire ev) conn)) s)"
| ws_end: "cn_Ref conn < si_nextRef s \<Longrightarrow>
    site_step env cfg s (on_server (runConnection_end env now err conn) s)"
| wt_end: "cn_Ref conn < si_nextRef s \<Longrightarrow>
    site_step env cfg s (on_server (runWebTransportSession_end env cfg now cause conn) s)"
| lock_tick: "site_step env cfg s (on_server (expireLocks_tick env now) s)"
| sweep_tick: "site_step env cfg s (on_server (sweepLoop_tick env cfg now) s)"
| readiness: "site_step env cfg s (on_server StartDraining s)"
| drain: "site_step env cfg s (on_server (begin_drain env cfg now) s)"
| closing: "site_step env cfg s (on_server finish_shutdown s)"

inductive_cases site_stepE: "site_step env cfg s t"

section \<open>Every step keeps the invariant\<close>

text \<open>The redeemed tickets that have no connection yet, wherever their upgrade stands.\<close>

definition pending_tickets :: "site \<Rightarrow> connection_ticket set" where
  "pending_tickets s = set (si_admitted s) \<union> set (si_upgrading s) \<union> snd ` set (si_joining s)"

definition site_ok :: "site \<Rightarrow> bool" where
  "site_ok s \<longleftrightarrow> server_ok (si_nextRef s) (si_server s) \<and> (\<forall>t \<in> pending_tickets s. Valid (tk_Permission t))"

lemma pending_simps [simp]:
  "pending_tickets (s\<lparr>si_server := v\<rparr>) = pending_tickets s" "pending_tickets (s\<lparr>si_nextRef := n\<rparr>) = pending_tickets s"
  "pending_tickets (s\<lparr>si_hmac := h\<rparr>) = pending_tickets s" "pending_tickets (s\<lparr>si_bootstrap := l\<rparr>) = pending_tickets s"
  "pending_tickets (s\<lparr>si_admitted := ts\<rparr>) = set ts \<union> set (si_upgrading s) \<union> snd ` set (si_joining s)"
  "pending_tickets (s\<lparr>si_upgrading := ts\<rparr>) = set (si_admitted s) \<union> set ts \<union> snd ` set (si_joining s)"
  "pending_tickets (s\<lparr>si_joining := js\<rparr>) = set (si_admitted s) \<union> set (si_upgrading s) \<union> snd ` set js"
  by (auto simp: pending_tickets_def)

lemma site_ok_frame [simp]:
  "site_ok (s\<lparr>si_hmac := v\<rparr>) = site_ok s" "site_ok (s\<lparr>si_bootstrap := l\<rparr>) = site_ok s"
  by (simp_all add: site_ok_def)

text \<open>Tickets may be dropped, and moved on to the next stage.\<close>

lemma site_ok_pending:
  assumes "site_ok s" "si_server t = si_server s" "si_nextRef t = si_nextRef s" "pending_tickets t \<subseteq> pending_tickets s"
  shows "site_ok t"
  using assms by (auto simp: site_ok_def)

lemma site_ok_dropped:
  "site_ok s \<Longrightarrow> site_ok (s\<lparr>si_admitted := remove1 ticket (si_admitted s)\<rparr>)"
  "site_ok s \<Longrightarrow> site_ok (s\<lparr>si_upgrading := remove1 ticket (si_upgrading s)\<rparr>)"
  "site_ok s \<Longrightarrow> site_ok (s\<lparr>si_joining := remove1 j (si_joining s)\<rparr>)"
  by (erule site_ok_pending; auto simp: pending_tickets_def dest: set_remove1_subset [THEN subsetD])+

lemma site_ok_on:
  "site_ok s \<Longrightarrow> (\<And>n. server_ok n (si_server s) \<Longrightarrow> server_ok n (f (si_server s))) \<Longrightarrow> site_ok (on_server f s)"
  by (simp add: site_ok_def on_server_def)

lemma site_ok_session:
  "site_ok s \<Longrightarrow> service_safe ss \<Longrightarrow> site_ok (on_server (\<lambda>v. v\<lparr>sr_sessions := ss\<rparr>) s)"
  by (intro site_ok_on server_ok_sessions)

lemma site_okD: "site_ok s \<Longrightarrow> service_safe (sr_sessions (si_server s))"
  "site_ok s \<Longrightarrow> rooms_ok (si_nextRef s) (sr_rooms (si_server s))"
  "site_ok s \<Longrightarrow> server_ok (si_nextRef s) (si_server s)"
  "site_ok s \<Longrightarrow> t \<in> pending_tickets s \<Longrightarrow> Valid (tk_Permission t)"
  by (simp_all add: site_ok_def server_ok_def)

subsection \<open>The handlers\<close>

lemma authenticate_keeps:
  assumes "authenticateInternal now r s = (x, s')"
  shows "si_server s' = si_server s" "si_nextRef s' = si_nextRef s" "site_ok s' = site_ok s" "si_joining s' = si_joining s"
    "si_upgrading s' = si_upgrading s"
  using assms by (auto simp: authenticateInternal_def site_ok_def split: if_splits option.splits prod.splits sum.splits)

lemma site_ok_Bootstrap:
  assumes env: "memory_env env" and ok: "site_ok s"
  shows "site_ok (snd (handler_Bootstrap env cfg entropy now r s))"
proof -
  have b: "service_safe ss" if "Bootstrap (ev_deps env) entropy token now (sr_sessions (si_server s)) = (x, ss)" for token x ss
    using service_safe_result(1) [OF env site_okD(1) [OF ok] that] .
  have r: "service_safe (snd (RevokeSession (ev_deps env) sid ss))" if "service_safe ss" for sid ss
    using service_safe_calls(4) [OF env that] .
  show ?thesis
    using ok r by (auto simp: handler_Bootstrap_def Let_def on_server_def site_ok_def server_ok_sessions split: prod.split bool.split sum.split dest!: b)
qed

lemma site_ok_RevokeSession:
  assumes env: "memory_env env" and ok: "site_ok s"
  shows "site_ok (snd (handler_RevokeSession env now r s))"
proof -
  obtain x s1 where a: "authenticateInternal now r s = (x, s1)" by fastforce
  note k = authenticate_keeps [OF a]
  have site1: "site_ok s1" using ok k by simp
  note ok1 = site_okD(3) [OF site1]
  have "service_safe ss" if "RevokeSession (ev_deps env) sid (sr_sessions (si_server s1)) = (y, ss)" for sid y ss
    using service_safe_result(4) [OF env server_okD(2) [OF ok1] that] .
  moreover have "rooms_ok (si_nextRef s1) rooms" if "DisconnectSession sid why (sr_rooms (si_server s1)) = (d, rooms)" for sid why d rooms
    using rooms_ok_Disconnect(1) [OF server_okD(1) [OF ok1], of sid why] that by simp
  ultimately show ?thesis
    using site1 a by (auto simp: handler_RevokeSession_def Let_def on_server_def site_ok_def server_ok_def split: prod.split sum.split)
qed

lemma site_ok_UpdatePermission:
  assumes env: "memory_env env" and ok: "site_ok s"
  shows "site_ok (snd (handler_UpdateSessionPermission env now r s))"
proof -
  obtain x s1 where a: "authenticateInternal now r s = (x, s1)" by fastforce
  note k = authenticate_keeps [OF a]
  have site1: "site_ok s1" using ok k by simp
  note ok1 = site_okD(3) [OF site1]
  have "service_safe ss" if "UpdateSessionPermission (ev_deps env) sid p (sr_sessions (si_server s1)) = (y, ss)" for sid p y ss
    using service_safe_result(6) [OF env server_okD(2) [OF ok1] that] .
  moreover have "rooms_ok (si_nextRef s1) rooms" if "ApplyPermission sid p (sr_rooms (si_server s1)) = (d, rooms)" "Valid p" for sid p d rooms
    using rooms_ok_ApplyPermission [OF server_okD(1) [OF ok1] that(2), of sid] that(1) by simp
  ultimately show ?thesis
    using site1 a by (auto simp: handler_UpdateSessionPermission_def Let_def on_server_def site_ok_def server_ok_def ParsePermission_Inr
        split: prod.split sum.split)
qed

lemma previews_ok_Revoke: "previews_ok p \<Longrightarrow> previews_ok (Revoke nid uid p)"
  using previews_ok_step [of p "PRevoke nid uid"] by simp

lemma rooms_ok_permits: "rooms_ok n r \<Longrightarrow> previews_ok (rs_previews r)"
  by (simp add: rooms_ok_def)

lemma site_ok_RevokeUser:
  assumes env: "memory_env env" and ok: "site_ok s"
  shows "site_ok (snd (handler_RevokeUserFromNote env now nid uid r s))"
proof -
  obtain x s1 where a: "authenticateInternal now r s = (x, s1)" by fastforce
  note k = authenticate_keeps [OF a]
  have site1: "site_ok s1" using ok k by simp
  note ok1 = site_okD(3) [OF site1]
  have "service_safe ss" if "RevokeUserFromNote (ev_deps env) nid uid (sr_sessions (si_server s1)) = (y, ss)" for y ss
    using service_safe_result(5) [OF env server_okD(2) [OF ok1] that] .
  moreover have "rooms_ok (si_nextRef s1) (rooms\<lparr>rs_previews := Revoke nid uid (rs_previews rooms)\<rparr>)"
    if "DisconnectUserFromNote nid uid why (sr_rooms (si_server s1)) = (d, rooms)" for why d rooms
    using rooms_ok_Disconnect(2) [OF server_okD(1) [OF ok1], of nid uid why] that
    by (intro rooms_ok_previews previews_ok_Revoke) (auto dest: rooms_ok_permits)
  ultimately show ?thesis
    using site1 a by (auto simp: handler_RevokeUserFromNote_def Let_def on_server_def site_ok_def server_ok_def split: prod.split sum.split)
qed

lemma site_ok_previews:
  "site_ok s \<Longrightarrow> previews_ok p \<Longrightarrow> site_ok (on_server (on_rooms (\<lambda>v. v\<lparr>rs_previews := p\<rparr>)) s)"
  by (intro site_ok_on server_ok_on_rooms rooms_ok_previews)

lemma site_ok_Register:
  assumes ok: "site_ok s"
  shows "site_ok (snd (RegisterHistoryPreview env now r s))"
proof -
  obtain x s1 where a: "authenticateInternal now r s = (x, s1)" by fastforce
  note k = authenticate_keeps [OF a]
  have ok1: "site_ok s1" using ok k by simp
  have "site_ok (on_server (on_rooms (\<lambda>v. v\<lparr>rs_previews := snd (Register permit now
      (rs_previews (sr_rooms (si_server s1))))\<rparr>)) s1)" for permit
    by (intro site_ok_previews previews_ok_Register ok1 rooms_ok_permits [OF site_okD(2) [OF ok1]])
  then show ?thesis
    using ok1 a by (simp add: RegisterHistoryPreview_def Let_def case_prod_unfold split: sum.split)
qed

lemma site_ok_RevokePreviews:
  assumes ok: "site_ok s"
  shows "site_ok (snd (RevokeHistoryPreviews now nid uid r s))"
proof -
  obtain x s1 where a: "authenticateInternal now r s = (x, s1)" by fastforce
  then have "site_ok s1" using ok authenticate_keeps by simp
  then have "site_ok (on_server (on_rooms (\<lambda>v. v\<lparr>rs_previews := Revoke nid uid (rs_previews v)\<rparr>)) s1)"
    by (intro site_ok_on server_ok_on_rooms rooms_ok_previews previews_ok_Revoke) (auto dest: rooms_ok_permits)
  with a \<open>site_ok s1\<close> show ?thesis by (simp add: RevokeHistoryPreviews_def split: sum.split)
qed

lemma site_ok_admit:
  assumes env: "memory_env env" and ok: "site_ok s"
  shows "site_ok (snd (ServeWebSocket_admit env cfg now r s))" "site_ok (snd (ServeWebTransport_admit env cfg now r s))"
proof -
  have "service_safe ss" if "ConsumeTicket (ev_deps env) v now (sr_sessions (si_server s)) = (x, ss)" for v x ss
    using service_safe_result(3) [OF env site_okD(1) [OF ok] that] .
  moreover have "Valid (tk_Permission t)" if "ConsumeTicket (ev_deps env) v now (sr_sessions (si_server s)) = (Inr t, ss)" for v t ss
    using service_safe_result(8) [OF env site_okD(1) [OF ok] that] .
  ultimately show "site_ok (snd (ServeWebSocket_admit env cfg now r s))" "site_ok (snd (ServeWebTransport_admit env cfg now r s))"
    using ok by (auto simp: ServeWebSocket_admit_def ServeWebTransport_admit_def on_server_def site_ok_def pending_tickets_def server_ok_sessions
        split: prod.split sum.split)
qed

lemma site_ok_serve:
  assumes "memory_env env" "site_ok s"
  shows "site_ok (snd (serve env cfg entropy now r s))"
  using assms
  by (simp add: serve_def Let_def case_prod_unfold site_ok_Bootstrap site_ok_RevokeSession site_ok_UpdatePermission
      site_ok_RevokeUser site_ok_Register site_ok_RevokePreviews site_ok_admit
      split: cors_result.split option.split endpoint.split)

subsection \<open>Connections\<close>

lemma site_ok_open:
  assumes ok: "site_ok s" and c: "conn_ok c"
    and join: "\<And>conn r. cn_Ref conn = si_nextRef s \<Longrightarrow> rooms_ok (si_nextRef s) r \<Longrightarrow> rooms_ok (Suc (si_nextRef s)) (join conn r)"
  shows "site_ok (snd (open_connection env cfg openedAt join ticket c s))"
proof -
  have "rooms_ok (si_nextRef s) ((sr_rooms (si_server s))\<lparr>rs_ids := i,
      rs_conns := (rs_conns (sr_rooms (si_server s)))(si_nextRef s := c)\<rparr>)" for i
    using rooms_ok_put [of _ "(sr_rooms (si_server s))\<lparr>rs_ids := i\<rparr>" c] site_okD(2) [OF ok] c by simp
  then have "rooms_ok (Suc (si_nextRef s)) (join conn ((sr_rooms (si_server s))\<lparr>rs_ids := i,
      rs_conns := (rs_conns (sr_rooms (si_server s)))(si_nextRef s := c)\<rparr>))" if "cn_Ref conn = si_nextRef s" for conn i
    using that by (intro join)
  then show ?thesis
    using ok by (simp add: open_connection_def Let_def site_ok_def count_rooms_def)
      (simp add: server_ok_def on_rooms_def)
qed

text \<open>A connection that nothing interrupts on its way into the room: the two stages are one \<open>Join\<close>.\<close>

lemma open_then_join:
  assumes "makechan_ok (cf_ReliableQueueSize cfg)" "\<not> IsDraining (sr_rooms (si_server s))" "(now, ticket) \<notin> set (si_joining s)"
  shows "runConnection_join env cfg now (now, ticket) (runConnection_open env cfg now ticket s) =
      snd (open_connection env cfg now (svc_Join (ev_newID env) now) ticket (ws_object cfg ticket) s)"
    and "runWebTransportSession_join env cfg now (now, ticket) (runWebTransportSession_open env cfg now True ticket s) =
      open_session env cfg now (svc_Join (ev_newID env) now) ticket s"
  using assms
  by (simp_all add: runConnection_join_def runConnection_open_def runWebTransportSession_join_def runWebTransportSession_open_def
      open_session_def open_connection_def on_rooms_def svc_Join_def IsDraining_def remove1_append Let_def case_prod_unfold)

lemma site_ok_mark:
  "site_ok s \<Longrightarrow> site_ok (on_server (on_rooms (upd_conn (\<lambda>c. c\<lparr>cs_queues := markActivity now (cs_queues c)\<rparr>) conn)) s)"
  by (intro site_ok_on server_ok_on_rooms rooms_ok_upd) (auto simp: conn_ok_activity dest: rooms_ok_conn)

lemma site_ok_opened:
  assumes "site_ok s" "Valid (tk_Permission ticket)"
  shows "site_ok (snd (open_connection env cfg openedAt (svc_Join ids now) ticket (ws_object cfg ticket) s))"
    "site_ok (snd (open_connection env cfg openedAt (join_room ids now) ticket (ws_object cfg ticket) s))"
    "site_ok (open_session env cfg openedAt (svc_Join ids now) ticket s)"
    "site_ok (open_session env cfg openedAt (join_room ids now) ticket s)"
  using assms conn_ok_new [OF assms(2)]
  by (auto simp: ws_object_def wt_object_def open_session_def case_prod_unfold Let_def
      intro!: site_ok_open site_ok_mark rooms_ok_Join rooms_ok_join_room)

lemma site_ok_upgrade:
  assumes "site_ok s" "ticket \<in> set (si_admitted s)"
  shows "site_ok (snd (ServeWebSocket_upgrade ticket s))" "site_ok (snd (ServeWebTransport_upgrade ticket s))"
  using assms
  by (auto simp: ServeWebSocket_upgrade_def ServeWebTransport_upgrade_def Let_def site_ok_dropped pending_tickets_def
      dest: set_remove1_subset [THEN subsetD] intro!: site_ok_pending [of s])

lemma site_ok_accept:
  assumes "site_ok s" "ticket \<in> set (si_upgrading s)"
  shows "site_ok (ServeWebSocket_accept env cfg now accepted ticket s)"
    "site_ok (ServeWebTransport_accept env cfg now upgraded stream ticket s)"
proof -
  let ?s = "s\<lparr>si_upgrading := remove1 ticket (si_upgrading s)\<rparr>"
  have ok: "site_ok ?s" by (rule site_ok_dropped [OF assms(1)])
  have v: "Valid (tk_Permission ticket)" using site_okD(4) [OF assms(1)] assms(2) by (simp add: pending_tickets_def)
  have "site_ok (?s\<lparr>si_joining := si_joining ?s @ [(now, ticket)]\<rparr>)"
    using assms by (auto simp: pending_tickets_def dest: set_remove1_subset [THEN subsetD] intro!: site_ok_pending [of s])
  then show "site_ok (ServeWebSocket_accept env cfg now accepted ticket s)"
    "site_ok (ServeWebTransport_accept env cfg now upgraded stream ticket s)"
    using ok site_ok_opened [OF ok v]
    by (simp_all add: ServeWebSocket_accept_def ServeWebTransport_accept_def runConnection_open_def runWebTransportSession_open_def Let_def)
qed

lemma site_ok_joins:
  assumes "site_ok s" "j \<in> set (si_joining s)"
  shows "site_ok (runConnection_join env cfg now j s)" "site_ok (runWebTransportSession_join env cfg now j s)"
proof -
  have v: "Valid (tk_Permission (snd j))" using site_okD(4) [OF assms(1)] assms(2) by (simp add: pending_tickets_def)
  note opened = site_ok_opened [OF site_ok_dropped(3) [OF assms(1)] v]
  show "site_ok (runConnection_join env cfg now j s)" "site_ok (runWebTransportSession_join env cfg now j s)"
    using opened by (simp_all add: runConnection_join_def runWebTransportSession_join_def)
qed

lemma server_ok_pump:
  assumes "server_ok n s" "\<And>cm. conn_ok (fst cm) \<Longrightarrow> conn_ok (fst (f cm))"
  shows "server_ok n (on_rooms (pump_conn f conn) s)"
  using assms(1) by (auto simp: pump_conn_def conn_of_def case_prod_unfold
      intro!: server_ok_on_rooms rooms_ok_put assms(2)) (erule rooms_ok_conn)

lemma server_ok_mark:
  "server_ok n s \<Longrightarrow> server_ok n (on_rooms (upd_conn (\<lambda>c. c\<lparr>cs_queues := markActivity now (cs_queues c)\<rparr>) conn) s)"
  by (intro server_ok_on_rooms rooms_ok_upd) (auto simp: conn_ok_activity dest: rooms_ok_conn)

lemma server_ok_close:
  assumes "server_ok n s"
  shows "server_ok n (end_connection env now reason kind conn s)"
proof -
  have rooms: "server_ok n (on_rooms (peer_Close why conn) t)" "server_ok n (on_rooms (svc_Leave (ev_newID env) now conn) t)"
    "server_ok n (on_rooms (\<lambda>r. r\<lparr>rs_interest := snd (interest_Remove (cn_ID conn) (rs_interest r))\<rparr>) t)"
    if "server_ok n t" for why t
    using that by (auto intro!: server_ok_on_rooms rooms_ok_Close rooms_ok_Leave rooms_ok_interest interest_keeps dest: rooms_ok_index)
  show ?thesis
    unfolding end_connection_def close_connection_def recordClose_def count_rooms_def Let_def snd_conv
    by (intro server_ok_release rooms server_ok_count [THEN iffD2] assms)
qed

subsection \<open>Ticks and shutdown\<close>

lemma server_ok_lock_tick:
  assumes "server_ok n s"
  shows "server_ok n (expireLocks_tick env now s)"
proof (cases "sr_locks s")
  case (Some l)
  then have "server_ok n (s\<lparr>sr_locks := Some (snd (locks_SweepExpired memory_lock_ops now l))\<rparr>)"
    using assms server_okD(3) by (intro server_ok_locks lock_wf_service) auto
  moreover from this have "server_ok n (fold (\<lambda>lock. on_rooms (Announce (ev_newID env) now (lk_NoteID lock) [] event (h lock))) (ls :: block_lock list)
      (s\<lparr>sr_locks := Some (snd (locks_SweepExpired memory_lock_ops now l))\<rparr>))" for event h ls
    by (auto intro!: server_ok_fold server_ok_on_rooms rooms_ok_Announce)
  ultimately show ?thesis using Some by (simp add: expireLocks_tick_def Let_def case_prod_unfold)
qed (simp add: expireLocks_tick_def assms)

lemma server_ok_sweep_tick:
  assumes "memory_env env" "server_ok n s"
  shows "server_ok n (sweepLoop_tick env cfg now s)"
  using assms service_safe_calls(8) [OF assms(1) server_okD(2) [OF assms(2)], of now]
  by (simp add: sweepLoop_tick_def Let_def case_prod_unfold server_ok_sessions service_safe_calls(9))

lemma server_ok_shutdown:
  "server_ok n (StartDraining s) = server_ok n s" "server_ok n s \<Longrightarrow> server_ok n (begin_drain env cfg now s)"
  "server_ok n s \<Longrightarrow> server_ok n (finish_shutdown s)"
  by (auto simp: begin_drain_def finish_shutdown_def StartDraining_def
      intro!: server_ok_on_rooms rooms_ok_BeginDrain rooms_ok_Disconnect)

lemma site_step_ok:
  assumes "memory_env env" "site_ok s" "site_step env cfg s t"
  shows "site_ok t"
  using assms(3) assms(1,2)
  by (cases rule: site_stepE)
    (auto simp: site_ok_serve site_ok_admit site_ok_upgrade site_ok_accept site_ok_joins server_ok_frame wt_frame_def server_ok_mark
      runConnection_end_def runWebTransportSession_end_def server_ok_close server_ok_lock_tick server_ok_sweep_tick
      server_ok_shutdown conn_ok_ws_writePump conn_ok_wt_writePump
      intro!: site_ok_on server_ok_pump)

interpretation running: machine "site_step env cfg" "\<lambda>s. memory_env env \<and> site_ok s" for env cfg
  by unfold_locales (blast intro: site_step_ok)

lemma service_safe_new: "service_safe \<lparr>sv_sessions = NewMemorySessionStore, sv_tickets = NewMemoryTicketStore\<rparr>"
  by (simp add: service_safe_def service_ok_wf NewMemorySessionStore_def NewMemoryTicketStore_def session_wf_def ticket_wf_def)

lemma site_ok_run: "conn_ok unused \<Longrightarrow> site_ok (run_site cfg now unused)"
  by (auto simp: site_ok_def pending_tickets_def server_ok_def service_safe_new rooms_ok_def run_site_def Let_def svc_wf_def room_wf_new SetInterest_def
      SetMaxWebRTCPeers_def NewRoomService_def NewMemoryRoomStore_def AllConnections_def previews_ok_def
      room_wf_new [unfolded NewMemoryRoomStore_def])

end
