(* ===== verification/Site_Example.thy ===== *)
theory Site_Example
  imports Site_Machine
begin

text \<open>
  A run of the program on a small configuration: a bootstrap, the redeemed ticket, the stages of the upgrade, the opened socket.
  The witnesses of the properties of the whole program start from it.
\<close>

section \<open>An example run\<close>

definition web_config :: config where
  "web_config = (read_config (\<lambda>_. None))\<lparr>cf_BootstrapRatePerUserPerMinute := Fin 0, cf_ReliableQueueSize := 8,
     cf_EphemeralQueueSize := 8\<rparr>"

definition web_env :: server_env where
  "web_env = \<lparr>ev_newID = nat_dec, ev_parse = (\<lambda>_. raw_nil), ev_deps = example_deps,
     ev_locks = lock_settings_of web_config\<rparr>"

definition web_request :: "string \<Rightarrow> string \<Rightarrow> http_request" where
  "web_request m path = \<lparr>hq_signed = \<lparr>hr_Method = m, hr_Path = path, hr_KeyID = [], hr_Nonce = [], hr_Signature = [],
       hr_Timestamp = []\<rparr>, hq_Host = [], hq_TLS = False, hq_Origin = [], hq_Authorization = ''Bearer tok'',
     hq_ForwardedFor = [], hq_RealIP = [], hq_ForwardedProto = [], hq_RemoteAddr = [], hq_ticket = ''AQID'', hq_Body = ([], False)\<rparr>"

definition web_ticket :: connection_ticket where
  "web_ticket = \<lparr>tk_Value = ''AQID'', tk_SessionID = ''s1'', tk_UserID = ''u1'', tk_NoteID = ''n1'',
     tk_Permission = PermissionEdit, tk_ExpiresAt = 35, tk_CreatedAt = 5\<rparr>"

lemma web_unused: "conn_ok (newWSConnection web_ticket 8 8)"
  by (rule conn_ok_new) (simp add: web_ticket_def Valid_def ParsePermission_def)

definition site0 where "site0 = run_site web_config 0 (newWSConnection web_ticket 8 8)"
definition site1 where "site1 = snd (serve web_env web_config example_entropy 5 (web_request ''POST'' ''/v1/sessions/bootstrap'') site0)"
definition site2 where "site2 = snd (serve web_env web_config None 6 (web_request ''GET'' ''/ws'') site1)"

lemma site0_sessions: "sr_sessions (si_server site0) = \<lparr>sv_sessions = NewMemorySessionStore, sv_tickets = NewMemoryTicketStore\<rparr>"
  "sr_draining (si_server site0) = False" "si_admitted site0 = []" "si_upgrading site0 = []" "si_joining site0 = []"
  by (simp_all add: site0_def run_site_def Let_def)

lemma site1_handler: "site1 = snd (handler_Bootstrap web_env web_config example_entropy 5 (web_request ''POST'' ''/v1/sessions/bootstrap'') site0)"
  by (simp add: site1_def serve_def Let_def case_prod_unfold withCORS_def isInternalPath_def NewRouter_def web_request_def note_user_path_def originAllowed.simps)

lemma web_bearer: "bearerToken (web_request m path) = ''tok''"
  by (simp add: bearerToken_def web_request_def EqualFold_def upper_char_def TrimSpace_def is_space_def)

lemma web_AllowUser: "AllowUser u now (si_bootstrap site0) = (True, si_bootstrap site0)"
  by (simp add: AllowUser_def site0_def run_site_def Let_def NewBootstrapLimiter_def web_config_def)

lemma web_AllowIP: "AllowIP [] now l = (True, l)"
  by (simp add: AllowIP_def)

lemma web_ip: "ClientIP (hq_ForwardedFor (web_request m p)) (hq_RealIP (web_request m p)) (hq_RemoteAddr (web_request m p)) = []"
  by (simp add: ClientIP_def web_request_def SplitHostPort_host_def last_index_of_def index_of_def)

lemma web_boot: "Bootstrap (ev_deps web_env) example_entropy ''tok'' 5 (sr_sessions (si_server site0)) =
   (Inr \<lparr>br_Session = \<lparr>ss_ID = ''s1'', ss_UserID = ''u1'', ss_NoteID = ''n1'', ss_Permission = PermissionEdit, ss_TokenJTI = ''j1'',
      ss_ExpiresAt = 300, ss_LastSeenAt = 5, ss_CreatedAt = 5\<rparr>, br_Ticket = web_ticket, br_TicketExpiresAt = 35\<rparr>,
    \<lparr>sv_sessions = \<lparr>st_sessions = [(''s1'', \<lparr>ss_ID = ''s1'', ss_UserID = ''u1'', ss_NoteID = ''n1'', ss_Permission = PermissionEdit, ss_TokenJTI = ''j1'',
      ss_ExpiresAt = 300, ss_LastSeenAt = 5, ss_CreatedAt = 5\<rparr>)]\<rparr>,
     sv_tickets = snd (ticket_Issue (Some web_ticket) NewMemoryTicketStore)\<rparr>)"
  by (simp add: site0_sessions web_env_def service_defs example_defs web_ticket_def b64_char_def b64_alphabet_def gm_put_def)

lemma site1_server: "si_server site1 = count_metric (\<lambda>m. m\<lparr>mt_TicketsIssued := mt_TicketsIssued m + 1\<rparr>)
   ((si_server site0)\<lparr>sr_sessions := snd (Bootstrap (ev_deps web_env) example_entropy ''tok'' 5 (sr_sessions (si_server site0)))\<rparr>)"
  "si_admitted site1 = []" "si_upgrading site1 = []" "si_joining site1 = []"
  by (simp_all add: site1_handler handler_Bootstrap_def site0_sessions(2-5) web_bearer web_ip web_AllowIP web_AllowUser web_boot on_server_def Let_def)

lemma admit_accepts:
  assumes "\<not> sr_draining (si_server s)" "hq_Origin r = []" "hq_ticket r \<noteq> []"
    "ConsumeTicket (ev_deps env) (hq_ticket r) now (sr_sessions (si_server s)) = (Inr ticket, ss)"
  shows "snd (ServeWebSocket_admit env cfg now r s) = (on_server (\<lambda>v. count_metric
      (\<lambda>m. m\<lparr>mt_TicketsConsumed := mt_TicketsConsumed m + 1\<rparr>) (v\<lparr>sr_sessions := ss\<rparr>)) s)
        \<lparr>si_admitted := si_admitted s @ [ticket]\<rparr>"
  using assms by (simp add: ServeWebSocket_admit_def)

lemma site1_rooms:
  "rs_rooms (sr_rooms (si_server site1)) = NewMemoryRoomStore" "rs_draining (sr_rooms (si_server site1)) = False"
  "sr_draining (si_server site1) = False" "sr_sessions (si_server site1) = snd (Bootstrap (ev_deps web_env) example_entropy ''tok'' 5
     (sr_sessions (si_server site0)))"
  by (simp_all add: site1_server count_metric_def on_rooms_def)
    (simp_all add: site0_def run_site_def Let_def SetInterest_def SetMaxWebRTCPeers_def NewRoomService_def)

lemma site1_ticket: "fst (ConsumeTicket (ev_deps web_env) ''AQID'' 6 (sr_sessions (si_server site1))) = Inr web_ticket"
  by (simp add: site1_rooms web_boot) (simp add: web_env_def service_defs example_defs web_ticket_def gm_put_def)

lemma site2_admit:
  "site2 = (on_server (\<lambda>v. count_metric (\<lambda>m. m\<lparr>mt_TicketsConsumed := mt_TicketsConsumed m + 1\<rparr>)
        (v\<lparr>sr_sessions := snd (ConsumeTicket (ev_deps web_env) ''AQID'' 6 (sr_sessions (si_server site1)))\<rparr>)) site1)
      \<lparr>si_admitted := [web_ticket]\<rparr>"
proof -
  have "site2 = snd (ServeWebSocket_admit web_env web_config 6 (web_request ''GET'' ''/ws'') site1)"
    by (simp add: site2_def serve_def Let_def case_prod_unfold withCORS_def isInternalPath_def NewRouter_def
        web_request_def originAllowed.simps)
  also have "\<dots> = (on_server (\<lambda>v. count_metric (\<lambda>m. m\<lparr>mt_TicketsConsumed := mt_TicketsConsumed m + 1\<rparr>)
        (v\<lparr>sr_sessions := snd (ConsumeTicket (ev_deps web_env) ''AQID'' 6 (sr_sessions (si_server site1)))\<rparr>)) site1)
      \<lparr>si_admitted := si_admitted site1 @ [web_ticket]\<rparr>"
    by (rule admit_accepts)
      (simp_all add: site1_rooms(3) web_request_def site1_ticket prod_eq_iff del: site1_rooms(4))
  finally show ?thesis by (simp add: site1_server(2))
qed

lemma site2_server:
  "si_admitted site2 = [web_ticket]" "sr_draining (si_server site2) = False"
  "rs_rooms (sr_rooms (si_server site2)) = NewMemoryRoomStore" "rs_draining (sr_rooms (si_server site2)) = False"
  "si_upgrading site2 = []" "si_joining site2 = []"
  by (simp_all add: site2_admit on_server_def count_metric_def on_rooms_def site1_rooms site1_server(3,4))

text \<open>The three stages of the upgrade: past the readiness check, past the check in \<open>Join\<close>, in the room.\<close>

definition site2a where "site2a = snd (ServeWebSocket_upgrade web_ticket site2)"
definition site2b where "site2b = ServeWebSocket_accept web_env web_config 7 True web_ticket site2a"
definition site3 where "site3 = runConnection_join web_env web_config 7 (7, web_ticket) site2b"

lemma site2_stages:
  "site2a = site2\<lparr>si_admitted := [], si_upgrading := [web_ticket]\<rparr>"
  "site2b = site2\<lparr>si_admitted := [], si_upgrading := [], si_joining := [(7, web_ticket)]\<rparr>"
  by (simp_all add: site2a_def site2b_def ServeWebSocket_upgrade_def ServeWebSocket_accept_def runConnection_open_def IsDraining_def
      makechan_ok_def web_config_def site2_server Let_def)

lemma first_has_no_peers: "Peers (cn_NoteID c) (cn_ID c) (snd (room_Join c NewMemoryRoomStore)) = []"
  unfolding Peers_def room_of_Join by (simp add: room_of_def NewMemoryRoomStore_def gm_put_def)

lemma site3_conn:
  "\<exists>e. oq_reliable (cs_queues (rs_conns (sr_rooms (si_server site3)) (si_nextRef site2))) = [e]"
  "\<not> isClosed (cs_queues (rs_conns (sr_rooms (si_server site3)) (si_nextRef site2)))"
  "si_nextRef site3 = Suc (si_nextRef site2)"
  using first_has_no_peers [of "\<lparr>cn_ID = nat_dec (rs_ids (sr_rooms (si_server site2))), cn_SessionID = ''s1'', cn_UserID = ''u1'',
      cn_NoteID = ''n1'', cn_ConnectedAt = 7, cn_Ref = si_nextRef site2\<rparr>"]
  by (simp_all add: site3_def site2_stages runConnection_join_def ws_object_def web_config_def site2_server
      open_connection_def Let_def case_prod_unfold count_rooms_def count_metric_def on_rooms_def join_room_def
      broadcastReliable_def service_envelope_def
      peer_SendReliable_def SendReliable_def conn_of_def pushReliable_def newWSConnection_def newOutboundQueues_def
      isClosed_def signal_def web_ticket_def web_env_def)

lemma web_run_joining: "reaches (site_step web_env web_config) site0 site2b"
proof -
  have "reaches (site_step web_env web_config) site0 site1"
    unfolding site1_def by (rule reaches.next_step, rule reaches.start, rule site_step.request)
  then have "reaches (site_step web_env web_config) site0 site2"
    unfolding site2_def by (rule reaches.next_step) (rule site_step.request)
  then have "reaches (site_step web_env web_config) site0 site2a"
    unfolding site2a_def by (rule reaches.next_step) (rule site_step.ws_upgrade, simp add: site2_server)
  then show ?thesis
    unfolding site2b_def by (rule reaches.next_step) (rule site_step.ws_accept, simp add: site2_stages)
qed

lemma web_run: "reaches (site_step web_env web_config) site0 site3"
  using web_run_joining unfolding site3_def by (rule reaches.next_step) (rule site_step.ws_join, simp add: site2_stages)

text \<open>A control request signed with the example key, on the state of the run.\<close>

definition control_request :: "string \<Rightarrow> bytes \<Rightarrow> http_request" where
  "control_request path body = (web_request ''POST'' path)\<lparr>hq_signed := \<lparr>hr_Method = ''POST'', hr_Path = path, hr_KeyID = ''k1'',
     hr_Nonce = ''n1'', hr_Signature = Sign ''secret'' (CanonicalRequest ''POST'' path 99 ''n1'' body), hr_Timestamp = FormatInt 99\<rparr>,
     hq_Body := (body, False)\<rparr>"

definition control_site :: site where
  "control_site = site3\<lparr>si_hmac := example_validator\<rparr>"

lemma control_request_accepted:
  assumes "length body \<le> 65536"
  shows "authenticateInternal (100 * Second) (control_request path body) control_site =
    (Inr body, control_site\<lparr>si_hmac := example_validator\<lparr>hv_nonces := [(''n1'', 100 * Second)]\<rparr>\<rparr>)"
  using assms example_drift(1) [simplified] ParseInt_FormatInt [of 99]
  by (simp add: authenticateInternal_def control_site_def control_request_def Configured_def example_validator_def
      NewHMACValidator_def example_key_def read_limited_def hmac_Validate_def secretFor_def rememberNonce_def Let_def
      gm_put_def gm_delete_where_eq)

end
