(* ===== verification/Site_Correct.thy ===== *)
theory Site_Correct
  imports Site_Example
begin

text \<open>
  Properties of the whole program: what holds in every reachable state, what the control plane lets
  through and what a revocation reaches.
\<close>

section \<open>Control requests\<close>

lemma hmac_Validate_refused: "hmac_Validate r body now v = (Inl e, v') \<Longrightarrow> v' = v"
  by (auto simp: hmac_Validate_def rememberNonce_def Let_def split: if_splits sum.splits option.splits prod.splits)

lemma authenticate_refused:
  "authenticateInternal now r s = (Inl e, s') \<Longrightarrow> s' = s"
  by (auto simp: authenticateInternal_def dest: hmac_Validate_refused split: if_splits option.splits prod.splits sum.splits)

lemma authenticate_accepted:
  "authenticateInternal now r s = (Inr body, s') \<Longrightarrow> Configured (si_hmac s) \<and> read_limited (hq_Body r) = Some body \<and>
     hmac_Validate (hq_signed r) body now (si_hmac s) = (Inr (), si_hmac s') \<and> s' = s\<lparr>si_hmac := si_hmac s'\<rparr>"
  by (auto simp: authenticateInternal_def split: if_splits option.splits prod.splits sum.splits)

text \<open>Nothing but a control handler is routed from an internal path.\<close>

lemma internal_routes:
  assumes "isInternalPath path"
  shows "NewRouter method path = None \<or> NewRouter method path \<in> {Some EpRevokeSession, Some EpHistoryPreviews, Some EpPermission} \<or>
    (\<exists>n u. NewRouter method path = Some (EpHistoryRevoke n u) \<or> NewRouter method path = Some (EpRevokeUser n u))"
proof -
  have "path \<noteq> ''/healthz''" "path \<noteq> ''/readyz''" "path \<noteq> ''/metrics''" "path \<noteq> ''/ws''" "path \<noteq> ''/v1/sessions/bootstrap''"
    using assms by (auto simp: isInternalPath_def)
  then show ?thesis by (simp add: NewRouter_def Let_def)
qed

lemma control_unchanged:
  assumes "authenticateInternal now r s = (Inl e, s')"
  shows "handler_RevokeSession env now r s = (e, s)" "RegisterHistoryPreview env now r s = (e, s)"
    "handler_UpdateSessionPermission env now r s = (e, s)" "RevokeHistoryPreviews now n u r s = (e, s)"
    "handler_RevokeUserFromNote env now n u r s = (e, s)"
  using assms authenticate_refused [OF assms]
  by (simp_all add: handler_RevokeSession_def RegisterHistoryPreview_def handler_UpdateSessionPermission_def
      RevokeHistoryPreviews_def handler_RevokeUserFromNote_def)

lemma internal_served:
  assumes "isInternalPath (hr_Path (hq_signed r))" "authenticateInternal now r s = (Inl e, s')"
  shows "snd (serve env cfg entropy now r s) = s"
  using internal_routes [OF assms(1), of "hr_Method (hq_signed r)"] control_unchanged [OF assms(2)]
  by (auto simp: serve_def Let_def split: cors_result.split)

section \<open>Properties\<close>

text \<open>
  C1. The invariant of the running program: in every state reached from start-up by any sequence of
  requests, upgrades, frames, writes, ticks and shutdown stages, each connection of the directory is
  found under its own note and id and has a transport object of its own, every reliable queue is
  within its capacity and every ephemeral queue within its bound with one frame per stream, at most
  1024 history permits exist, and the session, ticket, lock and interest stores are well formed.
\<close>

theorem reachable_state_safe:
  assumes "memory_env env" and "conn_ok unused" and "reaches (site_step env cfg) (run_site cfg start unused) s"
  shows "(\<forall>c \<in> set (AllConnections (rs_rooms (sr_rooms (si_server s)))).
      ConnectionByID (cn_NoteID c) (cn_ID c) (rs_rooms (sr_rooms (si_server s))) = Some c \<and> cn_Ref c < si_nextRef s) \<and>
    inj_on cn_Ref (set (AllConnections (rs_rooms (sr_rooms (si_server s))))) \<and>
    (\<forall>x. let q = cs_queues (rs_conns (sr_rooms (si_server s)) x) in
      length (oq_reliable q) \<le> oq_reliableSize q \<and> eph_wf q) \<and>
    length (rs_previews (sr_rooms (si_server s))) \<le> 1024 \<and> service_ok (sr_sessions (si_server s)) \<and>
    (case sr_locks (si_server s) of None \<Rightarrow> True | Some l \<Rightarrow> lock_wf l) \<and>
    (case rs_interest (sr_rooms (si_server s)) of None \<Rightarrow> True | Some i \<Rightarrow> index_wf i)"
proof -
  have "site_ok s" using running.reaches_inv [OF assms(3)] site_ok_run [OF assms(2)] assms(1) by simp
  then have ok: "rooms_ok (si_nextRef s) (sr_rooms (si_server s))" "service_safe (sr_sessions (si_server s))"
    "case sr_locks (si_server s) of None \<Rightarrow> True | Some l \<Rightarrow> lock_wf l"
    by (simp_all add: site_ok_def server_ok_def)
  then have wf: "room_wf (rs_rooms (sr_rooms (si_server s)))" by (simp add: rooms_ok_def svc_wf_def)
  have "ConnectionByID (cn_NoteID c) (cn_ID c) (rs_rooms (sr_rooms (si_server s))) = Some c"
    if "c \<in> set (AllConnections (rs_rooms (sr_rooms (si_server s))))" for c
    using that memory_rooms.set_everyone [OF wf] by blast
  with ok show ?thesis
    by (auto simp: rooms_ok_def svc_wf_def conn_ok_def queues_ok_def previews_ok_def service_safe_def Let_def)
qed

lemma web_env_memory: "memory_env web_env"
  by (auto simp: memory_env_def web_env_def)

lemma web_run_from: "reaches (site_step web_env web_config) (run_site web_config 0 (newWSConnection web_ticket 8 8)) site3"
  using web_run by (simp add: site0_def)

theorem reachable_state_safe_witness:
  "length (oq_reliable (cs_queues (rs_conns (sr_rooms (si_server site3)) 0))) \<le>
     oq_reliableSize (cs_queues (rs_conns (sr_rooms (si_server site3)) 0)) \<and> service_ok (sr_sessions (si_server site3))"
  using reachable_state_safe [OF web_env_memory web_unused web_run_from] by (simp add: Let_def)

text \<open>
  C13. Permissions are well typed throughout: in every reachable state each stored session, each unspent
  ticket, each redeemed ticket at whatever stage of its upgrade and each live connection holds one of the four
  permissions of the vocabulary, so no token, refresh or control request can bring in a permission the
  role checks do not know.
\<close>

theorem permissions_well_typed:
  assumes "memory_env env" and "conn_ok unused" and "reaches (site_step env cfg) (run_site cfg start unused) s"
  shows "(\<forall>k x. session_view (sv_sessions (sr_sessions (si_server s))) k = Some x \<longrightarrow> Valid (ss_Permission x)) \<and>
    (\<forall>k t. ticket_view (sv_tickets (sr_sessions (si_server s))) k = Some t \<longrightarrow> Valid (tk_Permission t)) \<and>
    (\<forall>t \<in> pending_tickets s. Valid (tk_Permission t)) \<and>
    (\<forall>c. Valid (cs_permission (conn_of (sr_rooms (si_server s)) c)))"
proof -
  have ok: "site_ok s" using running.reaches_inv [OF assms(3)] site_ok_run [OF assms(2)] assms(1) by simp
  then have "conn_ok (conn_of (sr_rooms (si_server s)) c)" for c
    using rooms_ok_conn [OF site_okD(2)] by (simp add: conn_of_def)
  then show ?thesis
    using site_okD(1) [OF ok] site_okD(4) [OF ok] by (auto simp: service_safe_def conn_ok_def)
qed

theorem permissions_well_typed_witness:
  "Valid (cs_permission (rs_conns (sr_rooms (si_server site3)) (si_nextRef site2)))"
  using permissions_well_typed [OF web_env_memory web_unused web_run_from] unfolding conn_of_def
  by (metis connection.select_convs(6))



text \<open>
  C8. The control plane acts only on authenticated requests: whatever changes anything in the program
  from a path under \<open>/internal/\<close> came without an origin, to a configured control plane, with a body
  whose first 64 KiB carry a valid signature.
\<close>

theorem control_plane_authenticated:
  assumes "isInternalPath (hr_Path (hq_signed r))" and "snd (serve env cfg entropy now r s) \<noteq> s"
  shows "hq_Origin r = [] \<and> Configured (si_hmac s) \<and>
    (\<exists>body v. read_limited (hq_Body r) = Some body \<and> length body \<le> 65536 \<and>
       hmac_Validate (hq_signed r) body now (si_hmac s) = (Inr (), v))"
proof -
  have origin: "hq_Origin r = []"
    using assms by (rule_tac ccontr) (simp add: serve_def Let_def withCORS_def)
  obtain x s' where a: "authenticateInternal now r s = (x, s')" by fastforce
  with internal_served [OF assms(1)] assms(2) obtain body where "x = Inr body" by (cases x) auto
  with a authenticate_accepted have acc: "Configured (si_hmac s)" "read_limited (hq_Body r) = Some body"
    "hmac_Validate (hq_signed r) body now (si_hmac s) = (Inr (), si_hmac s')" by blast+
  moreover have "length body \<le> 65536" using acc(2) by (auto simp: read_limited_def case_prod_unfold split: if_splits)
  ultimately show ?thesis using origin by blast
qed

theorem control_plane_authenticated_witness:
  "\<exists>v. hmac_Validate (hq_signed (control_request ''/internal/v1/notes/n/users/u/history/revoke'' [])) [] (100 * Second)
     example_validator = (Inr (), v)"
proof -
  let ?r = "control_request ''/internal/v1/notes/n/users/u/history/revoke'' []"
  have path: "hr_Path (hq_signed ?r) = ''/internal/v1/notes/n/users/u/history/revoke''" "hr_Method (hq_signed ?r) = ''POST''"
    "hq_Origin ?r = []" "hq_Body ?r = ([], False)"
    by (simp_all add: control_request_def web_request_def)
  have "si_hmac (snd (serve web_env web_config None (100 * Second) ?r control_site)) =
      example_validator\<lparr>hv_nonces := [(''n1'', 100 * Second)]\<rparr>"
    using control_request_accepted [of "[]" "''/internal/v1/notes/n/users/u/history/revoke''"]
    by (simp add: serve_def Let_def path withCORS_def originAllowed.simps NewRouter_def note_user_path_def
        RevokeHistoryPreviews_def on_server_def)
  then have "snd (serve web_env web_config None (100 * Second) ?r control_site) \<noteq> control_site"
    by (auto simp: control_site_def example_validator_def NewHMACValidator_def dest: arg_cong [of _ _ si_hmac])
  from control_plane_authenticated [OF _ this] show ?thesis
    by (auto simp: isInternalPath_def path read_limited_def control_site_def)
qed

text \<open>
  C9. A revocation is immediate and complete for what is connected: after an authenticated request to
  revoke a session its record and its tickets are gone, every live connection of it is closed, and no
  other session and no connection of another session is touched.
\<close>

theorem revoke_ends_live_session:
  assumes "ev_deps env = memory_deps parse ttl" and "site_ok s"
    and "authenticateInternal now r s = (Inr body, s1)"
    and "unmarshal dec_revoke \<lparr>rq_SessionID = []\<rparr> (ev_parse env body) = (\<lparr>rq_SessionID = sid\<rparr>, False)" and "sid \<noteq> []"
  shows "let s' = si_server (snd (handler_RevokeSession env now r s)) in
    service_Session (ev_deps env) sid (sr_sessions s') = None \<and>
    (\<forall>v later t. fst (ConsumeTicket (ev_deps env) v later (sr_sessions s')) = Inr t \<longrightarrow> tk_SessionID t \<noteq> sid) \<and>
    (\<forall>other. other \<noteq> sid \<longrightarrow>
       service_Session (ev_deps env) other (sr_sessions s') = service_Session (ev_deps env) other (sr_sessions (si_server s))) \<and>
    (\<forall>c \<in> set (AllConnections (rs_rooms (sr_rooms (si_server s)))).
       if cn_SessionID c = sid then isClosed (cs_queues (conn_of (sr_rooms s') c))
       else conn_of (sr_rooms s') c = conn_of (sr_rooms (si_server s)) c)"
proof -
  let ?rooms = "sr_rooms (si_server s)"
  have same: "si_server s1 = si_server s" using authenticate_keeps(1) [OF assms(3)] .
  obtain removed where found: "fst (RevokeSession (ev_deps env) sid (sr_sessions (si_server s))) = Inr removed"
    using assms(5) by (auto simp: RevokeSession_def Let_def case_prod_unfold)
  then obtain ss where rev: "RevokeSession (ev_deps env) sid (sr_sessions (si_server s)) = (Inr removed, ss)"
    by (metis prod.collapse)
  have new: "si_server (snd (handler_RevokeSession env now r s)) =
      (si_server s)\<lparr>sr_sessions := ss, sr_rooms := snd (DisconnectSession sid ''session revoked'' ?rooms)\<rparr>"
    using assms(5) by (simp add: handler_RevokeSession_def assms(3,4) same rev Let_def case_prod_unfold on_server_def)
  have wf: "svc_wf ?rooms" "room_wf (rs_rooms ?rooms)"
    using site_okD(2) [OF assms(2)] by (simp_all add: rooms_ok_def svc_wf_def)
  have conns: "conn_of (snd (DisconnectSession sid why ?rooms)) c =
      (if cn_SessionID c = sid then conn_Close why (conn_of ?rooms c) else conn_of ?rooms c)"
    if c: "c \<in> set (AllConnections (rs_rooms ?rooms))" for why c
  proof -
    have "cn_Ref c \<in> cn_Ref ` set (ConnectionsForSession sid (rs_rooms ?rooms)) \<longleftrightarrow> cn_SessionID c = sid"
      using c wf by (auto simp: set_ConnectionsForSession svc_wf_def dest: inj_onD)
    then show ?thesis
      by (simp add: DisconnectSession_def close_all_def conn_of_def closing.fold_conns [OF session_refs [OF wf(1)]])
  qed
  have "service_ok (sr_sessions (si_server s))" using site_okD(1) [OF assms(2)] by (simp add: service_safe_def)
  note final = mem.Revoke_final [OF this [unfolded service_ok_wf] assms(5), where parse = parse and ttl = ttl, folded assms(1), unfolded rev snd_conv]
  have "service_Session (ev_deps env) sid ss = None \<and>
    (\<forall>v later t. fst (ConsumeTicket (ev_deps env) v later ss) = Inr t \<longrightarrow> tk_SessionID t \<noteq> sid) \<and>
    (\<forall>other. other \<noteq> sid \<longrightarrow> service_Session (ev_deps env) other ss = service_Session (ev_deps env) other (sr_sessions (si_server s)))"
    using final by blast
  then show ?thesis by (simp add: new conns)
qed

theorem revoke_ends_live_session_witness:
  "service_Session example_deps ''s1'' (sr_sessions (si_server (snd (handler_RevokeSession
     (web_env\<lparr>ev_parse := (\<lambda>_. marshal (JObj [jmem ''sessionId'' (JStr ''s1'')]))\<rparr>) (100 * Second)
     (control_request ''/internal/v1/sessions/revoke'' []) control_site)))) = None"
proof -
  let ?env = "web_env\<lparr>ev_parse := (\<lambda>_. marshal (JObj [jmem ''sessionId'' (JStr ''s1'')]))\<rparr>"
  have "site_ok site3" using running.reaches_inv [OF web_run_from] site_ok_run [OF web_unused] web_env_memory by simp
  then have ok: "site_ok control_site" by (simp add: control_site_def)
  have p: "unmarshal dec_revoke \<lparr>rq_SessionID = []\<rparr> (ev_parse ?env []) = (\<lparr>rq_SessionID = ''s1''\<rparr>, False)"
    by (simp add: unmarshal_def marshal_def dec_revoke_def dec_struct_def jmem_def dec_string_def EqualFold_def ascii_def)
  have d: "ev_deps ?env = example_deps" by (simp add: web_env_def)
  have a: "authenticateInternal (100 * Second) (control_request ''/internal/v1/sessions/revoke'' []) control_site =
      (Inr [], control_site\<lparr>si_hmac := example_validator\<lparr>hv_nonces := [(''n1'', 100 * Second)]\<rparr>\<rparr>)"
    by (rule control_request_accepted) simp
  from revoke_ends_live_session [OF d ok a p] show ?thesis by (simp add: Let_def d)
qed

section \<open>Shutdown\<close>

lemma drain_fold:
  assumes "distinct (map cn_Ref conns)" "c \<in> set conns"
  shows "\<exists>e. en_Event e = ''server.draining'' \<and> en_Channel e = ''note:'' @ cn_NoteID c \<and>
    conn_of (fold (\<lambda>conn s. let (e, s) = service_envelope ids now (cn_NoteID conn) ''server.draining'' payload s
       in snd (send_or_close why e conn s)) conns r) c = deliver why e (conn_of r c)"
  using assms
proof (induction conns arbitrary: r)
  case (Cons d conns)
  define step where "step = (\<lambda>conn s. let (e, s) = service_envelope ids now (cn_NoteID conn) ''server.draining'' payload s
       in snd (send_or_close why e conn s))"
  have one: "rs_conns (step conn s) = (rs_conns s)(cn_Ref conn := deliver why
      (fst (service_envelope ids now (cn_NoteID conn) ''server.draining'' payload s)) (rs_conns s (cn_Ref conn)))" for conn s
    by (simp add: step_def Let_def case_prod_unfold sending.act_conns) (simp add: service_envelope_def)
  have rest: "conn_of (fold step conns s) x = conn_of s x" if "cn_Ref x \<notin> cn_Ref ` set conns" for s x
    using that by (induction conns arbitrary: s) (auto simp: conn_of_def one)
  show ?case
  proof (cases "c = d")
    case True
    have "conn_of (fold step conns (step d r)) d = deliver why
        (fst (service_envelope ids now (cn_NoteID d) ''server.draining'' payload r)) (conn_of r d)"
      using Cons.prems(1) by (subst rest) (auto simp: conn_of_def one)
    with True show ?thesis
      by (intro exI [of _ "fst (service_envelope ids now (cn_NoteID d) ''server.draining'' payload r)"])
        (simp add: step_def service_envelope_def)
  next
    case False
    then have "cn_Ref c \<noteq> cn_Ref d" using Cons.prems by (auto simp: rev_image_eqI)
    then have "conn_of (step d r) c = conn_of r c" by (simp add: conn_of_def one)
    with Cons.IH [of "step d r"] Cons.prems False show ?thesis by (simp add: step_def)
  qed
qed simp

lemma everyone_refs: "svc_wf r \<Longrightarrow> distinct (map cn_Ref (AllConnections (rs_rooms r)))"
  by (simp add: svc_wf_def distinct_map memory_rooms.distinct_everyone)

lemma BeginDrain_rooms: "rs_rooms (snd (BeginDrain ids now d r)) = rs_rooms r" "rs_draining (snd (BeginDrain ids now d r))"
proof -
  have "same_service (fold (\<lambda>conn s. let (e, s) = service_envelope ids now (cn_NoteID conn) ev payload s
      in snd (send_or_close why e conn s)) conns s) s" for conns s ev payload why
  proof (induction conns arbitrary: s)
    case (Cons c conns)
    have "same_service (let (e, s) = service_envelope ids now (cn_NoteID c) ev payload s in snd (send_or_close why e c s)) s"
      using sending.act_frame [of why _ c] by (auto simp: Let_def case_prod_unfold service_envelope_def)
    with Cons [of "let (e, s) = service_envelope ids now (cn_NoteID c) ev payload s in snd (send_or_close why e c s)"]
    show ?case by simp
  qed simp
  then show "rs_rooms (snd (BeginDrain ids now d r)) = rs_rooms r" "rs_draining (snd (BeginDrain ids now d r))"
    by (simp_all add: BeginDrain_def Let_def)
qed

section \<open>What the sweep leaves\<close>

text \<open>
  The sweep drops the record of an expired session but not its connections: they keep their queues and
  their permission, and keep relaying.
\<close>

lemma sweep_leaves_sockets:
  "rs_conns (sr_rooms (sweepLoop_tick env cfg now s)) = rs_conns (sr_rooms s) \<and>
   rs_rooms (sr_rooms (sweepLoop_tick env cfg now s)) = rs_rooms (sr_rooms s)"
  by (simp add: sweepLoop_tick_def Let_def case_prod_unfold count_metric_def on_rooms_def)

text \<open>
  The rest of an upgrade does not look at the session again: a connection opens for a ticket
  redeemed before its session was revoked.
\<close>

lemma upgrade_ignores_sessions:
  "snd (ServeWebSocket_upgrade ticket (on_server (\<lambda>v. v\<lparr>sr_sessions := ss\<rparr>) s)) =
     on_server (\<lambda>v. v\<lparr>sr_sessions := ss\<rparr>) (snd (ServeWebSocket_upgrade ticket s))"
  "ServeWebSocket_accept env cfg now accepted ticket (on_server (\<lambda>v. v\<lparr>sr_sessions := ss\<rparr>) s) =
     on_server (\<lambda>v. v\<lparr>sr_sessions := ss\<rparr>) (ServeWebSocket_accept env cfg now accepted ticket s)"
  "runConnection_join env cfg now j (on_server (\<lambda>v. v\<lparr>sr_sessions := ss\<rparr>) s) =
     on_server (\<lambda>v. v\<lparr>sr_sessions := ss\<rparr>) (runConnection_join env cfg now j s)"
  by (simp_all add: ServeWebSocket_upgrade_def ServeWebSocket_accept_def runConnection_open_def runConnection_join_def open_connection_def
      on_server_def count_rooms_def count_metric_def on_rooms_def Let_def case_prod_unfold)

end
