(* ===== verification/Draining.thy ===== *)
theory Draining
  imports Site_Correct
begin

text \<open>
  A shutdown that has begun cannot be taken back. From the moment readiness fails, frames are dropped and every stage of
  admission up to the second readiness check is refused; from the moment the drain is announced, \<open>Join\<close> closes whatever
  still arrives. The one way left into the directory is a connection that was between the check in \<open>Join\<close> and its room at that
  moment, and the directory can grow by no more than those.
\<close>

section \<open>What leaves the directory and the flags alone\<close>

definition still :: "server \<Rightarrow> server \<Rightarrow> bool" where
  "still s t \<longleftrightarrow> sr_draining t = sr_draining s \<and> rs_draining (sr_rooms t) = rs_draining (sr_rooms s) \<and>
     rs_rooms (sr_rooms t) = rs_rooms (sr_rooms s)"

lemma still_refl [simp]: "still s s"
  by (simp add: still_def)

lemma still_trans: "still s t \<Longrightarrow> still t u \<Longrightarrow> still s u"
  by (simp add: still_def)

lemma still_fields [simp]:
  "still s (t\<lparr>sr_sessions := ss\<rparr>) = still s t" "still s (t\<lparr>sr_locks := l\<rparr>) = still s t" "still s (t\<lparr>sr_limits := f\<rparr>) = still s t"
  "still s (count_metric g t) = still s t"
  by (simp_all add: still_def count_metric_def on_rooms_def)

lemma still_active [simp]: "still s (store_active_locks t) = still s t"
  by (simp add: store_active_locks_def split: option.split)

lemma still_on_rooms:
  "rs_draining (f (sr_rooms s)) = rs_draining (sr_rooms s) \<Longrightarrow> rs_rooms (f (sr_rooms s)) = rs_rooms (sr_rooms s) \<Longrightarrow>
     still s (on_rooms f s)"
  by (simp add: still_def on_rooms_def)

lemma upd_conn_frame [simp]: "rs_draining (upd_conn f c r) = rs_draining r" "rs_rooms (upd_conn f c r) = rs_rooms r"
  by (simp_all add: upd_conn_def)

lemma fold_upd_frame [simp]:
  "rs_draining (fold (upd_conn f) cs r) = rs_draining r" "rs_rooms (fold (upd_conn f) cs r) = rs_rooms r"
  by (induction cs arbitrary: r) simp_all

lemma room_actions_frame [simp]:
  "rs_draining (peer_Close why c r) = rs_draining r" "rs_rooms (peer_Close why c r) = rs_rooms r"
  "rs_draining (snd (DisconnectSession sid why r)) = rs_draining r" "rs_rooms (snd (DisconnectSession sid why r)) = rs_rooms r"
  "rs_draining (snd (DisconnectUserFromNote n u why r)) = rs_draining r" "rs_rooms (snd (DisconnectUserFromNote n u why r)) = rs_rooms r"
  "rs_draining (snd (CloseAll why r)) = rs_draining r" "rs_rooms (snd (CloseAll why r)) = rs_rooms r"
  "rs_draining (snd (ApplyPermission sid p r)) = rs_draining r" "rs_rooms (snd (ApplyPermission sid p r)) = rs_rooms r"
  by (simp_all add: peer_Close_def [abs_def] DisconnectSession_def DisconnectUserFromNote_def CloseAll_def close_all_def
      ApplyPermission_def Let_def)

section \<open>Readiness\<close>

text \<open>Nothing sets the flag of \<open>Health\<close> back.\<close>

lemma on_rooms_draining [simp]: "sr_draining (on_rooms f s) = sr_draining s" "sr_draining (count_metric g s) = sr_draining s"
  "sr_draining (store_active_locks s) = sr_draining s" "sr_draining (count_rooms d s) = sr_draining s"
  by (simp_all add: on_rooms_def count_metric_def store_active_locks_def count_rooms_def split: option.split)

lemma fold_rooms_draining [simp]: "sr_draining (fold (\<lambda>x. on_rooms (f x)) xs s) = sr_draining s"
  by (induction xs arbitrary: s) simp_all

lemma server_calls_draining [simp]:
  "sr_draining (releaseLocksOnDisconnect env now cid s) = sr_draining s"
  "sr_draining (expireLocks_tick env now s) = sr_draining s" "sr_draining (sweepLoop_tick env cfg now s) = sr_draining s"
  "sr_draining (end_connection env now why kind conn s) = sr_draining s"
  "sr_draining (begin_drain env cfg now s) = sr_draining s" "sr_draining (finish_shutdown s) = sr_draining s"
  "sr_draining (StartDraining s)"
  by (simp_all add: releaseLocksOnDisconnect_def announceReleased_def [abs_def] expireLocks_tick_def sweepLoop_tick_def begin_drain_def
      finish_shutdown_def StartDraining_def end_connection_def close_connection_def recordClose_def Let_def case_prod_unfold
      split: option.split)

lemma unready_frame: "sr_draining s \<Longrightarrow> handleClientFrame env now conn data s = (Dropped_frame, s)"
  by (simp add: handleClientFrame_def)

text \<open>Of the requests, only the control plane still changes anything, and not what counts here.\<close>

lemma unready_admission:
  assumes "sr_draining (si_server s)"
  shows "handler_Bootstrap env cfg entropy now r s = (writeError 503 ''DRAINING'' ''Server is shutting down.'', s)"
    "ServeWebSocket_admit env cfg now r s = (Some (503, TextBody ''draining''), s)"
    "ServeWebTransport_admit env cfg now r s = (Some (503, TextBody ''draining''), s)"
    "ServeWebSocket_upgrade ticket s = (Some (503, TextBody ''draining''), s\<lparr>si_admitted := remove1 ticket (si_admitted s)\<rparr>)"
    "ServeWebTransport_upgrade ticket s = (Some (503, TextBody ''draining''), s\<lparr>si_admitted := remove1 ticket (si_admitted s)\<rparr>)"
  using assms by (simp_all add: handler_Bootstrap_def ServeWebSocket_admit_def ServeWebTransport_admit_def
      ServeWebSocket_upgrade_def ServeWebTransport_upgrade_def Let_def)

lemma control_still:
  "still (si_server s) (si_server (snd (handler_RevokeSession env now r s))) \<and>
     si_joining (snd (handler_RevokeSession env now r s)) = si_joining s \<and>
     si_upgrading (snd (handler_RevokeSession env now r s)) = si_upgrading s"
  "still (si_server s) (si_server (snd (handler_UpdateSessionPermission env now r s))) \<and>
     si_joining (snd (handler_UpdateSessionPermission env now r s)) = si_joining s \<and>
     si_upgrading (snd (handler_UpdateSessionPermission env now r s)) = si_upgrading s"
  "still (si_server s) (si_server (snd (handler_RevokeUserFromNote env now n u r s))) \<and>
     si_joining (snd (handler_RevokeUserFromNote env now n u r s)) = si_joining s \<and>
     si_upgrading (snd (handler_RevokeUserFromNote env now n u r s)) = si_upgrading s"
  "still (si_server s) (si_server (snd (RegisterHistoryPreview env now r s))) \<and>
     si_joining (snd (RegisterHistoryPreview env now r s)) = si_joining s \<and>
     si_upgrading (snd (RegisterHistoryPreview env now r s)) = si_upgrading s"
  "still (si_server s) (si_server (snd (RevokeHistoryPreviews now n u r s))) \<and>
     si_joining (snd (RevokeHistoryPreviews now n u r s)) = si_joining s \<and>
     si_upgrading (snd (RevokeHistoryPreviews now n u r s)) = si_upgrading s"
proof -
  obtain x s1 where a: "authenticateInternal now r s = (x, s1)" by fastforce
  note k = authenticate_keeps(1,4,5) [OF a]
  show "still (si_server s) (si_server (snd (handler_RevokeSession env now r s))) \<and>
     si_joining (snd (handler_RevokeSession env now r s)) = si_joining s \<and>
     si_upgrading (snd (handler_RevokeSession env now r s)) = si_upgrading s"
    by (simp add: handler_RevokeSession_def a k Let_def case_prod_unfold on_server_def still_def split: sum.split)
  show "still (si_server s) (si_server (snd (handler_UpdateSessionPermission env now r s))) \<and>
     si_joining (snd (handler_UpdateSessionPermission env now r s)) = si_joining s \<and>
     si_upgrading (snd (handler_UpdateSessionPermission env now r s)) = si_upgrading s"
    by (simp add: handler_UpdateSessionPermission_def a k Let_def case_prod_unfold on_server_def still_def split: sum.split)
  show "still (si_server s) (si_server (snd (handler_RevokeUserFromNote env now n u r s))) \<and>
     si_joining (snd (handler_RevokeUserFromNote env now n u r s)) = si_joining s \<and>
     si_upgrading (snd (handler_RevokeUserFromNote env now n u r s)) = si_upgrading s"
    by (simp add: handler_RevokeUserFromNote_def a k Let_def case_prod_unfold on_server_def still_def split: sum.split)
  show "still (si_server s) (si_server (snd (RegisterHistoryPreview env now r s))) \<and>
     si_joining (snd (RegisterHistoryPreview env now r s)) = si_joining s \<and>
     si_upgrading (snd (RegisterHistoryPreview env now r s)) = si_upgrading s"
    by (simp add: RegisterHistoryPreview_def a k Let_def case_prod_unfold on_server_def on_rooms_def still_def split: sum.split)
  show "still (si_server s) (si_server (snd (RevokeHistoryPreviews now n u r s))) \<and>
     si_joining (snd (RevokeHistoryPreviews now n u r s)) = si_joining s \<and>
     si_upgrading (snd (RevokeHistoryPreviews now n u r s)) = si_upgrading s"
    by (simp add: RevokeHistoryPreviews_def a k Let_def case_prod_unfold on_server_def on_rooms_def still_def split: sum.split)
qed

lemma unready_serve:
  assumes "sr_draining (si_server s)"
  shows "still (si_server s) (si_server (snd (serve env cfg entropy now r s)))"
    "si_joining (snd (serve env cfg entropy now r s)) = si_joining s"
    "si_upgrading (snd (serve env cfg entropy now r s)) = si_upgrading s"
  using control_still unready_admission [OF assms]
  by (simp_all add: serve_def Let_def case_prod_unfold split: cors_result.split option.split endpoint.split)

lemma open_draining [simp]:
  "sr_draining (si_server (snd (open_connection env cfg at' join ticket c s))) = sr_draining (si_server s)"
  "sr_draining (si_server (open_session env cfg at' join ticket s)) = sr_draining (si_server s)"
  by (simp_all add: open_session_def open_connection_def on_server_def Let_def case_prod_unfold)

lemma unready_step:
  assumes "site_step env cfg s t" "sr_draining (si_server s)"
  shows "sr_draining (si_server t)"
proof -
  have served: "sr_draining (si_server (snd (serve env cfg entropy now r s)))" for entropy now r
    using unready_serve(1) [OF assms(2), of env cfg entropy now r] assms(2) by (simp add: still_def)
  show ?thesis
    using assms(1)
    by (cases rule: site_stepE)
      (auto simp: served unready_admission [OF assms(2)] unready_frame assms(2) on_server_def wt_frame_def ServeWebSocket_accept_def
        ServeWebTransport_accept_def runConnection_open_def runWebTransportSession_open_def runConnection_join_def
        runWebTransportSession_join_def runConnection_end_def runWebTransportSession_end_def Let_def)
qed

interpretation unready: machine "site_step env cfg" "\<lambda>s. sr_draining (si_server s)" for env cfg
  by unfold_locales (blast intro: unready_step)

lemma unready_reaches:
  "reaches (site_step env cfg) (on_server StartDraining s) t \<Longrightarrow> sr_draining (si_server t)"
  by (erule unready.reaches_inv) (simp add: on_server_def)

section \<open>Steps of a draining program\<close>

text \<open>Both readiness flags are down and the directory holds only connections of a given set.\<close>

definition draining :: "connection set \<Rightarrow> server \<Rightarrow> bool" where
  "draining conns s \<longleftrightarrow> sr_draining s \<and> rs_draining (sr_rooms s) \<and> set (AllConnections (rs_rooms (sr_rooms s))) \<subseteq> conns"

lemma draining_still: "draining conns s \<Longrightarrow> still s t \<Longrightarrow> draining conns t"
  by (simp add: draining_def still_def)

text \<open>Announcements are off, so releasing the leases of a connection and the lock ticker are still.\<close>

lemma still_announces:
  assumes "rs_draining (sr_rooms s)"
  shows "fold (\<lambda>lock. on_rooms (Announce ids now (f lock) k event (h lock))) ls s = s"
proof -
  have "on_rooms (Announce ids now n k event j) s = s" for n j
    using assms by (simp add: on_rooms_def Announce_def)
  then show ?thesis by (induction ls) simp_all
qed

lemma still_release: "rs_draining (sr_rooms s) \<Longrightarrow> still s (releaseLocksOnDisconnect env now cid s)"
  by (auto simp: releaseLocksOnDisconnect_def announceReleased_def [abs_def] Let_def case_prod_unfold still_announces split: option.split)

lemma still_lock_tick: "rs_draining (sr_rooms s) \<Longrightarrow> still s (expireLocks_tick env now s)"
  by (auto simp: expireLocks_tick_def Let_def case_prod_unfold still_announces split: option.split)

lemma still_pump: "still s (on_rooms (pump_conn f conn) s)"
  by (simp add: still_def on_rooms_def pump_conn_def case_prod_unfold)

lemma draining_end:
  assumes "draining conns s" "room_wf (rs_rooms (sr_rooms s))"
  shows "draining conns (end_connection env now why kind conn s)"
proof -
  define t where "t = on_rooms (peer_Close ''handler returned'' conn) (snd (recordClose conn kind (cn_ConnectedAt conn) now
      (on_rooms (peer_Close why conn) s)))"
  define u where "u = on_rooms (\<lambda>r. r\<lparr>rs_interest := snd (interest_Remove (cn_ID conn) (rs_interest r))\<rparr>)
      (count_rooms (- 1) (on_rooms (svc_Leave (ev_newID env) now conn) t))"
  have t: "still s t"
    by (simp add: t_def still_def recordClose_def count_metric_def on_rooms_def Let_def)
  then have r: "rs_draining (sr_rooms t)" "sr_draining t" "room_wf (rs_rooms (sr_rooms t))"
      "set (AllConnections (rs_rooms (sr_rooms t))) \<subseteq> conns"
    using assms by (simp_all add: still_def draining_def)
  then have u: "draining conns u"
    using memory_rooms.everyone_leave [OF r(3)]
    by (auto simp: u_def draining_def on_rooms_def count_rooms_def count_metric_def svc_Leave_def leave_def)
  have "end_connection env now why kind conn s = releaseLocksOnDisconnect env now (cn_ID conn) u"
    by (simp add: end_connection_def close_connection_def Let_def u_def t_def)
  with draining_still [OF u still_release] u show ?thesis by (simp add: draining_def)
qed

lemma draining_ends:
  assumes "draining conns s" "room_wf (rs_rooms (sr_rooms s))"
  shows "draining conns (runConnection_end env now err conn s)" "draining conns (runWebTransportSession_end env cfg now cause conn s)"
  using assms by (simp_all add: runConnection_end_def runWebTransportSession_end_def draining_end)

lemma draining_shutdown:
  "draining conns s \<Longrightarrow> draining conns (StartDraining s)" "draining conns s \<Longrightarrow> draining conns (begin_drain env cfg now s)"
  "draining conns s \<Longrightarrow> draining conns (finish_shutdown s)"
  by (simp_all add: draining_def begin_drain_def finish_shutdown_def StartDraining_def on_rooms_def BeginDrain_rooms)

lemma still_sweep_tick: "still s (sweepLoop_tick env cfg now s)"
  by (simp add: sweepLoop_tick_def Let_def case_prod_unfold)

text \<open>\<open>Join\<close> refuses: the connection is closed where it stands, and the directory stays as it is.\<close>

lemma open_refused:
  assumes "rs_draining (sr_rooms (si_server s))"
  shows "still (si_server s) (si_server (snd (open_connection env cfg at' (svc_Join ids now) ticket c s)))"
    "si_joining (snd (open_connection env cfg at' join ticket c s)) = si_joining s"
    "isClosed (cs_queues (rs_conns (sr_rooms (si_server (snd (open_connection env cfg at' (svc_Join ids now) ticket c s)))) (si_nextRef s)))"
  using assms
  by (simp_all add: open_connection_def svc_Join_def still_def count_rooms_def count_metric_def on_rooms_def Let_def closing.act_conns)

lemma session_refused:
  assumes "rs_draining (sr_rooms (si_server s))"
  shows "still (si_server s) (si_server (open_session env cfg at' (svc_Join ids now) ticket s))"
    "si_joining (open_session env cfg at' join ticket s) = si_joining s"
    "isClosed (cs_queues (rs_conns (sr_rooms (si_server (open_session env cfg at' (svc_Join ids now) ticket s))) (si_nextRef s)))"
proof -
  let ?p = "open_connection env cfg at' (svc_Join ids now) ticket (wt_object cfg ticket) s"
  have "still (si_server (snd ?p)) (on_rooms (upd_conn f (fst ?p)) (si_server (snd ?p)))" for f
    by (simp add: still_on_rooms)
  with open_refused(1) [OF assms, of env cfg at' ids now ticket "wt_object cfg ticket"]
  show "still (si_server s) (si_server (open_session env cfg at' (svc_Join ids now) ticket s))"
    by (auto simp: open_session_def on_server_def case_prod_unfold Let_def intro: still_trans)
  show "si_joining (open_session env cfg at' join ticket s) = si_joining s"
    by (simp add: open_session_def on_server_def case_prod_unfold Let_def open_refused(2) [OF assms])
  have "isClosed (markActivity t q) = isClosed q" for t q
    by (simp add: markActivity_def isClosed_def)
  then show "isClosed (cs_queues (rs_conns (sr_rooms (si_server (open_session env cfg at' (svc_Join ids now) ticket s))) (si_nextRef s)))"
    using open_refused(3) [OF assms, of env cfg at' ids now ticket "wt_object cfg ticket"]
    by (auto simp: open_session_def on_server_def on_rooms_def upd_conn_def case_prod_unfold Let_def)
qed

lemma accept_refused:
  assumes "rs_draining (sr_rooms (si_server s))"
  shows "still (si_server s) (si_server (ServeWebSocket_accept env cfg now accepted ticket s)) \<and>
      si_joining (ServeWebSocket_accept env cfg now accepted ticket s) = si_joining s"
    "still (si_server s) (si_server (ServeWebTransport_accept env cfg now upgraded stream ticket s)) \<and>
      si_joining (ServeWebTransport_accept env cfg now upgraded stream ticket s) = si_joining s"
    "makechan_ok (cf_ReliableQueueSize cfg) \<Longrightarrow>
      isClosed (cs_queues (rs_conns (sr_rooms (si_server (ServeWebSocket_accept env cfg now True ticket s))) (si_nextRef s))) \<and>
      isClosed (cs_queues (rs_conns (sr_rooms (si_server (ServeWebTransport_accept env cfg now True True ticket s))) (si_nextRef s)))"
  using assms open_refused [of "s\<lparr>si_upgrading := remove1 ticket (si_upgrading s)\<rparr>" env cfg now]
    session_refused [of "s\<lparr>si_upgrading := remove1 ticket (si_upgrading s)\<rparr>" env cfg now]
  by (simp_all add: ServeWebSocket_accept_def ServeWebTransport_accept_def runConnection_open_def runWebTransportSession_open_def
      IsDraining_def Let_def)

section \<open>Connections that race with the drain\<close>

text \<open>
  From a directory and a list of connections on their way into it: both flags are down, whoever is
  in the directory was there or was on its way, and each of those has entered at most once.
\<close>

definition from_ticket :: "time \<times> connection_ticket \<Rightarrow> connection \<Rightarrow> bool" where
  "from_ticket j c \<longleftrightarrow> cn_ConnectedAt c = fst j \<and> cn_SessionID c = tk_SessionID (snd j) \<and> cn_UserID c = tk_UserID (snd j) \<and>
     cn_NoteID c = tk_NoteID (snd j)"

abbreviation directory :: "site \<Rightarrow> connection set" where
  "directory s \<equiv> set (AllConnections (rs_rooms (sr_rooms (si_server s))))"

definition winding_down :: "connection set \<Rightarrow> (time \<times> connection_ticket) list \<Rightarrow> site \<Rightarrow> bool" where
  "winding_down conns joining s \<longleftrightarrow> sr_draining (si_server s) \<and> rs_draining (sr_rooms (si_server s)) \<and>
     (\<forall>c \<in> directory s - conns. \<exists>j \<in> set joining. from_ticket j c) \<and> set (si_joining s) \<subseteq> set joining \<and>
     card (directory s - conns) + length (si_joining s) \<le> length joining"

lemma winding_shrinks:
  assumes "winding_down conns joining s" "draining (directory s) (si_server t)" "si_joining t = si_joining s"
  shows "winding_down conns joining t"
proof -
  have "card (directory t - conns) \<le> card (directory s - conns)"
    using assms(2) by (intro card_mono) (auto simp: draining_def)
  with assms show ?thesis unfolding winding_down_def draining_def by fastforce
qed

lemma draining_self: "winding_down conns joining s \<Longrightarrow> draining (directory s) (si_server s)"
  by (simp add: winding_down_def draining_def)

lemma broadcast_frame: "same_service (broadcastReliable ids now n k event payload r) r"
  using sending.fold_frame by (auto simp: broadcastReliable_def service_envelope_def Let_def case_prod_unfold)

lemma join_room_frame:
  "rs_rooms (join_room ids now conn r) = snd (room_Join conn (rs_rooms r))" "rs_draining (join_room ids now conn r) = rs_draining r"
  by (simp_all add: join_room_def service_envelope_def broadcast_frame peer_SendReliable_def Let_def case_prod_unfold)

lemma open_joins:
  "rs_rooms (sr_rooms (si_server (snd (open_connection env cfg at' (join_room ids now) ticket c s)))) =
     snd (room_Join (fst (open_connection env cfg at' (join_room ids now) ticket c s)) (rs_rooms (sr_rooms (si_server s))))"
  "rs_draining (sr_rooms (si_server (snd (open_connection env cfg at' (join_room ids now) ticket c s)))) = rs_draining (sr_rooms (si_server s))"
  "from_ticket (at', ticket) (fst (open_connection env cfg at' (join_room ids now) ticket c s))"
  "cn_Ref (fst (open_connection env cfg at' (join_room ids now) ticket c s)) = si_nextRef s"
  "si_joining (snd (open_connection env cfg at' (join_room ids now) ticket c s)) = si_joining s"
  by (simp_all add: open_connection_def from_ticket_def on_rooms_def count_rooms_def count_metric_def join_room_frame Let_def)

lemma winding_joins:
  assumes w: "winding_down conns joining s" and wf: "room_wf (rs_rooms (sr_rooms (si_server s)))" and j: "j \<in> set (si_joining s)"
    and c: "from_ticket j c" and t: "rs_rooms (sr_rooms (si_server t)) = snd (room_Join c (rs_rooms (sr_rooms (si_server s))))"
      "rs_draining (sr_rooms (si_server t))" "sr_draining (si_server t)" "si_joining t = remove1 j (si_joining s)"
  shows "winding_down conns joining t"
proof -
  have dir: "directory t \<subseteq> insert c (directory s)" using memory_rooms.everyone_join [OF wf] unfolding t(1) by blast
  have "card (directory t - conns) \<le> card (insert c (directory s - conns))" using dir by (intro card_mono) auto
  also have "\<dots> \<le> Suc (card (directory s - conns))" by (simp add: card_insert_if)
  finally have le: "card (directory t - conns) \<le> Suc (card (directory s - conns))" .
  have "Suc (length (si_joining t)) = length (si_joining s)"
    using j length_pos_if_in_set [OF j] by (simp add: t(4) length_remove1)
  with le w have "card (directory t - conns) + length (si_joining t) \<le> length joining"
    by (simp add: winding_down_def)
  moreover have "set (si_joining t) \<subseteq> set joining"
    using w by (auto simp: winding_down_def t(4) dest: set_remove1_subset [THEN subsetD])
  moreover have "\<exists>i \<in> set joining. from_ticket i d" if "d \<in> directory t - conns" for d
    using that dir w c j by (auto simp: winding_down_def)
  ultimately show ?thesis using t(2,3) by (simp add: winding_down_def)
qed

lemma winding_join_step:
  assumes "winding_down conns joining s" "room_wf (rs_rooms (sr_rooms (si_server s)))" "j \<in> set (si_joining s)"
  shows "winding_down conns joining (runConnection_join env cfg now j s)"
    "winding_down conns joining (runWebTransportSession_join env cfg now j s)"
proof -
  let ?s = "s\<lparr>si_joining := remove1 j (si_joining s)\<rparr>"
  have d: "sr_draining (si_server s)" "rs_draining (sr_rooms (si_server s))" using assms(1) by (simp_all add: winding_down_def)
  show "winding_down conns joining (runConnection_join env cfg now j s)"
    using d open_joins [where env = env and cfg = cfg and at' = "fst j" and ids = "ev_newID env" and now = now and ticket = "snd j" and
        c = "ws_object cfg (snd j)" and s = ?s]
    by (intro winding_joins [OF assms, of "fst (open_connection env cfg (fst j) (join_room (ev_newID env) now) (snd j) (ws_object cfg (snd j)) ?s)"])
      (simp_all add: runConnection_join_def)
  show "winding_down conns joining (runWebTransportSession_join env cfg now j s)"
    using d open_joins [where env = env and cfg = cfg and at' = "fst j" and ids = "ev_newID env" and now = now and ticket = "snd j" and
        c = "wt_object cfg (snd j)" and s = ?s]
    by (intro winding_joins [OF assms, of "fst (open_connection env cfg (fst j) (join_room (ev_newID env) now) (snd j) (wt_object cfg (snd j)) ?s)"])
      (simp_all add: runWebTransportSession_join_def open_session_def on_server_def on_rooms_def case_prod_unfold Let_def)
qed

lemma winding_step:
  assumes "site_step env cfg s t" "site_ok s" "winding_down conns joining s"
  shows "winding_down conns joining t"
proof -
  have wf: "room_wf (rs_rooms (sr_rooms (si_server s)))" using site_okD(2) [OF assms(2)] by (simp add: rooms_ok_def svc_wf_def)
  have d: "sr_draining (si_server s)" "rs_draining (sr_rooms (si_server s))" using assms(3) by (simp_all add: winding_down_def)
  note self = draining_self [OF assms(3)]
  note keep = draining_still [OF self]
  have marked: "draining (directory s) (on_rooms (upd_conn f conn) (si_server s))" for f conn
    by (rule keep) (simp add: still_on_rooms)
  consider (join) j now where "j \<in> set (si_joining s)"
      "t = runConnection_join env cfg now j s \<or> t = runWebTransportSession_join env cfg now j s"
    | (other) "draining (directory s) (si_server t)" "si_joining t = si_joining s"
    using assms(1)
    by (cases rule: site_stepE)
      (auto simp: unready_admission [OF d(1)] unready_serve [OF d(1)] accept_refused [OF d(2)] unready_frame d marked self
        keep [OF unready_serve(1) [OF d(1)]] keep [OF accept_refused(1) [OF d(2), THEN conjunct1]]
        keep [OF accept_refused(2) [OF d(2), THEN conjunct1]]
        keep [OF still_pump] draining_ends [OF self wf] keep [OF still_lock_tick [OF d(2)]] keep [OF still_sweep_tick]
        draining_shutdown [OF self] on_server_def wt_frame_def)
  then show ?thesis
  proof cases
    case join
    with winding_join_step [OF assms(3) wf join(1)] show ?thesis by (elim disjE) simp_all
  next
    case other
    with assms(3) show ?thesis by (rule winding_shrinks)
  qed
qed

lemma winding_reaches:
  assumes "memory_env env" "site_ok s" "sr_draining (si_server s)" "reaches (site_step env cfg) (on_server (begin_drain env cfg now) s) t"
  shows "winding_down (directory s) (si_joining s) t"
proof -
  let ?s = "on_server (begin_drain env cfg now) s"
  have ok: "memory_env env \<and> site_ok ?s" using assms by (simp add: site_ok_on server_ok_shutdown)
  have start: "winding_down (directory s) (si_joining s) ?s"
    using assms(3) by (simp add: winding_down_def on_server_def begin_drain_def on_rooms_def BeginDrain_rooms)
  show ?thesis
    by (rule running.reaches_monotone [where R = "winding_down (directory s) (si_joining s)", OF assms(4) ok start])
      (use winding_step in fastforce)
qed

lemma reaches_trans: "reaches step s t \<Longrightarrow> reaches step t u \<Longrightarrow> reaches step s u"
  by (rotate_tac 1, induction rule: reaches.induct) (auto intro: reaches.next_step)

section \<open>Connections that race with the signal\<close>

text \<open>
  Between the signal and the announcement \<open>Join\<close> still lets connections in, but no new ones can get that far: the tickets past the
  second readiness check are those that were past it when readiness failed.
\<close>

lemma announces_rooms:
  "rs_rooms (sr_rooms (fold (\<lambda>lock. on_rooms (Announce ids now (f lock) k event (h lock))) ls s)) = rs_rooms (sr_rooms s)"
  by (induction ls arbitrary: s) (simp_all add: on_rooms_def Announce_def broadcast_frame)

lemma active_rooms [simp]: "rs_rooms (sr_rooms (store_active_locks s)) = rs_rooms (sr_rooms s)"
  "rs_rooms (sr_rooms (count_metric g s)) = rs_rooms (sr_rooms s)"
  by (simp_all add: store_active_locks_def count_metric_def on_rooms_def split: option.split)

lemma tick_rooms:
  "rs_rooms (sr_rooms (releaseLocksOnDisconnect env now cid s)) = rs_rooms (sr_rooms s)"
  "rs_rooms (sr_rooms (expireLocks_tick env now s)) = rs_rooms (sr_rooms s)"
  "rs_rooms (sr_rooms (sweepLoop_tick env cfg now s)) = rs_rooms (sr_rooms s)"
  by (simp_all add: releaseLocksOnDisconnect_def announceReleased_def [abs_def] expireLocks_tick_def sweepLoop_tick_def Let_def
      case_prod_unfold announces_rooms split: option.split)

lemma end_rooms:
  assumes "room_wf (rs_rooms (sr_rooms s))" "c \<in> set (AllConnections (rs_rooms (sr_rooms (end_connection env now why kind conn s))))"
  shows "c \<in> set (AllConnections (rs_rooms (sr_rooms s)))"
proof -
  have "rs_rooms (svc_Leave ids now conn r) = snd (room_Leave conn (rs_rooms r))" for ids r
    by (simp add: svc_Leave_def leave_def Let_def broadcast_frame)
  with assms show ?thesis
    by (intro memory_rooms.everyone_leave [OF assms(1), of c conn])
      (simp add: end_connection_def close_connection_def recordClose_def count_rooms_def tick_rooms on_rooms_def count_metric_def Let_def)
qed

definition for_ticket :: "connection_ticket \<Rightarrow> connection \<Rightarrow> bool" where
  "for_ticket k c \<longleftrightarrow> cn_SessionID c = tk_SessionID k \<and> cn_UserID c = tk_UserID k \<and> cn_NoteID c = tk_NoteID k"

text \<open>The tickets of the upgrades past the second readiness check.\<close>

definition past_check :: "site \<Rightarrow> connection_ticket set" where
  "past_check s = set (si_upgrading s) \<union> snd ` set (si_joining s)"

lemma past_check_simps [simp]:
  "past_check (s\<lparr>si_server := v\<rparr>) = past_check s" "past_check (s\<lparr>si_admitted := ts\<rparr>) = past_check s"
  by (simp_all add: past_check_def)

definition entering :: "connection set \<Rightarrow> connection_ticket set \<Rightarrow> site \<Rightarrow> bool" where
  "entering conns tickets s \<longleftrightarrow> (\<forall>c \<in> directory s. c \<in> conns \<or> (\<exists>k \<in> tickets. for_ticket k c)) \<and> past_check s \<subseteq> tickets"

lemma entering_shrinks:
  "entering conns tickets s \<Longrightarrow> directory t \<subseteq> directory s \<Longrightarrow> past_check t \<subseteq> past_check s \<Longrightarrow> entering conns tickets t"
  unfolding entering_def by blast

lemma entering_joins:
  assumes "entering conns tickets s" "room_wf (rs_rooms (sr_rooms (si_server s)))" "j \<in> set (si_joining s)"
  shows "entering conns tickets (runConnection_join env cfg now j s)" "entering conns tickets (runWebTransportSession_join env cfg now j s)"
proof -
  have step: "entering conns tickets t"
    if "rs_rooms (sr_rooms (si_server t)) = snd (room_Join c (rs_rooms (sr_rooms (si_server s))))" "for_ticket (snd j) c"
      "si_upgrading t = si_upgrading s" "si_joining t = remove1 j (si_joining s)" for t c
  proof -
    have "directory t \<subseteq> insert c (directory s)" using memory_rooms.everyone_join [OF assms(2)] unfolding that(1) by blast
    moreover have "snd j \<in> tickets" using assms(1,3) by (auto simp: entering_def past_check_def)
    moreover have "past_check t \<subseteq> past_check s"
      using that(3,4) by (auto simp: past_check_def dest: set_remove1_subset [THEN subsetD])
    ultimately show ?thesis using assms(1) that(2) unfolding entering_def by blast
  qed
  let ?s = "s\<lparr>si_joining := remove1 j (si_joining s)\<rparr>"
  let ?ws = "open_connection env cfg (fst j) (join_room (ev_newID env) now) (snd j) (ws_object cfg (snd j)) ?s"
  let ?wt = "open_connection env cfg (fst j) (join_room (ev_newID env) now) (snd j) (wt_object cfg (snd j)) ?s"
  have keeps: "si_upgrading (snd (open_connection env cfg at' join ticket c u)) = si_upgrading u" for at' join ticket c u
    by (simp add: open_connection_def Let_def)
  have ticket: "for_ticket (snd j) (fst ?ws)" "for_ticket (snd j) (fst ?wt)"
    using open_joins(3) [where at' = "fst j" and ticket = "snd j"] by (auto simp: from_ticket_def for_ticket_def)
  show "entering conns tickets (runConnection_join env cfg now j s)"
    by (rule step [of _ "fst ?ws"]) (simp_all add: runConnection_join_def open_joins(1,5) keeps ticket)
  show "entering conns tickets (runWebTransportSession_join env cfg now j s)"
    by (rule step [of _ "fst ?wt"])
      (simp_all add: runWebTransportSession_join_def open_session_def on_server_def on_rooms_def case_prod_unfold Let_def open_joins(1,5) keeps ticket)
qed

text \<open>Setting up the transport moves a ticket on or drops it; the directory stays as it is either way.\<close>

lemma accept_moves:
  assumes "ticket \<in> set (si_upgrading s)"
  shows "directory (ServeWebSocket_accept env cfg now accepted ticket s) \<subseteq> directory s \<and>
      past_check (ServeWebSocket_accept env cfg now accepted ticket s) \<subseteq> past_check s"
    "directory (ServeWebTransport_accept env cfg now upgraded stream ticket s) \<subseteq> directory s \<and>
      past_check (ServeWebTransport_accept env cfg now upgraded stream ticket s) \<subseteq> past_check s"
proof -
  let ?s = "s\<lparr>si_upgrading := remove1 ticket (si_upgrading s)\<rparr>"
  have drop: "past_check ?s \<subseteq> past_check s" by (auto simp: past_check_def dest: set_remove1_subset [THEN subsetD])
  have moved: "past_check (?s\<lparr>si_joining := si_joining s @ [(now, ticket)]\<rparr>) \<subseteq> past_check s"
    using assms by (auto simp: past_check_def dest: set_remove1_subset [THEN subsetD])
  have "past_check (snd (open_connection env cfg now join ticket c ?s)) = past_check ?s"
    "past_check (open_session env cfg now join ticket ?s) = past_check ?s" for join c
    by (simp_all add: past_check_def open_session_def open_connection_def on_server_def case_prod_unfold Let_def)
  with drop have pass: "past_check (snd (open_connection env cfg now join ticket c ?s)) \<subseteq> past_check s"
    "past_check (open_session env cfg now join ticket ?s) \<subseteq> past_check s" for join c by simp_all
  have refused: "directory (snd (open_connection env cfg now (svc_Join ids now) ticket c ?s)) = directory s"
    "directory (open_session env cfg now (svc_Join ids now) ticket ?s) = directory s" if "rs_draining (sr_rooms (si_server s))" for ids c
    using that open_refused(1) [of ?s env cfg now ids now ticket c] session_refused(1) [of ?s env cfg now ids now ticket]
    by (simp_all add: still_def)
  show "directory (ServeWebSocket_accept env cfg now accepted ticket s) \<subseteq> directory s \<and>
      past_check (ServeWebSocket_accept env cfg now accepted ticket s) \<subseteq> past_check s"
    using drop moved by (simp add: ServeWebSocket_accept_def runConnection_open_def IsDraining_def Let_def pass refused)
  show "directory (ServeWebTransport_accept env cfg now upgraded stream ticket s) \<subseteq> directory s \<and>
      past_check (ServeWebTransport_accept env cfg now upgraded stream ticket s) \<subseteq> past_check s"
    using drop moved by (simp add: ServeWebTransport_accept_def runWebTransportSession_open_def IsDraining_def Let_def pass refused)
qed

lemma entering_step:
  assumes "site_step env cfg s t" "site_ok s" "sr_draining (si_server s)" "entering conns tickets s"
  shows "entering conns tickets t"
proof -
  have wf: "room_wf (rs_rooms (sr_rooms (si_server s)))" using site_okD(2) [OF assms(2)] by (simp add: rooms_ok_def svc_wf_def)
  have served: "directory (snd (serve env cfg entropy now r s)) = directory s" "past_check (snd (serve env cfg entropy now r s)) = past_check s"
    for entropy now r using unready_serve [OF assms(3), of env cfg entropy now r] by (simp_all add: still_def past_check_def)
  have ends: "set (AllConnections (rs_rooms (sr_rooms (end_connection env now why kind conn (si_server s))))) \<subseteq> directory s" for now why kind conn
    using end_rooms [OF wf] by blast
  consider (join) j now where "j \<in> set (si_joining s)"
      "t = runConnection_join env cfg now j s \<or> t = runWebTransportSession_join env cfg now j s"
    | (other) "directory t \<subseteq> directory s" "past_check t \<subseteq> past_check s"
    using assms(1)
    by (cases rule: site_stepE)
      (auto simp: served accept_moves unready_admission [OF assms(3)] unready_frame assms(3) tick_rooms ends runConnection_end_def
        runWebTransportSession_end_def begin_drain_def finish_shutdown_def StartDraining_def BeginDrain_rooms
        on_server_def on_rooms_def pump_conn_def wt_frame_def case_prod_unfold simp del: subset_code(1) split: if_splits)
  then show ?thesis
  proof cases
    case join
    with entering_joins [OF assms(4) wf join(1)] show ?thesis by (elim disjE) simp_all
  next
    case other
    with assms(4) show ?thesis by (rule entering_shrinks)
  qed
qed

lemma entering_reaches:
  assumes "memory_env env" "site_ok s" "reaches (site_step env cfg) (on_server StartDraining s) t"
  shows "entering (directory s) (past_check s) t"
proof -
  let ?s = "on_server StartDraining s"
  have ok: "memory_env env \<and> site_ok ?s" using assms by (simp add: site_ok_on server_ok_shutdown)
  have "sr_draining (si_server ?s) \<and> entering (directory s) (past_check s) ?s"
    by (auto simp: entering_def past_check_def on_server_def StartDraining_def)
  then have "sr_draining (si_server t) \<and> entering (directory s) (past_check s) t"
    by (rule running.reaches_monotone [where R = "\<lambda>t. sr_draining (si_server t) \<and> entering (directory s) (past_check s) t", OF assms(3) ok])
      (use entering_step unready_step in blast)
  then show ?thesis ..
qed

text \<open>
  The race is real: a connection past the check in \<open>Join\<close> enters the room after the drain was announced,
  without having been told of it.
\<close>

lemma join_races_drain:
  assumes "site_ok s" "j \<in> set (si_joining s)"
  shows "\<exists>c. from_ticket j c \<and> c \<notin> directory s \<and>
    c \<in> directory (runConnection_join env cfg later j (on_server (begin_drain env cfg now) s))"
proof -
  let ?s = "(on_server (begin_drain env cfg now) s)\<lparr>si_joining := remove1 j (si_joining s)\<rparr>"
  let ?p = "open_connection env cfg (fst j) (join_room (ev_newID env) later) (snd j) (ws_object cfg (snd j)) ?s"
  have rooms: "rooms_ok (si_nextRef s) (sr_rooms (si_server s))" by (rule site_okD(2) [OF assms(1)])
  then have wf: "room_wf (rs_rooms (sr_rooms (si_server s)))" by (simp add: rooms_ok_def svc_wf_def)
  have same: "rs_rooms (sr_rooms (si_server ?s)) = rs_rooms (sr_rooms (si_server s))" "si_nextRef ?s = si_nextRef s"
    by (simp_all add: on_server_def begin_drain_def on_rooms_def BeginDrain_rooms)
  have "fst ?p \<in> set (Members (cn_NoteID (fst ?p)) (snd (room_Join (fst ?p) (rs_rooms (sr_rooms (si_server s))))))"
    by (rule memory_rooms.newcomer_is_member [OF wf])
  then have "fst ?p \<in> set (AllConnections (snd (room_Join (fst ?p) (rs_rooms (sr_rooms (si_server s))))))"
    using room_wf_Join [OF wf, of "fst ?p"] by (simp add: memory_rooms.set_members memory_rooms.set_everyone)
  moreover have "runConnection_join env cfg later j (on_server (begin_drain env cfg now) s) = snd ?p"
    by (simp add: runConnection_join_def on_server_def)
  ultimately have "fst ?p \<in> directory (runConnection_join env cfg later j (on_server (begin_drain env cfg now) s))"
    using open_joins(1) [of env cfg "fst j" "ev_newID env" later "snd j" "ws_object cfg (snd j)" ?s] same by simp
  moreover have "cn_Ref (fst ?p) = si_nextRef s" using open_joins(4) [where s = ?s] same(2) by simp
  then have "fst ?p \<notin> directory s" using rooms by (auto simp: rooms_ok_def)
  moreover have "from_ticket j (fst ?p)" using open_joins(3) [where at' = "fst j" and ticket = "snd j"] by simp
  ultimately show ?thesis by blast
qed

section \<open>Properties\<close>

lemma finish_closes:
  assumes "svc_wf (sr_rooms s)" "c \<in> set (AllConnections (rs_rooms (sr_rooms s)))"
  shows "isClosed (cs_queues (conn_of (sr_rooms (finish_shutdown s)) c))"
  using assms everyone_refs [OF assms(1)]
  by (simp add: finish_shutdown_def on_rooms_def CloseAll_def close_all_def conn_of_def closing.fold_conns)

lemma drain_notice:
  assumes "svc_wf (sr_rooms (si_server s))" "c \<in> directory s"
  shows "\<exists>e. en_Event e = ''server.draining'' \<and> en_Channel e = ''note:'' @ cn_NoteID c \<and>
    conn_of (sr_rooms (begin_drain env cfg now (si_server s))) c =
      deliver ''reliable queue overflow during drain'' e (conn_of (sr_rooms (si_server s)) c)"
  using drain_fold [OF everyone_refs [OF assms(1)] assms(2), of "ev_newID env" now _ _ "(sr_rooms (si_server s))\<lparr>rs_draining := True\<rparr>"]
  by (simp add: begin_drain_def on_rooms_def BeginDrain_def Let_def conn_of_def)

text \<open>
  C11. A shutdown reaches everyone and lets nobody in. In every state the program reaches after readiness has failed, frames are
  dropped without any effect, bootstraps and connection requests of both transports are refused without any effect, and
  a request that redeemed its ticket before is refused by the second check and gives up its ticket. When the drain is
  announced, at whatever such state, every connection of the directory gets the draining notice of its own note behind
  what it already has queued (or is closed, if its queue is full or it had ended). And the final stage, in whatever state it
  comes after that, closes every connection that is in the directory then.
\<close>

theorem shutdown_reaches_everyone:
  assumes "memory_env env" and "site_ok s0" and "w = on_server StartDraining s0"
  shows "(\<forall>v. reaches (site_step env cfg) w v \<longrightarrow>
      (\<forall>later conn data. handleClientFrame env later conn data (si_server v) = (Dropped_frame, si_server v)) \<and>
      (\<forall>later entropy r. handler_Bootstrap env cfg entropy later r v = (writeError 503 ''DRAINING'' ''Server is shutting down.'', v)) \<and>
      (\<forall>later r. ServeWebSocket_admit env cfg later r v = (Some (503, TextBody ''draining''), v) \<and>
         ServeWebTransport_admit env cfg later r v = (Some (503, TextBody ''draining''), v)) \<and>
      (\<forall>ticket. ServeWebSocket_upgrade ticket v = (Some (503, TextBody ''draining''), v\<lparr>si_admitted := remove1 ticket (si_admitted v)\<rparr>) \<and>
         ServeWebTransport_upgrade ticket v = (Some (503, TextBody ''draining''), v\<lparr>si_admitted := remove1 ticket (si_admitted v)\<rparr>))) \<and>
    (\<forall>s now. reaches (site_step env cfg) w s \<longrightarrow>
      (\<forall>c \<in> directory s. \<exists>e. en_Event e = ''server.draining'' \<and> en_Channel e = ''note:'' @ cn_NoteID c \<and>
         conn_of (sr_rooms (begin_drain env cfg now (si_server s))) c =
           deliver ''reliable queue overflow during drain'' e (conn_of (sr_rooms (si_server s)) c)) \<and>
      (\<forall>u. reaches (site_step env cfg) (on_server (begin_drain env cfg now) s) u \<longrightarrow>
         (\<forall>c \<in> directory u. isClosed (cs_queues (conn_of (sr_rooms (finish_shutdown (si_server u))) c)))))"
proof -
  have w: "memory_env env \<and> site_ok w" using assms by (simp add: site_ok_on server_ok_shutdown)
  have wf: "svc_wf (sr_rooms (si_server v))" if "memory_env env \<and> site_ok v" for v
    using site_okD(2) [of v] that by (simp add: rooms_ok_def)
  have refuse: "sr_draining (si_server v)" if "reaches (site_step env cfg) w v" for v
    using that unready_reaches unfolding assms(3) by blast
  have "isClosed (cs_queues (conn_of (sr_rooms (finish_shutdown (si_server u))) c))"
    if "reaches (site_step env cfg) w s" "reaches (site_step env cfg) (on_server (begin_drain env cfg now) s) u" "c \<in> directory u" for s now u c
  proof -
    have "memory_env env \<and> site_ok s" by (rule running.reaches_inv [OF that(1) w])
    then have "memory_env env \<and> site_ok (on_server (begin_drain env cfg now) s)" by (simp add: site_ok_on server_ok_shutdown)
    from running.reaches_inv [OF that(2) this] wf that(3) show ?thesis by (intro finish_closes) blast+
  qed
  moreover have "svc_wf (sr_rooms (si_server s))" if "reaches (site_step env cfg) w s" for s
    using wf [OF running.reaches_inv [OF that w]] .
  ultimately show ?thesis using drain_notice by (simp add: unready_admission unready_frame refuse)
qed

theorem shutdown_reaches_everyone_witness:
  "ServeWebSocket_admit web_env web_config 9 (web_request ''GET'' ''/ws'') (on_server (begin_drain web_env web_config 8) (on_server StartDraining site3)) =
     (Some (503, TextBody ''draining''), on_server (begin_drain web_env web_config 8) (on_server StartDraining site3))"
proof -
  have ok: "site_ok site3" using running.reaches_inv [OF web_run_from] site_ok_run [OF web_unused] web_env_memory by simp
  have "reaches (site_step web_env web_config) (on_server StartDraining site3)
      (on_server (begin_drain web_env web_config 8) (on_server StartDraining site3))"
    by (rule reaches.next_step, rule reaches.start, rule site_step.drain)
  from shutdown_reaches_everyone [OF web_env_memory ok refl, THEN conjunct1, rule_format, OF this] show ?thesis by blast
qed

text \<open>
  C17. Draining is final. Once readiness has failed and, after whatever steps, the drain has been announced, then whatever the program does from then
  on: both readiness flags stay down; every connection in the directory was there at the announcement or belongs to one that was, at
  that moment, past the check in \<open>Join\<close> and not yet in its room; such connections enter at most once each, so nobody joins
  when there were none; and a transport that is set up from then on changes no room and, with a configured queue size for which a
  queue can be made at all, is closed by \<open>Join\<close> at once.
\<close>

theorem draining_is_final:
  assumes "memory_env env" and "site_ok s0" and "reaches (site_step env cfg) (on_server StartDraining s0) s"
    and "reaches (site_step env cfg) (on_server (begin_drain env cfg now) s) t"
  shows "sr_draining (si_server t) \<and> IsDraining (sr_rooms (si_server t)) \<and>
    (\<forall>c \<in> directory t. c \<in> directory s \<or> (\<exists>j \<in> set (si_joining s). from_ticket j c)) \<and>
    card (directory t - directory s) + length (si_joining t) \<le> length (si_joining s) \<and>
    (\<forall>later accepted ticket. rs_rooms (sr_rooms (si_server (ServeWebSocket_accept env cfg later accepted ticket t))) = rs_rooms (sr_rooms (si_server t)) \<and>
       si_joining (ServeWebSocket_accept env cfg later accepted ticket t) = si_joining t) \<and>
    (\<forall>later upgraded stream ticket. rs_rooms (sr_rooms (si_server (ServeWebTransport_accept env cfg later upgraded stream ticket t))) =
         rs_rooms (sr_rooms (si_server t)) \<and>
       si_joining (ServeWebTransport_accept env cfg later upgraded stream ticket t) = si_joining t) \<and>
    (makechan_ok (cf_ReliableQueueSize cfg) \<longrightarrow> (\<forall>later ticket.
       isClosed (cs_queues (rs_conns (sr_rooms (si_server (ServeWebSocket_accept env cfg later True ticket t))) (si_nextRef t))) \<and>
       isClosed (cs_queues (rs_conns (sr_rooms (si_server (ServeWebTransport_accept env cfg later True True ticket t))) (si_nextRef t)))))"
proof -
  have "memory_env env \<and> site_ok (on_server StartDraining s0)" using assms by (simp add: site_ok_on server_ok_shutdown)
  from running.reaches_inv [OF assms(3) this] have "site_ok s" by simp
  from winding_reaches [OF assms(1) this unready_reaches [OF assms(3)] assms(4)]
  have w: "winding_down (directory s) (si_joining s) t" .
  then have d: "rs_draining (sr_rooms (si_server t))" by (simp add: winding_down_def)
  from w accept_refused [OF d] show ?thesis by (auto simp: winding_down_def IsDraining_def still_def)
qed

text \<open>The example: the drain comes while the socket of the run is on its way into its room.\<close>

theorem draining_is_final_witness:
  "let t = runConnection_join web_env web_config 9 (7, web_ticket) (on_server (begin_drain web_env web_config 8) (on_server StartDraining site2b)) in
   IsDraining (sr_rooms (si_server t)) \<and> (\<forall>c \<in> directory t. from_ticket (7, web_ticket) c) \<and> card (directory t) \<le> 1"
proof -
  let ?s = "on_server StartDraining site2b"
  let ?t = "runConnection_join web_env web_config 9 (7, web_ticket) (on_server (begin_drain web_env web_config 8) ?s)"
  have joining: "si_joining ?s = [(7, web_ticket)]" by (simp add: on_server_def site2_stages)
  have dir: "directory ?s = {}"
    by (simp add: on_server_def StartDraining_def site2_stages site2_server AllConnections_def NewMemoryRoomStore_def)
  have ok: "site_ok site2b" using running.reaches_inv [OF web_run_joining] site_ok_run [OF web_unused] web_env_memory by (simp add: site0_def)
  have "reaches (site_step web_env web_config) (on_server (begin_drain web_env web_config 8) ?s) ?t"
    by (rule reaches.next_step, rule reaches.start, rule site_step.ws_join) (simp add: on_server_def site2_stages)
  from draining_is_final [OF web_env_memory ok reaches.start this] show ?thesis
    unfolding Let_def joining dir by auto
qed

end
