(* ===== verification/Startup.thy ===== *)
theory Startup
  imports Draining
begin

text \<open>
  The start and the end of the process (\<open>cmd/server/main.go\<close>, and \<open>NewCanvasJWTValidator\<close> of
  \<open>internal/security/canvas_jwt_validator.go\<close>): the configuration, the key file, the wiring, the two
  tickers, and the shutdown after a signal. What the PEM and X.509 parsers make of the key file, the JWT
  library, the listeners and the signals are parameters; the logger is left out.
\<close>

section \<open>The token validator\<close>

record canvas_validator =
  jv_publicKey :: string
  jv_issuer :: string
  jv_audience :: string
  jv_leeway :: duration

text \<open>What the standard library finds in the bytes of the key file.\<close>

datatype public_key_pem = PkNotPEM | PkUnparsable string | PkOtherKind | PkEC (pk_curve: string) (pk_key: string)

datatype start_error = ConfigRefused config_error | KeyFileUnreadable | IssuerAudienceRequired | ErrUnsupportedKey string

definition NewCanvasJWTValidator ::
  "public_key_pem \<Rightarrow> string \<Rightarrow> string \<Rightarrow> duration \<Rightarrow> (start_error, canvas_validator) outcome" where
  "NewCanvasJWTValidator pem issuer audience leeway =
     (if issuer = [] \<or> audience = [] then Inl IssuerAudienceRequired
      else case pem of
        PkNotPEM \<Rightarrow> Inl (ErrUnsupportedKey ''not PEM encoded'')
      | PkUnparsable err \<Rightarrow> Inl (ErrUnsupportedKey err)
      | PkOtherKind \<Rightarrow> Inl (ErrUnsupportedKey ''expected an ECDSA key'')
      | PkEC curve key \<Rightarrow>
          if curve \<noteq> ''P-256'' then Inl (ErrUnsupportedKey (''expected curve P-256, got '' @ curve))
          else Inr \<lparr>jv_publicKey = key, jv_issuer = issuer, jv_audience = audience, jv_leeway = leeway\<rparr>)"

text \<open>
  The session service works on the in-memory stores; \<open>jwt\<close> is the library's parser under a validator's
  key, issuer, audience and leeway, at the instant of the call.
\<close>

type_synonym jwt_library = "canvas_validator \<Rightarrow> time \<Rightarrow> string \<Rightarrow> token_claims option"

definition NewSessionService ::
  "jwt_library \<Rightarrow> canvas_validator \<Rightarrow> duration \<Rightarrow> (session_store, ticket_store) session_deps" where
  "NewSessionService jwt validator ticketTTL = memory_deps (jwt validator) ticketTTL"

section \<open>Start\<close>

text \<open>\<open>time.NewTicker\<close> panics on an interval that is not positive.\<close>

definition NewTicker :: "duration \<Rightarrow> duration option" where
  "NewTicker d = (if d \<le> 0 then None else Some d)"

definition expireLocks_ticker :: "config \<Rightarrow> duration option" where
  "expireLocks_ticker cfg = NewTicker (if cf_BlockLockSweep cfg \<le> 0 then Second else cf_BlockLockSweep cfg)"

definition sweepLoop_ticker :: "config \<Rightarrow> duration option" where
  "sweepLoop_ticker cfg = NewTicker (cf_ConnectionTicketSweep cfg)"

record process_world =
  pw_dotenv :: dotenv_file
  pw_vars :: environment
  pw_read :: "string \<Rightarrow> public_key_pem option"

record realtime_server =
  rt_config :: config
  rt_validator :: canvas_validator
  rt_site :: site
  rt_webTransport :: "string option"
  rt_lockTicker :: "duration option"
  rt_sweepTicker :: "duration option"

definition run_start :: "process_world \<Rightarrow> time \<Rightarrow> conn_state \<Rightarrow> (start_error, realtime_server) outcome" where
  "run_start w now unused = (case Load (pw_dotenv w) (pw_vars w) of
     Inl e \<Rightarrow> Inl (ConfigRefused e)
   | Inr cfg \<Rightarrow> (case pw_read w (cf_CanvasJWTPublicKeyFile cfg) of
       None \<Rightarrow> Inl KeyFileUnreadable
     | Some pem \<Rightarrow> (case NewCanvasJWTValidator pem (cf_CanvasJWTIssuer cfg) (cf_CanvasJWTAudience cfg) (cf_CanvasJWTLeeway cfg) of
         Inl e \<Rightarrow> Inl e
       | Inr validator \<Rightarrow> Inr \<lparr>rt_config = cfg, rt_validator = validator, rt_site = run_site cfg now unused,
           rt_webTransport = (if WebTransportEnabled cfg then Some (cf_WebTransportAddr cfg) else None),
           rt_lockTicker = expireLocks_ticker cfg, rt_sweepTicker = sweepLoop_ticker cfg\<rparr>)))"

text \<open>The environment the handlers of a started server run in.\<close>

definition frameDeps :: "jwt_library \<Rightarrow> (nat \<Rightarrow> string) \<Rightarrow> (bytes \<Rightarrow> raw) \<Rightarrow> realtime_server \<Rightarrow> server_env" where
  "frameDeps jwt ids parse v = \<lparr>ev_newID = ids, ev_parse = parse,
     ev_deps = NewSessionService jwt (rt_validator v) (cf_ConnectionTicketTTL (rt_config v)),
     ev_locks = lock_settings_of (rt_config v)\<rparr>"

section \<open>Shutdown\<close>

text \<open>
  \<open>run\<close> from the signal on, which starts the grace period. The rest of the program goes on meanwhile: \<open>gap s\<close> is the state when the
  drain is announced, \<open>began\<close> that instant, and \<open>later s t\<close> the state at the instant \<open>t\<close> of the wait. It returns whether the
  reliable queues were seen empty, when the wait ended, and the state it leaves.
\<close>

definition run_shutdown ::
  "server_env \<Rightarrow> config \<Rightarrow> time \<Rightarrow> time \<Rightarrow> (site \<Rightarrow> site) \<Rightarrow> (site \<Rightarrow> time \<Rightarrow> site) \<Rightarrow> site \<Rightarrow> (bool \<times> time) \<times> site" where
  "run_shutdown env cfg signalled began gap later s = (let
     s = gap (on_server StartDraining s);
     s = on_server (begin_drain env cfg began) s;
     (flushed, t) = WaitForReliableDrain (\<lambda>t. sr_rooms (si_server (later s t))) (signalled + cf_ShutdownGrace cfg) (10 * Millisecond) began
   in ((flushed, t), on_server finish_shutdown (later s t)))"

section \<open>A key that is configured stays the key\<close>

lemma hmac_Validate_current: "hmac_Validate r body now v = (x, v') \<Longrightarrow> hv_current v' = hv_current v"
  by (auto simp: hmac_Validate_def rememberNonce_def Let_def split: if_splits sum.splits option.splits prod.splits)

lemma authenticate_current:
  "authenticateInternal now r s = (x, s') \<Longrightarrow> hv_current (si_hmac s') = hv_current (si_hmac s)"
  by (auto simp: authenticateInternal_def dest: hmac_Validate_current split: if_splits option.splits prod.splits sum.splits)

lemma on_server_hmac [simp]: "si_hmac (on_server f s) = si_hmac s"
  by (simp add: on_server_def)

lemma handlers_keep_key:
  "hv_current (si_hmac (snd (handler_RevokeSession env now r s))) = hv_current (si_hmac s)"
  "hv_current (si_hmac (snd (handler_UpdateSessionPermission env now r s))) = hv_current (si_hmac s)"
  "hv_current (si_hmac (snd (handler_RevokeUserFromNote env now n u r s))) = hv_current (si_hmac s)"
  "hv_current (si_hmac (snd (RegisterHistoryPreview env now r s))) = hv_current (si_hmac s)"
  "hv_current (si_hmac (snd (RevokeHistoryPreviews now n u r s))) = hv_current (si_hmac s)"
  by (cases "authenticateInternal now r s";
      auto simp: handler_RevokeSession_def handler_UpdateSessionPermission_def handler_RevokeUserFromNote_def
        RegisterHistoryPreview_def RevokeHistoryPreviews_def Let_def case_prod_unfold dest!: authenticate_current split: sum.split)+

lemma admission_keeps_hmac:
  "si_hmac (snd (handler_Bootstrap env cfg entropy now r s)) = si_hmac s"
  "si_hmac (snd (ServeWebSocket_admit env cfg now r s)) = si_hmac s"
  "si_hmac (snd (ServeWebTransport_admit env cfg now r s)) = si_hmac s"
  "si_hmac (snd (ServeWebSocket_upgrade ticket s)) = si_hmac s" "si_hmac (snd (ServeWebTransport_upgrade ticket s)) = si_hmac s"
  by (auto simp: handler_Bootstrap_def ServeWebSocket_admit_def ServeWebTransport_admit_def ServeWebSocket_upgrade_def
      ServeWebTransport_upgrade_def Let_def case_prod_unfold split: prod.split bool.split sum.split)

lemma opening_keeps_hmac:
  "si_hmac (ServeWebSocket_accept env cfg now accepted ticket s) = si_hmac s"
  "si_hmac (ServeWebTransport_accept env cfg now upgraded stream ticket s) = si_hmac s"
  "si_hmac (runConnection_join env cfg now j s) = si_hmac s" "si_hmac (runWebTransportSession_join env cfg now j s) = si_hmac s"
  by (simp_all add: ServeWebSocket_accept_def ServeWebTransport_accept_def runConnection_open_def runWebTransportSession_open_def
      runConnection_join_def runWebTransportSession_join_def open_session_def open_connection_def Let_def case_prod_unfold)

lemma site_step_keeps_key:
  assumes "site_step env cfg s t"
  shows "hv_current (si_hmac t) = hv_current (si_hmac s)"
  using assms
  by (cases rule: site_stepE)
    (auto simp: serve_def Let_def case_prod_unfold handlers_keep_key admission_keeps_hmac opening_keeps_hmac
      split: cors_result.split option.split endpoint.split)

interpretation keyed: machine "site_step env cfg" "\<lambda>s. hv_current (si_hmac s) = key" for env cfg key
  by unfold_locales (simp add: site_step_keeps_key)

lemma run_site_configured: "Configured (si_hmac (run_site cfg now unused)) \<longleftrightarrow> InternalControlEnabled cfg"
  by (simp add: run_site_def Let_def Configured_def InternalControlEnabled_def NewHMACValidator_def)

section \<open>The wait\<close>

lemma WaitForReliableDrain_spec:
  assumes "WaitForReliableDrain rooms deadline interval now = (flushed, t)"
  shows "now \<le> t \<and> t \<le> max now deadline \<and> (flushed \<longrightarrow> pending_reliable (rooms t) = 0) \<and>
    (\<not> flushed \<longrightarrow> t = max now deadline \<and>
      (\<forall>k :: nat. k = 0 \<or> now + int k * drain_interval interval < deadline \<longrightarrow>
         pending_reliable (rooms (now + int k * drain_interval interval)) \<noteq> 0))"
  using assms
proof (induction rooms deadline interval now rule: WaitForReliableDrain.induct)
  case (1 rooms deadline interval now)
  let ?i = "drain_interval interval"
  have i: "0 < ?i" by (simp add: drain_interval_def)
  consider (empty) "pending_reliable (rooms now) = 0" | (late) "pending_reliable (rooms now) \<noteq> 0" "deadline \<le> now + ?i"
    | (again) "pending_reliable (rooms now) \<noteq> 0" "\<not> deadline \<le> now + ?i" by blast
  then show ?case
  proof cases
    case empty
    with "1.prems" show ?thesis by (auto simp: WaitForReliableDrain.simps)
  next
    case late
    have only: "k = 0" if "now + int k * ?i < deadline" for k :: nat
    proof (rule ccontr)
      assume "k \<noteq> 0"
      then have "1 * ?i \<le> int k * ?i" using i by (intro mult_right_mono) auto
      with that late(2) show False by simp
    qed
    with late "1.prems" show ?thesis by (auto simp: WaitForReliableDrain.simps dest!: only)
  next
    case again
    have w: "WaitForReliableDrain rooms deadline interval (now + ?i) = (flushed, t)"
      using "1.prems" again by (simp add: WaitForReliableDrain.simps [of rooms deadline interval now])
    note ih = "1.IH" [OF again w]
    have "pending_reliable (rooms (now + int k * ?i)) \<noteq> 0"
      if "\<not> flushed" "k = 0 \<or> now + int k * ?i < deadline" for k
    proof (cases k)
      case 0
      with again show ?thesis by simp
    next
      case (Suc m)
      then have "now + ?i + int m * ?i = now + int k * ?i" by (simp add: distrib_right)
      with ih that Suc show ?thesis by (metis nat.distinct(1))
    qed
    with ih again i show ?thesis by auto
  qed
qed

section \<open>The control endpoints\<close>

fun control_endpoint :: "endpoint \<Rightarrow> bool" where
  "control_endpoint EpRevokeSession = True"
| "control_endpoint EpHistoryPreviews = True"
| "control_endpoint (EpHistoryRevoke _ _) = True"
| "control_endpoint EpPermission = True"
| "control_endpoint (EpRevokeUser _ _) = True"
| "control_endpoint _ = False"

lemma Split_first: "Split sep s = w # ws \<Longrightarrow> ws \<noteq> [] \<Longrightarrow> \<exists>r. s = w @ sep # r \<and> Split sep r = ws"
proof (induction s arbitrary: w)
  case (Cons c s)
  show ?case
  proof (cases "c = sep")
    case True
    with Cons.prems show ?thesis by auto
  next
    case False
    then obtain v where v: "Split sep s = v # ws" "w = c # v" using Cons.prems by (auto split: list.splits)
    from Cons.IH [OF v(1) Cons.prems(2)] v(2) show ?thesis by auto
  qed
qed simp

lemma note_user_path_internal:
  assumes "note_user_path (Split CHR ''/'' path) final"
  shows "isInternalPath path"
proof -
  let ?p = "Split CHR ''/'' path"
  have four: "take 4 ?p = [[], ''internal'', ''v1'', ''notes'']" using assms by (simp add: note_user_path_def)
  have "take 4 ?p @ drop 4 ?p = [] # ''internal'' # ''v1'' # ''notes'' # drop 4 ?p" unfolding four by simp
  then obtain rest where "?p = [] # ''internal'' # ''v1'' # ''notes'' # rest" unfolding append_take_drop_id by blast
  from Split_first [OF this] obtain r where r: "path = CHR ''/'' # r" "Split CHR ''/'' r = ''internal'' # ''v1'' # ''notes'' # rest" by auto
  from Split_first [OF r(2)] obtain q where "r = ''internal'' @ CHR ''/'' # q" by auto
  with r(1) show ?thesis by (simp add: isInternalPath_def)
qed

lemma control_paths:
  assumes "NewRouter method path = Some ep" "control_endpoint ep"
  shows "isInternalPath path" "method = ''POST''"
proof -
  have "path = ''/internal/v1/sessions/revoke'' \<or> path = ''/internal/v1/history/previews'' \<or> path = ''/internal/v1/sessions/permission'' \<or>
      (\<exists>final. note_user_path (Split CHR ''/'' path) final)" and m: "method = ''POST''"
    using assms by (auto simp: NewRouter_def Let_def split: if_splits)
  then show "isInternalPath path"
    using note_user_path_internal by (auto simp: isInternalPath_def)
  show "method = ''POST''" by (rule m)
qed

lemma control_served:
  assumes "NewRouter (hr_Method (hq_signed r)) (hr_Path (hq_signed r)) = Some ep" "control_endpoint ep"
    and "authenticateInternal now r s = (Inl e, s')"
  shows "\<exists>echo. serve env cfg entropy now r s = ((echo, Some (if hq_Origin r = [] then e else (403, TextBody ''forbidden''))), s)"
proof (cases "hq_Origin r = []")
  case True
  with control_paths [OF assms(1,2)] control_unchanged [OF assms(3)] assms(1,2) show ?thesis
    by (cases ep) (simp_all add: serve_def Let_def withCORS_def)
next
  case False
  with control_paths [OF assms(1,2)] show ?thesis by (simp add: serve_def Let_def withCORS_def)
qed

section \<open>Properties\<close>

text \<open>
  C14. A server that starts is set up soundly: its tokens are verified with the P-256 key of the
  configured file under a non-empty issuer and audience, its control plane is on exactly when a control
  key is configured, and, wired this way, every state it reaches satisfies the invariant of the program.
\<close>

theorem startup_sound:
  assumes "run_start w now unused = Inr v" and "conn_ok unused"
  shows "pw_read w (cf_CanvasJWTPublicKeyFile (rt_config v)) = Some (PkEC ''P-256'' (jv_publicKey (rt_validator v))) \<and>
    jv_issuer (rt_validator v) \<noteq> [] \<and> jv_audience (rt_validator v) \<noteq> [] \<and>
    (Configured (si_hmac (rt_site v)) \<longleftrightarrow> InternalControlEnabled (rt_config v)) \<and>
    (\<forall>jwt ids parse s. reaches (site_step (frameDeps jwt ids parse v) (rt_config v)) (rt_site v) s \<longrightarrow> site_ok s)"
proof -
  obtain cfg pem j where l: "Load (pw_dotenv w) (pw_vars w) = Inr cfg" "pw_read w (cf_CanvasJWTPublicKeyFile cfg) = Some pem"
      "NewCanvasJWTValidator pem (cf_CanvasJWTIssuer cfg) (cf_CanvasJWTAudience cfg) (cf_CanvasJWTLeeway cfg) = Inr j"
      and v: "rt_validator v = j" "rt_config v = cfg" "rt_site v = run_site cfg now unused"
    using assms(1) by (auto simp: run_start_def split: sum.splits option.splits)
  from l(3) have "pem = PkEC ''P-256'' (jv_publicKey j)" "jv_issuer j \<noteq> []" "jv_audience j \<noteq> []"
    by (auto simp: NewCanvasJWTValidator_def split: if_splits public_key_pem.splits)
  moreover have "memory_env (frameDeps jwt ids parse v)" for jwt ids parse
    by (auto simp: memory_env_def frameDeps_def NewSessionService_def)
  ultimately show ?thesis
    using l(2) v site_ok_run [OF assms(2), of cfg now] running.reaches_inv by (auto simp: run_site_configured)
qed

text \<open>A world the server starts in: nothing set but the name of the key file.\<close>

definition key_world :: process_world where
  "key_world = \<lparr>pw_dotenv = NoFile, pw_vars = [''CANVAS_JWT_PUBLIC_KEY_FILE'' \<mapsto> ''key.pem''],
     pw_read = (\<lambda>_. Some (PkEC ''P-256'' ''key''))\<rparr>"

lemma key_world_starts:
  "\<exists>v. run_start key_world 0 unused = Inr v \<and> jv_publicKey (rt_validator v) = ''key'' \<and> \<not> InternalControlEnabled (rt_config v)"
  by (simp add: run_start_def key_world_def Load_def loadDotEnv_def read_config_def env_string_def TrimSpace_def is_space_def
      NewCanvasJWTValidator_def InternalControlEnabled_def Let_def)

theorem startup_sound_witness:
  "\<exists>v. run_start key_world 0 (newWSConnection web_ticket 8 8) = Inr v \<and> jv_issuer (rt_validator v) \<noteq> [] \<and> site_ok (rt_site v)"
proof -
  obtain v where v: "run_start key_world 0 (newWSConnection web_ticket 8 8) = Inr v" using key_world_starts by blast
  note sound = startup_sound [OF v web_unused]
  from sound have "jv_issuer (rt_validator v) \<noteq> []" by (elim conjE)
  moreover have "site_ok (rt_site v)"
    by (rule sound [THEN conjunct2, THEN conjunct2, THEN conjunct2, THEN conjunct2, rule_format, OF reaches.start])
  ultimately show ?thesis using v by (intro exI [of _ v] conjI)
qed

text \<open>
  C15. Without a control key the control plane stays shut: in every state such a server reaches, a request the router sends to any of the five
  control endpoints is answered with 503 whatever its body and its signature are (or, when it carries an \<open>Origin\<close>, with the
  CORS wrapper's 403), and nothing in the program changes.
\<close>

theorem unkeyed_control_plane_shut:
  assumes "\<not> InternalControlEnabled cfg" and "reaches (site_step env cfg) (run_site cfg start unused) s"
    and "NewRouter (hr_Method (hq_signed r)) (hr_Path (hq_signed r)) = Some ep" and "control_endpoint ep"
  shows "\<exists>echo. serve env cfg entropy now r s = ((echo, Some (if hq_Origin r = []
      then writeError 503 ''CONTROL_DISABLED'' ''Internal control is not configured.'' else (403, TextBody ''forbidden''))), s)"
proof -
  have "hv_current (si_hmac s) = hv_current (si_hmac (run_site cfg start unused))"
    using keyed.reaches_inv [OF assms(2)] by simp
  then have "authenticateInternal now r s = (Inl (writeError 503 ''CONTROL_DISABLED'' ''Internal control is not configured.''), s)"
    using assms(1) run_site_configured [of cfg start unused] by (simp add: authenticateInternal_def Configured_def)
  from control_served [OF assms(3,4) this] show ?thesis .
qed

theorem unkeyed_control_plane_shut_witness:
  "\<exists>echo. serve web_env web_config None 9 (web_request ''POST'' ''/internal/v1/notes/n/users/u/revoke'') site3 =
     ((echo, Some (writeError 503 ''CONTROL_DISABLED'' ''Internal control is not configured.'')), site3)"
proof -
  let ?r = "web_request ''POST'' ''/internal/v1/notes/n/users/u/revoke''"
  have off: "\<not> InternalControlEnabled web_config"
    by (simp add: web_config_def read_config_def InternalControlEnabled_def env_string_def)
  have "NewRouter (hr_Method (hq_signed ?r)) (hr_Path (hq_signed ?r)) = Some (EpRevokeUser ''n'' ''u'')"
    by (simp add: web_request_def NewRouter_def note_user_path_def Let_def)
  from unkeyed_control_plane_shut [OF off web_run [unfolded site0_def] this, of None 9] show ?thesis
    by (simp add: web_request_def)
qed

text \<open>
  C16. The shutdown ends: whatever the rest of the program does meanwhile, the wait for the reliable
  queues returns, no later than the grace period after the signal allows (or at once, when the announcement itself came later than
  that); when it reports them flushed nothing was
  pending at that instant, otherwise something was pending at every poll of the whole period; and then
  every connection of the directory is closed. (The room service is assumed to keep its invariant, which every step of the
  program does.)
\<close>

theorem shutdown_terminates:
  assumes "s1 = on_server (begin_drain env cfg began) (gap (on_server StartDraining s))"
    and "svc_wf (sr_rooms (si_server (later s1 t)))"
    and "run_shutdown env cfg signalled began gap later s = ((flushed, t), s')"
  shows "began \<le> t \<and> t \<le> max began (signalled + cf_ShutdownGrace cfg) \<and>
    (let rooms = (\<lambda>t. sr_rooms (si_server (later s1 t))) in
      (flushed \<longrightarrow> pending_reliable (rooms t) = 0) \<and>
      (\<not> flushed \<longrightarrow> (\<forall>k :: nat. k = 0 \<or> began + int k * (10 * Millisecond) < signalled + cf_ShutdownGrace cfg \<longrightarrow>
         pending_reliable (rooms (began + int k * (10 * Millisecond))) \<noteq> 0)) \<and>
      (\<forall>c \<in> set (AllConnections (rs_rooms (rooms t))). isClosed (cs_queues (conn_of (sr_rooms (si_server s')) c))))"
proof -
  let ?rooms = "\<lambda>t. sr_rooms (si_server (later s1 t))"
  have w: "WaitForReliableDrain ?rooms (signalled + cf_ShutdownGrace cfg) (10 * Millisecond) began = (flushed, t)"
    and s': "s' = on_server finish_shutdown (later s1 t)"
    using assms(3) by (auto simp: run_shutdown_def Let_def case_prod_unfold prod_eq_iff assms(1))
  have "drain_interval (10 * Millisecond) = 10 * Millisecond" by (simp add: drain_interval_def)
  note spec = WaitForReliableDrain_spec [OF w, unfolded this]
  have "isClosed (cs_queues (conn_of (sr_rooms (si_server s')) c))" if "c \<in> set (AllConnections (rs_rooms (?rooms t)))" for c
    using finish_closes [OF assms(2) that] by (simp add: s' on_server_def)
  with spec show ?thesis by (auto simp: Let_def)
qed

theorem shutdown_terminates_witness:
  "\<exists>flushed t s'. run_shutdown web_env web_config 8 8 (\<lambda>s. s) (\<lambda>s t. s) site3 = ((flushed, t), s') \<and>
     8 \<le> t \<and> t \<le> 8 + cf_ShutdownGrace web_config"
proof -
  let ?later = "\<lambda>s (t :: time). s :: site"
  let ?s1 = "on_server (begin_drain web_env web_config 8) (on_server StartDraining site3)"
  obtain flushed t s' where r: "run_shutdown web_env web_config 8 8 (\<lambda>s. s) ?later site3 = ((flushed, t), s')" by (metis surj_pair)
  have "site_ok site3" using running.reaches_inv [OF web_run_from] site_ok_run [OF web_unused] web_env_memory by simp
  then have "site_ok ?s1" by (simp add: site_ok_on server_ok_shutdown)
  then have "svc_wf (sr_rooms (si_server (?later ?s1 t)))" using site_okD(2) by (auto simp: rooms_ok_def)
  from shutdown_terminates [OF refl this r] r show ?thesis
    by (auto simp: web_config_def read_config_def seconds_def integer_def)
qed

text \<open>
  A sweep interval of zero is accepted from the environment, and the ticker made from it panics in its
  goroutine right after the start; the lock sweep next to it guards its interval.
\<close>

lemma zero_sweep_interval_panics:
  assumes "run_start w now unused = Inr v" "pw_dotenv w = NoFile"
    "pw_vars w ''CONNECTION_TICKET_SWEEP_SECONDS'' = Some ''0''"
  shows "rt_sweepTicker v = None" "rt_lockTicker v = Some Second"
proof -
  obtain cfg where l: "Load (pw_dotenv w) (pw_vars w) = Inr cfg"
      and v: "rt_sweepTicker v = sweepLoop_ticker cfg" "rt_lockTicker v = expireLocks_ticker cfg"
    using assms(1) by (auto simp: run_start_def split: sum.splits option.splits)
  then have cfg: "cfg = read_config (pw_vars w)"
    using assms(2) by (auto simp: Load_def loadDotEnv_def Let_def split: if_splits)
  have "ParseInt (TrimSpace ''0'') = Some 0" by code_simp
  then have "cf_ConnectionTicketSweep cfg = 0" "cf_BlockLockSweep cfg = Second"
    by (simp_all add: cfg read_config_def seconds_def integer_def assms(3) wrap64_def)
  with v show "rt_sweepTicker v = None" "rt_lockTicker v = Some Second"
    by (simp_all add: sweepLoop_ticker_def expireLocks_ticker_def NewTicker_def)
qed

end
