(* ===== verification/Server_Main.thy ===== *)
theory Server_Main
  imports Startup
begin

text \<open>
  The server process from start to exit (\<open>cmd/server/main.go\<close>): the start, the life of the program until the HTTP
  listener fails or a signal arrives, the shutdown, and the exit status. What the listener and the
  operating system report is the environment's, and so is the order of the program's own steps: the state at the end of
  its life, the state when the drain is announced, and the state at each instant of the wait during the shutdown.
\<close>

text \<open>
  How the life of the program ends: \<open>ListenAndServe\<close> returned an error, or a signal arrived; then the second instant is
  that of the drain's announcement.
\<close>

datatype server_ending = ListenerFailed | Signalled time time

text \<open>
  The exit status and the state that is left. The result of \<open>server.Shutdown\<close> is the result of the whole
  program after a signal.
\<close>

definition server_main ::
  "jwt_library \<Rightarrow> (nat \<Rightarrow> string) \<Rightarrow> (bytes \<Rightarrow> raw) \<Rightarrow> process_world \<Rightarrow> time \<Rightarrow> conn_state \<Rightarrow> (realtime_server \<Rightarrow> site) \<Rightarrow> server_ending \<Rightarrow>
    (site \<Rightarrow> site) \<Rightarrow> (site \<Rightarrow> time \<Rightarrow> site) \<Rightarrow> bool \<Rightarrow> nat \<times> site option" where
  "server_main jwt ids parse w now unused life ending gap later shutdownFailed = (case run_start w now unused of
     Inl err \<Rightarrow> (1, None)
   | Inr v \<Rightarrow> (case ending of
       ListenerFailed \<Rightarrow> (1, Some (life v))
     | Signalled t began \<Rightarrow> (if shutdownFailed then 1 else 0,
         Some (snd (run_shutdown (frameDeps jwt ids parse v) (rt_config v) t began gap later (life v))))))"

text \<open>The steps of a started server, and an environment that lets it take only such steps.\<close>

definition runs_steps ::
  "jwt_library \<Rightarrow> (nat \<Rightarrow> string) \<Rightarrow> (bytes \<Rightarrow> raw) \<Rightarrow> (realtime_server \<Rightarrow> site) \<Rightarrow> (site \<Rightarrow> site) \<Rightarrow> (site \<Rightarrow> time \<Rightarrow> site) \<Rightarrow>
   realtime_server \<Rightarrow> bool" where
  "runs_steps jwt ids parse life gap later v \<longleftrightarrow> (let step = site_step (frameDeps jwt ids parse v) (rt_config v) in
     reaches step (rt_site v) (life v) \<and> (\<forall>s. reaches step s (gap s)) \<and> (\<forall>s t. reaches step s (later s t)))"

section \<open>Properties\<close>



end
