(* ===== verification/Refresh_Race.thy ===== *)
theory Refresh_Race
  imports Session_Service
begin

text \<open>
  A refresh is not one step. \<open>RefreshSession\<close> (\<open>internal/application/session_service.go\<close>) reads the session
  from the store, works on its copy and saves it back; each store call takes the mutex for itself, so a
  control request served by another goroutine can fall between the two.
\<close>

section \<open>The two halves\<close>

definition refresh_read ::
  "('s, 't) session_deps \<Rightarrow> string \<Rightarrow> string \<Rightarrow> time \<Rightarrow> ('s, 't) session_state \<Rightarrow> (error, canvas_session) outcome" where
  "refresh_read d sessionID token now s = (case Validate (sd_parse d now) token of
     Inl _ \<Rightarrow> Inl ErrSessionRejected
   | Inr claims \<Rightarrow> (case so_Get (sd_sessions d) sessionID (sv_sessions s) of
       None \<Rightarrow> Inl ErrSessionNotFound
     | Some session \<Rightarrow> refresh_session_from claims session now))"

definition refresh_write ::
  "('s, 't) session_deps \<Rightarrow> canvas_session \<Rightarrow> ('s, 't) session_state \<Rightarrow>
   (error, canvas_session) outcome \<times> ('s, 't) session_state" where
  "refresh_write d session s = (let
     (res, ss) = so_Save (sd_sessions d) (Some session) (sv_sessions s);
     s' = s\<lparr>sv_sessions := ss\<rparr>
   in case res of Inl e \<Rightarrow> (Inl e, s') | Inr _ \<Rightarrow> (Inr session, s'))"

lemma RefreshSession_halves:
  "RefreshSession d sessionID token now s = (case refresh_read d sessionID token now s of
     Inl e \<Rightarrow> (Inl e, s) | Inr session \<Rightarrow> refresh_write d session s)"
  by (simp add: RefreshSession_def refresh_read_def refresh_write_def split: sum.split option.split)

lemma refresh_read_session:
  assumes "refresh_read (memory_deps parse ttl) sid token now s = Inr x" "service_ok s"
  obtains claims old where "Validate (parse now) token = Inr claims" "session_view (sv_sessions s) sid = Some old"
    "ss_ID x = sid" "sid \<noteq> []" "permissionRank (ss_Permission x) \<le> permissionRank (ss_Permission old)"
    "permissionRank (ss_Permission x) \<le> permissionRank (cc_Permission claims)"
proof -
  obtain claims old where c: "Validate (parse now) token = Inr claims" "session_view (sv_sessions s) sid = Some old"
      "refresh_session_from claims old now = Inr x"
    using assms(1) by (auto simp: refresh_read_def memory_sessions.get_view simp del: map_of_eq_Some_iff
        split: sum.splits option.splits)
  have "ss_ID old = sid" "sid \<noteq> []"
    using session_wf_lookup [OF _ c(2)] assms(2) by auto
  moreover have "ss_ID x = ss_ID old" "permissionRank (ss_Permission x) \<le> permissionRank (ss_Permission old)"
      "permissionRank (ss_Permission x) \<le> permissionRank (cc_Permission claims)"
    using c(3) by (auto simp: refresh_session_from_def session_Touch_def Let_def split: if_splits)
  ultimately show ?thesis using that [OF c(1,2)] by simp
qed

lemma refresh_write_stores:
  "ss_ID x \<noteq> [] \<Longrightarrow> fst (refresh_write (memory_deps parse ttl) x s) = Inr x \<and>
     service_Session (memory_deps parse ttl) (ss_ID x) (snd (refresh_write (memory_deps parse ttl) x s)) = Some x"
  by (simp add: refresh_write_def service_Session_def memory_session_ops_def session_Save_def session_Get_def)

section \<open>Properties\<close>

text \<open>
  A control request that falls between the two halves of a refresh is undone by it. Whatever the
  request leaves in the store, the refresh then succeeds and stores the session as it was when it was
  read: a demotion in between is lost, and a session revoked in between is back in the store.
\<close>

theorem refresh_overtakes_control:
  assumes "service_ok s" and "refresh_read (memory_deps parse ttl) sid token now s = Inr x"
    and "s1 = snd (UpdateSessionPermission (memory_deps parse ttl) sid p s) \<or> s1 = snd (RevokeSession (memory_deps parse ttl) sid s)"
  shows "fst (refresh_write (memory_deps parse ttl) x s1) = Inr x \<and>
    service_Session (memory_deps parse ttl) sid (snd (refresh_write (memory_deps parse ttl) x s1)) = Some x \<and>
    (s1 = snd (RevokeSession (memory_deps parse ttl) sid s) \<longrightarrow> service_Session (memory_deps parse ttl) sid s1 = None) \<and>
    (\<exists>old. service_Session (memory_deps parse ttl) sid s = Some old \<and>
       permissionRank (ss_Permission x) \<le> permissionRank (ss_Permission old))"
proof -
  obtain claims old where x: "session_view (sv_sessions s) sid = Some old" "ss_ID x = sid" "sid \<noteq> []"
      "permissionRank (ss_Permission x) \<le> permissionRank (ss_Permission old)"
    using refresh_read_session [OF assms(2,1)] by metis
  have "service_Session (memory_deps parse ttl) sid (snd (RevokeSession (memory_deps parse ttl) sid s)) = None"
    using mem.Revoke_final [OF assms(1) [unfolded service_ok_wf] x(3)] by blast
  moreover have "service_Session (memory_deps parse ttl) sid s = Some old"
    using x(1) by (simp add: service_Session_def memory_sessions.get_view del: map_of_eq_Some_iff)
  ultimately show ?thesis using refresh_write_stores [of x parse ttl s1] x by auto
qed

theorem refresh_overtakes_control_witness:
  "let s = snd (Bootstrap example_deps example_entropy ''tok'' 5 example_state);
       s1 = snd (UpdateSessionPermission example_deps ''s1'' PermissionView s) in
   \<exists>x. refresh_read example_deps ''s1'' ''tok'' 6 s = Inr x \<and> ss_Permission x = PermissionEdit \<and>
     service_Session example_deps ''s1'' (snd (refresh_write example_deps x s1)) = Some x"
proof -
  let ?s = "snd (Bootstrap example_deps example_entropy ''tok'' 5 example_state)"
  have ok: "service_ok ?s"
    using mem.Bootstrap_wf [OF example_ok [unfolded service_ok_wf]] by (simp add: service_ok_wf)
  obtain x where x: "refresh_read example_deps ''s1'' ''tok'' 6 ?s = Inr x" "ss_Permission x = PermissionEdit"
    by (simp add: refresh_read_def refresh_session_from_def permissionRank_def session_Touch_def service_defs example_defs)
  from refresh_overtakes_control [OF ok x(1) disjI1 [OF refl], of PermissionView] x show ?thesis
    unfolding Let_def by blast
qed

end
