(* ===== verification/Client_Frames_Correct.thy ===== *)
theory Client_Frames_Correct
  imports Client_Frames
begin

text \<open>
  What the inbound handler guarantees: which frames reach the room and what they carry, the guard
  that leases put on geometry, and what clients can imitate.
\<close>

section \<open>Admission\<close>

text \<open>What the stages before the dispatch may change: metrics, the sender's flags, liveness stamp and
  rate limits, and the last-seen time of its session.\<close>

definition admitted :: "connection \<Rightarrow> server \<Rightarrow> server \<Rightarrow> bool" where
  "admitted conn s t \<longleftrightarrow> sr_locks t = sr_locks s \<and> sr_draining t = sr_draining s \<and>
     same_service (sr_rooms t) (sr_rooms s) \<and> rs_ids (sr_rooms t) = rs_ids (sr_rooms s) \<and>
     (\<forall>x. x \<noteq> cn_Ref conn \<longrightarrow> rs_conns (sr_rooms t) x = rs_conns (sr_rooms s) x) \<and>
     cs_permission (conn_of (sr_rooms t) conn) = cs_permission (conn_of (sr_rooms s) conn) \<and>
     oq_reliable (cs_queues (conn_of (sr_rooms t) conn)) = oq_reliable (cs_queues (conn_of (sr_rooms s) conn)) \<and>
     oq_reliableSize (cs_queues (conn_of (sr_rooms t) conn)) = oq_reliableSize (cs_queues (conn_of (sr_rooms s) conn)) \<and>
     isClosed (cs_queues (conn_of (sr_rooms t) conn)) = isClosed (cs_queues (conn_of (sr_rooms s) conn))"

lemma admitted_refl: "admitted conn s s" by (simp add: admitted_def)

lemma admitted_trans: "admitted conn s t \<Longrightarrow> admitted conn t u \<Longrightarrow> admitted conn s u"
  by (auto simp: admitted_def)

lemma admitted_count: "admitted conn s (count_metric f s)"
  by (simp add: admitted_def count_metric_def on_rooms_def conn_of_def)

lemma admitted_binary: "admitted conn s (on_rooms (upd_conn EnableBinaryFrames conn) s)"
  by (simp add: admitted_def on_rooms_def conn_of_def upd_conn_def EnableBinaryFrames_def)

lemma admitted_touch: "admitted conn s (touch_session env now conn s)"
  by (auto simp: admitted_def touch_session_def on_rooms_def conn_of_def upd_conn_def shouldTouch_def isClosed_def
      Let_def)

lemma admitted_limits: "admitted conn s (s\<lparr>sr_limits := l\<rparr>)"
  by (simp add: admitted_def)

text \<open>The frames the stages before the dispatch turn away: while draining, unparsable, over the rate
  limit of their class, or not permitted.\<close>

definition refused :: "server_env \<Rightarrow> time \<Rightarrow> connection \<Rightarrow> bytes \<Rightarrow> server \<Rightarrow> bool" where
  "refused env now conn data s \<longleftrightarrow> sr_draining s \<or> (case parse_frame env data of
     None \<Rightarrow> True
   | Some (e, _) \<Rightarrow> \<not> fst (limits_Allow (ClassifyEvent (en_Event e)) now (sr_limits s (cn_Ref conn))) \<or>
       \<not> MayPublish (cs_permission (conn_of (sr_rooms s) conn)) (en_Event e))"

lemma handleClientFrame_cases:
  assumes "handleClientFrame env now conn data s = (r, s')"
  shows "refused env now conn data s \<and> r = Dropped_frame \<and> admitted conn s s' \<or>
    (\<exists>e b t. \<not> refused env now conn data s \<and> \<not> sr_draining s \<and> parse_frame env data = Some (e, b) \<and> admitted conn s t \<and>
       MayPublish (cs_permission (conn_of (sr_rooms s) conn)) (en_Event e) \<and> dispatch_frame env now conn e t = (r, s'))"
proof (cases "sr_draining s \<or> parse_frame env data = None")
  case True
  with assms show ?thesis
    by (auto simp: handleClientFrame_def refused_def Let_def admitted_refl admitted_count split: if_splits)
next
  case False
  then obtain e b where p: "parse_frame env data = Some (e, b)" and nd: "\<not> sr_draining s" by auto
  define s1 where "s1 = count_metric (\<lambda>m. m\<lparr>mt_MessagesIn := mt_MessagesIn m + 1,
             mt_IncomingBytes := mt_IncomingBytes m + int (length data)\<rparr>) s"
  define s2 where "s2 = touch_session env now conn (if b then on_rooms (upd_conn EnableBinaryFrames conn) s1 else s1)"
  define lim where "lim = limits_Allow (ClassifyEvent (en_Event e)) now (sr_limits s2 (cn_Ref conn))"
  define t where "t = s2\<lparr>sr_limits := (sr_limits s2)(cn_Ref conn := snd lim)\<rparr>"
  have "admitted conn s (if b then on_rooms (upd_conn EnableBinaryFrames conn) s1 else s1)"
    unfolding s1_def using admitted_trans [OF admitted_count admitted_binary] admitted_count by simp
  then have "admitted conn s s2" unfolding s2_def by (rule admitted_trans [OF _ admitted_touch])
  then have adm: "admitted conn s t" unfolding t_def by (rule admitted_trans [OF _ admitted_limits])
  have h: "handleClientFrame env now conn data s =
      (if \<not> fst lim then (Dropped_frame, t)
       else if \<not> MayPublish (cs_permission (conn_of (sr_rooms t) conn)) (en_Event e) then (Dropped_frame, t)
       else dispatch_frame env now conn e t)"
    using nd p by (simp add: handleClientFrame_def Let_def s1_def s2_def lim_def t_def case_prod_unfold)
  have "cs_permission (conn_of (sr_rooms t) conn) = cs_permission (conn_of (sr_rooms s) conn)"
    using adm by (simp add: admitted_def)
  moreover have "fst lim = fst (limits_Allow (ClassifyEvent (en_Event e)) now (sr_limits s (cn_Ref conn)))"
    by (simp add: lim_def s2_def s1_def touch_session_def Let_def case_prod_unfold on_rooms_def count_metric_def)
  ultimately show ?thesis using h assms adm nd p by (auto simp: refused_def split: if_splits)
qed

section \<open>What is relayed\<close>

definition server_consumed :: "string list" where
  "server_consumed = [''heartbeat'', ''auth.refresh'', ''protocol.capabilities'', ''interest.update''] @ lock_verbs"

lemma stamp_frame_simps:
  assumes "stamp_frame env now conn e r = (e', r')"
  shows "en_V e' = EnvelopeVersion" "en_Origin e' = Some (cn_ID conn)" "en_ActorID e' = Some (cn_UserID conn)"
    "en_SessionID e' = cn_SessionID conn" "en_Channel e' = ''note:'' @ cn_NoteID conn" "en_SentAt e' = unix_milli now"
    "en_Event e' = en_Event e" "en_Payload e' = en_Payload e" "rs_conns r' = rs_conns r" "same_service r' r"
  using assms by (auto simp: stamp_frame_def Let_def Stamp_def split: if_splits)

lemma newBlockLockHandler_passes:
  "newBlockLockHandler env now conn event payload s = (False, s') \<Longrightarrow> event \<notin> set lock_verbs \<and> s' = s"
  by (auto simp: newBlockLockHandler_def Let_def case_prod_unfold split: if_splits option.splits)

lemma newTransformGuard_passes:
  "newTransformGuard env now conn event payload s = (True, s') \<Longrightarrow> s' = s"
  by (auto simp: newTransformGuard_def Let_def split: if_splits option.splits)

lemma dispatch_relayed:
  assumes "dispatch_frame env now conn e t = (Relayed e', s')"
  obtains e0 r where "en_Event e0 = en_Event e" "en_Event e \<notin> set server_consumed"
    "stamp_frame env now conn e0 (sr_rooms t) = (e', r)" "s' = t\<lparr>sr_rooms := Relay conn e' r\<rparr>"
    "newTransformGuard env now conn (en_Event e) (en_Payload e) t = (True, t)"
    "en_Event e = ''history.preview'' \<or> e0 = e"
proof -
  have ev: "en_Event e \<noteq> ''heartbeat''" "en_Event e \<noteq> ''auth.refresh''" "en_Event e \<noteq> ''protocol.capabilities''"
    "en_Event e \<noteq> ''interest.update''"
    using assms by (auto simp: dispatch_frame_def case_prod_unfold Let_def split: if_splits)
  obtain b1 t1 where lk: "newBlockLockHandler env now conn (en_Event e) (en_Payload e) t = (b1, t1)" by fastforce
  with assms ev have nb: "\<not> b1" by (cases b1) (auto simp: dispatch_frame_def)
  with lk have "newBlockLockHandler env now conn (en_Event e) (en_Payload e) t = (False, t1)" by simp
  then have lv: "en_Event e \<notin> set lock_verbs" "t1 = t" using newBlockLockHandler_passes by blast+
  obtain b2 t2 where tg: "newTransformGuard env now conn (en_Event e) (en_Payload e) t = (b2, t2)" by fastforce
  with assms ev lk nb lv have b2 by (cases b2) (auto simp: dispatch_frame_def)
  with tg have "newTransformGuard env now conn (en_Event e) (en_Payload e) t = (True, t2)" by simp
  then have t2: "t2 = t" by (rule newTransformGuard_passes)
  define e1 where "e1 = (if en_Event e = ''history.preview''
                   then map_option (\<lambda>payload. e\<lparr>en_Payload := payload\<rparr>)
                     (Resolve conn (cs_permission (conn_of (sr_rooms t) conn)) (en_Payload e) now (rs_previews (sr_rooms t)))
                   else Some e)"
  have d: "(case e1 of None \<Rightarrow> (Dropped_frame, t) | Some e \<Rightarrow> (let (e, r) = stamp_frame env now conn e (sr_rooms t)
                 in (Relayed e, t\<lparr>sr_rooms := Relay conn e r\<rparr>))) = (Relayed e', s')"
    using assms ev lk nb lv tg \<open>b2\<close> t2 by (simp add: dispatch_frame_def e1_def)
  then obtain e0 where e0: "e1 = Some e0" by (cases e1) auto
  then have "en_Event e0 = en_Event e" "en_Event e = ''history.preview'' \<or> e0 = e"
    by (auto simp: e1_def split: if_splits)
  moreover have "stamp_frame env now conn e0 (sr_rooms t) = (e', snd (stamp_frame env now conn e0 (sr_rooms t)))"
    "s' = t\<lparr>sr_rooms := Relay conn e' (snd (stamp_frame env now conn e0 (sr_rooms t)))\<rparr>"
    using d e0 by (auto simp: Let_def case_prod_unfold)
  ultimately show ?thesis
    using that ev lv tg \<open>b2\<close> t2 by (simp add: server_consumed_def)
qed

text \<open>Events without a handler of their own are stamped and relayed.\<close>

definition plain_event :: "string \<Rightarrow> bool" where
  "plain_event ev \<longleftrightarrow> ev \<notin> set server_consumed \<and> ev \<noteq> ''block.transform.preview'' \<and>
     ev \<noteq> ''block.transform.commit'' \<and> ev \<noteq> ''history.preview''"

lemma dispatch_plain:
  assumes "plain_event (en_Event e)"
  shows "fst (dispatch_frame env now conn e s) = Relayed (fst (stamp_frame env now conn e (sr_rooms s)))"
proof -
  have "newBlockLockHandler env now conn (en_Event e) (en_Payload e) s = (False, s)"
    using assms by (simp add: newBlockLockHandler_def server_consumed_def plain_event_def)
  moreover have "newTransformGuard env now conn (en_Event e) (en_Payload e) s = (True, s)"
    using assms by (simp add: newTransformGuard_def plain_event_def split: option.split)
  ultimately show ?thesis
    using assms by (simp add: dispatch_frame_def server_consumed_def plain_event_def Let_def case_prod_unfold)
qed

lemma plain_frame_relayed:
  assumes "\<not> refused env now conn data s" "parse_frame env data = Some (e, b)" "plain_event (en_Event e)"
  shows "\<exists>e' s'. handleClientFrame env now conn data s = (Relayed e', s')"
proof -
  obtain r s' where h: "handleClientFrame env now conn data s = (r, s')" by fastforce
  from handleClientFrame_cases [OF h] assms(1,2) obtain t where "dispatch_frame env now conn e t = (r, s')" by auto
  with dispatch_plain [OF assms(3), of env now conn t] h show ?thesis by auto
qed

section \<open>Denials\<close>

lemma Notify_conns:
  "rs_conns (Notify newID now conn event payload r) = (rs_conns r)(cn_Ref conn :=
     deliver ''reliable queue overflow'' (fst (service_envelope newID now (cn_NoteID conn) event payload r))
       (rs_conns r (cn_Ref conn)))"
  by (simp add: Notify_def Let_def case_prod_unfold sending.act_conns) (simp add: service_envelope_def)

lemma deny_conns:
  "\<exists>d. en_Event d = ''block.lock.denied'' \<and> rs_conns (sr_rooms (deny env now conn b i reason h s)) =
     (rs_conns (sr_rooms s))(cn_Ref conn := deliver ''reliable queue overflow'' d (rs_conns (sr_rooms s) (cn_Ref conn)))"
  by (simp add: deny_def Let_def on_rooms_def count_metric_def Notify_conns)
    (rule exI, rule conjI [rotated], rule refl, simp add: service_envelope_def)

lemma geometry_blocked:
  assumes "sr_locks t = Some locks" "en_Event e = ''block.transform.preview'' \<or> en_Event e = ''block.transform.commit''"
    "BlockedBy memory_lock_ops conn (transformSubject (en_Payload e)) now locks = Some holder"
  shows "dispatch_frame env now conn e t = (Dropped_frame,
    if en_Event e = ''block.transform.commit''
    then deny env now conn (transformSubject (en_Payload e)) [] DenialHeldByOther (Some holder) t else t)"
proof -
  have "newBlockLockHandler env now conn (en_Event e) (en_Payload e) t = (False, t)"
    using assms(2) by (auto simp: newBlockLockHandler_def lock_verbs_def)
  with assms show ?thesis by (auto simp: dispatch_frame_def newTransformGuard_def)
qed

section \<open>Properties\<close>

text \<open>
  C3. What reaches a room is authentic and authorised: a frame that is relayed carries the identity,
  session and note of the authenticated connection, the server's clock and version, was permitted to
  that connection, is none of the events the server consumes (so no bearer token and no viewport is
  ever broadcast), was not handled while draining, and changes no connection but the sender and other
  members of the sender's note.
\<close>

theorem relayed_frames_authentic:
  assumes "svc_wf (sr_rooms s)" and "handleClientFrame env now conn data s = (Relayed e, s')"
  shows "\<not> sr_draining s \<and> en_V e = 2 \<and> en_Origin e = Some (cn_ID conn) \<and> en_ActorID e = Some (cn_UserID conn) \<and>
    en_SessionID e = cn_SessionID conn \<and> en_Channel e = ''note:'' @ cn_NoteID conn \<and> en_SentAt e = unix_milli now \<and>
    MayPublish (cs_permission (conn_of (sr_rooms s) conn)) (en_Event e) \<and> en_Event e \<notin> set server_consumed \<and>
    (\<forall>x. rs_conns (sr_rooms s') x = rs_conns (sr_rooms s) x \<or> x = cn_Ref conn \<or>
      (\<exists>p \<in> set (AllConnections (rs_rooms (sr_rooms s))). cn_Ref p = x \<and> cn_NoteID p = cn_NoteID conn \<and> cn_ID p \<noteq> cn_ID conn))"
proof -
  from handleClientFrame_cases [OF assms(2)] obtain e1 b t where nd: "\<not> sr_draining s" and adm: "admitted conn s t"
    and may: "MayPublish (cs_permission (conn_of (sr_rooms s) conn)) (en_Event e1)"
    and d: "dispatch_frame env now conn e1 t = (Relayed e, s')" by auto
  from d obtain e0 r where ev: "en_Event e0 = en_Event e1" "en_Event e1 \<notin> set server_consumed"
    and st: "stamp_frame env now conn e0 (sr_rooms t) = (e, r)" and s': "s' = t\<lparr>sr_rooms := Relay conn e r\<rparr>"
    by (rule dispatch_relayed)
  have same: "same_service r (sr_rooms s)" using stamp_frame_simps(10) [OF st] adm by (simp add: admitted_def)
  have wf: "svc_wf r" by (rule svc_wf_same [OF same assms(1)])
  have others: "rs_conns (sr_rooms s') x = rs_conns (sr_rooms s) x \<or> x = cn_Ref conn \<or>
      (\<exists>p \<in> set (AllConnections (rs_rooms (sr_rooms s))). cn_Ref p = x \<and> cn_NoteID p = cn_NoteID conn \<and> cn_ID p \<noteq> cn_ID conn)" for x
  proof (cases "rs_conns (Relay conn e r) x = rs_conns r x")
    case True
    with adm st s' show ?thesis by (auto simp: stamp_frame_simps(9) admitted_def)
  next
    case False
    have rw: "room_wf (rs_rooms r)" using wf by (simp add: svc_wf_def)
    from Relay_confined [OF wf False] obtain p where p: "p \<in> set (Peers (cn_NoteID conn) (cn_ID conn) (rs_rooms r))" "cn_Ref p = x"
      by blast
    with same memory_rooms.peers_of_room [OF rw p(1)] memory_rooms.peers_everyone [OF rw p(1)] show ?thesis by auto
  qed
  with nd may ev stamp_frame_simps [OF st] show ?thesis by simp
qed

text \<open>
  C10. A lease is enforced, not advised: while another connection holds an unexpired lease on the block
  a geometry frame names, the frame is not relayed and no other connection is touched; a commit that
  passes the rate limit and the permission check is answered with an explicit denial.
\<close>

theorem leased_block_protected:
  assumes "sr_locks s = Some locks" and "lock_wf locks" and "parse_frame env data = Some (e, b)"
    and "en_Event e = ''block.transform.preview'' \<or> en_Event e = ''block.transform.commit''"
    and "transformSubject (en_Payload e) = block" and "block \<noteq> []"
    and "lock_view locks (cn_NoteID conn, block) = Some l" and "\<not> lock_IsExpired l now" and "lk_ConnectionID l \<noteq> cn_ID conn"
  shows "fst (handleClientFrame env now conn data s) = Dropped_frame \<and>
    (\<forall>x. rs_conns (sr_rooms (snd (handleClientFrame env now conn data s))) x = rs_conns (sr_rooms s) x \<or> x = cn_Ref conn) \<and>
    (en_Event e = ''block.transform.commit'' \<and> \<not> refused env now conn data s \<longrightarrow> (\<exists>d c. en_Event d = ''block.lock.denied'' \<and>
       cs_permission c = cs_permission (conn_of (sr_rooms s) conn) \<and>
       oq_reliable (cs_queues c) = oq_reliable (cs_queues (conn_of (sr_rooms s) conn)) \<and>
       conn_of (sr_rooms (snd (handleClientFrame env now conn data s))) conn = deliver ''reliable queue overflow'' d c))"
proof -
  obtain r s' where h: "handleClientFrame env now conn data s = (r, s')" by fastforce
  have blocked: "BlockedBy memory_lock_ops conn (transformSubject (en_Payload e)) now locks = Some l"
    using assms(2,5-9) by (simp add: BlockedBy_def memory_locks.holder_refines spec_Holder_def)
  from handleClientFrame_cases [OF h] consider "refused env now conn data s" "r = Dropped_frame" "admitted conn s s'"
    | t where "admitted conn s t" "dispatch_frame env now conn e t = (r, s')" using assms(3) by auto
  then show ?thesis
  proof cases
    case 1
    with h show ?thesis by (auto simp: admitted_def)
  next
    case 2
    have oth: "\<forall>x. rs_conns (sr_rooms t) x = rs_conns (sr_rooms s) x \<or> x = cn_Ref conn"
      using 2(1) by (auto simp: admitted_def)
    have "sr_locks t = Some locks" using 2(1) assms(1) by (simp add: admitted_def)
    note g = geometry_blocked [OF this assms(4) blocked, of env]
    show ?thesis
    proof (cases "en_Event e = ''block.transform.commit''")
      case False
      with g 2 have "r = Dropped_frame" "s' = t" by auto
      with h oth False show ?thesis by simp
    next
      case True
      with g 2 have r: "r = Dropped_frame"
        and s': "s' = deny env now conn (transformSubject (en_Payload e)) [] DenialHeldByOther (Some l) t" by auto
      from deny_conns obtain d where d: "en_Event d = ''block.lock.denied''" "rs_conns (sr_rooms s') =
          (rs_conns (sr_rooms t))(cn_Ref conn := deliver ''reliable queue overflow'' d (rs_conns (sr_rooms t) (cn_Ref conn)))"
        unfolding s' by blast
      from 2(1) d r h True show ?thesis
        by (auto simp: admitted_def conn_of_def intro!: exI [of _ d] exI [of _ "rs_conns (sr_rooms t) (cn_Ref conn)"])
    qed
  qed
qed

section \<open>An example server\<close>

definition example_text :: "string \<Rightarrow> json \<Rightarrow> bytes \<Rightarrow> raw" where
  "example_text event payload data = marshal (JObj [jmem ''event'' (JStr event), jmem ''payload'' payload])"

definition example_senv :: "string \<Rightarrow> json \<Rightarrow> server_env" where
  "example_senv event payload = \<lparr>ev_newID = (\<lambda>_. ''id''), ev_parse = example_text event payload, ev_deps = example_deps,
     ev_locks = example_lock_settings\<rparr>"

definition example_limits :: rate_limits where
  "example_limits = \<lparr>rl_ephemeral = NewTokenBucket (Fin 1) (Fin 10) 0, rl_reliable = NewTokenBucket (Fin 1) (Fin 10) 0,
     rl_signaling = NewTokenBucket (Fin 1) (Fin 10) 0\<rparr>"

definition example_server :: "lock_store option \<Rightarrow> server" where
  "example_server locks = \<lparr>sr_rooms = example_service, sr_sessions = example_state, sr_locks = locks,
     sr_limits = (\<lambda>_. example_limits), sr_draining = False\<rparr>"

lemma example_server_simps [simp]:
  "sr_rooms (example_server l) = example_service" "sr_locks (example_server l) = l" "sr_draining (example_server l) = False"
  "sr_limits (example_server l) x = example_limits"
  by (simp_all add: example_server_def)

lemma example_parse_frame:
  "ascii event \<Longrightarrow> event \<noteq> [] \<Longrightarrow> \<exists>e. parse_frame (example_senv event payload) [] = Some (e, False) \<and> en_Event e = event \<and>
     en_Payload e = Raw (json_len payload) (Some payload)"
  by (simp add: parse_frame_def example_senv_def example_text_def IsBinaryFrame_def dec_envelope_def json_defs
      EqualFold_def upper_char_def)

lemma example_allows: "fst (limits_Allow cls 0 example_limits)"
  by (cases cls) (simp_all add: limits_Allow_def example_limits_def bucket_Allow_def NewTokenBucket_def Let_def
      time_sub_def dur_seconds_neg)

lemma example_not_refused:
  assumes "ascii event" "event \<noteq> []" "MayPublish PermissionEdit event"
  shows "\<not> refused (example_senv event payload) 0 conn [] (example_server l)"
  using example_parse_frame [OF assms(1,2), of payload] assms(3) example_allows
  by (auto simp: refused_def example_conn_state_def)

section \<open>Imitated notices\<close>

definition server_notices :: "string list" where
  "server_notices = [''block.lock.granted'', ''block.lock.denied'', ''block.lock.released'', ''block.lock.expired'',
     ''auth.refreshed'', ''auth.rejected'', ''heartbeat.ack'']"

lemma notices_reliable: "list_all (\<lambda>ev. ClassifyEvent ev = ClassReliable) server_notices"
  by (simp add: server_notices_def ClassifyEvent_def event_tables HasPrefix_def)

lemma notices_plain: "list_all (\<lambda>ev. ev \<noteq> ''server.draining'' \<and> plain_event ev) server_notices"
  by (simp add: server_notices_def server_consumed_def lock_verbs_def plain_event_def)

text \<open>
  The server's own notices can be imitated: the lock answers, the answers to a refresh and the
  heartbeat acknowledgement are not among the events a client may not publish, so an editor's frame
  with such an event is permitted, stamped and relayed like any other.
\<close>

theorem server_notices_forgeable:
  assumes "en_Event e \<in> set [''block.lock.granted'', ''block.lock.denied'', ''block.lock.released'', ''block.lock.expired'',
      ''auth.refreshed'', ''auth.rejected'', ''heartbeat.ack'']"
    and "CanDraw p"
  shows "MayPublish p (en_Event e) \<and>
    fst (dispatch_frame env now conn e s) = Relayed (fst (stamp_frame env now conn e (sr_rooms s)))"
proof -
  have ev: "en_Event e \<in> set server_notices" using assms(1) by (simp only: server_notices_def)
  with notices_reliable notices_plain have c: "ClassifyEvent (en_Event e) = ClassReliable"
    and u: "en_Event e \<noteq> ''server.draining''" "plain_event (en_Event e)"
    by (auto simp only: list_all_iff)
  have "MayPublish p (en_Event e)" using c u(1) assms(2) by (simp add: MayPublish_def)
  with dispatch_plain [OF u(2)] show ?thesis by simp
qed

theorem server_notices_forgeable_witness:
  "\<exists>e. en_Event e = ''block.lock.granted'' \<and> fst (dispatch_frame (example_senv [] JNull) 0 alice e (example_server None)) =
     Relayed (fst (stamp_frame (example_senv [] JNull) 0 alice e example_service))"
  using server_notices_forgeable [of "example_frame ''block.lock.granted''" PermissionEdit
      "example_senv [] JNull" 0 alice "example_server None"]
  by (intro exI [of _ "example_frame ''block.lock.granted''"]) (simp add: example_frame_def CanDraw_def)

text \<open>
  The geometry guard and the browser can read different blocks from one frame: member names are
  matched ignoring case and the last match wins, so a payload that names a leased block under
  \<open>blockId\<close> and a free one under a differently cased name passes the guard for the free block while
  its \<open>blockId\<close> member is relayed unchanged.
\<close>

theorem transform_guard_reads_last_key:
  "transformSubject (Raw n (Some (JObj [(''blockId'', k, JStr ''leased''), (''BLOCKID'', m, JStr ''free'')]))) = ''free''"
  by (simp add: transformSubject_def json_defs EqualFold_def upper_char_def ascii_def) code_simp

section \<open>Witnesses on the example server\<close>

theorem relayed_frames_authentic_witness:
  "\<exists>e. fst (handleClientFrame (example_senv ''ink.commit'' JNull) 0 alice [] (example_server None)) = Relayed e \<and>
     en_Origin e = Some ''a'' \<and> en_Channel e = ''note:n''"
proof -
  have "MayPublish PermissionEdit ''ink.commit''"
    by (simp add: MayPublish_def ClassifyEvent_reliable reliableEvents_def CanDraw_def)
  then have "\<not> refused (example_senv ''ink.commit'' JNull) 0 alice [] (example_server None)"
    by (intro example_not_refused) (simp_all add: ascii_def)
  moreover obtain e where "parse_frame (example_senv ''ink.commit'' JNull) [] = Some (e, False)" "en_Event e = ''ink.commit''"
    using example_parse_frame [of "''ink.commit''" JNull] by (auto simp: ascii_def)
  moreover have "plain_event ''ink.commit''" by (simp add: plain_event_def server_consumed_def lock_verbs_def)
  ultimately obtain e' s' where h: "handleClientFrame (example_senv ''ink.commit'' JNull) 0 alice [] (example_server None) =
      (Relayed e', s')" using plain_frame_relayed by metis
  have "svc_wf (sr_rooms (example_server None))" by (simp add: example_svc_wf)
  from relayed_frames_authentic [OF this h] h show ?thesis by auto
qed

definition example_lease :: block_lock where
  "example_lease = \<lparr>lk_LockID = ''k'', lk_BlockID = ''x'', lk_NoteID = ''n'', lk_ConnectionID = ''b'', lk_SessionID = ''s-b'',
     lk_UserID = ''u-b'', lk_AcquiredAt = 0, lk_ExpiresAt = 5\<rparr>"

definition example_locks :: lock_store where
  "example_locks = snd (lock_Acquire (Some example_lease) 10 0 NewMemoryLockStore)"

lemma example_locks_wf: "lock_wf example_locks"
  using memory_locks.wf_acquire [OF lock_wf_new, of "Some example_lease" 10 0]
  by (simp add: example_locks_def memory_lock_ops_def)

lemma example_locks_view: "lock_view example_locks (''n'', ''x'') = Some example_lease"
proof -
  have empty: "lock_view NewMemoryLockStore = (\<lambda>_. None)"
    by (auto simp: lock_view_def note_locks_def NewMemoryLockStore_def)
  have "lock_view example_locks = snd (spec_Acquire example_lease 10 0 (\<lambda>_. None))"
    using arg_cong [OF memory_locks.acquire_refines [OF lock_wf_new, of example_lease 10 0], of snd]
    by (simp add: empty example_locks_def memory_lock_ops_def)
  then show ?thesis
    by (simp add: spec_Acquire_def held_by_other_def reacquires_def leased_def example_lease_def)
qed

theorem leased_block_protected_witness:
  "\<exists>d c. en_Event d = ''block.lock.denied'' \<and>
     conn_of (sr_rooms (snd (handleClientFrame (example_senv ''block.transform.commit'' (JObj [jmem ''blockId'' (JStr ''x'')]))
       0 alice [] (example_server (Some example_locks))))) alice = deliver ''reliable queue overflow'' d c"
proof -
  let ?ev = "''block.transform.commit''" and ?p = "JObj [jmem ''blockId'' (JStr ''x'')]"
  have "MayPublish PermissionEdit ?ev"
    by (simp add: MayPublish_def ClassifyEvent_reliable reliableEvents_def CanDraw_def)
  then have nr: "\<not> refused (example_senv ?ev ?p) 0 alice [] (example_server (Some example_locks))"
    by (intro example_not_refused) (simp_all add: ascii_def)
  obtain e where e: "parse_frame (example_senv ?ev ?p) [] = Some (e, False)" "en_Event e = ?ev"
    "en_Payload e = Raw (json_len ?p) (Some ?p)"
    using example_parse_frame [of ?ev ?p] by (auto simp: ascii_def)
  have sub: "transformSubject (en_Payload e) = ''x''"
    unfolding e(3) by (simp add: transformSubject_def json_defs EqualFold_def upper_char_def ascii_def)
  have l: "lock_view example_locks (cn_NoteID alice, ''x'') = Some example_lease" "\<not> lock_IsExpired example_lease 0"
    "lk_ConnectionID example_lease \<noteq> cn_ID alice"
    by (simp_all add: example_locks_view) (simp_all add: example_lease_def lock_IsExpired_def)
  have k: "sr_locks (example_server (Some example_locks)) = Some example_locks" "''x'' \<noteq> ([] :: string)"
    "en_Event e = ''block.transform.preview'' \<or> en_Event e = ?ev" using e(2) by simp_all
  from leased_block_protected [OF k(1) example_locks_wf e(1) k(3) sub k(2) l] nr e(2) show ?thesis by blast
qed

end
