(* ===== verification/Codec_Correct.thy ===== *)
theory Codec_Correct
  imports Codec
begin

text \<open>
  Correctness of the binary codec: the decoders invert the encoders up to quantisation, quantised
  values pass through unchanged, the metadata of relay frames and aggregates is read back exactly,
  and no frame makes the decoder build more points than the limit.
\<close>

unbundle bit_operations_syntax

section \<open>Quantised values\<close>

lemma sint32: "- (2 ^ 31) \<le> sint (x :: i32)" "sint (x :: i32) < 2 ^ 31"
  using sint_greater_eq [of x] sint_less [of x] by simp_all

lemma uint32: "0 \<le> uint (x :: u32)" "uint (x :: u32) < 2 ^ 32"
  using uint_bounded [of x] by simp_all

lemma dequantize_Fin: "dequantize x = Fin (of_int (sint x) / 4)"
  using sint32 [of x] round64_scaled [of "sint x" 2]
  by (simp add: dequantize_def f_of_int_exact)

lemma dequantizeUnsigned_Fin: "dequantizeUnsigned x = Fin (of_int (uint x) / 4)"
  using uint32 [of x] round64_scaled [of "uint x" 2]
  by (simp add: dequantizeUnsigned_def f_of_int_exact)

lemma small_quotient: "\<bar>n\<bar> < 2 ^ 33 \<Longrightarrow> 1 \<le> d \<Longrightarrow> \<exists>r. f_div (f_of_int n) (Fin d) = Fin r"
proof -
  assume n: "\<bar>n\<bar> < 2 ^ 33" and d: "1 \<le> d"
  have "\<bar>(of_int n :: rat)\<bar> < of_int (2 ^ 33)"
    using n by (simp only: of_int_abs [symmetric] of_int_less_iff)
  then have "\<bar>of_int n / d\<bar> \<le> 2 ^ 52"
    using d by (simp add: abs_divide pos_divide_le_eq)
  then show ?thesis using n d by (simp add: f_of_int_exact round64_small)
qed

lemma pressureOf_Fin: "\<exists>r. pressureOf v = Fin r"
proof -
  have "uint v < 256" using uint_bounded [of v] by simp
  then have "\<bar>uint v\<bar> < 2 ^ 33" by simp
  then obtain r where "f_div (f_of_int (uint v)) (Fin 255) = Fin r" using small_quotient [of "uint v" 255] by auto
  then have "pressureOf v = Fin (if v = 128 then 1 / 2 else r)" by (simp add: pressureOf_def)
  then show ?thesis by blast
qed

lemma dequantizeRotation_Fin: "\<exists>r. dequantizeRotation x = Fin r"
  using small_quotient [of "sint x" 100] sint32 [of x] by (simp add: dequantizeRotation_def)

text \<open>A point of the quarter grid is its own quantisation.\<close>

lemma grid_round:
  assumes "\<bar>k\<bar> < 2 ^ 40"
  shows "roundLikeJavaScript (f_div (Fin (of_int k / 4)) quantization) = Fin (of_int k)"
proof -
  have "f_div (Fin (of_int k / 4)) quantization = Fin (of_int k)"
    using assms round64_int [of k] by simp
  moreover have "round64 (of_int k + 1 / 2) = Fin (of_int k + 1 / 2)"
  proof -
    have eq: "(of_int k + 1 / 2 :: rat) = of_int (2 * k + 1) / 2 ^ 1" by (simp add: add_divide_distrib)
    have "\<bar>2 * k + 1\<bar> < 2 ^ 53" using assms by (simp add: abs_less_iff)
    then show ?thesis unfolding eq by (rule round64_scaled) simp
  qed
  moreover have "\<lfloor>of_int k + (1 / 2 :: rat)\<rfloor> = k" by linarith
  ultimately show ?thesis by (simp add: roundLikeJavaScript_def)
qed

lemma in_range_int:
  assumes "lo \<le> k" "k \<le> hi" "- (2 ^ 63) \<le> k" "k < 2 ^ 63"
  shows "in_range lo hi (Fin (of_int k)) = Some (word_of_int k)"
  using assms f_to_int_of_int [of k] by (simp add: in_range_def del: f_to_int.simps)

lemma quantizedSigned_dequantize: "quantizedSigned (dequantize x) = Some x"
proof -
  have "roundLikeJavaScript (f_div (dequantize x) quantization) = Fin (of_int (sint x))"
    unfolding dequantize_Fin using sint32 [of x] by (intro grid_round) (simp add: abs_less_iff)
  moreover have "in_range (- 2147483648) 2147483647 (Fin (of_int (sint x))) = Some (word_of_int (sint x))"
    using sint32 [of x] by (intro in_range_int) auto
  moreover have "\<not> f_is_nan (dequantize x)" "\<not> f_is_inf (dequantize x)" by (simp_all add: dequantize_Fin)
  ultimately have "quantizedSigned (dequantize x) = Some (word_of_int (sint x))"
    by (simp only: quantizedSigned_def if_False simp_thms)
  then show ?thesis by simp
qed

lemma quantizedUnsigned_dequantize: "quantizedUnsigned (dequantizeUnsigned x) = Some x"
proof -
  have "roundLikeJavaScript (f_div (dequantizeUnsigned x) quantization) = Fin (of_int (uint x))"
    unfolding dequantizeUnsigned_Fin using uint32 [of x] by (intro grid_round) (simp add: abs_less_iff)
  moreover have "in_range 0 4294967295 (Fin (of_int (uint x))) = Some (word_of_int (uint x))"
    using uint32 [of x] by (intro in_range_int) (auto intro: order_trans [of _ 0])
  moreover have "\<not> f_is_nan (dequantizeUnsigned x)" "\<not> f_is_inf (dequantizeUnsigned x)"
    by (simp_all add: dequantizeUnsigned_Fin)
  ultimately show ?thesis by (simp only: quantizedUnsigned_def if_False simp_thms word_of_int_uint)
qed

section \<open>Bodies\<close>

definition requantize :: "float64 \<Rightarrow> float64" where
  "requantize v = dequantize (the (quantizedSigned v))"

definition quant_pointer :: "pointer_payload \<Rightarrow> pointer_payload" where
  "quant_pointer p = \<lparr>pt_PageID = pt_PageID p, pt_X = requantize (pt_X p), pt_Y = requantize (pt_Y p)\<rparr>"

definition quant_transform :: "transform_payload \<Rightarrow> transform_payload" where
  "quant_transform p = \<lparr>tf_BlockID = tf_BlockID p, tf_PageID = tf_PageID p,
     tf_X = requantize (tf_X p), tf_Y = requantize (tf_Y p),
     tf_Width = dequantizeUnsigned (the (quantizedUnsigned (tf_Width p))),
     tf_Height = dequantizeUnsigned (the (quantizedUnsigned (tf_Height p))),
     tf_Rotation = dequantizeRotation (the (quantizedRotation (tf_Rotation p)))\<rparr>"

definition quant_point :: "bool \<Rightarrow> ink_point \<Rightarrow> ink_point" where
  "quant_point hasPressure p = \<lparr>kp_X = requantize (kp_X p), kp_Y = requantize (kp_Y p),
     kp_Pressure = (if hasPressure then Some (pressureOf (pressureByte (the (kp_Pressure p)))) else None),
     kp_T = None\<rparr>"

text \<open>Times are clamped so that they never run backwards.\<close>

fun running_times :: "u32 \<Rightarrow> ink_point list \<Rightarrow> u32 list" where
  "running_times previous [] = []"
| "running_times previous (p # ps) = (let t = max previous (the (kp_T p)) in t # running_times t ps)"

definition has_pressure :: "ink_payload \<Rightarrow> bool" where
  "has_pressure p \<longleftrightarrow> ik_Points p \<noteq> [] \<and> list_all (\<lambda>q. kp_Pressure q \<noteq> None) (ik_Points p)"

definition has_time :: "ink_payload \<Rightarrow> bool" where
  "has_time p \<longleftrightarrow> ik_Points p \<noteq> [] \<and> list_all (\<lambda>q. kp_T q \<noteq> None) (ik_Points p)"

definition quant_ink :: "ink_payload \<Rightarrow> ink_payload" where
  "quant_ink p = (let ps = map (quant_point (has_pressure p)) (ik_Points p) in
     \<lparr>ik_StrokeID = ik_StrokeID p,
      ik_Points = (if has_time p then map2 (\<lambda>q t. q\<lparr>kp_T := Some t\<rparr>) ps (running_times 0 (ik_Points p)) else ps)\<rparr>)"

lemmas reads = wire_string.dec_enc svarint.dec_enc varint.dec_enc

lemma decode_encode_pointer:
  assumes "encodePointer p = Some b" "length b < 2 ^ 32"
  shows "decodePointer (b @ rest) = Some (quant_pointer p, rest)"
proof -
  obtain x y where xy: "quantizedSigned (pt_X p) = Some x" "quantizedSigned (pt_Y p) = Some y"
    and b: "b = w_string (pt_PageID p) @ w_svarint x @ w_svarint y" and ne: "pt_PageID p \<noteq> []"
    using assms(1) by (auto simp: encodePointer_def Option.bind_eq_Some_conv split: if_splits)
  then have "length (pt_PageID p) < 2 ^ 32" using assms(2) by (simp add: w_string_def)
  then show ?thesis using xy ne unfolding b by (simp add: decodePointer_def reads quant_pointer_def requantize_def)
qed

lemma decode_encode_transform:
  assumes "encodeTransform p = Some b" "length b < 2 ^ 32"
  shows "decodeTransform (b @ rest) = Some (quant_transform p, rest)"
proof -
  obtain x y w h r where xy: "quantizedSigned (tf_X p) = Some x" "quantizedSigned (tf_Y p) = Some y"
    "quantizedUnsigned (tf_Width p) = Some w" "quantizedUnsigned (tf_Height p) = Some h"
    "quantizedRotation (tf_Rotation p) = Some r"
    and b: "b = w_string (tf_BlockID p) @ w_string (tf_PageID p) @ w_svarint x @ w_svarint y @
      w_varint w @ w_varint h @ w_svarint r" and ne: "tf_BlockID p \<noteq> []" "tf_PageID p \<noteq> []"
    using assms(1) by (auto simp: encodeTransform_def Option.bind_eq_Some_conv split: if_splits)
  then have "length (tf_BlockID p) < 2 ^ 32" "length (tf_PageID p) < 2 ^ 32"
    using assms(2) by (simp_all add: w_string_def)
  then show ?thesis using xy ne unfolding b
    by (simp add: decodeTransform_def reads quant_transform_def requantize_def)
qed

lemma decode_encode_points:
  "encode_ink_points hp px py ps = Some b \<Longrightarrow>
    decode_ink_points hp (length ps) px py (b @ rest) = Some (map (quant_point hp) ps, rest)"
proof (induction ps arbitrary: px py b)
  case (Cons p ps)
  then obtain x y b' where xy: "quantizedSigned (kp_X p) = Some x" "quantizedSigned (kp_Y p) = Some y"
    and b': "encode_ink_points hp x y ps = Some b'"
    and b: "b = w_svarint (x - px) @ w_svarint (y - py) @
      (if hp then w_u8 (pressureByte (the (kp_Pressure p))) else []) @ b'"
    by (auto simp: Option.bind_eq_Some_conv)
  from Cons.IH [OF b'] xy show ?case
    unfolding b
    by (cases hp) (simp_all add: reads quant_point_def [of _ p] requantize_def w_u8_def r_u8_def)
qed simp

lemma length_running_times [simp]: "length (running_times t ps) = length ps"
  by (induction ps arbitrary: t) (auto simp: Let_def)

lemma decode_encode_times:
  "length qs = length ps \<Longrightarrow> decode_ink_times t qs (encode_ink_times t ps @ rest) =
    Some (map2 (\<lambda>q t. q\<lparr>kp_T := Some t\<rparr>) qs (running_times t ps), rest)"
proof (induction ps arbitrary: qs t)
  case (Cons p ps)
  then obtain q qs' where qs: "qs = q # qs'" "length qs' = length ps" by (cases qs) auto
  show ?case
  proof (cases "t < the (kp_T p)")
    case True
    then have "max t (the (kp_T p)) = the (kp_T p)" by (intro max_absorb2 order.strict_implies_order)
    with True Cons.IH [OF qs(2)] show ?thesis by (simp add: qs reads Let_def)
  next
    case False
    then have "max t (the (kp_T p)) = t" by (simp add: max_def not_less)
    with False Cons.IH [OF qs(2)] show ?thesis by (simp add: qs reads Let_def)
  qed
qed simp

lemma ink_flags:
  "((if a then flagHasPressure else 0) OR (if b then flagHasTime else 0)) AND flagHasPressure \<noteq> 0 \<longleftrightarrow> a"
  "((if a then flagHasPressure else 0) OR (if b then flagHasTime else 0)) AND flagHasTime \<noteq> 0 \<longleftrightarrow> b"
  "((if a then flagHasPressure else 0) OR (if b then flagHasTime else (0::byte))) AND flagRelayMetadata = 0"
  "((if a then flagHasPressure else 0) OR (if b then flagHasTime else (0::byte))) AND NOT (flagHasPressure OR flagHasTime) = 0"
  by (simp_all split: if_splits)

lemma encodeInk_Some:
  assumes "encodeInk p = Some (flags, b)"
  obtains points where "ik_StrokeID p \<noteq> []" "length (ik_Points p) \<le> maxInkPoints"
    "flags = (if has_pressure p then flagHasPressure else 0) OR (if has_time p then flagHasTime else 0)"
    "encode_ink_points (has_pressure p) 0 0 (ik_Points p) = Some points"
    "b = w_string (ik_StrokeID p) @ w_varint (word_of_nat (length (ik_Points p))) @ points @
      (if has_time p then encode_ink_times 0 (ik_Points p) else [])"
  using assms unfolding encodeInk_def has_pressure_def [symmetric] has_time_def [symmetric] Let_def
  by (auto simp: Option.bind_eq_Some_conv not_less split: if_splits)

lemma decode_encode_ink:
  assumes "encodeInk p = Some (flags, b)" "length b < 2 ^ 32"
  shows "decodeInk flags (b @ rest) = Some (quant_ink p, rest)"
proof (rule encodeInk_Some [OF assms(1)])
  fix points
  assume ne: "ik_StrokeID p \<noteq> []" and len: "length (ik_Points p) \<le> maxInkPoints"
    and flags: "flags = (if has_pressure p then flagHasPressure else 0) OR (if has_time p then flagHasTime else 0)"
    and pts: "encode_ink_points (has_pressure p) 0 0 (ik_Points p) = Some points"
    and b: "b = w_string (ik_StrokeID p) @ w_varint (word_of_nat (length (ik_Points p))) @ points @
      (if has_time p then encode_ink_times 0 (ik_Points p) else [])"
  have "length (ik_StrokeID p) < 2 ^ 32" using assms(2) b by (simp add: w_string_def)
  moreover have "unat (word_of_nat (length (ik_Points p)) :: u32) = length (ik_Points p)"
    using len by (simp add: unat_of_nat)
  ultimately show ?thesis
    using ne len decode_encode_points [OF pts] decode_encode_times [of "map (quant_point (has_pressure p)) (ik_Points p)" "ik_Points p" 0 rest]
    unfolding b decodeInk_def flags ink_flags
    by (cases "has_time p") (simp_all add: reads quant_ink_def Let_def not_less)
qed

section \<open>Headers and client frames\<close>

lemma w_header_read:
  "readHeader (w_header c s f @ rest) = Some \<lparr>fh_code = c, fh_flags = f, fh_seq = s\<rparr>"
  "drop headerSize (w_header c s f @ rest) = rest" "length (w_header c s f) = headerSize"
proof -
  have l4: "length (le_bytes 4 s) = 4" by simp
  have "take 4 (drop 4 (w_header c s f @ rest)) = le_bytes 4 s" by (simp add: w_header_def l4)
  moreover have "(le_value (le_bytes 4 s) :: u32) = s" by (rule le_value_exact) simp
  ultimately show "readHeader (w_header c s f @ rest) = Some \<lparr>fh_code = c, fh_flags = f, fh_seq = s\<rparr>"
    by (simp add: readHeader_def IsBinaryFrame_def) (simp add: w_header_def l4)
  show "drop headerSize (w_header c s f @ rest) = rest" "length (w_header c s f) = headerSize"
    by (simp_all add: w_header_def l4)
qed

lemma envelopeSeq_back:
  "envelopeSeq q = Some s \<Longrightarrow> (if s = 0 then None else Some (ucast s)) = (if q = Some 0 then None else q)"
proof (cases q)
  case None
  assume "envelopeSeq q = Some s"
  with None show ?thesis by (simp add: envelopeSeq_def)
next
  case (Some v)
  assume "envelopeSeq q = Some s"
  with Some have v: "v \<le> 0xFFFFFFFF" "s = ucast v" by (auto simp: envelopeSeq_def split: if_splits)
  then have "uint v < 2 ^ 32" by (simp add: word_le_def)
  then have bk: "ucast (ucast v :: u32) = v"
    by (simp add: word_uint_eq_iff uint_up_ucast is_up unsigned_ucast_eq unsigned_take_bit_eq take_bit_int_eq_self)
  then have "(ucast v :: u32) = 0 \<longleftrightarrow> v = 0" by (metis unsigned_0)
  with bk v Some show ?thesis by simp
qed

lemma those_all: "\<forall>x \<in> set xs. \<exists>y. f x = Some y \<Longrightarrow> \<exists>ys. those (map f xs) = Some ys"
  by (induction xs) auto

lemma pointer_json_quant: "\<exists>j. pointer_json (quant_pointer p) = Some j"
  by (simp add: pointer_json_def quant_pointer_def requantize_def dequantize_Fin)

lemma transform_json_quant: "\<exists>j. transform_json (quant_transform p) = Some j"
  using dequantizeRotation_Fin [of "the (quantizedRotation (tf_Rotation p))"]
  by (auto simp: transform_json_def quant_transform_def requantize_def dequantize_Fin dequantizeUnsigned_Fin)

lemma ink_point_json_quant: "\<exists>j. ink_point_json ((quant_point hp q)\<lparr>kp_T := t\<rparr>) = Some j"
  using pressureOf_Fin [of "pressureByte (the (kp_Pressure q))"]
  by (auto simp: ink_point_json_def quant_point_def requantize_def dequantize_Fin)

lemma quant_ink_points: "\<forall>x \<in> set (ik_Points (quant_ink p)). \<exists>q t. x = (quant_point (has_pressure p) q)\<lparr>kp_T := t\<rparr>"
proof -
  have "quant_point hp q = (quant_point hp q)\<lparr>kp_T := None\<rparr>" for hp q by (simp add: quant_point_def)
  then show ?thesis by (auto simp: quant_ink_def Let_def elim!: in_set_zipE split: if_splits) blast
qed

lemma ink_json_quant: "\<exists>j. ink_json (quant_ink p) = Some j"
proof -
  have "\<exists>ys. those (map ink_point_json (ik_Points (quant_ink p))) = Some ys"
    using quant_ink_points [of p] ink_point_json_quant by (intro those_all) fastforce
  then show ?thesis by (auto simp: ink_json_def)
qed

text \<open>What the payload of a frame means: the decoded payload with every number quantised.\<close>

definition quantised :: "byte \<Rightarrow> raw \<Rightarrow> json option" where
  "quantised code payload =
     (if code = codeInk then do {
        p \<leftarrow> ok_payload (unmarshal dec_ink_payload \<lparr>ik_StrokeID = [], ik_Points = []\<rparr> payload);
        ink_json (quant_ink p) }
      else if code = codeCursor \<or> code = codeLaser then do {
        p \<leftarrow> ok_payload (unmarshal dec_pointer_payload \<lparr>pt_PageID = [], pt_X = Fin 0, pt_Y = Fin 0\<rparr> payload);
        pointer_json (quant_pointer p) }
      else do {
        p \<leftarrow> ok_payload (unmarshal dec_transform_payload \<lparr>tf_BlockID = [], tf_PageID = [], tf_X = Fin 0,
          tf_Y = Fin 0, tf_Width = Fin 0, tf_Height = Fin 0, tf_Rotation = Fin 0\<rparr> payload);
        transform_json (quant_transform p) })"

lemma eventCode_Some:
  assumes "eventCode ev = Some c"
  shows "(c = codeCursor \<and> ev = ''cursor.moved'') \<or> (c = codeLaser \<and> ev = ''laser.moved'') \<or>
    (c = codeInk \<and> ev = ''ink.points'') \<or> (c = codeTransform \<and> ev = ''block.transform.preview'')"
  using assms by (auto simp only: eventCode_def option.inject split: if_splits)

lemma encode_body_flags:
  assumes "encode_body code payload = Some (flags, b)"
  shows "flags AND flagRelayMetadata = 0"
proof (cases "code = codeInk")
  case True
  with assms obtain p where "encodeInk p = Some (flags, b)"
    by (auto simp: encode_body_def Option.bind_eq_Some_conv)
  then show ?thesis by (rule encodeInk_Some) (simp only: ink_flags)
next
  case False
  with assms have "flags = 0" by (auto simp: encode_body_def Option.bind_eq_Some_conv split: if_splits)
  then show ?thesis by simp
qed

lemma decode_encode_body:
  assumes ev: "eventCode ev = Some code" and b: "encode_body code payload = Some (flags, b)"
    and len: "length b < 2 ^ 32"
  shows "\<exists>j. decode_body code flags b = Some (ev, j) \<and> quantised code payload = Some j"
proof (cases "code = codeInk")
  case True
  with b obtain p where p: "ok_payload (unmarshal dec_ink_payload \<lparr>ik_StrokeID = [], ik_Points = []\<rparr> payload) = Some p"
    and e: "encodeInk p = Some (flags, b)" by (auto simp: encode_body_def Option.bind_eq_Some_conv)
  have fl: "flags AND NOT (flagHasPressure OR flagHasTime) = 0"
    by (rule encodeInk_Some [OF e]) (simp only: ink_flags)
  have ev': "ev = ''ink.points''" using eventCode_Some [OF ev] True by auto
  obtain j where j: "ink_json (quant_ink p) = Some j" using ink_json_quant by blast
  have "decodeInk flags b = Some (quant_ink p, [])" using decode_encode_ink [OF e len, of "[]"] by simp
  with True fl ev' p j show ?thesis by (simp add: decode_body_def quantised_def whole_def)
next
  case False
  show ?thesis
  proof (cases "code = codeCursor \<or> code = codeLaser")
    case True
    with False b obtain p where
      p: "ok_payload (unmarshal dec_pointer_payload \<lparr>pt_PageID = [], pt_X = Fin 0, pt_Y = Fin 0\<rparr> payload) = Some p"
      and e: "encodePointer p = Some b" and fl: "flags = 0"
      by (auto simp: encode_body_def Option.bind_eq_Some_conv)
    obtain j where j: "pointer_json (quant_pointer p) = Some j" using pointer_json_quant by blast
    have "decodePointer b = Some (quant_pointer p, [])" using decode_encode_pointer [OF e len, of "[]"] by simp
    with True False fl p j eventCode_Some [OF ev] show ?thesis
      by (auto simp: decode_body_def quantised_def whole_def)
  next
    case ptr: False
    with False b obtain p where
      p: "ok_payload (unmarshal dec_transform_payload \<lparr>tf_BlockID = [], tf_PageID = [], tf_X = Fin 0,
          tf_Y = Fin 0, tf_Width = Fin 0, tf_Height = Fin 0, tf_Rotation = Fin 0\<rparr> payload) = Some p"
      and e: "encodeTransform p = Some b" and fl: "flags = 0"
      by (auto simp: encode_body_def Option.bind_eq_Some_conv)
    have code: "code = codeTransform" "ev = ''block.transform.preview''" using eventCode_Some [OF ev] False ptr by auto
    obtain j where j: "transform_json (quant_transform p) = Some j" using transform_json_quant by blast
    have "decodeTransform b = Some (quant_transform p, [])" using decode_encode_transform [OF e len, of "[]"] by simp
    with code fl p j show ?thesis by (simp add: decode_body_def quantised_def whole_def)
  qed
qed

section \<open>Relay metadata\<close>

definition metadata_of :: "envelope \<Rightarrow> relay_metadata" where
  "metadata_of e = \<lparr>rm_Sequence = (case en_Seq e of None \<Rightarrow> 0 | Some s \<Rightarrow> s),
     rm_ActorID = (case en_ActorID e of None \<Rightarrow> [] | Some a \<Rightarrow> a),
     rm_Origin = (case en_Origin e of None \<Rightarrow> [] | Some a \<Rightarrow> a), rm_SentAt = max (en_SentAt e) 0\<rparr>"

lemma le16_read: "n < 65536 \<Longrightarrow> le16 (le_bytes 2 (word_of_nat n :: 16 word) @ rest) = n"
proof -
  assume n: "n < 65536"
  have "(le_value (le_bytes 2 (word_of_nat n :: 16 word)) :: 16 word) = word_of_nat n"
    by (rule le_value_exact) simp
  then show ?thesis using n by (simp add: le16_def unat_of_nat)
qed

lemma envelopeSeq_value: "envelopeSeq q = Some s \<Longrightarrow> ucast s = (case q of None \<Rightarrow> 0 | Some v \<Rightarrow> (v :: u64))"
  using envelopeSeq_back [of q s] by (cases q) (auto simp: envelopeSeq_def split: if_splits)

lemma optional_length: "length (w_optionalString v) < 2 ^ 32 \<Longrightarrow> (case v of None \<Rightarrow> True | Some s \<Rightarrow> length s < 2 ^ 32)"
  by (auto simp: w_optionalString_def w_string_def w_u8_def split: option.splits)

lemma w_optionalString_Some: "w_optionalString (Some s) = w_u8 1 @ w_string s"
  by (simp add: w_optionalString_def)

lemma metadata_strings:
  assumes "length (relay_metadata_bytes e) \<le> 65535"
  shows "length (en_MessageID e) < 2 ^ 32" "length (en_SessionID e) < 2 ^ 32" "length (en_Channel e) < 2 ^ 32"
    "case en_ActorID e of None \<Rightarrow> True | Some s \<Rightarrow> length s < 2 ^ 32"
    "case en_Origin e of None \<Rightarrow> True | Some s \<Rightarrow> length s < 2 ^ 32"
proof -
  have "length (en_MessageID e) + length (en_SessionID e) + length (en_Channel e) +
      length (w_optionalString (en_ActorID e)) + length (w_optionalString (en_Origin e)) \<le> 65535"
    using assms by (simp add: relay_metadata_bytes_def w_string_def)
  then show "length (en_MessageID e) < 2 ^ 32" "length (en_SessionID e) < 2 ^ 32" "length (en_Channel e) < 2 ^ 32"
    "case en_ActorID e of None \<Rightarrow> True | Some s \<Rightarrow> length s < 2 ^ 32"
    "case en_Origin e of None \<Rightarrow> True | Some s \<Rightarrow> length s < 2 ^ 32"
    using optional_length [of "en_ActorID e"] optional_length [of "en_Origin e"] by auto
qed

lemma EncodeRelayFrame_Some:
  assumes "EncodeRelayFrame e = Some data"
  obtains code seq flags body where "eventCode (en_Event e) = Some code" "envelopeSeq (en_Seq e) = Some seq"
    "encode_body code (en_Payload e) = Some (flags, body)" "length (relay_metadata_bytes e) \<le> 65535"
    "data = w_header code seq (flags OR flagRelayMetadata) @ body @ relay_metadata_bytes e @
      le_bytes 2 (word_of_nat (length (relay_metadata_bytes e)) :: 16 word)"
  using assms by (auto simp: EncodeRelayFrame_def Option.bind_eq_Some_conv Let_def not_less split: if_splits)

lemma relay_flag: "(f OR flagRelayMetadata) AND flagRelayMetadata \<noteq> (0 :: byte)"
proof -
  have "bit ((f OR flagRelayMetadata) AND flagRelayMetadata) 7"
    by (simp only: bit_and_iff bit_or_iff bit_0x80) simp
  then show ?thesis by (metis bit_0_eq bot_apply bot_bool_def)
qed

lemma relay_metadata_read:
  assumes "EncodeRelayFrame e = Some data" "en_SentAt e < 2 ^ 63"
  shows "DecodeRelayMetadata data = Some [metadata_of e]"
proof (rule EncodeRelayFrame_Some [OF assms(1)])
  fix code seq flags body
  assume code: "eventCode (en_Event e) = Some code" and seq: "envelopeSeq (en_Seq e) = Some seq"
    and len: "length (relay_metadata_bytes e) \<le> 65535"
    and data: "data = w_header code seq (flags OR flagRelayMetadata) @ body @ relay_metadata_bytes e @
      le_bytes 2 (word_of_nat (length (relay_metadata_bytes e)) :: 16 word)"
  let ?m = "relay_metadata_bytes e" and ?h = "\<lparr>fh_code = code, fh_flags = flags OR flagRelayMetadata, fh_seq = seq\<rparr>"
  have h: "readHeader data = Some ?h" unfolding data by (rule w_header_read)
  have ld: "length data = headerSize + length body + length ?m + 2" by (simp add: data w_header_read)
  have tail: "drop (length data - 2) data = le_bytes 2 (word_of_nat (length ?m) :: 16 word)"
    unfolding ld by (simp add: data w_header_read)
  have n: "le16 (drop (length data - 2) data) = length ?m"
    unfolding tail using le16_read [of "length ?m" "[]"] len by simp
  have mid: "take (length ?m) (drop (length data - 2 - length ?m) data) = ?m"
    unfolding ld by (simp add: data w_header_read)
  have sent: "sint (word_of_int (max (en_SentAt e) 0) :: u64) = max (en_SentAt e) 0"
    using assms(2) by (simp add: sint_sbintrunc' signed_take_bit_int_eq_self)
  have seq': "(ucast seq :: u64) = (case en_Seq e of None \<Rightarrow> 0 | Some v \<Rightarrow> v)" by (rule envelopeSeq_value [OF seq])
  have "decode_single_metadata ?h data = Some (metadata_of e)"
    using metadata_strings [OF len] sent seq'
    unfolding decode_single_metadata_def n mid Let_def
    by (simp add: relay_flag ld relay_metadata_bytes_def reads optional_string.dec_enc wire_u64.dec_enc_exact
        whole_def metadata_of_def)
  moreover have "code \<noteq> codeAggregate" using eventCode_Some [OF code] by auto
  ultimately show ?thesis by (simp add: DecodeRelayMetadata.simps h)
qed

lemma children_read:
  assumes "list_all2 (\<lambda>c m. c \<noteq> [] \<and> length c \<le> 65535 \<and> DecodeRelayMetadata c = Some [m]) cs ms"
  shows "relay_children (length cs) (w_many (\<lambda>c. le_bytes 2 (word_of_nat (length c) :: 16 word) @ c) cs) = Some ms"
  using assms
proof (induction rule: list_all2_induct)
  case Nil
  then show ?case by (simp add: relay_children.simps)
next
  case (Cons c cs m ms)
  then have "le16 (le_bytes 2 (word_of_nat (length c) :: 16 word) @ rest) = length c" for rest
    by (intro le16_read) auto
  with Cons show ?case by (subst relay_children.simps) (simp add: Let_def)
qed

lemma those_Some_iff: "those (map f xs) = Some ys \<longleftrightarrow> list_all2 (\<lambda>x y. f x = Some y) xs ys"
  by (induction xs arbitrary: ys) (auto simp: list_all2_Cons1 split: option.splits)

section \<open>Properties\<close>

text \<open>
  C29. A client frame decodes to what was encoded: if an envelope of one of the four preview events is
  encoded in fewer than 2 to the power 32 bytes, the decoder accepts the bytes and returns the same event and sequence
  number (the sequence number 0, which is how the wire says that there is none, comes back as absent), with the
  payload whose coordinates, sizes, pressures and times are the quantised ones.
\<close>

theorem client_frame_roundtrip:
  assumes "EncodeClientFrame e = Some data" and "length data < 2 ^ 32"
  shows "\<exists>code j. eventCode (en_Event e) = Some code \<and> quantised code (en_Payload e) = Some j \<and>
    DecodeClientFrame data = Some (envelope_zero\<lparr>en_V := EnvelopeVersion, en_Event := en_Event e,
      en_Payload := marshal j, en_Seq := (if en_Seq e = Some 0 then None else en_Seq e)\<rparr>)"
proof -
  obtain code seq flags body where c: "eventCode (en_Event e) = Some code" "envelopeSeq (en_Seq e) = Some seq"
    "encode_body code (en_Payload e) = Some (flags, body)" and d: "data = w_header code seq flags @ body"
    using assms(1) by (auto simp: EncodeClientFrame_def Option.bind_eq_Some_conv)
  have "length body < 2 ^ 32" using assms(2) by (simp add: d w_header_read)
  from decode_encode_body [OF c(1,3) this] obtain j where j: "decode_body code flags body = Some (en_Event e, j)"
    "quantised code (en_Payload e) = Some j" by blast
  have "flags AND flagRelayMetadata = 0" by (rule encode_body_flags [OF c(3)])
  then have "DecodeClientFrame data = Some (envelope_zero\<lparr>en_V := EnvelopeVersion, en_Event := en_Event e,
      en_Payload := marshal j, en_Seq := (if seq = 0 then None else Some (ucast seq))\<rparr>)"
    using j by (simp add: d DecodeClientFrame_def w_header_read)
  then show ?thesis unfolding envelopeSeq_back [OF c(2)] using c(1) j(2) by blast
qed

definition example_cursor :: envelope where
  "example_cursor = envelope_zero\<lparr>en_Event := ''cursor.moved'', en_Seq := Some 7,
     en_Payload := marshal (JObj [jmem ''pageId'' (JStr ''p1''), jmem ''x'' (jint 12), jmem ''y'' (jint (- 3))])\<rparr>"

lemma example_cursor_payload:
  "unmarshal dec_pointer_payload \<lparr>pt_PageID = [], pt_X = Fin 0, pt_Y = Fin 0\<rparr> (en_Payload example_cursor) =
    (\<lparr>pt_PageID = ''p1'', pt_X = Fin 12, pt_Y = Fin (- 3)\<rparr>, False)"
  by (simp add: example_cursor_def json_defs dec_pointer_payload_def EqualFold_def upper_char_def
      ascii_def)

lemma example_quant: "quantizedSigned (Fin 12) = Some 48" "quantizedSigned (Fin (- 3)) = Some (- 12)"
  using quantizedSigned_dequantize [of 48] quantizedSigned_dequantize [of "- 12"] by (simp_all add: dequantize_Fin)

lemma example_cursor_encodes: "\<exists>data. EncodeClientFrame example_cursor = Some data \<and> length data < 2 ^ 32"
proof -
  have v: "length (w_varint v) \<le> 5" for v
    using varint_bytes_bound [of 5 0 0 "w_varint v" v "[]"] varint.dec_enc_exact [of v]
    by (simp add: r_varint_def)
  have "EncodeClientFrame example_cursor = Some (w_header 1 7 0 @ w_string ''p1'' @ w_svarint 48 @ w_svarint (- 12))"
    using example_cursor_payload
    by (simp add: EncodeClientFrame_def encode_body_def eventCode_def envelopeSeq_def encodePointer_def ok_payload_def
        example_quant example_cursor_def)
  moreover have "length (w_header 1 7 0 @ w_string ''p1'' @ w_svarint 48 @ w_svarint (- 12)) \<le> 25"
    using v [of "word_of_nat 2"] v [of "push_bit 1 48 XOR signed_drop_bit 31 48"]
      v [of "push_bit 1 (- 12) XOR signed_drop_bit 31 (- 12)"]
    by (simp add: w_header_read w_string_def w_svarint_def del: push_bit_Suc)
  ultimately show ?thesis by auto
qed

theorem client_frame_roundtrip_witness:
  "\<exists>data e'. EncodeClientFrame example_cursor = Some data \<and> DecodeClientFrame data = Some e' \<and>
    en_Event e' = ''cursor.moved'' \<and> en_Seq e' = Some 7"
proof -
  obtain data where d: "EncodeClientFrame example_cursor = Some data" "length data < 2 ^ 32"
    using example_cursor_encodes by blast
  from client_frame_roundtrip [OF d] d(1) show ?thesis by (auto simp: example_cursor_def)
qed

text \<open>
  C30. The server-stamped metadata of a relay frame is read back exactly: sequence number, actor, origin
  and time, the time clamped at 0; and no relay frame is accepted as a frame from a client.
\<close>

theorem relay_frame_metadata:
  assumes "EncodeRelayFrame e = Some data" and "en_SentAt e < 2 ^ 63"
  shows "DecodeRelayMetadata data = Some [metadata_of e] \<and> DecodeClientFrame data = None"
proof -
  have "DecodeClientFrame data = None"
  proof (rule EncodeRelayFrame_Some [OF assms(1)])
    fix code seq flags body
    assume "data = w_header code seq (flags OR flagRelayMetadata) @ body @ relay_metadata_bytes e @
      le_bytes 2 (word_of_nat (length (relay_metadata_bytes e)) :: 16 word)"
    then show ?thesis using relay_flag [of flags] by (simp add: DecodeClientFrame_def w_header_read)
  qed
  with relay_metadata_read [OF assms] show ?thesis by simp
qed

lemma example_metadata_length: "length (relay_metadata_bytes example_cursor) \<le> 65535"
proof -
  have "length (w_varint 0) = 1" by (simp add: w_varint.simps)
  then show ?thesis
    by (simp add: relay_metadata_bytes_def example_cursor_def envelope_zero_def w_string_def w_optionalString_def
        w_u8_def w_u64_def)
qed

lemma example_cursor_relays: "\<exists>data. EncodeRelayFrame example_cursor = Some data \<and> length data \<le> 65535"
proof -
  have v: "length (w_varint v) \<le> 5" for v
    using varint_bytes_bound [of 5 0 0 "w_varint v" v "[]"] varint.dec_enc_exact [of v]
    by (simp add: r_varint_def)
  have "length (w_varint 0) = 1" by (simp add: w_varint.simps)
  then have m: "length (relay_metadata_bytes example_cursor) = 13"
    by (simp add: relay_metadata_bytes_def example_cursor_def envelope_zero_def w_string_def w_optionalString_def
        w_u8_def w_u64_def)
  let ?b = "w_string ''p1'' @ w_svarint 48 @ w_svarint (- 12)"
  have "EncodeRelayFrame example_cursor = Some (w_header 1 7 (0 OR flagRelayMetadata) @ ?b @
      relay_metadata_bytes example_cursor @ le_bytes 2 (word_of_nat (length (relay_metadata_bytes example_cursor)) :: 16 word))"
    using example_cursor_payload example_metadata_length
    by (simp add: EncodeRelayFrame_def encode_body_def eventCode_def envelopeSeq_def encodePointer_def ok_payload_def
        example_quant Let_def) (simp add: example_cursor_def)
  moreover have "length ?b \<le> 17"
    using v [of "word_of_nat 2"] v [of "push_bit 1 48 XOR signed_drop_bit 31 48"]
      v [of "push_bit 1 (- 12) XOR signed_drop_bit 31 (- 12)"]
    by (simp add: w_string_def w_svarint_def)
  ultimately show ?thesis using m by (auto simp: w_header_read)
qed

theorem relay_frame_metadata_witness:
  "\<exists>data. EncodeRelayFrame example_cursor = Some data \<and> DecodeRelayMetadata data = Some [metadata_of example_cursor]"
proof -
  obtain data where d: "EncodeRelayFrame example_cursor = Some data" using example_cursor_relays by blast
  from relay_frame_metadata [OF d] d show ?thesis by (auto simp: example_cursor_def envelope_zero_def)
qed

text \<open>
  An aggregate carries every child: decoding the metadata of an aggregate of relay frames gives the
  metadata of the envelopes, all of them and in order.
\<close>

theorem aggregate_metadata:
  assumes "EncodeRelayAggregate es = Some data" and "\<forall>e \<in> set es. en_SentAt e < 2 ^ 63"
  shows "DecodeRelayMetadata data = Some (map metadata_of es)"
proof -
  let ?f = "\<lambda>e. case EncodeRelayFrame e of None \<Rightarrow> None | Some child \<Rightarrow> if length child > 65535 then None else Some child"
  obtain cs where cs: "those (map ?f es) = Some cs" and n: "length es \<le> 65535"
    and d: "data = w_header codeAggregate 0 0 @ le_bytes 2 (word_of_nat (length cs) :: 16 word) @
      w_many (\<lambda>c. le_bytes 2 (word_of_nat (length c) :: 16 word) @ c) cs"
    using assms(1) by (auto simp: EncodeRelayAggregate_def Option.bind_eq_Some_conv not_less split: if_splits)
  have all: "list_all2 (\<lambda>e c. ?f e = Some c) es cs" using cs by (simp only: those_Some_iff)
  have len: "length cs = length es" using all by (simp add: list_all2_lengthD)
  have "list_all2 (\<lambda>c m. c \<noteq> [] \<and> length c \<le> 65535 \<and> DecodeRelayMetadata c = Some [m]) cs (map metadata_of es)"
  proof (rule list_all2_all_nthI)
    fix k
    assume k: "k < length cs"
    then have "?f (es ! k) = Some (cs ! k)" using all len by (simp add: list_all2_conv_all_nth)
    then have e: "EncodeRelayFrame (es ! k) = Some (cs ! k)" and l: "length (cs ! k) \<le> 65535"
      by (auto split: option.splits if_splits)
    have "en_SentAt (es ! k) < 2 ^ 63" using assms(2) k len by simp
    moreover have "cs ! k \<noteq> []" by (rule EncodeRelayFrame_Some [OF e]) (auto simp: w_header_def)
    ultimately show "cs ! k \<noteq> [] \<and> length (cs ! k) \<le> 65535 \<and>
        DecodeRelayMetadata (cs ! k) = Some [map metadata_of es ! k]"
      using relay_metadata_read [OF e] l k len by simp
  qed (simp add: len)
  note ch = children_read [OF this]
  have c16: "le16 (le_bytes 2 (word_of_nat (length cs) :: 16 word) @ rest) = length cs" for rest
    using n len by (intro le16_read) simp
  have drop10: "drop (headerSize + 2) data = w_many (\<lambda>c. le_bytes 2 (word_of_nat (length c) :: 16 word) @ c) cs"
    unfolding d by (simp add: w_header_read drop_append [of "8 + 2"] flip: append_assoc)
  show ?thesis
    using ch drop10 by (simp add: DecodeRelayMetadata.simps d w_header_read c16)
qed

theorem aggregate_metadata_witness:
  "\<exists>data. EncodeRelayAggregate [example_cursor, example_cursor] = Some data \<and>
    DecodeRelayMetadata data = Some [metadata_of example_cursor, metadata_of example_cursor]"
proof -
  obtain c where c: "EncodeRelayFrame example_cursor = Some c" "length c \<le> 65535"
    using example_cursor_relays by blast
  then obtain data where d: "EncodeRelayAggregate [example_cursor, example_cursor] = Some data"
    by (simp add: EncodeRelayAggregate_def)
  from aggregate_metadata [OF d] d show ?thesis by (auto simp: example_cursor_def envelope_zero_def)
qed

text \<open>
  Quantisation is lossless on the second hop: every coordinate and size a decoder produced is on the grid
  and is encoded again as the very same integer, so relaying a preview moves nothing.
\<close>

theorem requantisation_exact:
  "quantizedSigned (dequantize x) = Some x \<and> quantizedUnsigned (dequantizeUnsigned w) = Some w \<and>
   requantize (dequantize x) = dequantize x"
  by (simp add: quantizedSigned_dequantize quantizedUnsigned_dequantize requantize_def)

lemma length_decode_ink_points: "decode_ink_points hp n x y bs = Some (ps, r) \<Longrightarrow> length ps = n"
  by (induction n arbitrary: x y bs ps r) (auto simp: Option.bind_eq_Some_conv split: prod.splits)

lemma length_decode_ink_times: "decode_ink_times t ps bs = Some (qs, r) \<Longrightarrow> length qs = length ps"
  by (induction ps arbitrary: t bs qs r) (auto simp: Option.bind_eq_Some_conv split: prod.splits)

text \<open>
  A decoded ink frame holds at most 4096 points and a stroke id, whatever count the frame claims, and the
  decoder uses only bytes of the frame.
\<close>

theorem decoded_ink_bounded:
  assumes "decodeInk flags bs = Some (p, rest)"
  shows "length (ik_Points p) \<le> maxInkPoints \<and> ik_StrokeID p \<noteq> []"
  using assms length_decode_ink_points length_decode_ink_times
  by (fastforce simp: decodeInk_def Option.bind_eq_Some_conv split: prod.splits if_splits)

theorem decoded_ink_bounded_witness:
  "\<exists>p. decodeInk 0 (w_string ''s'' @ w_varint 0) = Some (p, []) \<and> length (ik_Points p) \<le> 4096"
proof -
  have "decodeInk 0 (w_string ''s'' @ w_varint 0) = Some (\<lparr>ik_StrokeID = ''s'', ik_Points = []\<rparr>, [])"
    by (simp add: decodeInk_def reads varint.dec_enc_exact)
  from decoded_ink_bounded [OF this] this show ?thesis by auto
qed

end
