(* ===== verification/Loadtest_Plan.thy ===== *)
theory Loadtest_Plan
  imports Go_Float Strconv
begin

text \<open>
  The load generator's plan (\<open>cmd/loadtest/main.go\<close>): its options, their validation, and the
  assignment of every virtual user to a canvas, a page, a point and a role. The command line is a
  parameter: the parsed value of each flag that was given (the \<open>flag\<close> package exits on a malformed one).
\<close>

section \<open>Options\<close>

record options =
  lo_baseURL :: string
  lo_origin :: string
  lo_privateKey :: string
  lo_issuer :: string
  lo_audience :: string
  lo_transport :: string
  lo_encoding :: string
  lo_scenario :: string
  lo_connections :: int
  lo_duration :: duration
  lo_commitEvery :: duration
  lo_connectRamp :: duration
  lo_drainGrace :: duration
  lo_interestSettle :: duration
  lo_previewRate :: float64
  lo_activeRatio :: float64
  lo_previewOffRatio :: float64
  lo_activeDrawers :: int
  lo_canvases :: int
  lo_pages :: int
  lo_insecureTLS :: bool
  lo_report :: string

record command_line =
  cl_string :: "string \<Rightarrow> string option"
  cl_int :: "string \<Rightarrow> int option"
  cl_duration :: "string \<Rightarrow> duration option"
  cl_float :: "string \<Rightarrow> float64 option"
  cl_bool :: "string \<Rightarrow> bool option"

definition flag_or :: "(string \<Rightarrow> 'a option) \<Rightarrow> string \<Rightarrow> 'a \<Rightarrow> 'a" where
  "flag_or given name fallback = (case given name of Some v \<Rightarrow> v | None \<Rightarrow> fallback)"

definition parseOptions :: "command_line \<Rightarrow> options" where
  "parseOptions cl =
     \<lparr>lo_baseURL = flag_or (cl_string cl) ''base-url'' ''http://127.0.0.1:8080'',
      lo_origin = flag_or (cl_string cl) ''origin'' ''http://localhost:3000'',
      lo_privateKey = flag_or (cl_string cl) ''private-key'' ''keys/canvas-private.pem'',
      lo_issuer = flag_or (cl_string cl) ''issuer'' ''mypol-api'',
      lo_audience = flag_or (cl_string cl) ''audience'' ''canvas-realtime'',
      lo_transport = flag_or (cl_string cl) ''transport'' ''websocket'',
      lo_encoding = flag_or (cl_string cl) ''encoding'' ''json'',
      lo_scenario = flag_or (cl_string cl) ''scenario'' ''hotspot'',
      lo_connections = flag_or (cl_int cl) ''connections'' 100,
      lo_duration = flag_or (cl_duration cl) ''duration'' (15 * Second),
      lo_commitEvery = flag_or (cl_duration cl) ''commit-every'' (3 * Second),
      lo_connectRamp = flag_or (cl_duration cl) ''connect-ramp'' 0,
      lo_drainGrace = flag_or (cl_duration cl) ''drain-grace'' (5 * Second),
      lo_interestSettle = flag_or (cl_duration cl) ''interest-settle'' Second,
      lo_previewRate = flag_or (cl_float cl) ''preview-rate'' (Fin 30),
      lo_activeRatio = flag_or (cl_float cl) ''active-ratio'' (Fin (- 1)),
      lo_previewOffRatio = flag_or (cl_float cl) ''preview-off-ratio'' (Fin 0),
      lo_activeDrawers = flag_or (cl_int cl) ''active-drawers'' (- 1),
      lo_canvases = flag_or (cl_int cl) ''canvases'' 10,
      lo_pages = flag_or (cl_int cl) ''pages'' 8,
      lo_insecureTLS = flag_or (cl_bool cl) ''insecure-tls'' True,
      lo_report = flag_or (cl_string cl) ''report'' []\<rparr>"

text \<open>The error of a refused set of options.\<close>

definition validateOptions :: "options \<Rightarrow> string option" where
  "validateOptions p =
     (if lo_connections p < 1 \<or> lo_connections p > 10000
      then Some ''connections must be between 1 and 10000''
      else if lo_duration p \<le> 0 \<or> lo_drainGrace p < 0 \<or> lo_interestSettle p < 0 \<or>
        f_lt (lo_previewRate p) (Fin 0) \<or> lo_canvases p < 1 \<or> lo_pages p < 1
      then Some ''duration, canvases, pages, and preview-rate must be positive''
      else if f_lt (lo_activeRatio p) (Fin (- 1)) \<or> f_lt (Fin 1) (lo_activeRatio p)
      then Some ''active-ratio must be -1 or between 0 and 1''
      else if lo_activeDrawers p < - 1 \<or> lo_activeDrawers p > lo_connections p
      then Some ''active-drawers must be -1 or within connections''
      else if f_lt (lo_previewOffRatio p) (Fin 0) \<or> f_lt (Fin 1) (lo_previewOffRatio p)
      then Some ''preview-off-ratio must be between 0 and 1''
      else if lo_transport p \<noteq> ''websocket'' \<and> lo_transport p \<noteq> ''webtransport''
      then Some ''transport must be websocket or webtransport; WebRTC requires a browser ICE run''
      else if lo_encoding p \<noteq> ''json'' \<and> lo_encoding p \<noteq> ''binary''
      then Some ''encoding must be json or binary''
      else None)"

section \<open>Assignments\<close>

record assignment =
  as_userID :: string
  as_noteID :: string
  as_pageID :: string
  as_x :: float64
  as_y :: float64
  as_active :: bool
  as_previewOff :: bool

text \<open>The verb \<open>%0wd\<close> for a number that is not negative.\<close>

definition pad_dec :: "nat \<Rightarrow> nat \<Rightarrow> string" where
  "pad_dec w n = replicate (w - length (nat_dec n)) CHR ''0'' @ nat_dec n"

definition active_ratio :: "options \<Rightarrow> float64" where
  "active_ratio p =
     (if f_lt (lo_activeRatio p) (Fin 0) then
        (if lo_scenario p = ''mostly-viewing'' then round64 (5 / 100)
         else if lo_scenario p = ''viewports'' then round64 (70 / 100)
         else if lo_scenario p = ''hotspot'' then Fin 1
         else round64 (20 / 100))
      else lo_activeRatio p)"

definition active_drawers :: "options \<Rightarrow> int" where
  "active_drawers p =
     (if lo_activeDrawers p < 0 then
        let active = f_to_int (f_mul (f_of_int (lo_connections p)) (active_ratio p)) in
        if f_lt (Fin 0) (active_ratio p) \<and> active = 0 then 1 else active
      else lo_activeDrawers p)"

text \<open>Canvas, page and point of the user with a given number.\<close>

definition placement :: "options \<Rightarrow> nat \<Rightarrow> nat \<times> nat \<times> float64 \<times> float64" where
  "placement p i = (let
     note_ix = i mod nat \<bar>lo_canvases p\<bar>; page_ix = i mod nat \<bar>lo_pages p\<bar>; x = Fin 512; y = Fin 384;
     (note_ix, page_ix, x, y) =
       (if lo_scenario p = ''distributed''
        then (note_ix, page_ix, f_of_int (int (i mod 10 * 160)), f_of_int (int (i mod 6 * 130)))
        else if lo_scenario p = ''viewports''
        then (0, page_ix, f_of_int (int (i mod 4 * 480)), f_of_int (int (i mod 3 * 320)))
        else if lo_scenario p = ''hotspot'' then (0, 0, Fin 512, Fin 384)
        else if lo_scenario p = ''mostly-viewing'' \<or> lo_scenario p = ''multi-page'' then (0, page_ix, x, y)
        else (note_ix, page_ix, x, y));
     page_ix = (if lo_scenario p = ''mostly-viewing'' then 0 else page_ix)
   in (note_ix, page_ix, x, y))"

definition cohort_of :: "options \<Rightarrow> nat \<Rightarrow> nat" where
  "cohort_of p i = i div nat (max 1 (lo_pages p))"

definition off_quota :: "options \<Rightarrow> nat \<Rightarrow> int" where
  "off_quota p k = f_to_int (f_mul (f_of_int (int k)) (lo_previewOffRatio p))"

definition preview_off :: "options \<Rightarrow> nat \<Rightarrow> bool" where
  "preview_off p cohort \<longleftrightarrow> off_quota p (cohort + 1) > off_quota p cohort"

definition assign_user :: "options \<Rightarrow> nat \<Rightarrow> assignment" where
  "assign_user p i = (let (note_ix, page_ix, x, y) = placement p i in
     \<lparr>as_userID = ''bench-user-'' @ pad_dec 6 i, as_noteID = ''bench-note-'' @ pad_dec 3 note_ix,
      as_pageID = ''bench-page-'' @ pad_dec 3 page_ix, as_x = x, as_y = y,
      as_active = (int i < active_drawers p), as_previewOff = preview_off p (cohort_of p i)\<rparr>)"

text \<open>
  A negative length and a remainder by zero panic (\<open>None\<close>); options that pass the validation never get there.
\<close>

definition makeAssignments :: "options \<Rightarrow> assignment list option" where
  "makeAssignments p =
     (if lo_connections p < 0 \<or> lo_connections p > 0 \<and> (lo_canvases p = 0 \<or> lo_pages p = 0) then None
      else Some (map (assign_user p) [0..<nat (lo_connections p)]))"

section \<open>Rounding of a product with a ratio\<close>

lemma round_half_even_near: "of_int (round_half_even x) \<le> x + 1 / 2"
  by (simp add: round_half_even_def Let_def) linarith

lemma rnd_pos_upper:
  assumes "1 \<le> x"
  shows "rnd_pos x \<le> x * (1 + 1 / 2 ^ 53)"
proof -
  have "0 \<le> ilog2 x" using powi_less_cancel [of 0 "ilog2 x + 1"] ilog2_bounds(2) [of x] assms by simp
  then have "ulp x = 2 powi (ilog2 x - 52)" by (simp add: ulp_def)
  also have "\<dots> = 2 powi ilog2 x / 2 ^ 52" by (simp add: power_int_diff)
  also have "\<dots> \<le> x / 2 ^ 52" using ilog2_bounds(1) [of x] assms by (intro divide_right_mono) auto
  finally have u: "ulp x \<le> x / 2 ^ 52" .
  have "rnd_pos x \<le> (x / ulp x + 1 / 2) * ulp x"
    unfolding rnd_pos_def by (intro mult_right_mono round_half_even_near) simp
  also have "\<dots> = x + ulp x / 2" using ulp_pos [of x] by (simp add: distrib_right less_imp_neq [symmetric] del: ulp_pos)
  also have "\<dots> \<le> x + x / 2 ^ 53" using u by simp
  finally show ?thesis by (simp add: distrib_left)
qed

lemma representable_below_one:
  assumes "representable r" "r < 1"
  shows "r \<le> 1 - 1 / 2 ^ 53"
proof -
  from assms(1) obtain m e where r: "r = of_int m * 2 powi e" and m: "\<bar>m\<bar> < 2 ^ 53"
    by (auto simp: representable_def)
  show ?thesis
  proof (cases "- 53 \<le> e")
    case True
    then have "(2 :: rat) powi e * 2 ^ 53 = 2 ^ nat (e + 53)"
      using power_int_add [of "2 :: rat" e 53] by (simp add: power_int_def)
    then have "r * 2 ^ 53 = of_int (m * 2 ^ nat (e + 53))"
      unfolding r by (simp only: mult.assoc of_int_mult of_int_power of_int_numeral)
    moreover have "r * 2 ^ 53 < of_int (2 ^ 53)" using assms(2) by simp
    ultimately have "m * 2 ^ nat (e + 53) < 2 ^ 53" by (simp only: of_int_less_iff)
    then have "m * 2 ^ nat (e + 53) \<le> 2 ^ 53 - 1" by linarith
    then have "(of_int (m * 2 ^ nat (e + 53)) :: rat) \<le> of_int (2 ^ 53 - 1)" by (simp only: of_int_le_iff)
    then have "r * 2 ^ 53 \<le> of_int (2 ^ 53 - 1)" by (simp only: \<open>r * 2 ^ 53 = _\<close>)
    then show ?thesis by simp
  next
    case False
    have "m \<le> 2 ^ 53" using m by linarith
    then have "(of_int m :: rat) \<le> of_int (2 ^ 53)" by (simp only: of_int_le_iff)
    then have "of_int m \<le> (2 :: rat) ^ 53" by simp
    then have "r \<le> 2 ^ 53 * 2 powi e" unfolding r by (intro mult_right_mono) auto
    also have "\<dots> \<le> 2 ^ 53 * 2 powi (- 54)" using False by (intro mult_left_mono power_int_increasing) auto
    also have "\<dots> \<le> 1 - 1 / 2 ^ 53" by (simp add: power_int_minus)
    finally show ?thesis .
  qed
qed

text \<open>
  For a float64 ratio between 0 and 1 the quota of preview-off cohorts starts at 0 and grows by at
  most one per cohort, whatever the rounding of the products.
\<close>

abbreviation ratio_quota :: "rat \<Rightarrow> nat \<Rightarrow> int" where
  "ratio_quota r k \<equiv> \<lfloor>rnd (of_nat k * r)\<rfloor>"

lemma ratio_product_small: "0 \<le> r \<Longrightarrow> r \<le> 1 \<Longrightarrow> k \<le> 10001 \<Longrightarrow> of_nat k * r \<le> (10001 :: rat)"
  using mult_mono [of "of_nat k" 10001 r "1 :: rat"] by simp

lemma f_quota:
  assumes "0 \<le> r" "r \<le> 1" "k \<le> 10001"
  shows "f_mul (f_of_int (int k)) (Fin r) = Fin (rnd (of_nat k * r))"
    and "f_to_int (f_mul (f_of_int (int k)) (Fin r)) = ratio_quota r k"
proof -
  let ?x = "of_nat k * r :: rat"
  have k: "f_of_int (int k) = Fin (of_nat k)" using assms(3) f_of_int_exact [of "int k"] by simp
  have b: "?x \<le> 10001" "0 \<le> ?x" using ratio_product_small [OF assms] assms(1) by auto
  show f: "f_mul (f_of_int (int k)) (Fin r) = Fin (rnd ?x)"
    unfolding k f_mul.simps using b by (intro round64_small) simp
  have "0 \<le> rnd ?x" "rnd ?x \<le> 10001"
    using rnd_nonneg [OF b(2)] rnd_le_representable [OF b(1)] representable_int [of 10001] by simp_all
  then have "0 \<le> \<lfloor>rnd ?x\<rfloor>" "\<lfloor>rnd ?x\<rfloor> \<le> 10001" by (simp_all add: floor_le_iff)
  with f \<open>0 \<le> rnd ?x\<close> show "f_to_int (f_mul (f_of_int (int k)) (Fin r)) = ratio_quota r k"
    by (simp add: Let_def trunc_rat_def)
qed

lemma ratio_quota_0 [simp]: "ratio_quota r 0 = 0" by simp

lemma ratio_quota_mono: "0 \<le> r \<Longrightarrow> j \<le> k \<Longrightarrow> ratio_quota r j \<le> ratio_quota r k"
  by (intro floor_mono rnd_mono mult_right_mono) auto

lemma ratio_quota_one: "k \<le> 10001 \<Longrightarrow> ratio_quota 1 k = int k"
  using representable_int [of "int k"] by (simp add: rnd_representable)

lemma rnd_below_whole:
  assumes "representable r" "0 \<le> r" "r < 1" "0 < k"
  shows "rnd (of_nat k * r) < of_nat k"
proof (cases "of_nat k * r < 1")
  case True
  show ?thesis
  proof (cases "k = 1")
    case True
    with assms show ?thesis by (simp add: rnd_representable)
  next
    case False
    have "rnd (of_nat k * r) \<le> 1" using True representable_int [of 1] by (intro rnd_le_representable) auto
    with False assms(4) show ?thesis by linarith
  qed
next
  case False
  let ?x = "of_nat k * r"
  have "rnd ?x = rnd_pos ?x" using False by (auto simp: rnd_def)
  also have "\<dots> \<le> ?x * (1 + 1 / 2 ^ 53)" using False by (intro rnd_pos_upper) simp
  also have "\<dots> \<le> of_nat k * (1 - 1 / 2 ^ 53) * (1 + 1 / 2 ^ 53)"
    using representable_below_one [OF assms(1,3)] by (intro mult_right_mono mult_left_mono) auto
  also have "\<dots> < of_nat k" using assms(4) by (simp add: mult.assoc)
  finally show ?thesis .
qed

lemma ratio_quota_step:
  assumes r: "representable r" "0 \<le> r" "r \<le> 1" and k: "k \<le> 10000"
  shows "ratio_quota r (Suc k) \<le> ratio_quota r k + 1"
proof (cases "r = 1")
  case True
  then show ?thesis using k ratio_quota_one [of k] ratio_quota_one [of "Suc k"] by simp
next
  case False
  with r have lt: "r < 1" by simp
  define n where "n = ratio_quota r k"
  have n0: "0 \<le> n" unfolding n_def using r by (simp add: rnd_nonneg)
  have "rnd (of_nat k * r) < of_int (n + 1)" unfolding n_def by linarith
  moreover have n_small: "n \<le> int k"
  proof (cases "k = 0")
    case False
    then have "rnd (of_nat k * r) < of_nat k" by (intro rnd_below_whole r lt) simp
    then show ?thesis unfolding n_def by linarith
  qed (simp add: n_def)
  ultimately have kr: "of_nat k * r < of_int (n + 1)"
    using rnd_ge_representable [of "of_int (n + 1)" "of_nat k * r"] representable_int [of "n + 1"] n0 k by force
  have "rnd (of_nat (Suc k) * r) < of_int (n + 2)"
  proof (cases "int k \<le> n + 1")
    case True
    have "rnd (of_nat (Suc k) * r) < of_nat (Suc k)" by (intro rnd_below_whole r lt) simp
    also have "of_nat (Suc k) \<le> (of_int (n + 2) :: rat)"
      using True of_int_le_iff [of "int (Suc k)" "n + 2", where 'a = rat] by simp
    finally show ?thesis .
  next
    case False
    let ?y = "of_int ((n + 2) * 2 ^ 14 - 1) / 2 ^ 14 :: rat"
    have k0: "0 < (of_nat k :: rat)" using False n0 by simp
    have "of_int (n + 1) \<le> (of_nat k :: rat) - 1"
      using False of_int_le_iff [of "n + 1" "int k - 1", where 'a = rat] by simp
    with kr have "of_nat k * r < of_nat k - 1" by linarith
    then have "r < (of_nat k - 1) / of_nat k" using k0 by (simp add: pos_less_divide_eq mult.commute)
    then have "r < 1 - 1 / of_nat k" using k0 by (simp add: diff_divide_distrib)
    moreover have "1 / 2 ^ 14 \<le> 1 / (of_nat k :: rat)" using k0 k by (intro divide_left_mono) auto
    ultimately have "of_nat (Suc k) * r \<le> ?y" using kr by (simp add: distrib_right)
    moreover have "representable ?y" using n0 n_small k by (intro representable_scaled) auto
    ultimately have "rnd (of_nat (Suc k) * r) \<le> ?y" by (rule rnd_le_representable)
    also have "\<dots> < of_int (n + 2)" by simp
    finally show ?thesis .
  qed
  then show ?thesis unfolding n_def by linarith
qed

section \<open>Validated options\<close>

lemma validated:
  assumes "validateOptions p = None"
  shows "1 \<le> lo_connections p" "lo_connections p \<le> 10000" "1 \<le> lo_canvases p" "1 \<le> lo_pages p"
    "lo_activeDrawers p \<le> lo_connections p" "\<not> f_lt (Fin 1) (lo_activeRatio p)"
    "\<not> f_lt (lo_previewOffRatio p) (Fin 0)" "\<not> f_lt (Fin 1) (lo_previewOffRatio p)"
    "0 < lo_duration p" "0 \<le> lo_drainGrace p" "0 \<le> lo_interestSettle p"
  using assms by (auto simp: validateOptions_def not_less not_le split: if_splits)

lemma validated_makeAssignments:
  "validateOptions p = None \<Longrightarrow> makeAssignments p = Some (map (assign_user p) [0..<nat (lo_connections p)])"
  using validated [of p] by (simp add: makeAssignments_def)

lemma digits_value_pad [simp]: "digits_value (pad_dec w n) = n"
proof -
  have "foldl (\<lambda>n c. 10 * n + (of_char c - 48)) 0 (replicate k CHR ''0'') = (0 :: nat)" for k
    by (induction k) simp_all
  then show ?thesis using nat_dec_digits(3) [of n] by (simp add: pad_dec_def digits_value_def)
qed

lemma pad_dec_inject [simp]: "pad_dec w m = pad_dec w n \<longleftrightarrow> m = n"
  using digits_value_pad by metis

lemma assign_user_fields [simp]:
  "as_userID (assign_user p i) = ''bench-user-'' @ pad_dec 6 i"
  "as_noteID (assign_user p i) = ''bench-note-'' @ pad_dec 3 (fst (placement p i))"
  "as_pageID (assign_user p i) = ''bench-page-'' @ pad_dec 3 (fst (snd (placement p i)))"
  "as_active (assign_user p i) \<longleftrightarrow> int i < active_drawers p"
  "as_previewOff (assign_user p i) \<longleftrightarrow> preview_off p (cohort_of p i)"
  by (simp_all add: assign_user_def case_prod_unfold Let_def)

lemma placement_bounds:
  assumes "validateOptions p = None"
  shows "fst (placement p i) < nat (lo_canvases p)" "fst (snd (placement p i)) < nat (lo_pages p)"
  using validated [OF assms] by (simp_all add: placement_def Let_def)

lemma placement_page:
  "lo_scenario p \<noteq> ''hotspot'' \<Longrightarrow> lo_scenario p \<noteq> ''mostly-viewing'' \<Longrightarrow>
     fst (snd (placement p i)) = i mod nat \<bar>lo_pages p\<bar>"
  by (simp add: placement_def Let_def)

lemma active_ratio_le_one:
  assumes "validateOptions p = None"
  shows "active_ratio p = NaN \<or> active_ratio p = Inf True \<or> (\<exists>r. active_ratio p = Fin r \<and> 0 \<le> r \<and> r \<le> 1)"
proof -
  have lit: "\<exists>r. round64 x = Fin r \<and> 0 \<le> r \<and> r \<le> 1" if "0 \<le> x" "x \<le> 1" for x
    using that rnd_nonneg [of x] rnd_le_representable [of x 1] representable_int [of 1] round64_small [of x] by simp
  show ?thesis
    using validated(6) [OF assms] lit [of "5 / 100"] lit [of "70 / 100"] lit [of "20 / 100"]
    by (cases "lo_activeRatio p") (auto simp: active_ratio_def)
qed

lemma active_drawers_bound:
  assumes "validateOptions p = None"
  shows "active_drawers p \<le> lo_connections p"
proof (cases "lo_activeDrawers p < 0")
  case True
  let ?n = "nat (lo_connections p)"
  have c: "1 \<le> lo_connections p" "lo_connections p \<le> 10000" using validated [OF assms] by auto
  have "f_to_int (f_mul (f_of_int (lo_connections p)) (active_ratio p)) \<le> lo_connections p"
    using active_ratio_le_one [OF assms]
  proof (elim disjE exE conjE)
    fix r assume r: "active_ratio p = Fin r" "0 \<le> r" "r \<le> 1"
    have "of_nat ?n * r \<le> of_nat ?n * 1" using r by (intro mult_left_mono) auto
    then have "rnd (of_nat ?n * r) \<le> of_nat ?n"
      using representable_int [of "int ?n"] c by (intro rnd_le_representable) auto
    then have "ratio_quota r ?n \<le> int ?n" by linarith
    with f_quota(2) [of r ?n] r c show ?thesis by simp
  qed (use c in \<open>auto simp: f_of_int_exact\<close>)
  with True c show ?thesis by (simp add: active_drawers_def Let_def)
next
  case False
  with validated(5) [OF assms] show ?thesis by (simp add: active_drawers_def)
qed

section \<open>The plan is what the options ask for\<close>

lemma filter_less_upt: "length (filter (\<lambda>i. int i < a) [0..<n]) = min n (nat a)"
  by (induction n) auto

lemma filter_map_length: "length (filter P (map f xs)) = length (filter (P \<circ> f) xs)"
  by (simp add: filter_map)

text \<open>
  Options that pass the validation give one assignment per connection, without a panic: user ids are
  distinct, every canvas and page number is within the configured counts, and exactly the requested
  number of users draws (the count if one is given, otherwise the ratio's share of the connections,
  which the rounding never takes above their number; a ratio that is not a number gives none).
\<close>

theorem assignments_sound:
  assumes "validateOptions p = None"
  shows "\<exists>xs. makeAssignments p = Some xs \<and> length xs = nat (lo_connections p) \<and> distinct (map as_userID xs) \<and>
    (\<forall>a \<in> set xs. (\<exists>n < nat (lo_canvases p). as_noteID a = ''bench-note-'' @ pad_dec 3 n) \<and>
       (\<exists>n < nat (lo_pages p). as_pageID a = ''bench-page-'' @ pad_dec 3 n)) \<and>
    length (filter as_active xs) = nat (active_drawers p)"
proof (intro exI conjI)
  let ?xs = "map (assign_user p) [0..<nat (lo_connections p)]"
  show "makeAssignments p = Some ?xs" by (rule validated_makeAssignments [OF assms])
  show "distinct (map as_userID ?xs)" by (simp add: comp_def distinct_map inj_on_def)
  show "\<forall>a \<in> set ?xs. (\<exists>n < nat (lo_canvases p). as_noteID a = ''bench-note-'' @ pad_dec 3 n) \<and>
       (\<exists>n < nat (lo_pages p). as_pageID a = ''bench-page-'' @ pad_dec 3 n)"
    using placement_bounds [OF assms] by auto
  show "length (filter as_active ?xs) = nat (active_drawers p)"
    using active_drawers_bound [OF assms] by (simp only: filter_map_length comp_def assign_user_fields filter_less_upt)
qed simp

definition example_options :: options where
  "example_options = (parseOptions \<lparr>cl_string = (\<lambda>_. None), cl_int = (\<lambda>_. None), cl_duration = (\<lambda>_. None),
     cl_float = (\<lambda>_. None), cl_bool = (\<lambda>_. None)\<rparr>)
       \<lparr>lo_scenario := ''multi-page'', lo_connections := 8, lo_pages := 2, lo_previewOffRatio := Fin (1 / 2)\<rparr>"

lemma example_options_valid: "validateOptions example_options = None"
  by (simp add: example_options_def parseOptions_def flag_or_def validateOptions_def)

theorem assignments_sound_witness:
  "validateOptions example_options = None \<and> (\<exists>xs. makeAssignments example_options = Some xs \<and> length xs = 8)"
  using assignments_sound [of example_options] example_options_valid by (auto simp: example_options_def)

text \<open>
  The users on one page are one per cohort, so a page sees the preview-off quota of the cohorts.
\<close>

lemma upt_cohort: "[0..<n * Suc K] = [0..<n * K] @ map (\<lambda>j. n * K + j) [0..<n]"
proof -
  have "map (\<lambda>j. n * K + j) [0..<n] = [n * K..<n * K + n]"
    using map_add_upt [of "n * K" n] by (simp only: add.commute)
  then show ?thesis using upt_add_eq_append [of 0 "n * K" n] by (simp add: add.commute)
qed

lemma page_cohorts:
  assumes "k < n"
  shows "filter (\<lambda>i. i mod n = k) [0..<n * K] = map (\<lambda>c. n * c + k) [0..<K]"
proof (induction K)
  case (Suc K)
  have "filter (\<lambda>j. j = k) [0..<n] = [k]" using assms by (induction n) auto
  then have "filter (\<lambda>j. (n * K + j) mod n = k) [0..<n] = [k]"
    by (subst filter_cong [OF refl, of _ _ "\<lambda>j. j = k"]) auto
  then have "filter (\<lambda>i. i mod n = k) (map (\<lambda>j. n * K + j) [0..<n]) = [n * K + k]"
    by (simp only: filter_map comp_def list.map)
  with Suc show ?case by (simp only: upt_cohort filter_append) simp
qed simp

lemma off_cohorts:
  assumes "lo_previewOffRatio p = Fin r" "representable r" "0 \<le> r" "r \<le> 1" "K \<le> 10001"
  shows "int (length (filter (preview_off p) [0..<K])) = off_quota p K"
  using assms(5)
proof (induction K)
  case 0
  then show ?case using f_quota(2) [of r 0] assms by (simp add: off_quota_def)
next
  case (Suc K)
  have q: "off_quota p k = ratio_quota r k" if "k \<le> 10001" for k
    using f_quota(2) [of r k] assms that by (simp add: off_quota_def)
  have "off_quota p (Suc K) \<le> off_quota p K + 1" "off_quota p K \<le> off_quota p (Suc K)"
    using Suc.prems ratio_quota_step [OF assms(2-4), of K] ratio_quota_mono [OF assms(3), of K "Suc K"]
    by (simp_all add: q)
  with Suc show ?case by (auto simp: preview_off_def)
qed

text \<open>
  The comment on the cohorts holds: in every scenario that spreads its users over the pages, each page
  of a run with whole cohorts has the same number of users and the same number of preview-off users
  among them, namely the ratio's share of the cohorts as the code computes it, with no cohort lost
  or counted twice to rounding.
\<close>

theorem preview_mix_per_page:
  assumes "validateOptions p = None" "lo_previewOffRatio p = Fin r" "representable r"
    "lo_scenario p \<noteq> ''hotspot''" "lo_scenario p \<noteq> ''mostly-viewing''"
    "lo_connections p = lo_pages p * int K" "k < nat (lo_pages p)"
  shows "\<exists>xs. makeAssignments p = Some xs \<and>
    length (filter (\<lambda>a. as_pageID a = ''bench-page-'' @ pad_dec 3 k) xs) = K \<and>
    int (length (filter (\<lambda>a. as_pageID a = ''bench-page-'' @ pad_dec 3 k \<and> as_previewOff a) xs)) =
      off_quota p K"
proof (intro exI conjI)
  let ?n = "nat (lo_pages p)"
  let ?xs = "map (assign_user p) [0..<?n * K]"
  note v = validated [OF assms(1)]
  have c: "nat (lo_connections p) = ?n * K" using v(4) assms(6) by (simp add: nat_mult_distrib)
  show "makeAssignments p = Some ?xs" using validated_makeAssignments [OF assms(1)] c by simp
  have page: "fst (snd (placement p i)) = i mod ?n" for i
    using placement_page [OF assms(4,5)] v(4) by simp
  have users: "filter (\<lambda>i. as_pageID (assign_user p i) = ''bench-page-'' @ pad_dec 3 k) [0..<?n * K] =
      map (\<lambda>c. ?n * c + k) [0..<K]"
    by (simp add: page page_cohorts [OF assms(7)])
  then show "length (filter (\<lambda>a. as_pageID a = ''bench-page-'' @ pad_dec 3 k) ?xs) = K"
    by (simp only: filter_map_length comp_def length_map length_upt)
  have coh: "cohort_of p (?n * c + k) = c" for c using assms(7) v(4) by (simp add: cohort_of_def max_def)
  have off: "preview_off p \<circ> cohort_of p \<circ> (\<lambda>c. ?n * c + k) = preview_off p" by (simp add: comp_def coh)
  have "length (filter (\<lambda>a. as_pageID a = ''bench-page-'' @ pad_dec 3 k \<and> as_previewOff a) ?xs) =
      length (filter (preview_off p \<circ> cohort_of p) (map (\<lambda>c. ?n * c + k) [0..<K]))"
    unfolding users [symmetric] by (simp only: filter_map_length comp_def filter_filter assign_user_fields conj_commute)
  also have "\<dots> = length (filter (preview_off p) [0..<K])" by (simp only: filter_map_length off)
  finally show "int (length (filter (\<lambda>a. as_pageID a = ''bench-page-'' @ pad_dec 3 k \<and> as_previewOff a) ?xs)) = off_quota p K"
    using off_cohorts [OF assms(2,3), of K] v(2,4,7,8) assms(2,6) mult_mono [of 1 "lo_pages p" "int K" "int K"] by simp
qed

lemma half_representable: "representable (1 / 2)"
  using representable_scaled [of 1 1] by simp

theorem preview_mix_per_page_witness:
  "\<exists>xs. makeAssignments example_options = Some xs \<and>
    length (filter (\<lambda>a. as_pageID a = ''bench-page-'' @ pad_dec 3 1) xs) = 4 \<and>
    int (length (filter (\<lambda>a. as_pageID a = ''bench-page-'' @ pad_dec 3 1 \<and> as_previewOff a) xs)) = 2"
proof -
  have "off_quota example_options 4 = 2"
    using f_quota(2) [of "1 / 2" 4] by (simp add: off_quota_def example_options_def rnd_representable [OF representable_int [of 2, simplified]])
  then show ?thesis
    using preview_mix_per_page [of example_options "1 / 2" 4 1, OF example_options_valid _ half_representable]
    by (simp add: example_options_def parseOptions_def flag_or_def)
qed

end
