(* ===== verification/Loadtest_Client.thy ===== *)
theory Loadtest_Client
  imports Loadtest_Plan Client_Frames "HOL-Library.Monad_Syntax"
begin

text \<open>
  The load generator's virtual users (\<open>cmd/loadtest/main.go\<close>): its two kinds of connection, the frames
  they write and read, what is recorded of them, and the opening of a user. The network, the text
  rendering and parsing of JSON, the signature of a token and the HTTP exchange are parameters
  (\<open>load_env\<close>). Several readings of the clock in one operation are taken at one instant.
\<close>

section \<open>Connections\<close>

record inbound_frame =
  if_binary :: bool
  if_data :: bytes

datatype load_packet = MessageOut bool bytes | DatagramOut bytes | StreamOut bytes

record load_connection =
  lc_webTransport :: bool
  lc_sent :: "load_packet list"
  lc_frames :: "inbound_frame list"
  lc_done :: bool

type_synonym load_net = "load_packet list \<Rightarrow> load_packet \<Rightarrow> bool"

definition load_send :: "load_net \<Rightarrow> load_packet \<Rightarrow> nat \<Rightarrow> load_connection \<Rightarrow> nat option \<times> load_connection" where
  "load_send net packet n c =
     (if net (lc_sent c) packet then (Some n, c\<lparr>lc_sent := lc_sent c @ [packet]\<rparr>) else (None, c))"

definition load_ws_write :: "load_net \<Rightarrow> bytes \<Rightarrow> bool \<Rightarrow> load_connection \<Rightarrow> nat option \<times> load_connection" where
  "load_ws_write net data binaryFrame c = load_send net (MessageOut binaryFrame data) (length data) c"

definition load_wt_write :: "load_net \<Rightarrow> bytes \<Rightarrow> bool \<Rightarrow> load_connection \<Rightarrow> nat option \<times> load_connection" where
  "load_wt_write net data ephemeral c =
     (if ephemeral then load_send net (DatagramOut data) (length data) c
      else load_send net (StreamOut (stream_frame data)) (length (stream_frame data)) c)"

definition load_write ::
  "load_net \<Rightarrow> bytes \<Rightarrow> bool \<Rightarrow> bool \<Rightarrow> load_connection \<Rightarrow> nat option \<times> load_connection" where
  "load_write net data ephemeral binaryFrame c =
     (if lc_webTransport c then load_wt_write net data ephemeral c else load_ws_write net data binaryFrame c)"

text \<open>
  The bounded receive queue. When the connection is done and the queue has room, \<open>select\<close> may take
  either case: \<open>sel\<close> says whether it takes the first.
\<close>

abbreviation (input) "receiveQueueSize \<equiv> (1024 :: nat)"

definition load_push :: "(load_connection \<Rightarrow> bool) \<Rightarrow> inbound_frame \<Rightarrow> load_connection \<Rightarrow> load_connection" where
  "load_push sel frame c =
     (if lc_done c \<and> (length (lc_frames c) \<ge> receiveQueueSize \<or> sel c) then c
      else if length (lc_frames c) < receiveQueueSize then c\<lparr>lc_frames := lc_frames c @ [frame]\<rparr>
      else c)"

definition load_finish :: "load_connection \<Rightarrow> load_connection" where
  "load_finish c = c\<lparr>lc_done := True\<rparr>"

text \<open>One turn of the datagram reader; \<open>None\<close> is a failed receive, which ends it.\<close>

definition readDatagrams :: "(load_connection \<Rightarrow> bool) \<Rightarrow> bytes option \<Rightarrow> load_connection \<Rightarrow> load_connection" where
  "readDatagrams sel datagram c = (case datagram of
     None \<Rightarrow> load_finish c
   | Some data \<Rightarrow> load_push sel \<lparr>if_binary = True, if_data = data\<rparr> c)"

abbreviation (input) "maxPayloadBytes \<equiv> (256 * 1024 :: nat)"

text \<open>The frames the stream reader takes from the bytes of the stream before it ends.\<close>

function stream_payloads :: "bytes \<Rightarrow> bytes list" where
  "stream_payloads bs =
     (if length bs < 4 then []
      else let size = be32 (take 4 bs); rest = drop 4 bs in
        if size = 0 \<or> size > maxPayloadBytes then []
        else if length rest < size then []
        else take size rest # stream_payloads (drop size rest))"
  by pat_completeness auto
termination by (relation "measure length") auto

declare stream_payloads.simps [simp del]

definition readStream :: "(load_connection \<Rightarrow> bool) \<Rightarrow> bytes \<Rightarrow> load_connection \<Rightarrow> load_connection" where
  "readStream sel bs c =
     load_finish (fold (\<lambda>data. load_push sel \<lparr>if_binary = False, if_data = data\<rparr>) (stream_payloads bs) c)"

text \<open>
  \<open>read\<close> waits for the end, a frame or the context; of the cases that are ready, \<open>select\<close> takes the
  one a number picks. \<open>Waiting\<close>: none is ready.
\<close>

datatype read_result = Waiting | ReadEnded | ReadFrame inbound_frame

definition load_wt_read :: "nat \<Rightarrow> bool \<Rightarrow> load_connection \<Rightarrow> read_result \<times> load_connection" where
  "load_wt_read pick cancelled c = (let
     ready = (if lc_done c then [ReadEnded] else []) @
       (case lc_frames c of [] \<Rightarrow> [] | frame # _ \<Rightarrow> [ReadFrame frame]) @
       (if cancelled then [ReadEnded] else [])
   in if ready = [] then (Waiting, c)
      else case ready ! (pick mod length ready) of
        ReadFrame frame \<Rightarrow> (ReadFrame frame, c\<lparr>lc_frames := tl (lc_frames c)\<rparr>)
      | r \<Rightarrow> (r, c))"

text \<open>A WebSocket read returns the kind and the data of the next message, or an error.\<close>

definition load_ws_read :: "(bool \<times> bytes) option \<Rightarrow> read_result" where
  "load_ws_read message = (case message of
     None \<Rightarrow> ReadEnded | Some (binary, data) \<Rightarrow> ReadFrame \<lparr>if_binary = binary, if_data = data\<rparr>)"

definition load_close :: "load_connection \<Rightarrow> load_connection" where
  "load_close c = (if lc_webTransport c then load_finish c else c)"

section \<open>What a run records\<close>

record metrics_snapshot =
  ms_ActiveSessions :: int
  ms_ActiveConnections :: int
  ms_ActiveRooms :: int
  ms_MessagesIn :: int
  ms_MessagesOut :: int
  ms_IncomingBytes :: int
  ms_OutgoingBytes :: int
  ms_DroppedEphemeral :: int
  ms_ReliableOverflow :: int
  ms_ReliableQueueDepthMax :: int
  ms_EphemeralQueueDepthMax :: int
  ms_InterestRecipientsPerEvent :: float64
  ms_InterestFiltered :: int

definition metrics_snapshot_zero :: metrics_snapshot where
  "metrics_snapshot_zero = \<lparr>ms_ActiveSessions = 0, ms_ActiveConnections = 0, ms_ActiveRooms = 0, ms_MessagesIn = 0,
     ms_MessagesOut = 0, ms_IncomingBytes = 0, ms_OutgoingBytes = 0, ms_DroppedEphemeral = 0, ms_ReliableOverflow = 0,
     ms_ReliableQueueDepthMax = 0, ms_EphemeralQueueDepthMax = 0, ms_InterestRecipientsPerEvent = Fin 0, ms_InterestFiltered = 0\<rparr>"

record counters =
  ct_attempted :: int
  ct_opened :: int
  ct_failures :: int
  ct_closed :: int
  ct_reconnects :: int
  ct_sendMessages :: int
  ct_sendBytes :: int
  ct_receiveMessages :: int
  ct_receiveBytes :: int
  ct_previewSent :: int
  ct_previewReceived :: int
  ct_commitSent :: int
  ct_commitReceived :: int
  ct_expectedCommitDeliveries :: int
  ct_unexpectedMessages :: int

definition counters_zero :: counters where
  "counters_zero = \<lparr>ct_attempted = 0, ct_opened = 0, ct_failures = 0, ct_closed = 0, ct_reconnects = 0,
     ct_sendMessages = 0, ct_sendBytes = 0, ct_receiveMessages = 0, ct_receiveBytes = 0, ct_previewSent = 0,
     ct_previewReceived = 0, ct_commitSent = 0, ct_commitReceived = 0, ct_expectedCommitDeliveries = 0,
     ct_unexpectedMessages = 0\<rparr>"

record run_state =
  rn_counters :: counters
  rn_opts :: options
  rn_assignments :: "assignment list"
  rn_sentAt :: "(string, (64 word, time) gomap) gomap"
  rn_latencies :: "float64 list"
  rn_serverBefore :: metrics_snapshot
  rn_serverAfter :: metrics_snapshot
  rn_serverError :: string

definition bump :: "(counters \<Rightarrow> counters) \<Rightarrow> run_state \<Rightarrow> run_state" where
  "bump f s = s\<lparr>rn_counters := f (rn_counters s)\<rparr>"

definition recordSend :: "string \<Rightarrow> 64 word \<Rightarrow> time \<Rightarrow> run_state \<Rightarrow> run_state" where
  "recordSend user seq now s =
     bump (\<lambda>c. c\<lparr>ct_previewSent := ct_previewSent c + 1\<rparr>)
       (s\<lparr>rn_sentAt := gm_put user (gm_put seq now (gm_get [] user (rn_sentAt s))) (rn_sentAt s)\<rparr>)"

abbreviation (input) "maxLatencies \<equiv> (200000 :: nat)"

definition latency_ms :: "time \<Rightarrow> time \<Rightarrow> float64" where
  "latency_ms now sent = f_div (f_of_int (go_div (time_sub now sent) 1000)) (Fin 1000)"

definition observePreview :: "string \<Rightarrow> string \<Rightarrow> 64 word \<Rightarrow> time \<Rightarrow> run_state \<Rightarrow> run_state" where
  "observePreview receiver actor seq now s =
     (if actor = [] \<or> seq = 0 \<or> actor = receiver then s
      else case map_of (gm_get [] actor (rn_sentAt s)) seq of
        None \<Rightarrow> s
      | Some sent \<Rightarrow> (let s = bump (\<lambda>c. c\<lparr>ct_previewReceived := ct_previewReceived c + 1\<rparr>) s in
          if length (rn_latencies s) < maxLatencies
          then s\<lparr>rn_latencies := rn_latencies s @ [latency_ms now sent]\<rparr> else s))"

definition sameNotePeers :: "string \<Rightarrow> run_state \<Rightarrow> int" where
  "sameNotePeers nid s = (let n = length (filter (\<lambda>a. as_noteID a = nid) (rn_assignments s)) in
     if n > 0 then int n - 1 else 0)"

section \<open>Virtual users\<close>

datatype load_error = LibraryError | LoadError string

record bootstrapResponse =
  vb_SessionID :: string
  vb_ConnectionTicket :: string
  vb_WebSocketURL :: string
  vb_WebTransportURL :: string
  vb_NoteID :: string
  vb_BinaryVersion :: int

definition bootstrapResponse_zero :: bootstrapResponse where
  "bootstrapResponse_zero = \<lparr>vb_SessionID = [], vb_ConnectionTicket = [], vb_WebSocketURL = [], vb_WebTransportURL = [],
     vb_NoteID = [], vb_BinaryVersion = 0\<rparr>"

definition dec_bootstrapResponse :: "bootstrapResponse decoder" where
  "dec_bootstrapResponse = dec_struct (\<lambda>k n v p.
     if EqualFold k ''sessionId'' then (let (x, e) = dec_string v (vb_SessionID p) in (p\<lparr>vb_SessionID := x\<rparr>, e))
     else if EqualFold k ''connectionTicket'' then (let (x, e) = dec_string v (vb_ConnectionTicket p) in (p\<lparr>vb_ConnectionTicket := x\<rparr>, e))
     else if EqualFold k ''websocketUrl'' then (let (x, e) = dec_string v (vb_WebSocketURL p) in (p\<lparr>vb_WebSocketURL := x\<rparr>, e))
     else if EqualFold k ''webTransportUrl'' then (let (x, e) = dec_string v (vb_WebTransportURL p) in (p\<lparr>vb_WebTransportURL := x\<rparr>, e))
     else if EqualFold k ''noteId'' then (let (x, e) = dec_string v (vb_NoteID p) in (p\<lparr>vb_NoteID := x\<rparr>, e))
     else if EqualFold k ''binaryEphemeralVersion'' then (let (x, e) = dec_int64 v (vb_BinaryVersion p) in (p\<lparr>vb_BinaryVersion := x\<rparr>, e))
     else (p, False))"

datatype http_reply = NoReply string | HttpReply (reply_code: int) (reply_status: string) (reply_text: string) (reply_doc: raw)

definition bootstrap :: "http_reply \<Rightarrow> (load_error, bootstrapResponse) outcome" where
  "bootstrap resp = (case resp of
     NoReply _ \<Rightarrow> Inl LibraryError
   | HttpReply code status body doc \<Rightarrow>
       if code \<noteq> 200
       then Inl (LoadError (''bootstrap returned '' @ status @ '': '' @ TrimSpace (take 4096 body)))
       else let (result, err) = unmarshal dec_bootstrapResponse bootstrapResponse_zero doc in
         if err then Inl LibraryError
         else if vb_ConnectionTicket result = [] \<or> vb_SessionID result = []
         then Inl (LoadError ''bootstrap response has no session/ticket'')
         else Inr result)"

record virtual_user =
  vu_assignment :: assignment
  vu_bootstrap :: bootstrapResponse
  vu_conn :: load_connection
  vu_seq :: "64 word"

record load_env =
  le_render :: "envelope \<Rightarrow> bytes"
  le_parse :: "bytes \<Rightarrow> raw"
  le_net :: load_net
  le_sign :: "json \<Rightarrow> string option"
  le_bootstrap :: "string \<Rightarrow> http_reply"
  le_dial :: "bootstrapResponse \<Rightarrow> load_connection option"

definition nextSeq :: "virtual_user \<Rightarrow> 64 word \<times> virtual_user" where
  "nextSeq u = (vu_seq u + 1, u\<lparr>vu_seq := vu_seq u + 1\<rparr>)"

text \<open>A payload that cannot be marshalled (a float that is not finite) is \<open>None\<close>.\<close>

definition sendRaw :: "load_env \<Rightarrow> time \<Rightarrow> string \<Rightarrow> json option \<Rightarrow> bool \<Rightarrow> bool \<Rightarrow> 64 word option \<Rightarrow> virtual_user
    \<Rightarrow> (load_error, nat) outcome \<times> virtual_user" where
  "sendRaw env now event payload ephemeral binaryFrame seq u = (case payload of
     None \<Rightarrow> (Inl LibraryError, u)
   | Some doc \<Rightarrow> (let
       e = envelope_zero\<lparr>en_V := EnvelopeVersion,
         en_MessageID := as_userID (vu_assignment u) @ ''-'' @ FormatInt now, en_Event := event, en_Seq := seq,
         en_SentAt := unix_milli now, en_Payload := marshal doc\<rparr>;
       wireData = (if binaryFrame then EncodeClientFrame e else Some (le_render env e))
     in case wireData of
       None \<Rightarrow> (Inl (LoadError (''cannot encode '' @ event @ '' as binary'')), u)
     | Some data \<Rightarrow> (case load_write (le_net env) data ephemeral binaryFrame (vu_conn u) of
         (None, c) \<Rightarrow> (Inl LibraryError, u\<lparr>vu_conn := c\<rparr>)
       | (Some n, c) \<Rightarrow> (Inr n, u\<lparr>vu_conn := c\<rparr>))))"

definition count_sent :: "nat \<Rightarrow> run_state \<Rightarrow> run_state" where
  "count_sent written = bump (\<lambda>c. c\<lparr>ct_sendMessages := ct_sendMessages c + 1, ct_sendBytes := ct_sendBytes c + int written\<rparr>)"

text \<open>True is an error.\<close>

definition sendPreview :: "load_env \<Rightarrow> time \<Rightarrow> string \<Rightarrow> json option \<Rightarrow> virtual_user \<times> run_state
    \<Rightarrow> bool \<times> virtual_user \<times> run_state" where
  "sendPreview env now event payload = (\<lambda>(u, s). let
     (seq, u) = nextSeq u;
     s = recordSend (as_userID (vu_assignment u)) seq now s;
     binaryFrame = (lo_encoding (rn_opts s) = ''binary'' \<and> vb_BinaryVersion (vu_bootstrap u) \<ge> 1)
   in case sendRaw env now event payload True binaryFrame (Some seq) u of
     (Inl _, u) \<Rightarrow> (True, u, s)
   | (Inr written, u) \<Rightarrow> (False, u, count_sent written s))"

definition commit_payload :: "time \<Rightarrow> int \<Rightarrow> assignment \<Rightarrow> json option" where
  "commit_payload now index a = do {
     let ident = as_userID a @ ''-stroke-'' @ FormatInt index @ ''-'' @ FormatInt now;
     x0 \<leftarrow> jfloat (as_x a); y0 \<leftarrow> jfloat (as_y a);
     x1 \<leftarrow> jfloat (f_add (as_x a) (Fin 16)); y1 \<leftarrow> jfloat (f_add (as_y a) (Fin 12));
     Some (JObj [jmem ''clientStrokeId'' (JStr ident), jmem ''drawingBlockId'' (JStr ''bench-drawing-block''),
       jmem ''operationId'' (JStr (''bench-op-'' @ ident)), jmem ''pageId'' (JStr (as_pageID a)),
       jmem ''points'' (JArr [JObj [jmem ''x'' x0, jmem ''y'' y0], JObj [jmem ''x'' x1, jmem ''y'' y1]])])
   }"

definition sendCommit :: "load_env \<Rightarrow> time \<Rightarrow> int \<Rightarrow> virtual_user \<times> run_state \<Rightarrow> bool \<times> virtual_user \<times> run_state" where
  "sendCommit env now index = (\<lambda>(u, s).
     if lo_commitEvery (rn_opts s) \<le> 0 then (False, u, s)
     else case sendRaw env now ''ink.commit'' (commit_payload now index (vu_assignment u)) False False None u of
       (Inl _, u) \<Rightarrow> (True, u, s)
     | (Inr written, u) \<Rightarrow> (False, u, bump (\<lambda>c. c\<lparr>ct_commitSent := ct_commitSent c + 1,
         ct_expectedCommitDeliveries := ct_expectedCommitDeliveries c + sameNotePeers (as_noteID (vu_assignment u)) s\<rparr>)
           (count_sent written s)))"

section \<open>A user's loops\<close>

definition preview_interval :: "float64 \<Rightarrow> duration" where
  "preview_interval rate = (let interval = f_to_int (f_div (Fin 1000000000) rate) in
     if interval \<le> 0 then Millisecond else interval)"

text \<open>The tickers \<open>run\<close> starts: the intervals of previews and commits, if any.\<close>

definition user_tickers :: "options \<Rightarrow> assignment \<Rightarrow> duration option \<times> duration option" where
  "user_tickers p a =
     (if \<not> as_active a then (None, None)
      else (if \<not> as_previewOff a \<and> f_lt (Fin 0) (lo_previewRate p) then Some (preview_interval (lo_previewRate p)) else None,
            if lo_commitEvery p > 0 then Some (lo_commitEvery p) else None))"

definition cursor_payload :: "duration \<Rightarrow> assignment \<Rightarrow> json option" where
  "cursor_payload since a = do {
     let d = f_mul (Fin 18) (dur_seconds since);
     x \<leftarrow> jfloat (f_add (as_x a) d); y \<leftarrow> jfloat (f_add (as_y a) (f_div d (Fin 2)));
     Some (JObj [jmem ''pageId'' (JStr (as_pageID a)), jmem ''x'' x, jmem ''y'' y])
   }"

text \<open>
  The loop of a user: the next commit's number and whether it still runs. The channel of a ticker that
  was not started never delivers; a failed preview ends the loop, a failed commit does not.
\<close>

record user_loop =
  ul_user :: virtual_user
  ul_index :: int
  ul_running :: bool

datatype user_tick = Stopped | PreviewTick time | CommitTick time

definition user_run :: "load_env \<Rightarrow> time \<Rightarrow> user_tick \<Rightarrow> user_loop \<times> run_state \<Rightarrow> user_loop \<times> run_state" where
  "user_run env start tick = (\<lambda>(l, s). let u = ul_user l; (previews, commits) = user_tickers (rn_opts s) (vu_assignment u) in
     if \<not> ul_running l then (l, s)
     else case tick of
       Stopped \<Rightarrow> (l\<lparr>ul_running := False\<rparr>, s)
     | PreviewTick now \<Rightarrow>
         if previews = None then (l, s)
         else (case sendPreview env now ''cursor.moved'' (cursor_payload (time_sub now start) (vu_assignment u)) (u, s) of
             (err, u, s) \<Rightarrow> (l\<lparr>ul_user := u, ul_running := \<not> err\<rparr>, s))
     | CommitTick now \<Rightarrow>
         if commits = None then (l, s)
         else (case sendCommit env now (ul_index l) (u, s) of
             (_, u, s) \<Rightarrow> (l\<lparr>ul_user := u, ul_index := ul_index l + 1\<rparr>, s)))"

record relayed_envelope =
  re_Event :: string
  re_ActorID :: string
  re_Seq :: "64 word option"

definition dec_relayed_envelope :: "relayed_envelope decoder" where
  "dec_relayed_envelope = dec_struct (\<lambda>k n v p.
     if EqualFold k ''event'' then (let (x, e) = dec_string v (re_Event p) in (p\<lparr>re_Event := x\<rparr>, e))
     else if EqualFold k ''actorId'' then (let (x, e) = dec_string v (re_ActorID p) in (p\<lparr>re_ActorID := x\<rparr>, e))
     else if EqualFold k ''seq'' then (let (x, e) = dec_seq v (re_Seq p) in (p\<lparr>re_Seq := x\<rparr>, e))
     else (p, False))"

text \<open>One turn of \<open>readLoop\<close> on a frame that was read.\<close>

definition read_frame :: "load_env \<Rightarrow> time \<Rightarrow> string \<Rightarrow> inbound_frame \<Rightarrow> run_state \<Rightarrow> run_state" where
  "read_frame env now receiver frame s = (let
     s = bump (\<lambda>c. c\<lparr>ct_receiveMessages := ct_receiveMessages c + 1,
       ct_receiveBytes := ct_receiveBytes c + int (length (if_data frame))\<rparr>) s;
     unexpected = bump (\<lambda>c. c\<lparr>ct_unexpectedMessages := ct_unexpectedMessages c + 1\<rparr>)
   in if if_binary frame then
        (case DecodeRelayMetadata (if_data frame) of
           None \<Rightarrow> unexpected s
         | Some metadata \<Rightarrow> fold (\<lambda>item. observePreview receiver (rm_ActorID item) (rm_Sequence item) now) metadata s)
      else let (e, err) = unmarshal dec_relayed_envelope \<lparr>re_Event = [], re_ActorID = [], re_Seq = None\<rparr> (le_parse env (if_data frame)) in
        if err then unexpected s
        else let s = (if re_Event e = ''ink.commit'' then bump (\<lambda>c. c\<lparr>ct_commitReceived := ct_commitReceived c + 1\<rparr>) s else s)
          in case re_Seq e of None \<Rightarrow> s | Some seq \<Rightarrow> observePreview receiver (re_ActorID e) seq now s)"

section \<open>Opening a user\<close>

definition bench_claims :: "options \<Rightarrow> assignment \<Rightarrow> time \<Rightarrow> json" where
  "bench_claims p a now = JObj [jmem ''aud'' (JStr (lo_audience p)), jmem ''exp'' (jint ((now + 30 * Minute) div Second)),
     jmem ''iat'' (jint (now div Second)), jmem ''iss'' (JStr (lo_issuer p)), jmem ''jti'' (JStr (''bench-token-'' @ as_userID a)),
     jmem ''nbf'' (jint (now div Second)), jmem ''nid'' (JStr (as_noteID a)), jmem ''perm'' (JStr ''edit''),
     jmem ''sid'' (JStr (''bench-session-'' @ as_userID a)), jmem ''sub'' (JStr (as_userID a))]"

definition signToken :: "load_env \<Rightarrow> options \<Rightarrow> assignment \<Rightarrow> time \<Rightarrow> string option" where
  "signToken env p a now = le_sign env (bench_claims p a now)"

definition interest_payload_json :: "assignment \<Rightarrow> json option" where
  "interest_payload_json a = do {
     x \<leftarrow> jfloat (f_sub (as_x a) (Fin 600)); y \<leftarrow> jfloat (f_sub (as_y a) (Fin 450));
     let on = JBool (\<not> as_previewOff a);
     Some (JObj [jmem ''height'' (jint 900), jmem ''pageId'' (JStr (as_pageID a)),
       jmem ''preview'' (JObj [jmem ''cursor'' on, jmem ''ink'' on, jmem ''laser'' on, jmem ''transform'' on]),
       jmem ''width'' (jint 1200), jmem ''x'' x, jmem ''y'' y, jmem ''zoom'' (jint 1)])
   }"

definition openVirtualUser :: "load_env \<Rightarrow> options \<Rightarrow> assignment \<Rightarrow> time \<Rightarrow> (load_error, virtual_user) outcome" where
  "openVirtualUser env p a now = (case signToken env p a now of
     None \<Rightarrow> Inl LibraryError
   | Some token \<Rightarrow> (case bootstrap (le_bootstrap env token) of
       Inl err \<Rightarrow> Inl err
     | Inr b \<Rightarrow> (let a = (if vb_NoteID b \<noteq> [] then a\<lparr>as_noteID := vb_NoteID b\<rparr> else a) in
         case le_dial env b of
           None \<Rightarrow> Inl LibraryError
         | Some conn \<Rightarrow> (let u = \<lparr>vu_assignment = a, vu_bootstrap = b, vu_conn = conn, vu_seq = 0\<rparr> in
             case (if vb_BinaryVersion b \<ge> 2
                   then sendRaw env now ''protocol.capabilities'' (Some (JObj [jmem ''binaryAggregateVersion'' (jint 1)])) False False None u
                   else (Inr 0, u)) of
               (Inl err, u) \<Rightarrow> Inl err
             | (Inr _, u) \<Rightarrow> (case sendRaw env now ''interest.update'' (interest_payload_json a) False False None u of
                 (Inl err, u) \<Rightarrow> Inl err
               | (Inr _, u) \<Rightarrow> Inr u)))))"

end
