(* ===== verification/Loadtest_Run.thy ===== *)
theory Loadtest_Run
  imports Loadtest_Client
begin

text \<open>
  A whole run of the load generator (\<open>run\<close> in \<open>cmd/loadtest/main.go\<close>) and its report: opening the
  users, any interleaving of their ticks and of the frames that arrive, closing them, and the numbers
  computed from what was recorded. The two answers of the metrics endpoint, the schedule and the
  clock are parameters. Times and durations in the report are kept as numbers; the rendering of the
  report and its writing to files follow in \<open>Loadtest_Report\<close>.
\<close>

section \<open>An order on floats\<close>

text \<open>The order of \<open>sort.Float64s\<close>: NaN first, then the numbers from minus to plus infinity.\<close>

instantiation float64 :: linorder
begin

definition less_eq_float64 :: "float64 \<Rightarrow> float64 \<Rightarrow> bool" where
  "less_eq_float64 a b \<longleftrightarrow> f_is_nan a \<or> f_le a b"

definition less_float64 :: "float64 \<Rightarrow> float64 \<Rightarrow> bool" where
  "less_float64 a b \<longleftrightarrow> f_is_nan a \<and> \<not> f_is_nan b \<or> f_lt a b"

instance
proof
  fix x y z :: float64
  show "x < y \<longleftrightarrow> x \<le> y \<and> \<not> y \<le> x"
    by (cases x; cases y) (auto simp: less_eq_float64_def less_float64_def)
  show "x \<le> x" by (cases x) (auto simp: less_eq_float64_def)
  show "x \<le> y \<Longrightarrow> y \<le> z \<Longrightarrow> x \<le> z"
    by (cases x; cases y; cases z) (auto simp: less_eq_float64_def)
  show "x \<le> y \<Longrightarrow> y \<le> x \<Longrightarrow> x = y"
    by (cases x; cases y) (auto simp: less_eq_float64_def)
  show "x \<le> y \<or> y \<le> x"
    by (cases x; cases y) (auto simp: less_eq_float64_def)
qed

end

section \<open>The metrics endpoint\<close>

definition metrics_member :: "string \<Rightarrow> nat \<Rightarrow> metrics_snapshot decoder" where
  "metrics_member k n v p =
    (if EqualFold k ''activeSessions'' then (let (x, e) = dec_int64 v (ms_ActiveSessions p) in (p\<lparr>ms_ActiveSessions := x\<rparr>, e))
     else if EqualFold k ''activeConnections'' then (let (x, e) = dec_int64 v (ms_ActiveConnections p) in (p\<lparr>ms_ActiveConnections := x\<rparr>, e))
     else if EqualFold k ''activeRooms'' then (let (x, e) = dec_int64 v (ms_ActiveRooms p) in (p\<lparr>ms_ActiveRooms := x\<rparr>, e))
     else if EqualFold k ''messagesInTotal'' then (let (x, e) = dec_int64 v (ms_MessagesIn p) in (p\<lparr>ms_MessagesIn := x\<rparr>, e))
     else if EqualFold k ''messagesOutTotal'' then (let (x, e) = dec_int64 v (ms_MessagesOut p) in (p\<lparr>ms_MessagesOut := x\<rparr>, e))
     else if EqualFold k ''incomingBytesTotal'' then (let (x, e) = dec_int64 v (ms_IncomingBytes p) in (p\<lparr>ms_IncomingBytes := x\<rparr>, e))
     else if EqualFold k ''outgoingBytesTotal'' then (let (x, e) = dec_int64 v (ms_OutgoingBytes p) in (p\<lparr>ms_OutgoingBytes := x\<rparr>, e))
     else if EqualFold k ''droppedEphemeralTotal'' then (let (x, e) = dec_int64 v (ms_DroppedEphemeral p) in (p\<lparr>ms_DroppedEphemeral := x\<rparr>, e))
     else if EqualFold k ''reliableOverflowTotal'' then (let (x, e) = dec_int64 v (ms_ReliableOverflow p) in (p\<lparr>ms_ReliableOverflow := x\<rparr>, e))
     else if EqualFold k ''reliableQueueDepthMax'' then (let (x, e) = dec_int64 v (ms_ReliableQueueDepthMax p) in (p\<lparr>ms_ReliableQueueDepthMax := x\<rparr>, e))
     else if EqualFold k ''ephemeralQueueDepthMax'' then (let (x, e) = dec_int64 v (ms_EphemeralQueueDepthMax p) in (p\<lparr>ms_EphemeralQueueDepthMax := x\<rparr>, e))
     else if EqualFold k ''interestRecipientsPerEvent'' then (let (x, e) = dec_float v (ms_InterestRecipientsPerEvent p) in (p\<lparr>ms_InterestRecipientsPerEvent := x\<rparr>, e))
     else if EqualFold k ''interestFilteredRecipientsTotal'' then (let (x, e) = dec_int64 v (ms_InterestFiltered p) in (p\<lparr>ms_InterestFiltered := x\<rparr>, e))
     else (p, False))"

definition dec_metrics_snapshot :: "metrics_snapshot decoder" where
  "dec_metrics_snapshot = dec_struct metrics_member"

text \<open>The snapshot and the text of an error; \<open>decodeError\<close> is the text of the JSON decoder's error.\<close>

definition fetchMetrics :: "string \<Rightarrow> http_reply \<Rightarrow> metrics_snapshot \<times> string" where
  "fetchMetrics decodeError resp = (case resp of
     NoReply err \<Rightarrow> (metrics_snapshot_zero, err)
   | HttpReply code status _ doc \<Rightarrow>
       if code \<noteq> 200 then (metrics_snapshot_zero, status)
       else let (snapshot, err) = unmarshal dec_metrics_snapshot metrics_snapshot_zero doc in
         (snapshot, if err then decodeError else []))"

section \<open>The report\<close>

definition percentile :: "float64 list \<Rightarrow> float64 \<Rightarrow> float64 option" where
  "percentile values fraction =
     (if values = [] then Some (Fin 0)
      else let i = f_to_int (f_add (f_mul (f_of_int (int (length values) - 1)) fraction) (Fin (1 / 2))) in
        if 0 \<le> i \<and> i < int (length values) then Some (values ! nat i) else None)"

definition max64 :: "int \<Rightarrow> int \<Rightarrow> int" where
  "max64 a b = (if a > b then a else b)"

record run_report =
  rr_BaseURL :: string
  rr_Transport :: string
  rr_Encoding :: string
  rr_Scenario :: string
  rr_Connections :: int
  rr_Duration :: duration
  rr_PreviewRate :: float64
  rr_PreviewOffRatio :: float64
  rr_ActiveRatio :: float64
  rr_ActiveDrawers :: int
  rr_Canvases :: int
  rr_Pages :: int

record observed_report =
  or_ConnectionsAttempted :: int
  or_ConnectionsOpened :: int
  or_ConnectionFailures :: int
  or_ConnectionsClosed :: int
  or_Reconnects :: int
  or_LocalSendMessages :: int
  or_LocalReceiveMessages :: int
  or_LocalSendBytes :: int
  or_LocalReceiveBytes :: int
  or_PreviewSent :: int
  or_PreviewReceived :: int
  or_CommitsSent :: int
  or_CommitsReceived :: int
  or_ExpectedCommitDeliveries :: int
  or_UnexpectedMessages :: int
  or_P50PreviewLatencyMs :: float64
  or_P95PreviewLatencyMs :: float64
  or_P99PreviewLatencyMs :: float64
  or_MessagesPerSecond :: float64
  or_IncomingBytesPerSecond :: float64
  or_OutgoingBytesPerSecond :: float64
  or_BytesPerUser :: float64
  or_FinalCommitDeliveryRate :: float64

record server_report =
  sp_MetricsBefore :: metrics_snapshot
  sp_MetricsAfter :: metrics_snapshot
  sp_MessagesPerSecond :: float64
  sp_IncomingBytesPerSecond :: float64
  sp_OutgoingBytesPerSecond :: float64
  sp_RecipientsPerEvent :: float64
  sp_DroppedEphemeral :: int
  sp_ReliableOverflow :: int
  sp_InterestFiltered :: int
  sp_QueueDepthMax :: int
  sp_MetricsError :: string

record report =
  rp_GeneratedAt :: time
  rp_Run :: run_report
  rp_Observed :: observed_report
  rp_Server :: server_report

definition report_seconds :: "time \<Rightarrow> time \<Rightarrow> float64" where
  "report_seconds start finish = (let seconds = dur_seconds (time_sub finish start) in
     if f_le seconds (Fin 0) then Fin 1 else seconds)"

definition observed_of :: "counters \<Rightarrow> float64 \<Rightarrow> float64 \<Rightarrow> float64 \<Rightarrow> float64 \<Rightarrow> observed_report" where
  "observed_of c seconds p50 p95 p99 =
     \<lparr>or_ConnectionsAttempted = ct_attempted c, or_ConnectionsOpened = ct_opened c, or_ConnectionFailures = ct_failures c,
      or_ConnectionsClosed = ct_closed c, or_Reconnects = ct_reconnects c, or_LocalSendMessages = ct_sendMessages c,
      or_LocalReceiveMessages = ct_receiveMessages c, or_LocalSendBytes = ct_sendBytes c, or_LocalReceiveBytes = ct_receiveBytes c,
      or_PreviewSent = ct_previewSent c, or_PreviewReceived = ct_previewReceived c, or_CommitsSent = ct_commitSent c,
      or_CommitsReceived = ct_commitReceived c, or_ExpectedCommitDeliveries = ct_expectedCommitDeliveries c,
      or_UnexpectedMessages = ct_unexpectedMessages c, or_P50PreviewLatencyMs = p50, or_P95PreviewLatencyMs = p95,
      or_P99PreviewLatencyMs = p99,
      or_MessagesPerSecond = f_div (f_of_int (ct_sendMessages c + ct_receiveMessages c)) seconds,
      or_IncomingBytesPerSecond = f_div (f_of_int (ct_receiveBytes c)) seconds,
      or_OutgoingBytesPerSecond = f_div (f_of_int (ct_sendBytes c)) seconds,
      or_BytesPerUser = f_div (f_div (f_of_int (ct_sendBytes c + ct_receiveBytes c)) (f_of_int (max64 1 (ct_opened c)))) seconds,
      or_FinalCommitDeliveryRate = (if ct_expectedCommitDeliveries c > 0
        then f_div (f_of_int (ct_commitReceived c)) (f_of_int (ct_expectedCommitDeliveries c)) else Fin 0)\<rparr>"

definition server_of :: "metrics_snapshot \<Rightarrow> metrics_snapshot \<Rightarrow> string \<Rightarrow> float64 \<Rightarrow> server_report" where
  "server_of before after err seconds = (let
     deltaIn = ms_MessagesIn after - ms_MessagesIn before; deltaOut = ms_MessagesOut after - ms_MessagesOut before in
     \<lparr>sp_MetricsBefore = before, sp_MetricsAfter = after,
      sp_MessagesPerSecond = f_div (f_of_int (deltaIn + deltaOut)) seconds,
      sp_IncomingBytesPerSecond = f_div (f_of_int (ms_IncomingBytes after - ms_IncomingBytes before)) seconds,
      sp_OutgoingBytesPerSecond = f_div (f_of_int (ms_OutgoingBytes after - ms_OutgoingBytes before)) seconds,
      sp_RecipientsPerEvent = ms_InterestRecipientsPerEvent after,
      sp_DroppedEphemeral = ms_DroppedEphemeral after - ms_DroppedEphemeral before,
      sp_ReliableOverflow = ms_ReliableOverflow after - ms_ReliableOverflow before,
      sp_InterestFiltered = ms_InterestFiltered after - ms_InterestFiltered before,
      sp_QueueDepthMax = max64 (ms_ReliableQueueDepthMax after) (ms_EphemeralQueueDepthMax after), sp_MetricsError = err\<rparr>)"

definition run_report_of :: "options \<Rightarrow> run_report" where
  "run_report_of p = \<lparr>rr_BaseURL = lo_baseURL p, rr_Transport = lo_transport p, rr_Encoding = lo_encoding p,
     rr_Scenario = lo_scenario p, rr_Connections = lo_connections p, rr_Duration = lo_duration p, rr_PreviewRate = lo_previewRate p,
     rr_PreviewOffRatio = lo_previewOffRatio p, rr_ActiveRatio = lo_activeRatio p, rr_ActiveDrawers = lo_activeDrawers p,
     rr_Canvases = lo_canvases p, rr_Pages = lo_pages p\<rparr>"

text \<open>\<open>None\<close> would be a percentile out of range, which panics.\<close>

definition makeReport :: "run_state \<Rightarrow> time \<Rightarrow> time \<Rightarrow> report option" where
  "makeReport s start finish = (let seconds = report_seconds start finish; samples = sort (rn_latencies s) in
     do {
       p50 \<leftarrow> percentile samples (round64 (50 / 100));
       p95 \<leftarrow> percentile samples (round64 (95 / 100));
       p99 \<leftarrow> percentile samples (round64 (99 / 100));
       Some \<lparr>rp_GeneratedAt = finish, rp_Run = run_report_of (rn_opts s),
         rp_Observed = observed_of (rn_counters s) seconds p50 p95 p99,
         rp_Server = server_of (rn_serverBefore s) (rn_serverAfter s) (rn_serverError s) seconds\<rparr>
     })"

section \<open>The run\<close>

datatype key_file = Unreadable | NotPEM | NotPKCS8 | OtherKey | ECKey string

definition loadPrivateKey :: "key_file \<Rightarrow> load_error option" where
  "loadPrivateKey file = (case file of
     Unreadable \<Rightarrow> Some LibraryError
   | NotPEM \<Rightarrow> Some (LoadError ''private key is not PEM encoded'')
   | NotPKCS8 \<Rightarrow> Some LibraryError
   | OtherKey \<Rightarrow> Some (LoadError ''private key must be ES256 P-256'')
   | ECKey curve \<Rightarrow> if curve = ''P-256'' then None else Some (LoadError ''private key must be ES256 P-256''))"

definition new_run_state :: "options \<Rightarrow> assignment list \<Rightarrow> run_state" where
  "new_run_state p assignments = \<lparr>rn_counters = counters_zero, rn_opts = p, rn_assignments = assignments, rn_sentAt = [],
     rn_latencies = [], rn_serverBefore = metrics_snapshot_zero, rn_serverAfter = metrics_snapshot_zero, rn_serverError = []\<rparr>"

definition connect_user :: "load_env \<Rightarrow> assignment \<times> time \<Rightarrow> virtual_user list \<times> run_state \<Rightarrow> virtual_user list \<times> run_state" where
  "connect_user env = (\<lambda>(a, now) (users, s). let
     s = bump (\<lambda>c. c\<lparr>ct_attempted := ct_attempted c + 1\<rparr>) s
   in case openVirtualUser env (rn_opts s) a now of
     Inl _ \<Rightarrow> (users, bump (\<lambda>c. c\<lparr>ct_failures := ct_failures c + 1\<rparr>) s)
   | Inr u \<Rightarrow> (users @ [u], bump (\<lambda>c. c\<lparr>ct_opened := ct_opened c + 1\<rparr>) s))"

text \<open>
  A reader is started with its user, so the users that are open read frames while the others still
  connect: an opening comes with its instant and with the frames read after it and before the next.
\<close>

definition ramp_frame :: "load_env \<Rightarrow> nat \<times> time \<times> inbound_frame \<Rightarrow> virtual_user list \<times> run_state \<Rightarrow> virtual_user list \<times> run_state" where
  "ramp_frame env = (\<lambda>(i, now, frame) (users, s).
     if i < length users then (users, read_frame env now (as_userID (vu_assignment (users ! i))) frame s) else (users, s))"

type_synonym user_opening = "time \<times> (nat \<times> time \<times> inbound_frame) list"

definition join_user :: "load_env \<Rightarrow> assignment \<times> user_opening \<Rightarrow> virtual_user list \<times> run_state \<Rightarrow> virtual_user list \<times> run_state" where
  "join_user env = (\<lambda>(a, now, frames) st. fold (ramp_frame env) frames (connect_user env (a, now) st))"

text \<open>What happens while the run is on: a user's ticker or stop signal, or a frame it reads.\<close>

datatype load_event = UserTick nat user_tick | UserFrame nat time inbound_frame

fun load_event_step :: "load_env \<Rightarrow> time \<Rightarrow> load_event \<Rightarrow> user_loop list \<times> run_state \<Rightarrow> user_loop list \<times> run_state" where
  "load_event_step env start (UserTick i tick) (ls, s) =
     (if i < length ls then (let (l, s) = user_run env start tick (ls ! i, s) in (ls[i := l], s)) else (ls, s))"
| "load_event_step env start (UserFrame i now frame) (ls, s) =
     (if i < length ls then (ls, read_frame env now (as_userID (vu_assignment (ul_user (ls ! i)))) frame s) else (ls, s))"

record load_schedule =
  lw_key :: key_file
  lw_before :: http_reply
  lw_after :: http_reply
  lw_decodeError :: string
  lw_openings :: "nat \<Rightarrow> user_opening"
  lw_start :: time
  lw_events :: "load_event list"
  lw_finish :: time

definition run_loadtest :: "load_env \<Rightarrow> options \<Rightarrow> load_schedule \<Rightarrow> (load_error, report) outcome" where
  "run_loadtest env p w = (case validateOptions p of
     Some err \<Rightarrow> Inl (LoadError err)
   | None \<Rightarrow> (case loadPrivateKey (lw_key w) of
       Some err \<Rightarrow> Inl err
     | None \<Rightarrow> (case makeAssignments p of
         None \<Rightarrow> Inl (LoadError ''panic'')
       | Some assignments \<Rightarrow> (let
           s = new_run_state p assignments;
           (before, err) = fetchMetrics (lw_decodeError w) (lw_before w);
           s = s\<lparr>rn_serverBefore := before, rn_serverError := err\<rparr>;
           (opened, s) = fold (join_user env) (zip assignments (map (lw_openings w) [0..<length assignments])) ([], s);
           s = s\<lparr>rn_assignments := map vu_assignment opened\<rparr>
         in if opened = [] then Inl (LoadError ''no virtual users connected; check key, server address, and bootstrap limits'')
            else let
              loops = map (\<lambda>u. \<lparr>ul_user = u, ul_index = 0, ul_running = as_active (vu_assignment u)\<rparr>) opened;
              (loops, s) = fold (load_event_step env (lw_start w)) (lw_events w) (loops, s);
              s = fold (\<lambda>_. bump (\<lambda>c. c\<lparr>ct_closed := ct_closed c + 1\<rparr>)) loops s;
              (after, err) = fetchMetrics (lw_decodeError w) (lw_after w);
              s = s\<lparr>rn_serverAfter := after, rn_serverError := err\<rparr>
            in case makeReport s (lw_start w) (lw_finish w) of
              None \<Rightarrow> Inl (LoadError ''panic'')
            | Some r \<Rightarrow> Inr r))))"

text \<open>
  The deadline of the context every connection and reader runs under, and the earliest end of the
  drain that the pauses of the run itself allow, both from the moment the context is made.
\<close>

definition context_deadline :: "options \<Rightarrow> time \<Rightarrow> time" where
  "context_deadline p created = created + (lo_duration p + lo_drainGrace p + 2 * Minute)"

definition earliest_drain_end :: "options \<Rightarrow> time \<Rightarrow> time" where
  "earliest_drain_end p created = created + lo_connections p * max 0 (lo_connectRamp p) + max 0 (lo_interestSettle p) +
     lo_duration p + lo_drainGrace p"

end
