(* ===== verification/Metrics_Endpoint.thy ===== *)
theory Metrics_Endpoint
  imports Loadtest_Run "HOL-Library.Char_ord" "HOL-Library.List_Lexorder"
begin

text \<open>
  The JSON the metrics endpoint serves (\<open>Handler\<close> of \<open>internal/observability/metrics.go\<close>) and the load
  generator's reading of it (\<open>fetchMetrics\<close>).
\<close>

section \<open>The document\<close>

text \<open>The encoder writes the members of a struct in their order and those of a map sorted by key.\<close>

definition snapshot_json :: "snapshot \<Rightarrow> json option" where
  "snapshot_json p = do {
     perEvent \<leftarrow> jfloat (sn_InterestRecipientsPerEvent p);
     Some (JObj
       [jmem ''activeSessions'' (jint (sn_ActiveSessions p)), jmem ''activeConnections'' (jint (sn_ActiveConnections p)),
        jmem ''activeRooms'' (jint (sn_ActiveRooms p)), jmem ''messagesInTotal'' (jint (sn_MessagesIn p)),
        jmem ''messagesOutTotal'' (jint (sn_MessagesOut p)), jmem ''incomingBytesTotal'' (jint (sn_IncomingBytes p)),
        jmem ''outgoingBytesTotal'' (jint (sn_OutgoingBytes p)), jmem ''droppedEphemeralTotal'' (jint (sn_DroppedEphemeral p)),
        jmem ''droppedInkTotal'' (jint (sn_DroppedInk p)), jmem ''reliableOverflowTotal'' (jint (sn_ReliableOverflow p)),
        jmem ''reliableQueueDepthMax'' (jint (sn_ReliableQueueDepthMax p)),
        jmem ''ephemeralQueueDepthMax'' (jint (sn_EphemeralQueueDepthMax p)),
        jmem ''rateLimitedTotal'' (jint (sn_RateLimited p)), jmem ''permissionDeniedTotal'' (jint (sn_PermissionDenied p)),
        jmem ''sessionAuthFailuresTotal'' (jint (sn_SessionAuthFailures p)),
        jmem ''hmacAuthFailuresTotal'' (jint (sn_HMACAuthFailures p)),
        jmem ''bootstrapThrottledTotal'' (jint (sn_BootstrapThrottled p)),
        jmem ''connectionTicketsIssuedTotal'' (jint (sn_TicketsIssued p)),
        jmem ''connectionTicketsConsumedTotal'' (jint (sn_TicketsConsumed p)),
        jmem ''connectionTicketsExpiredTotal'' (jint (sn_TicketsExpired p)),
        jmem ''webrtcSignalingRelayedTotal'' (jint (sn_SignalingRelayed p)),
        jmem ''webrtcSignalingRefusedTotal'' (jint (sn_SignalingRefused p)),
        jmem ''authRefreshAcceptedTotal'' (jint (sn_AuthRefreshAccepted p)),
        jmem ''authRefreshRejectedTotal'' (jint (sn_AuthRefreshRejected p)),
        jmem ''activeBlockLocks'' (jint (sn_BlockLocksActive p)), jmem ''blockLockDeniedTotal'' (jint (sn_BlockLockDenied p)),
        jmem ''interestUpdatesTotal'' (jint (sn_InterestUpdatesTotal p)),
        jmem ''interestEventsTotal'' (jint (sn_InterestEventsTotal p)),
        jmem ''interestRecipientsTotal'' (jint (sn_InterestRecipientsTotal p)),
        jmem ''interestFilteredRecipientsTotal'' (jint (sn_InterestFilteredTotal p)),
        jmem ''interestRecipientsPerEvent'' perEvent,
        jmem ''connectionsClosedByReason'' (JObj (map (\<lambda>(reason, n). jmem reason (jint n))
          (sort_key fst (sn_ConnectionsClosedByReason p))))])
   }"

text \<open>An encoding error leaves the body empty; the status is 200 either way.\<close>

definition metrics_Handler :: "metrics \<Rightarrow> nat \<times> raw" where
  "metrics_Handler m = (200, case snapshot_json (Snapshot m) of Some doc \<Rightarrow> marshal doc | None \<Rightarrow> raw_nil)"

section \<open>Reading it back\<close>

definition loaded :: "metrics \<Rightarrow> metrics_snapshot" where
  "loaded m = \<lparr>ms_ActiveSessions = mt_ActiveSessions m, ms_ActiveConnections = mt_ActiveConnections m,
     ms_ActiveRooms = mt_ActiveRooms m, ms_MessagesIn = mt_MessagesIn m, ms_MessagesOut = mt_MessagesOut m,
     ms_IncomingBytes = mt_IncomingBytes m, ms_OutgoingBytes = mt_OutgoingBytes m,
     ms_DroppedEphemeral = mt_DroppedEphemeral m, ms_ReliableOverflow = mt_ReliableOverflow m,
     ms_ReliableQueueDepthMax = mt_ReliableQueueDepthMax m, ms_EphemeralQueueDepthMax = mt_EphemeralQueueDepthMax m,
     ms_InterestRecipientsPerEvent = sn_InterestRecipientsPerEvent (Snapshot m), ms_InterestFiltered = mt_InterestFilteredTotal m\<rparr>"

abbreviation int64_ok :: "int \<Rightarrow> bool" where
  "int64_ok n \<equiv> min_int64 \<le> n \<and> n \<le> max_int64"

lemma dec_int64_jint: "int64_ok n \<Longrightarrow> dec_int64 (jint n) old = (n, False)"
  by (simp add: dec_int_range_def jint_def)

lemma two63_representable: "representable ((2 :: rat) ^ 63)" "representable (- ((2 :: rat) ^ 63))"
proof -
  have "(2 :: rat) ^ 63 = of_int 1 * 2 powi 63" by (simp add: power_int_def)
  then show "representable ((2 :: rat) ^ 63)" unfolding representable_def by (intro exI [of _ 1] exI [of _ 63]) simp
  then show "representable (- ((2 :: rat) ^ 63))" by simp
qed

lemma round64_63: "\<bar>x\<bar> \<le> 2 ^ 63 \<Longrightarrow> round64 x = Fin (rnd x) \<and> \<bar>rnd x\<bar> \<le> 2 ^ 63"
proof -
  assume "\<bar>x\<bar> \<le> 2 ^ 63"
  then have "rnd x \<le> 2 ^ 63" "- (2 ^ 63) \<le> rnd x"
    using rnd_le_representable [OF _ two63_representable(1), of x] rnd_ge_representable [OF _ two63_representable(2), of x]
    by (simp_all add: abs_le_iff)
  then show ?thesis by (simp add: round64_def Let_def f_bound_def abs_le_iff)
qed

lemma f_of_int_63: "int64_ok n \<Longrightarrow> f_of_int n = Fin (rnd (of_int n)) \<and> \<bar>rnd (of_int n)\<bar> \<le> 2 ^ 63"
proof -
  assume "int64_ok n"
  then have "\<bar>n\<bar> \<le> 2 ^ 63" by (auto simp: abs_le_iff)
  then have "(of_int \<bar>n\<bar> :: rat) \<le> of_int (2 ^ 63)" by (simp only: of_int_le_iff)
  then show ?thesis using round64_63 [of "of_int n"] by (simp add: f_of_int_def)
qed

lemma per_event_finite:
  assumes "int64_ok (mt_InterestRecipientsTotal m)" "mt_InterestEventsTotal m \<le> max_int64"
  shows "\<exists>x. sn_InterestRecipientsPerEvent (Snapshot m) = Fin x \<and> round64 x = Fin x"
proof (cases "mt_InterestEventsTotal m > 0")
  case True
  let ?a = "rnd (of_int (mt_InterestRecipientsTotal m))" and ?b = "rnd (of_int (mt_InterestEventsTotal m))"
  have a: "f_of_int (mt_InterestRecipientsTotal m) = Fin ?a" "\<bar>?a\<bar> \<le> 2 ^ 63" using f_of_int_63 [OF assms(1)] by auto
  have b: "f_of_int (mt_InterestEventsTotal m) = Fin ?b" using f_of_int_63 [of "mt_InterestEventsTotal m"] True assms(2) by auto
  have b1: "1 \<le> ?b"
    using True rnd_ge_representable [of 1 "of_int (mt_InterestEventsTotal m)"] representable_int [of 1] by simp
  have "\<bar>?a / ?b\<bar> \<le> \<bar>?a\<bar>" using b1 mult_left_mono [of 1 ?b "\<bar>?a\<bar>"] by (simp add: pos_divide_le_eq)
  with a(2) have q: "round64 (?a / ?b) = Fin (rnd (?a / ?b))" "\<bar>rnd (?a / ?b)\<bar> \<le> 2 ^ 63" using round64_63 [of "?a / ?b"] by auto
  moreover have "round64 (rnd (?a / ?b)) = Fin (rnd (?a / ?b))"
    using q(2) by (intro round64_representable) (simp_all add: f_bound_def)
  ultimately show ?thesis using True a(1) b b1 by (simp add: Snapshot_def)
qed (simp add: Snapshot_def)

lemma upper_letters:
  "upper_char CHR ''a'' = CHR ''A''" "upper_char CHR ''b'' = CHR ''B''" "upper_char CHR ''c'' = CHR ''C''" "upper_char CHR ''d'' = CHR ''D''"
  "upper_char CHR ''e'' = CHR ''E''" "upper_char CHR ''f'' = CHR ''F''" "upper_char CHR ''g'' = CHR ''G''" "upper_char CHR ''h'' = CHR ''H''"
  "upper_char CHR ''i'' = CHR ''I''" "upper_char CHR ''j'' = CHR ''J''" "upper_char CHR ''k'' = CHR ''K''" "upper_char CHR ''l'' = CHR ''L''"
  "upper_char CHR ''m'' = CHR ''M''" "upper_char CHR ''n'' = CHR ''N''" "upper_char CHR ''o'' = CHR ''O''" "upper_char CHR ''p'' = CHR ''P''"
  "upper_char CHR ''q'' = CHR ''Q''" "upper_char CHR ''r'' = CHR ''R''" "upper_char CHR ''s'' = CHR ''S''" "upper_char CHR ''t'' = CHR ''T''"
  "upper_char CHR ''u'' = CHR ''U''" "upper_char CHR ''v'' = CHR ''V''" "upper_char CHR ''w'' = CHR ''W''" "upper_char CHR ''x'' = CHR ''X''"
  "upper_char CHR ''y'' = CHR ''Y''" "upper_char CHR ''z'' = CHR ''Z''" "upper_char CHR ''A'' = CHR ''A''" "upper_char CHR ''B'' = CHR ''B''"
  "upper_char CHR ''C'' = CHR ''C''" "upper_char CHR ''D'' = CHR ''D''" "upper_char CHR ''E'' = CHR ''E''" "upper_char CHR ''F'' = CHR ''F''"
  "upper_char CHR ''G'' = CHR ''G''" "upper_char CHR ''H'' = CHR ''H''" "upper_char CHR ''I'' = CHR ''I''" "upper_char CHR ''J'' = CHR ''J''"
  "upper_char CHR ''K'' = CHR ''K''" "upper_char CHR ''L'' = CHR ''L''" "upper_char CHR ''M'' = CHR ''M''" "upper_char CHR ''N'' = CHR ''N''"
  "upper_char CHR ''O'' = CHR ''O''" "upper_char CHR ''P'' = CHR ''P''" "upper_char CHR ''Q'' = CHR ''Q''" "upper_char CHR ''R'' = CHR ''R''"
  "upper_char CHR ''S'' = CHR ''S''" "upper_char CHR ''T'' = CHR ''T''" "upper_char CHR ''U'' = CHR ''U''" "upper_char CHR ''V'' = CHR ''V''"
  "upper_char CHR ''W'' = CHR ''W''" "upper_char CHR ''X'' = CHR ''X''" "upper_char CHR ''Y'' = CHR ''Y''" "upper_char CHR ''Z'' = CHR ''Z''"
  by (simp_all add: upper_char_def char_of_def bit_0)

text \<open>The folded names, computed once.\<close>

lemma folded_names:
  "fold_key ''activeSessions'' = ''ACTIVESESSIONS''"
  "fold_key ''activeConnections'' = ''ACTIVECONNECTIONS''"
  "fold_key ''activeRooms'' = ''ACTIVEROOMS''"
  "fold_key ''messagesInTotal'' = ''MESSAGESINTOTAL''"
  "fold_key ''messagesOutTotal'' = ''MESSAGESOUTTOTAL''"
  "fold_key ''incomingBytesTotal'' = ''INCOMINGBYTESTOTAL''"
  "fold_key ''outgoingBytesTotal'' = ''OUTGOINGBYTESTOTAL''"
  "fold_key ''droppedEphemeralTotal'' = ''DROPPEDEPHEMERALTOTAL''"
  "fold_key ''droppedInkTotal'' = ''DROPPEDINKTOTAL''"
  "fold_key ''reliableOverflowTotal'' = ''RELIABLEOVERFLOWTOTAL''"
  "fold_key ''reliableQueueDepthMax'' = ''RELIABLEQUEUEDEPTHMAX''"
  "fold_key ''ephemeralQueueDepthMax'' = ''EPHEMERALQUEUEDEPTHMAX''"
  "fold_key ''rateLimitedTotal'' = ''RATELIMITEDTOTAL''"
  "fold_key ''permissionDeniedTotal'' = ''PERMISSIONDENIEDTOTAL''"
  "fold_key ''sessionAuthFailuresTotal'' = ''SESSIONAUTHFAILURESTOTAL''"
  "fold_key ''hmacAuthFailuresTotal'' = ''HMACAUTHFAILURESTOTAL''"
  "fold_key ''bootstrapThrottledTotal'' = ''BOOTSTRAPTHROTTLEDTOTAL''"
  "fold_key ''connectionTicketsIssuedTotal'' = ''CONNECTIONTICKETSISSUEDTOTAL''"
  "fold_key ''connectionTicketsConsumedTotal'' = ''CONNECTIONTICKETSCONSUMEDTOTAL''"
  "fold_key ''connectionTicketsExpiredTotal'' = ''CONNECTIONTICKETSEXPIREDTOTAL''"
  "fold_key ''webrtcSignalingRelayedTotal'' = ''WEBRTCSIGNALINGRELAYEDTOTAL''"
  "fold_key ''webrtcSignalingRefusedTotal'' = ''WEBRTCSIGNALINGREFUSEDTOTAL''"
  "fold_key ''authRefreshAcceptedTotal'' = ''AUTHREFRESHACCEPTEDTOTAL''"
  "fold_key ''authRefreshRejectedTotal'' = ''AUTHREFRESHREJECTEDTOTAL''"
  "fold_key ''activeBlockLocks'' = ''ACTIVEBLOCKLOCKS''"
  "fold_key ''blockLockDeniedTotal'' = ''BLOCKLOCKDENIEDTOTAL''"
  "fold_key ''interestUpdatesTotal'' = ''INTERESTUPDATESTOTAL''"
  "fold_key ''interestEventsTotal'' = ''INTERESTEVENTSTOTAL''"
  "fold_key ''interestRecipientsTotal'' = ''INTERESTRECIPIENTSTOTAL''"
  "fold_key ''interestFilteredRecipientsTotal'' = ''INTERESTFILTEREDRECIPIENTSTOTAL''"
  "fold_key ''interestRecipientsPerEvent'' = ''INTERESTRECIPIENTSPEREVENT''"
  "fold_key ''connectionsClosedByReason'' = ''CONNECTIONSCLOSEDBYREASON''"
  by (simp_all add: upper_letters)

lemma metrics_member_known:
  "metrics_member ''activeSessions'' n v p = (let (x, e) = dec_int64 v (ms_ActiveSessions p) in (p\<lparr>ms_ActiveSessions := x\<rparr>, e))"
  "metrics_member ''activeConnections'' n v p = (let (x, e) = dec_int64 v (ms_ActiveConnections p) in (p\<lparr>ms_ActiveConnections := x\<rparr>, e))"
  "metrics_member ''activeRooms'' n v p = (let (x, e) = dec_int64 v (ms_ActiveRooms p) in (p\<lparr>ms_ActiveRooms := x\<rparr>, e))"
  "metrics_member ''messagesInTotal'' n v p = (let (x, e) = dec_int64 v (ms_MessagesIn p) in (p\<lparr>ms_MessagesIn := x\<rparr>, e))"
  "metrics_member ''messagesOutTotal'' n v p = (let (x, e) = dec_int64 v (ms_MessagesOut p) in (p\<lparr>ms_MessagesOut := x\<rparr>, e))"
  "metrics_member ''incomingBytesTotal'' n v p = (let (x, e) = dec_int64 v (ms_IncomingBytes p) in (p\<lparr>ms_IncomingBytes := x\<rparr>, e))"
  "metrics_member ''outgoingBytesTotal'' n v p = (let (x, e) = dec_int64 v (ms_OutgoingBytes p) in (p\<lparr>ms_OutgoingBytes := x\<rparr>, e))"
  "metrics_member ''droppedEphemeralTotal'' n v p = (let (x, e) = dec_int64 v (ms_DroppedEphemeral p) in (p\<lparr>ms_DroppedEphemeral := x\<rparr>, e))"
  "metrics_member ''reliableOverflowTotal'' n v p = (let (x, e) = dec_int64 v (ms_ReliableOverflow p) in (p\<lparr>ms_ReliableOverflow := x\<rparr>, e))"
  "metrics_member ''reliableQueueDepthMax'' n v p = (let (x, e) = dec_int64 v (ms_ReliableQueueDepthMax p) in (p\<lparr>ms_ReliableQueueDepthMax := x\<rparr>, e))"
  "metrics_member ''ephemeralQueueDepthMax'' n v p = (let (x, e) = dec_int64 v (ms_EphemeralQueueDepthMax p) in (p\<lparr>ms_EphemeralQueueDepthMax := x\<rparr>, e))"
  "metrics_member ''interestRecipientsPerEvent'' n v p = (let (x, e) = dec_float v (ms_InterestRecipientsPerEvent p) in (p\<lparr>ms_InterestRecipientsPerEvent := x\<rparr>, e))"
  "metrics_member ''interestFilteredRecipientsTotal'' n v p = (let (x, e) = dec_int64 v (ms_InterestFiltered p) in (p\<lparr>ms_InterestFiltered := x\<rparr>, e))"
  by (simp_all add: metrics_member_def EqualFold_def folded_names del: fold_key.simps)

lemma metrics_member_other:
  "metrics_member ''droppedInkTotal'' n v p = (p, False)"
  "metrics_member ''rateLimitedTotal'' n v p = (p, False)"
  "metrics_member ''permissionDeniedTotal'' n v p = (p, False)"
  "metrics_member ''sessionAuthFailuresTotal'' n v p = (p, False)"
  "metrics_member ''hmacAuthFailuresTotal'' n v p = (p, False)"
  "metrics_member ''bootstrapThrottledTotal'' n v p = (p, False)"
  "metrics_member ''connectionTicketsIssuedTotal'' n v p = (p, False)"
  "metrics_member ''connectionTicketsConsumedTotal'' n v p = (p, False)"
  "metrics_member ''connectionTicketsExpiredTotal'' n v p = (p, False)"
  "metrics_member ''webrtcSignalingRelayedTotal'' n v p = (p, False)"
  "metrics_member ''webrtcSignalingRefusedTotal'' n v p = (p, False)"
  "metrics_member ''authRefreshAcceptedTotal'' n v p = (p, False)"
  "metrics_member ''authRefreshRejectedTotal'' n v p = (p, False)"
  "metrics_member ''activeBlockLocks'' n v p = (p, False)"
  "metrics_member ''blockLockDeniedTotal'' n v p = (p, False)"
  "metrics_member ''interestUpdatesTotal'' n v p = (p, False)"
  "metrics_member ''interestEventsTotal'' n v p = (p, False)"
  "metrics_member ''interestRecipientsTotal'' n v p = (p, False)"
  "metrics_member ''connectionsClosedByReason'' n v p = (p, False)"
  by (simp_all add: metrics_member_def EqualFold_def folded_names del: fold_key.simps)

definition counters_in_range :: "metrics \<Rightarrow> bool" where
  "counters_in_range m \<longleftrightarrow> list_all int64_ok [mt_ActiveSessions m, mt_ActiveConnections m, mt_ActiveRooms m, mt_MessagesIn m,
     mt_MessagesOut m, mt_IncomingBytes m, mt_OutgoingBytes m, mt_DroppedEphemeral m, mt_ReliableOverflow m,
     mt_ReliableQueueDepthMax m, mt_EphemeralQueueDepthMax m, mt_InterestFilteredTotal m, mt_InterestRecipientsTotal m,
     mt_InterestEventsTotal m]"

text \<open>
  The two programs agree on the metrics document: for every value of the server's counters in the
  range of a 64-bit integer, the load generator reads from the endpoint's answer exactly the counters
  its snapshot names, the average recipients per event included, and no error.
\<close>

theorem metrics_read_back:
  assumes "counters_in_range m"
  shows "fetchMetrics decodeError (HttpReply (int (fst (metrics_Handler m))) status body (snd (metrics_Handler m))) = (loaded m, [])"
proof -
  obtain x where x: "sn_InterestRecipientsPerEvent (Snapshot m) = Fin x" "round64 x = Fin x"
    using per_event_finite [of m] assms by (auto simp: counters_in_range_def)
  have r: "dec_int64 (jint n) old = (n, False)" if "n \<in> set [mt_ActiveSessions m, mt_ActiveConnections m, mt_ActiveRooms m,
      mt_MessagesIn m, mt_MessagesOut m, mt_IncomingBytes m, mt_OutgoingBytes m, mt_DroppedEphemeral m, mt_ReliableOverflow m,
      mt_ReliableQueueDepthMax m, mt_EphemeralQueueDepthMax m, mt_InterestFilteredTotal m]" for n old
    using assms that by (intro dec_int64_jint) (auto simp: counters_in_range_def)
  note r = r [simplified]
  have f: "dec_float (JNum k x b) old = (Fin x, False)" for k b old using x(2) by (simp add: dec_float_def)
  have "dec_metrics_snapshot doc metrics_snapshot_zero = (loaded m, False)" if "snapshot_json (Snapshot m) = Some doc" for doc
    using that by (auto simp: snapshot_json_def x(1) jmem_def dec_metrics_snapshot_def dec_struct_def metrics_member_known
        metrics_member_other metrics_snapshot_zero_def loaded_def) (simp_all add: Snapshot_def r f)
  then show ?thesis
    using x(1) by (simp add: metrics_Handler_def fetchMetrics_def unmarshal_def marshal_def snapshot_json_def)
qed

theorem metrics_read_back_witness:
  "fetchMetrics ''bad'' (HttpReply 200 ''200 OK'' [] (snd (metrics_Handler (metrics_New\<lparr>mt_MessagesIn := 7\<rparr>)))) =
     (metrics_snapshot_zero\<lparr>ms_MessagesIn := 7\<rparr>, [])"
  using metrics_read_back [of "metrics_New\<lparr>mt_MessagesIn := 7\<rparr>" "''bad''" "''200 OK''" "[]"]
  by (simp add: counters_in_range_def metrics_New_def loaded_def Snapshot_def metrics_snapshot_zero_def metrics_Handler_def)

end
