(* ===== verification/Observe_Max.thy ===== *)
theory Observe_Max
  imports Metrics
begin

text \<open>
  The high-water marks under concurrency (\<open>observeMax\<close> of \<open>internal/observability/metrics.go\<close>): any number
  of connections raise one atomic at the same time with a load and a compare-and-swap, without a
  lock. Here the callers' steps interleave freely; elsewhere in the development the operation is taken
  as one step, which this theory justifies.
\<close>

section \<open>The loop, one atomic access at a time\<close>

datatype cas_phase = Loading | Loaded int | Returned

record cas_state =
  cas_target :: int
  cas_callers :: "(int \<times> cas_phase) list"

definition observeMax_step :: "nat \<Rightarrow> cas_state \<Rightarrow> cas_state" where
  "observeMax_step i s = (case cas_callers s ! i of (v, phase) \<Rightarrow> (case phase of
     Loading \<Rightarrow> s\<lparr>cas_callers := (cas_callers s)[i := (v, Loaded (cas_target s))]\<rparr>
   | Loaded current \<Rightarrow>
       if v \<le> current then s\<lparr>cas_callers := (cas_callers s)[i := (v, Returned)]\<rparr>
       else if cas_target s = current
       then s\<lparr>cas_target := v, cas_callers := (cas_callers s)[i := (v, Returned)]\<rparr>
       else s\<lparr>cas_callers := (cas_callers s)[i := (v, Loading)]\<rparr>
   | Returned \<Rightarrow> s))"

definition observeMax_calls :: "int \<Rightarrow> int list \<Rightarrow> cas_state" where
  "observeMax_calls current vs = \<lparr>cas_target = current, cas_callers = map (\<lambda>v. (v, Loading)) vs\<rparr>"

inductive cas_step :: "cas_state \<Rightarrow> cas_state \<Rightarrow> bool" where
  "i < length (cas_callers s) \<Longrightarrow> snd (cas_callers s ! i) \<noteq> Returned \<Longrightarrow> cas_step s (observeMax_step i s)"

inductive_cases cas_stepE: "cas_step s t"

section \<open>Safety\<close>

definition cas_ok :: "int \<Rightarrow> int list \<Rightarrow> cas_state \<Rightarrow> bool" where
  "cas_ok start vs s \<longleftrightarrow> map fst (cas_callers s) = vs \<and> start \<le> cas_target s \<and> cas_target s \<in> insert start (set vs) \<and>
     (\<forall>(v, phase) \<in> set (cas_callers s). case phase of
        Loading \<Rightarrow> True | Loaded current \<Rightarrow> current \<le> cas_target s | Returned \<Rightarrow> v \<le> cas_target s)"

lemma cas_ok_init: "cas_ok start vs (observeMax_calls start vs)"
  by (auto simp: cas_ok_def observeMax_calls_def comp_def)

lemma cas_ok_step:
  assumes ok: "cas_ok start vs s" and step: "cas_step s t"
  shows "cas_ok start vs t"
proof -
  from step obtain i where i: "i < length (cas_callers s)" "t = observeMax_step i s" by (auto elim: cas_stepE)
  obtain v phase where c: "cas_callers s ! i = (v, phase)" by (cases "cas_callers s ! i")
  have mem: "(v, phase) \<in> set (cas_callers s)" using i(1) c by (metis nth_mem)
  have v: "v \<in> set vs" using ok mem by (force simp: cas_ok_def)
  have keys: "map fst ((cas_callers s)[i := (v, q)]) = vs" for q
    using ok i(1) c by (auto simp: cas_ok_def map_update list_update_same_conv)
  have sub: "x \<in> insert y (set (cas_callers s))" if "x \<in> set ((cas_callers s)[i := y])" for x y
    using that set_update_subset_insert [of "cas_callers s" i y] by blast
  show ?thesis
    using ok c mem v keys i(2) unfolding observeMax_step_def cas_ok_def
    by (auto split: cas_phase.splits if_splits dest!: sub)
qed

interpretation cas_machine: machine cas_step "cas_ok start vs"
  by unfold_locales (rule cas_ok_step)

lemma fold_observeMax: "fold observeMax vs start = Max (insert start (set vs))"
proof (induction vs arbitrary: start)
  case (Cons v vs)
  have "observeMax v start = max start v" by (simp add: observeMax_def max_def)
  then show ?case using Cons [of "max start v"] by (cases "vs = []") (simp_all add: Max_insert max.assoc)
qed simp

lemma cas_final:
  assumes "cas_ok start vs s" "\<forall>c \<in> set (cas_callers s). snd c = Returned"
  shows "cas_target s = fold observeMax vs start"
proof -
  have "v \<le> cas_target s" if "v \<in> set vs" for v
    using assms that by (fastforce simp: cas_ok_def)
  then have "Max (insert start (set vs)) = cas_target s"
    using assms(1) by (intro Max_eqI) (auto simp: cas_ok_def)
  then show ?thesis by (simp add: fold_observeMax)
qed

section \<open>Termination\<close>

text \<open>
  A caller that lost the race has to have been overtaken by one that returned: the measure counts
  the callers that have not returned first, then how far each is from its next attempt.
\<close>

definition cas_weight :: "int \<Rightarrow> int \<times> cas_phase \<Rightarrow> nat" where
  "cas_weight target c = (case snd c of
     Loading \<Rightarrow> 2 | Loaded current \<Rightarrow> if fst c \<le> current \<or> current = target then 1 else 3 | Returned \<Rightarrow> 0)"

definition cas_open :: "cas_state \<Rightarrow> nat" where
  "cas_open s = length (filter (\<lambda>c. snd c \<noteq> Returned) (cas_callers s))"

definition cas_measure :: "cas_state \<Rightarrow> nat" where
  "cas_measure s = cas_open s * (3 * length (cas_callers s) + 1) + sum_list (map (cas_weight (cas_target s)) (cas_callers s))"

lemma weight_bound: "sum_list (map (cas_weight t) cs) \<le> 3 * length cs"
  by (induction cs) (auto simp: cas_weight_def split: cas_phase.splits)

lemma sum_weight_update:
  "i < length cs \<Longrightarrow> sum_list (map f (cs[i := c])) + f (cs ! i) = sum_list (map f cs) + (f c :: nat)"
proof (induction cs arbitrary: i)
  case (Cons a cs)
  then show ?case by (cases i) (simp_all add: add.assoc add.left_commute)
qed simp

lemma open_update:
  "i < length cs \<Longrightarrow> snd (cs ! i) \<noteq> Returned \<Longrightarrow>
     length (filter (\<lambda>c. snd c \<noteq> Returned) (cs[i := c])) + (if snd c = Returned then 1 else 0) =
     length (filter (\<lambda>c. snd c \<noteq> Returned) cs)"
proof (induction cs arbitrary: i)
  case (Cons a cs)
  then show ?case by (cases i) auto
qed simp

text \<open>A step that returns may raise every other weight and still lowers the measure.\<close>

lemma measure_return:
  assumes "i < length (cas_callers s)" "snd (cas_callers s ! i) \<noteq> Returned"
    "cas_callers t = (cas_callers s)[i := (v, Returned)]"
  shows "cas_measure t < cas_measure s"
proof -
  have o: "cas_open s = Suc (cas_open t)"
    using open_update [OF assms(1,2), of "(v, Returned)"] assms(3) by (simp add: cas_open_def)
  have "sum_list (map (cas_weight (cas_target t)) (cas_callers t)) \<le> 3 * length (cas_callers s)"
    using weight_bound [of "cas_target t" "cas_callers t"] assms(3) by simp
  with o assms(3) show ?thesis by (simp add: cas_measure_def)
qed

lemma measure_move:
  assumes "i < length (cas_callers s)" "snd (cas_callers s ! i) \<noteq> Returned"
    "cas_callers t = (cas_callers s)[i := c]" "snd c \<noteq> Returned" "cas_target t = cas_target s"
    "cas_weight (cas_target s) c < cas_weight (cas_target s) (cas_callers s ! i)"
  shows "cas_measure t < cas_measure s"
proof -
  have "cas_open t = cas_open s" using open_update [OF assms(1,2), of c] assms(3,4) by (simp add: cas_open_def)
  moreover have "sum_list (map (cas_weight (cas_target t)) (cas_callers t)) < sum_list (map (cas_weight (cas_target s)) (cas_callers s))"
    using sum_weight_update [OF assms(1), of "cas_weight (cas_target s)" c] assms(3,5,6) by simp
  ultimately show ?thesis using assms(3) by (simp add: cas_measure_def)
qed

lemma cas_step_measure:
  assumes "cas_step s t"
  shows "cas_measure t < cas_measure s"
proof -
  from assms obtain i where i: "i < length (cas_callers s)" "snd (cas_callers s ! i) \<noteq> Returned" "t = observeMax_step i s"
    by (auto elim: cas_stepE)
  obtain v phase where c: "cas_callers s ! i = (v, phase)" by (cases "cas_callers s ! i")
  show ?thesis
  proof (cases phase)
    case Loading
    then show ?thesis
      using c i(3) by (intro measure_move [OF i(1,2), of t "(v, Loaded (cas_target s))"])
        (simp_all add: observeMax_step_def cas_weight_def)
  next
    case (Loaded current)
    consider "v \<le> current \<or> cas_target s = current" | "\<not> v \<le> current" "cas_target s \<noteq> current" by blast
    then show ?thesis
    proof cases
      case 1
      then show ?thesis using c Loaded i(3) by (intro measure_return [OF i(1,2), of t v]) (auto simp: observeMax_step_def)
    next
      case 2
      then show ?thesis using c Loaded i(3)
        by (intro measure_move [OF i(1,2), of t "(v, Loading)"]) (auto simp: observeMax_step_def cas_weight_def)
    qed
  qed (use i(2) c in simp)
qed

lemma cas_run_bound: "(cas_step ^^ k) s t \<Longrightarrow> k + cas_measure t \<le> cas_measure s"
proof (induction k arbitrary: t)
  case (Suc k)
  then obtain u where "(cas_step ^^ k) s u" "cas_step u t" by auto
  with Suc.IH [of u] cas_step_measure [of u t] show ?case by simp
qed simp

lemma relpow_reaches: "(cas_step ^^ k) s t \<Longrightarrow> reaches cas_step s t"
  by (induction k arbitrary: t) (auto intro: reaches.intros)

section \<open>Properties\<close>

text \<open>
  C36. The lock-free high-water mark ends and is right under every schedule. However the loads and
  swaps of \<open>n\<close> callers interleave, no run takes more than \<open>3 n\<^sup>2 + 3 n\<close> steps; a run can stop only
  when every caller has returned, and then the mark is what the calls would have made of it one after the
  other, the maximum of its start and all the observed values.
\<close>

theorem observeMax_terminates:
  assumes "(cas_step ^^ k) (observeMax_calls start vs) s"
  shows "k \<le> 3 * length vs * length vs + 3 * length vs \<and>
    ((\<nexists>t. cas_step s t) \<longrightarrow> (\<forall>c \<in> set (cas_callers s). snd c = Returned) \<and> cas_target s = fold observeMax vs start \<and>
       cas_target s = Max (insert start (set vs)))"
proof
  have "cas_measure (observeMax_calls start vs) = length vs * (3 * length vs + 1) + 2 * length vs"
    by (simp add: cas_measure_def cas_open_def observeMax_calls_def cas_weight_def comp_def sum_list_triv)
  with cas_run_bound [OF assms] show "k \<le> 3 * length vs * length vs + 3 * length vs" by (simp add: algebra_simps)
  show "(\<nexists>t. cas_step s t) \<longrightarrow> (\<forall>c \<in> set (cas_callers s). snd c = Returned) \<and> cas_target s = fold observeMax vs start \<and>
       cas_target s = Max (insert start (set vs))"
  proof
    assume stuck: "\<nexists>t. cas_step s t"
    then have all: "\<forall>c \<in> set (cas_callers s). snd c = Returned"
      using cas_step.intros [of _ s] by (metis in_set_conv_nth)
    have "cas_ok start vs s" by (rule cas_machine.reaches_inv [OF relpow_reaches [OF assms] cas_ok_init])
    from cas_final [OF this all] all show "(\<forall>c \<in> set (cas_callers s). snd c = Returned) \<and>
       cas_target s = fold observeMax vs start \<and> cas_target s = Max (insert start (set vs))"
      by (simp add: fold_observeMax)
  qed
qed

text \<open>Executing a schedule, and a race in which the first caller is overtaken once.\<close>

fun cas_schedule :: "nat list \<Rightarrow> cas_state \<Rightarrow> cas_state option" where
  "cas_schedule [] s = Some s"
| "cas_schedule (i # js) s =
     (if i < length (cas_callers s) \<and> snd (cas_callers s ! i) \<noteq> Returned then cas_schedule js (observeMax_step i s) else None)"

lemma cas_schedule_run: "cas_schedule js s = Some t \<Longrightarrow> (cas_step ^^ length js) s t"
proof (induction js arbitrary: s)
  case (Cons i js)
  then have "cas_step s (observeMax_step i s)" "(cas_step ^^ length js) (observeMax_step i s) t"
    by (auto split: if_splits intro: cas_step.intros)
  then show ?case by (auto simp: relpowp_Suc_left intro: relcomppI simp del: relpowp.simps(2))
qed simp

theorem observeMax_terminates_witness:
  "cas_schedule [0, 1, 1, 0, 0, 0] (observeMax_calls 0 [5, 3]) = Some \<lparr>cas_target = 5, cas_callers = [(5, Returned), (3, Returned)]\<rparr> \<and>
   (6 :: nat) \<le> 3 * 2 * 2 + 3 * 2 \<and> fold observeMax [5, 3] 0 = (5 :: int)"
proof -
  let ?t = "\<lparr>cas_target = 5, cas_callers = [(5, Returned), (3, Returned)]\<rparr>"
  have run: "cas_schedule [0, 1, 1, 0, 0, 0] (observeMax_calls 0 [5, 3]) = Some ?t"
    by (simp add: observeMax_calls_def observeMax_step_def)
  have "\<nexists>u. cas_step ?t u" by (auto elim!: cas_stepE simp: less_Suc_eq nth_Cons split: nat.splits)
  with observeMax_terminates [OF cas_schedule_run [OF run]] run show ?thesis by simp
qed

end
