(* ===== verification/Connection_Port.thy ===== *)
theory Connection_Port
  imports Connections
begin

text \<open>
  The interface \<open>Connection\<close> (\<open>internal/domain/connection.go\<close>), which rooms and presence use without knowing the
  transport, as a record of operations over the state of an implementation, with its contract as a
  locale. It is interpreted for the WebSocket connection, whose methods are those of the theory of
  connections, and for the WebTransport connection (\<open>internal/transport/wt_connection.go\<close>), whose own struct and methods are
  translated here and refine the shared ones. The metrics are shared between connections, so they stand beside
  the struct.
\<close>

section \<open>The interface\<close>

record 's conn_port =
  cp_ID :: "'s \<Rightarrow> string"
  cp_SessionID :: "'s \<Rightarrow> string"
  cp_UserID :: "'s \<Rightarrow> string"
  cp_NoteID :: "'s \<Rightarrow> string"
  cp_Permission :: "'s \<Rightarrow> permission"
  cp_SetPermission :: "permission \<Rightarrow> 's \<Rightarrow> 's"
  cp_SendReliable :: "envelope \<Rightarrow> 's \<Rightarrow> bool \<times> 's"
  cp_SendEphemeral :: "envelope \<Rightarrow> string \<Rightarrow> 's \<Rightarrow> 's"
  cp_Close :: "string \<Rightarrow> 's \<Rightarrow> 's"
  cp_PendingReliable :: "'s \<Rightarrow> int"
  cp_ConnectedAt :: "'s \<Rightarrow> time"

definition port_identity :: "'s conn_port \<Rightarrow> 's \<Rightarrow> string \<times> string \<times> string \<times> string \<times> time" where
  "port_identity p s = (cp_ID p s, cp_SessionID p s, cp_UserID p s, cp_NoteID p s, cp_ConnectedAt p s)"

text \<open>A client of the interface: the calls it makes, and the answers of its reliable sends in order.\<close>

datatype port_call = CallReliable envelope | CallEphemeral envelope string | CallPermission permission | CallClose string

fun port_calls :: "'s conn_port \<Rightarrow> port_call list \<Rightarrow> 's \<Rightarrow> bool list \<times> 's" where
  "port_calls p [] s = ([], s)"
| "port_calls p (CallReliable e # cs) s = (let (err, s) = cp_SendReliable p e s; (errs, s) = port_calls p cs s in (err # errs, s))"
| "port_calls p (CallEphemeral e k # cs) s = port_calls p cs (cp_SendEphemeral p e k s)"
| "port_calls p (CallPermission q # cs) s = port_calls p cs (cp_SetPermission p q s)"
| "port_calls p (CallClose r # cs) s = port_calls p cs (cp_Close p r s)"

text \<open>What the calls ask for: the messages sent reliably, the reasons given, the permissions set.\<close>

fun reliable_calls :: "port_call list \<Rightarrow> envelope list" where
  "reliable_calls [] = []"
| "reliable_calls (CallReliable e # cs) = e # reliable_calls cs"
| "reliable_calls (CallEphemeral _ _ # cs) = reliable_calls cs"
| "reliable_calls (CallPermission _ # cs) = reliable_calls cs"
| "reliable_calls (CallClose _ # cs) = reliable_calls cs"

fun close_calls :: "port_call list \<Rightarrow> string list" where
  "close_calls [] = []"
| "close_calls (CallClose r # cs) = r # close_calls cs"
| "close_calls (_ # cs) = close_calls cs"

fun permission_calls :: "port_call list \<Rightarrow> permission list" where
  "permission_calls [] = []"
| "permission_calls (CallPermission q # cs) = q # permission_calls cs"
| "permission_calls (_ # cs) = permission_calls cs"

definition before_close :: "port_call list \<Rightarrow> port_call list" where
  "before_close cs = takeWhile (\<lambda>c. case c of CallClose _ \<Rightarrow> False | _ \<Rightarrow> True) cs"

definition accepted :: "envelope list \<Rightarrow> bool list \<Rightarrow> envelope list" where
  "accepted es errs = map fst (filter (\<lambda>(_, err). \<not> err) (zip es errs))"

section \<open>The contract\<close>

locale connection_contract =
  fixes port :: "'s conn_port" and queued :: "'s \<Rightarrow> envelope list" and inFlight :: "'s \<Rightarrow> int"
    and closed :: "'s \<Rightarrow> bool" and reason :: "'s \<Rightarrow> string" and room :: "'s \<Rightarrow> nat"
  assumes pending: "cp_PendingReliable port s = int (length (queued s)) + inFlight s"
    and permission_set: "cp_Permission port (cp_SetPermission port q s) = q"
    and permission_kept: "cp_Permission port (snd (cp_SendReliable port e s)) = cp_Permission port s"
      "cp_Permission port (cp_SendEphemeral port e k s) = cp_Permission port s"
      "cp_Permission port (cp_Close port r s) = cp_Permission port s"
    and identity_kept: "port_identity port (snd (cp_SendReliable port e s)) = port_identity port s"
      "port_identity port (cp_SendEphemeral port e k s) = port_identity port s"
      "port_identity port (cp_Close port r s) = port_identity port s"
      "port_identity port (cp_SetPermission port q s) = port_identity port s"
    and send_open: "\<not> closed s \<Longrightarrow> fst (cp_SendReliable port e s) \<longleftrightarrow> room s \<le> length (queued s)"
    and send_closed: "closed s \<Longrightarrow> \<not> fst (cp_SendReliable port e s)"
    and send_queued: "queued (snd (cp_SendReliable port e s)) =
        queued s @ (if closed s \<or> fst (cp_SendReliable port e s) then [] else [e])"
    and queued_kept: "queued (cp_SendEphemeral port e k s) = queued s" "queued (cp_Close port r s) = queued s"
      "queued (cp_SetPermission port q s) = queued s"
    and in_flight_kept: "inFlight (snd (cp_SendReliable port e s)) = inFlight s" "inFlight (cp_SendEphemeral port e k s) = inFlight s"
      "inFlight (cp_Close port r s) = inFlight s" "inFlight (cp_SetPermission port q s) = inFlight s"
    and room_kept: "room (snd (cp_SendReliable port e s)) = room s" "room (cp_SendEphemeral port e k s) = room s"
      "room (cp_Close port r s) = room s" "room (cp_SetPermission port q s) = room s"
    and closed_kept: "closed (snd (cp_SendReliable port e s)) = closed s" "closed (cp_SendEphemeral port e k s) = closed s"
      "closed (cp_SetPermission port q s) = closed s"
    and reason_kept: "reason (snd (cp_SendReliable port e s)) = reason s" "reason (cp_SendEphemeral port e k s) = reason s"
      "reason (cp_SetPermission port q s) = reason s"
    and closes: "closed (cp_Close port r s)" "reason (cp_Close port r s) = (if closed s then reason s else r)"
begin

lemmas kept = permission_set permission_kept identity_kept queued_kept in_flight_kept room_kept closed_kept reason_kept closes

lemma calls_identity: "port_identity port (snd (port_calls port cs s)) = port_identity port s"
  by (induction cs arbitrary: s rule: reliable_calls.induct) (simp_all add: kept case_prod_unfold Let_def)

lemma calls_permission: "cp_Permission port (snd (port_calls port cs s)) = last (cp_Permission port s # permission_calls cs)"
  by (induction cs arbitrary: s rule: permission_calls.induct) (simp_all add: kept case_prod_unfold Let_def)

lemma calls_closed:
  "closed (snd (port_calls port cs s)) \<longleftrightarrow> closed s \<or> close_calls cs \<noteq> []"
  "reason (snd (port_calls port cs s)) = (if closed s \<or> close_calls cs = [] then reason s else hd (close_calls cs))"
  by (induction cs arbitrary: s rule: close_calls.induct) (simp_all add: kept case_prod_unfold Let_def)

lemma calls_length: "length (fst (port_calls port cs s)) = length (reliable_calls cs)"
  by (induction cs arbitrary: s rule: reliable_calls.induct) (simp_all add: case_prod_unfold Let_def)

text \<open>Once it is closed, a connection neither queues nor reports anything.\<close>

lemma calls_when_closed:
  "closed s \<Longrightarrow> queued (snd (port_calls port cs s)) = queued s \<and> True \<notin> set (fst (port_calls port cs s))"
  by (induction cs arbitrary: s rule: reliable_calls.induct) (simp_all add: kept send_queued send_closed case_prod_unfold Let_def)

lemma accepted_Cons: "accepted (e # es) (err # errs) = (if err then accepted es errs else e # accepted es errs)"
  by (simp add: accepted_def)

text \<open>What is queued: the accepted messages of before the first close, in the order of the calls.\<close>

lemma calls_queued:
  assumes "\<not> closed s"
  shows "queued (snd (port_calls port cs s)) = queued s @ accepted (reliable_calls (before_close cs)) (fst (port_calls port cs s))"
  using assms
proof (induction cs arbitrary: s rule: reliable_calls.induct)
  case (2 e cs)
  then show ?case
    by (simp add: before_close_def kept send_queued accepted_Cons case_prod_unfold Let_def)
next
  case (5 r cs)
  then show ?case using calls_when_closed [of "cp_Close port r s" cs] by (simp add: before_close_def kept accepted_def)
qed (simp_all add: before_close_def kept accepted_def)

text \<open>An error says that the queue is full, and only that.\<close>

lemma refused_when_full:
  assumes "length (queued s) \<le> room s" "\<not> closed s"
  shows "length (queued (snd (port_calls port cs s))) \<le> room s"
  using assms
proof (induction cs arbitrary: s rule: reliable_calls.induct)
  case (2 e cs)
  then show ?case
    using "2.IH" [of "snd (cp_SendReliable port e s)"] send_open [of s e]
    by (simp add: kept send_queued case_prod_unfold Let_def)
next
  case (3 e k cs)
  then show ?case using "3.IH" [of "cp_SendEphemeral port e k s"] by (simp add: kept)
next
  case (4 q cs)
  then show ?case using "4.IH" [of "cp_SetPermission port q s"] by (simp add: kept)
next
  case (5 r cs)
  then show ?case using calls_when_closed [of "cp_Close port r s" cs] by (simp add: kept)
qed simp

lemma contract:
  assumes "\<not> closed s" "length (queued s) \<le> room s"
  shows "port_identity port (snd (port_calls port cs s)) = port_identity port s \<and>
    cp_Permission port (snd (port_calls port cs s)) = last (cp_Permission port s # permission_calls cs) \<and>
    reason (snd (port_calls port cs s)) = hd (close_calls cs @ [reason s]) \<and>
    queued (snd (port_calls port cs s)) = queued s @ accepted (reliable_calls (before_close cs)) (fst (port_calls port cs s)) \<and>
    length (queued (snd (port_calls port cs s))) \<le> room s"
  using calls_identity calls_permission calls_closed(2) [of cs s] calls_queued [OF assms(1)] refused_when_full [OF assms(2,1)] assms(1)
  by (auto simp: hd_append)

end

section \<open>The WebSocket connection\<close>

type_synonym ws_conn = "connection \<times> conn_metrics"

definition ws_port :: "ws_conn conn_port" where
  "ws_port = \<lparr>cp_ID = (\<lambda>(i, c). cn_ID i), cp_SessionID = (\<lambda>(i, c). cn_SessionID i), cp_UserID = (\<lambda>(i, c). cn_UserID i),
     cp_NoteID = (\<lambda>(i, c). cn_NoteID i), cp_Permission = (\<lambda>(i, c, m). cs_permission c),
     cp_SetPermission = (\<lambda>q (i, c, m). (i, SetPermission q c, m)),
     cp_SendReliable = (\<lambda>e (i, cm). let (err, cm) = SendReliable e cm in (err, i, cm)),
     cp_SendEphemeral = (\<lambda>e k (i, cm). (i, SendEphemeral e k cm)),
     cp_Close = (\<lambda>r (i, c, m). (i, conn_Close r c, m)), cp_PendingReliable = (\<lambda>(i, c, m). PendingReliable (cs_queues c)),
     cp_ConnectedAt = (\<lambda>(i, c). cn_ConnectedAt i)\<rparr>"

section \<open>The WebTransport connection\<close>

record wt_connection =
  wc_queues :: outbound_queues
  wc_id :: string
  wc_sessionID :: string
  wc_userID :: string
  wc_noteID :: string
  wc_permission :: permission
  wc_binaryFrames :: bool
  wc_aggregateFrames :: bool
  wc_session :: "string option"
  wc_maxDatagram :: int
  wc_connectedAt :: time

text \<open>The session handle stands for what it was closed with.\<close>

type_synonym wt_conn = "wt_connection \<times> metrics option"

definition wt_new :: "string \<Rightarrow> connection_ticket \<Rightarrow> nat \<Rightarrow> nat \<Rightarrow> int \<Rightarrow> time \<Rightarrow> wt_connection" where
  "wt_new connID ticket ephemeralQueueSize reliableQueueSize maxDatagram now =
     \<lparr>wc_queues = newOutboundQueues ephemeralQueueSize reliableQueueSize, wc_id = connID, wc_sessionID = tk_SessionID ticket,
      wc_userID = tk_UserID ticket, wc_noteID = tk_NoteID ticket, wc_permission = tk_Permission ticket, wc_binaryFrames = False,
      wc_aggregateFrames = False, wc_session = None, wc_maxDatagram = maxDatagram, wc_connectedAt = now\<rparr>"

definition wt_SetPermission :: "permission \<Rightarrow> wt_connection \<Rightarrow> wt_connection" where
  "wt_SetPermission permission c = c\<lparr>wc_permission := permission\<rparr>"

definition wt_EnableBinaryFrames :: "wt_connection \<Rightarrow> wt_connection" where
  "wt_EnableBinaryFrames c = c\<lparr>wc_binaryFrames := True\<rparr>"

definition wt_EnableBinaryAggregates :: "wt_connection \<Rightarrow> wt_connection" where
  "wt_EnableBinaryAggregates c = c\<lparr>wc_aggregateFrames := True\<rparr>"

definition wt_supportsBinaryFrames :: "wt_connection \<Rightarrow> bool" where
  "wt_supportsBinaryFrames c = wc_binaryFrames c"

definition wt_supportsBinaryAggregates :: "wt_connection \<Rightarrow> bool" where
  "wt_supportsBinaryAggregates c \<longleftrightarrow> wc_binaryFrames c \<and> wc_aggregateFrames c"

definition wt_SendReliable :: "envelope \<Rightarrow> wt_conn \<Rightarrow> bool \<times> wt_conn" where
  "wt_SendReliable e = (\<lambda>(c, m). let
     (err, q) = pushReliable e (wc_queues c);
     m = (if err then map_option (\<lambda>m. m\<lparr>mt_ReliableOverflow := mt_ReliableOverflow m + 1\<rparr>) m else m);
     m = map_option (ObserveQueueDepth (PendingReliable q) (PendingEphemeral q)) m
   in (err, c\<lparr>wc_queues := q\<rparr>, m))"

definition wt_SendEphemeral :: "envelope \<Rightarrow> string \<Rightarrow> wt_conn \<Rightarrow> wt_conn" where
  "wt_SendEphemeral e coalesceKey = (\<lambda>(c, m). let
     droppedBefore = Dropped (wc_queues c); inkBefore = DroppedInk (wc_queues c);
     q = pushEphemeral e coalesceKey (wc_queues c);
     m = map_option (\<lambda>m. m\<lparr>mt_DroppedEphemeral := mt_DroppedEphemeral m + (int (Dropped q) - int droppedBefore),
       mt_DroppedInk := mt_DroppedInk m + (int (DroppedInk q) - int inkBefore)\<rparr>) m;
     m = map_option (ObserveQueueDepth (PendingReliable q) (PendingEphemeral q)) m
   in (c\<lparr>wc_queues := q\<rparr>, m))"

definition wt_PendingReliable :: "wt_connection \<Rightarrow> int" where
  "wt_PendingReliable c = PendingReliable (wc_queues c)"

definition wt_Close :: "string \<Rightarrow> wt_connection \<Rightarrow> wt_connection" where
  "wt_Close reason c = (let
     alreadyClosed = isClosed (wc_queues c);
     c = c\<lparr>wc_queues := markClosedWith reason (wc_queues c)\<rparr>
   in if alreadyClosed then c else c\<lparr>wc_session := Some (truncateReason reason)\<rparr>)"

definition wt_wireBytes :: "wt_connection \<Rightarrow> envelope \<Rightarrow> wire option" where
  "wt_wireBytes c e = (let binary = (if wt_supportsBinaryFrames c \<and> ClassifyEvent (en_Event e) = ClassEphemeral then EncodeRelayFrame e else None) in
     case binary of Some encoded \<Rightarrow> Some (BinaryFrame encoded) | None \<Rightarrow> if marshals e then Some (TextFrame e) else None)"

definition wt_port :: "wt_conn conn_port" where
  "wt_port = \<lparr>cp_ID = (\<lambda>(c, m). wc_id c), cp_SessionID = (\<lambda>(c, m). wc_sessionID c), cp_UserID = (\<lambda>(c, m). wc_userID c),
     cp_NoteID = (\<lambda>(c, m). wc_noteID c), cp_Permission = (\<lambda>(c, m). wc_permission c),
     cp_SetPermission = (\<lambda>q (c, m). (wt_SetPermission q c, m)), cp_SendReliable = wt_SendReliable, cp_SendEphemeral = wt_SendEphemeral,
     cp_Close = (\<lambda>r (c, m). (wt_Close r c, m)), cp_PendingReliable = (\<lambda>(c, m). wt_PendingReliable c),
     cp_ConnectedAt = (\<lambda>(c, m). wc_connectedAt c)\<rparr>"

section \<open>Both transports keep the contract\<close>

lemmas port_defs = ws_port_def wt_port_def port_identity_def SendReliable_def SendEphemeral_def conn_Close_def SetPermission_def
  wt_SendReliable_def wt_SendEphemeral_def wt_Close_def wt_SetPermission_def wt_PendingReliable_def Let_def case_prod_unfold

lemma countDrop_frame:
  "oq_reliable (countDrop e q) = oq_reliable q" "oq_reliableInFlight (countDrop e q) = oq_reliableInFlight q"
  "oq_reliableSize (countDrop e q) = oq_reliableSize q" "oq_closed (countDrop e q) = oq_closed q" "oq_closeReason (countDrop e q) = oq_closeReason q"
  by (simp_all add: countDrop_def Let_def split: option.split)

lemma shedOldest_frame:
  "oq_reliable (shedOldest q) = oq_reliable q \<and> oq_reliableInFlight (shedOldest q) = oq_reliableInFlight q \<and>
   oq_reliableSize (shedOldest q) = oq_reliableSize q \<and> oq_closed (shedOldest q) = oq_closed q \<and> oq_closeReason (shedOldest q) = oq_closeReason q"
proof (induction q rule: shedOldest.induct)
  case (1 q)
  then show ?case
    unfolding shedOldest.simps [of q] by (auto simp: Let_def countDrop_frame split: list.split)
qed

lemma port_Permission: "cp_Permission ws_port x = cs_permission (fst (snd x))" "cp_Permission wt_port y = wc_permission (fst y)"
  by (simp_all add: ws_port_def wt_port_def case_prod_unfold)

lemma pushEphemeral_frame:
  "oq_reliable (pushEphemeral e k q) = oq_reliable q" "oq_reliableInFlight (pushEphemeral e k q) = oq_reliableInFlight q"
  "oq_reliableSize (pushEphemeral e k q) = oq_reliableSize q" "oq_closed (pushEphemeral e k q) = oq_closed q"
  "oq_closeReason (pushEphemeral e k q) = oq_closeReason q"
  by (auto simp: pushEphemeral_def shedOldest_frame countDrop_frame Let_def split: option.split)

interpretation ws_contract: connection_contract ws_port "\<lambda>(i, c, m). oq_reliable (cs_queues c)" "\<lambda>(i, c, m). oq_reliableInFlight (cs_queues c)"
  "\<lambda>(i, c, m). isClosed (cs_queues c)" "\<lambda>(i, c, m). oq_closeReason (cs_queues c)" "\<lambda>(i, c, m). oq_reliableSize (cs_queues c)"
  by unfold_locales
    (auto simp: port_defs pushReliable_def pushEphemeral_frame isClosed_def markClosedWith_def PendingReliable_def signal_def)

interpretation wt_contract: connection_contract wt_port "\<lambda>(c, m). oq_reliable (wc_queues c)" "\<lambda>(c, m). oq_reliableInFlight (wc_queues c)"
  "\<lambda>(c, m). isClosed (wc_queues c)" "\<lambda>(c, m). oq_closeReason (wc_queues c)" "\<lambda>(c, m). oq_reliableSize (wc_queues c)"
  by unfold_locales
    (auto simp: port_defs pushReliable_def pushEphemeral_frame isClosed_def markClosedWith_def PendingReliable_def signal_def)

text \<open>
  The shared methods and those of the WebTransport struct do the same: the identity, the state and the metrics
  of a WebTransport connection, seen as those of the shared model.
\<close>

definition wt_abs :: "nat \<Rightarrow> packet list \<Rightarrow> wt_conn \<Rightarrow> ws_conn" where
  "wt_abs ref sent = (\<lambda>(c, m). (\<lparr>cn_ID = wc_id c, cn_SessionID = wc_sessionID c, cn_UserID = wc_userID c, cn_NoteID = wc_noteID c,
      cn_ConnectedAt = wc_connectedAt c, cn_Ref = ref\<rparr>,
     \<lparr>cs_queues = wc_queues c, cs_permission = wc_permission c, cs_binaryFrames = wc_binaryFrames c, cs_aggregateFrames = wc_aggregateFrames c,
      cs_transport = WebTransport (wc_maxDatagram c), cs_sent = sent, cs_closeSent = wc_session c\<rparr>, m))"

lemma wt_refines:
  "snd (wt_abs ref [] (wt_new connID ticket a b d now, m)) = (newWTConnection ticket a b d, m)"
  "wt_abs ref sent (wt_SetPermission q c, m) = cp_SetPermission ws_port q (wt_abs ref sent (c, m))"
  "fst (snd (wt_abs ref sent (wt_EnableBinaryFrames c, m))) = EnableBinaryFrames (fst (snd (wt_abs ref sent (c, m))))"
  "fst (snd (wt_abs ref sent (wt_EnableBinaryAggregates c, m))) = EnableBinaryAggregates (fst (snd (wt_abs ref sent (c, m))))"
  "wt_supportsBinaryAggregates c = supportsBinaryAggregates (fst (snd (wt_abs ref sent (c, m))))"
  "wt_wireBytes c e = wireBytes (fst (snd (wt_abs ref sent (c, m)))) e"
  "apsnd (wt_abs ref sent) (wt_SendReliable e (c, m)) = cp_SendReliable ws_port e (wt_abs ref sent (c, m))"
  "wt_abs ref sent (wt_SendEphemeral e k (c, m)) = cp_SendEphemeral ws_port e k (wt_abs ref sent (c, m))"
  "wt_abs ref sent (wt_Close r c, m) = cp_Close ws_port r (wt_abs ref sent (c, m))"
  by (simp_all add: wt_abs_def port_defs observe_depth_def wt_new_def newWTConnection_def EnableBinaryFrames_def wt_EnableBinaryFrames_def
      EnableBinaryAggregates_def wt_EnableBinaryAggregates_def supportsBinaryAggregates_def wt_supportsBinaryAggregates_def
      wireBytes_def wt_wireBytes_def supportsBinaryFrames_def wt_supportsBinaryFrames_def split: option.split)

section \<open>Properties\<close>

text \<open>
  C38. Rooms may treat both transports alike. Whatever sequence of sends, permission changes and closes a client makes on
  an open connection of either kind: its identity never changes; its permission is the last one set; it is closed with the
  reason of the first close; and its reliable queue holds exactly what it held, followed by the messages that were
  sent without an error before the first close, in that order, and never more than it has room for.
\<close>

theorem connection_contract_kept:
  assumes "\<not> isClosed (cs_queues c)" and "length (oq_reliable (cs_queues c)) \<le> oq_reliableSize (cs_queues c)"
    and "\<not> isClosed (wc_queues t)" and "length (oq_reliable (wc_queues t)) \<le> oq_reliableSize (wc_queues t)"
  shows "(case port_calls ws_port cs (i, c, m) of (errs, (i', c', m')) \<Rightarrow>
      port_identity ws_port (i', c', m') = port_identity ws_port (i, c, m) \<and>
      cs_permission c' = last (cs_permission c # permission_calls cs) \<and>
      oq_closeReason (cs_queues c') = hd (close_calls cs @ [oq_closeReason (cs_queues c)]) \<and>
      oq_reliable (cs_queues c') = oq_reliable (cs_queues c) @ accepted (reliable_calls (before_close cs)) errs \<and>
      length (oq_reliable (cs_queues c')) \<le> oq_reliableSize (cs_queues c)) \<and>
    (case port_calls wt_port cs (t, m) of (errs, (t', m')) \<Rightarrow>
      port_identity wt_port (t', m') = port_identity wt_port (t, m) \<and>
      wc_permission t' = last (wc_permission t # permission_calls cs) \<and>
      oq_closeReason (wc_queues t') = hd (close_calls cs @ [oq_closeReason (wc_queues t)]) \<and>
      oq_reliable (wc_queues t') = oq_reliable (wc_queues t) @ accepted (reliable_calls (before_close cs)) errs \<and>
      length (oq_reliable (wc_queues t')) \<le> oq_reliableSize (wc_queues t))"
  using ws_contract.contract [of "(i, c, m)" cs] wt_contract.contract [of "(t, m)" cs] assms
  by (auto simp: case_prod_unfold port_Permission)

definition port_ticket :: connection_ticket where
  "port_ticket = \<lparr>tk_Value = ''v'', tk_SessionID = ''s'', tk_UserID = ''u'', tk_NoteID = ''n'', tk_Permission = PermissionEdit,
     tk_ExpiresAt = 9, tk_CreatedAt = 0\<rparr>"

definition port_example :: "port_call list" where
  "port_example = [CallReliable (envelope_zero\<lparr>en_MessageID := ''1''\<rparr>), CallReliable (envelope_zero\<lparr>en_MessageID := ''2''\<rparr>),
     CallPermission PermissionView, CallClose ''bye'', CallReliable (envelope_zero\<lparr>en_MessageID := ''3''\<rparr>), CallClose ''again'']"

theorem connection_contract_kept_witness:
  "case port_calls wt_port port_example (wt_new ''c'' port_ticket 4 1 1100 0, None) of (errs, (t, m)) \<Rightarrow>
     errs = [False, True, False] \<and> wc_permission t = PermissionView \<and> oq_closeReason (wc_queues t) = ''bye'' \<and>
     oq_reliable (wc_queues t) = [envelope_zero\<lparr>en_MessageID := ''1''\<rparr>]"
proof -
  let ?t = "wt_new ''c'' port_ticket 4 1 1100 0" and ?c = "newWSConnection port_ticket 4 1"
  have "\<not> isClosed (cs_queues ?c)" "length (oq_reliable (cs_queues ?c)) \<le> oq_reliableSize (cs_queues ?c)"
    "\<not> isClosed (wc_queues ?t)" "length (oq_reliable (wc_queues ?t)) \<le> oq_reliableSize (wc_queues ?t)"
    by (simp_all add: newWSConnection_def wt_new_def newOutboundQueues_def isClosed_def)
  moreover have "fst (port_calls wt_port port_example (?t, None)) = [False, True, False]"
    by (simp add: port_example_def port_defs wt_new_def newOutboundQueues_def pushReliable_def isClosed_def signal_def markClosedWith_def)
  ultimately show ?thesis
    using connection_contract_kept [where c = ?c and t = ?t and cs = port_example and m = None]
    by (simp add: case_prod_unfold port_example_def before_close_def accepted_def wt_new_def newOutboundQueues_def)
qed

end
