(* ===== verification/Loadtest_Wire.thy ===== *)
theory Loadtest_Wire
  imports Loadtest_Run
begin

text \<open>
  The load generator against the server: the framing of the reliable stream in both directions, the
  viewport report a virtual user sends, and what becomes of previews on datagrams.
\<close>

section \<open>The reliable stream\<close>

lemma stream_payloads_one:
  assumes "f \<noteq> []" "length f \<le> maxPayloadBytes"
  shows "stream_payloads (stream_frame f @ rest) = f # stream_payloads rest"
proof -
  have "length f < 2 ^ 32" using assms(2) by simp
  note b = be32_stream_frame [OF this, of rest]
  have "drop 4 (stream_frame f @ rest) = f @ rest" "\<not> length (stream_frame f @ rest) < 4"
    by (simp_all add: stream_frame_def)
  with assms b show ?thesis by (subst stream_payloads.simps) (simp add: Let_def)
qed

lemma stream_payloads_all:
  "\<forall>f \<in> set fs. f \<noteq> [] \<and> length f \<le> maxPayloadBytes \<Longrightarrow> stream_payloads (concat (map stream_frame fs)) = fs"
  by (induction fs) (simp_all add: stream_payloads_one stream_payloads.simps [of "[]"])

text \<open>On any bytes the stricter reader delivers a prefix of what the server's reader delivers.\<close>

lemma stream_payloads_prefix: "prefix (stream_payloads bs) (fst (readStreamFrames bs))"
proof (induction bs rule: stream_payloads.induct)
  case (1 bs)
  let ?n = "be32 (take 4 bs)" and ?rest = "drop 4 bs"
  show ?case
  proof (cases "length bs < 4 \<or> ?n = 0 \<or> ?n > maxPayloadBytes \<or> length ?rest < ?n")
    case True
    then have "stream_payloads bs = []" by (subst stream_payloads.simps) (auto simp: Let_def)
    then show ?thesis by simp
  next
    case False
    then have "stream_payloads bs = take ?n ?rest # stream_payloads (drop ?n ?rest)"
      by (subst stream_payloads.simps) (auto simp: Let_def)
    moreover have "fst (readStreamFrames bs) = take ?n ?rest # fst (readStreamFrames (drop ?n ?rest))"
      using False by (subst readStreamFrames.simps) (auto simp: Let_def)
    ultimately show ?thesis using 1 False by simp
  qed
qed

text \<open>A sequence of reliable writes: the payloads the stream accepted, and the bytes it carries.\<close>

fun stream_writes :: "load_net \<Rightarrow> bytes list \<Rightarrow> load_connection \<Rightarrow> bytes list \<times> load_connection" where
  "stream_writes net [] c = ([], c)"
| "stream_writes net (d # ds) c = (case load_wt_write net d False c of
     (None, c) \<Rightarrow> stream_writes net ds c
   | (Some _, c) \<Rightarrow> map_prod (Cons d) id (stream_writes net ds c))"

fun stream_bytes :: "load_packet list \<Rightarrow> bytes" where
  "stream_bytes [] = []"
| "stream_bytes (StreamOut b # ps) = b @ stream_bytes ps"
| "stream_bytes (_ # ps) = stream_bytes ps"

lemma stream_bytes_append [simp]: "stream_bytes (ps @ qs) = stream_bytes ps @ stream_bytes qs"
  by (induction ps rule: stream_bytes.induct) simp_all

lemma stream_writes_bytes:
  "stream_writes net ds c = (acc, c') \<Longrightarrow>
     stream_bytes (lc_sent c') = stream_bytes (lc_sent c) @ concat (map stream_frame acc) \<and> set acc \<subseteq> set ds"
proof (induction ds arbitrary: acc c)
  case (Cons d ds)
  let ?p = "StreamOut (stream_frame d)"
  show ?case
  proof (cases "net (lc_sent c) ?p")
    case True
    obtain rs c2 where r: "stream_writes net ds (c\<lparr>lc_sent := lc_sent c @ [?p]\<rparr>) = (rs, c2)"
      by (cases "stream_writes net ds (c\<lparr>lc_sent := lc_sent c @ [?p]\<rparr>)")
    with True Cons.prems have "acc = d # rs" "c' = c2" by (auto simp: load_wt_write_def load_send_def)
    with Cons.IH [of "c\<lparr>lc_sent := lc_sent c @ [?p]\<rparr>" rs] r show ?thesis by auto
  next
    case False
    with Cons.prems have "stream_writes net ds c = (acc, c')" by (auto simp: load_wt_write_def load_send_def)
    with Cons.IH [OF this] show ?thesis by auto
  qed
qed simp

text \<open>
  The two programs agree on the reliable stream. Of the payloads a virtual user writes (each at
  least one byte and at most the server's 1 MiB) the server reads back exactly those whose write
  succeeded, in order; the frames the server writes, a virtual user reads back if each has at most
  256 KiB; and on arbitrary bytes the virtual user never delivers anything the server's own reader
  would not deliver from the same bytes.
\<close>

theorem stream_ends_agree:
  assumes "stream_writes net ds c = (acc, c')" "stream_bytes (lc_sent c) = []"
    "\<forall>d \<in> set ds. d \<noteq> [] \<and> length d \<le> 2 ^ 20"
    "\<forall>f \<in> set fs. f \<noteq> [] \<and> length f \<le> 256 * 1024"
  shows "readStreamFrames (stream_bytes (lc_sent c')) = (acc, EOF) \<and>
    stream_payloads (concat (map stream_frame fs)) = fs \<and>
    prefix (stream_payloads bs) (fst (readStreamFrames bs))"
proof -
  from stream_writes_bytes [OF assms(1)] assms(2,3)
  have "stream_bytes (lc_sent c') = concat (map stream_frame acc)" "\<forall>d \<in> set acc. d \<noteq> [] \<and> length d \<le> 2 ^ 20" by auto
  then have "readStreamFrames (stream_bytes (lc_sent c')) = (acc, EOF)" using read_all_frames [of acc] by simp
  with stream_payloads_all [OF assms(4)] stream_payloads_prefix [of bs] show ?thesis by simp
qed

definition bench_wt :: load_connection where
  "bench_wt = \<lparr>lc_webTransport = True, lc_sent = [], lc_frames = [], lc_done = False\<rparr>"

theorem stream_ends_agree_witness:
  "\<exists>c'. stream_writes (\<lambda>_ p. p \<noteq> StreamOut (stream_frame [2])) [[1], [2], [3, 4]] bench_wt = ([[1], [3, 4]], c') \<and>
     readStreamFrames (stream_bytes (lc_sent c')) = ([[1], [3, 4]], EOF) \<and>
     stream_payloads (stream_frame [5] @ stream_frame [6]) = [[5], [6]]"
proof -
  let ?net = "\<lambda>_ p. p \<noteq> StreamOut (stream_frame [2])"
  obtain acc c' where w: "stream_writes ?net [[1], [2], [3, 4]] bench_wt = (acc, c')"
    by (cases "stream_writes ?net [[1], [2], [3, 4]] bench_wt")
  then have "acc = [[1], [3, 4]]"
    by (auto simp: load_wt_write_def load_send_def bench_wt_def stream_frame_def)
  with stream_ends_agree [OF w, of "[[5], [6]]"] w show ?thesis by (simp add: bench_wt_def)
qed

section \<open>Previews on datagrams\<close>

lemma DecodeRelayMetadata_text: "take 1 data = [0x7B] \<Longrightarrow> DecodeRelayMetadata data = None"
  by (cases data) (auto simp: DecodeRelayMetadata.simps [of data] DecodeRelayMetadata.simps readHeader_def IsBinaryFrame_def)

text \<open>
  A preview in JSON is lost to the measurement on WebTransport. A server connection that has not
  seen a binary frame from its client sends a preview that fits as one datagram of JSON text; the
  virtual user marks every datagram as binary, fails to decode it, and counts an unexpected message:
  neither the received previews nor the latencies change.
\<close>

theorem json_datagram_uncounted:
  assumes "cs_transport c = WebTransport n" "\<not> cs_binaryFrames c" "marshals e" "n \<le> 0 \<or> int (we_size env e) \<le> n"
    "we_ok env (cs_sent c) (Datagram (TextFrame e))" "take 1 text_bytes = [0x7B]"
    "\<not> lc_done lc" "lc_frames lc = []"
  shows "cs_sent (fst (writeDatagram env e (c, m))) = cs_sent c @ [Datagram (TextFrame e)] \<and>
    (\<exists>f. lc_frames (readDatagrams sel (Some text_bytes) lc) = [f] \<and>
       ct_unexpectedMessages (rn_counters (read_frame lenv now receiver f s)) = ct_unexpectedMessages (rn_counters s) + 1 \<and>
       ct_previewReceived (rn_counters (read_frame lenv now receiver f s)) = ct_previewReceived (rn_counters s) \<and>
       rn_latencies (read_frame lenv now receiver f s) = rn_latencies s)"
proof
  have "wireBytes c e = Some (TextFrame e)" using assms(2,3) by (simp add: wireBytes_def supportsBinaryFrames_def)
  moreover have "max_datagram c = n" using assms(1) by (simp add: max_datagram_def)
  ultimately show "cs_sent (fst (writeDatagram env e (c, m))) = cs_sent c @ [Datagram (TextFrame e)]"
    using assms(4,5) by (auto simp: writeDatagram_def sendDatagram_def)
  show "\<exists>f. lc_frames (readDatagrams sel (Some text_bytes) lc) = [f] \<and>
       ct_unexpectedMessages (rn_counters (read_frame lenv now receiver f s)) = ct_unexpectedMessages (rn_counters s) + 1 \<and>
       ct_previewReceived (rn_counters (read_frame lenv now receiver f s)) = ct_previewReceived (rn_counters s) \<and>
       rn_latencies (read_frame lenv now receiver f s) = rn_latencies s"
    using assms(6-8) by (simp add: readDatagrams_def load_push_def read_frame_def DecodeRelayMetadata_text bump_def)
qed

theorem json_datagram_uncounted_witness:
  "cs_sent (fst (writeDatagram example_env envelope_zero ((example_conn_state [])\<lparr>cs_transport := WebTransport 1200\<rparr>, None))) =
     [Datagram (TextFrame envelope_zero)]"
  using json_datagram_uncounted [of "(example_conn_state [])\<lparr>cs_transport := WebTransport 1200\<rparr>" 1200 envelope_zero example_env
      "[0x7B]" bench_wt None]
  by (simp add: example_conn_state_def example_env_def marshals_def envelope_zero_def bench_wt_def)

section \<open>The viewport report of a virtual user\<close>

lemma bench_point:
  "\<exists>i j. as_x (assign_user p k) = Fin (of_int i) \<and> as_y (assign_user p k) = Fin (of_int j) \<and>
     0 \<le> i \<and> i \<le> 2000 \<and> 0 \<le> j \<and> j \<le> 2000"
proof -
  have small: "\<exists>i. f_of_int (int n) = Fin (of_int i) \<and> 0 \<le> i \<and> i \<le> 2000" if "n \<le> 2000" for n
    using that f_of_int_exact [of "int n"] by (intro exI [of _ "int n"]) auto
  have "k mod 10 * 160 \<le> 2000" "k mod 6 * 130 \<le> 2000" "k mod 4 * 480 \<le> 2000" "k mod 3 * 320 \<le> 2000"
    using mod_less_divisor [of 10 k] mod_less_divisor [of 6 k] mod_less_divisor [of 4 k] mod_less_divisor [of 3 k] by linarith+
  note pts = this [THEN small]
  have lit: "\<exists>i. Fin 512 = Fin (of_int i) \<and> 0 \<le> i \<and> i \<le> 2000" "\<exists>i. Fin 384 = Fin (of_int i) \<and> 0 \<le> i \<and> i \<le> 2000"
    by (intro exI [of _ 512]; simp) (intro exI [of _ 384]; simp)
  from pts lit show ?thesis
    unfolding assign_user_def placement_def Let_def by (simp split: if_split) blast
qed

lemma ascii_digits: "ascii (''bench-page-'' @ pad_dec w n)"
proof -
  have "chr_code c < 128" if "c \<in> set (pad_dec w n)" for c
    using that nat_dec_chars [of c n] by (auto simp: pad_dec_def is_digit_def)
  then show ?thesis by (auto simp: ascii_def list_all_iff)
qed

definition report_of :: "assignment \<Rightarrow> int \<Rightarrow> int \<Rightarrow> interest_payload" where
  "report_of a i j = \<lparr>ip_PageID = as_pageID a, ip_X = Fin (of_int (i - 600)), ip_Y = Fin (of_int (j - 450)), ip_Width = Fin 1200,
     ip_Height = Fin 900, ip_Preview = Some \<lparr>pv_Transform = Some (\<not> as_previewOff a), pv_Ink = Some (\<not> as_previewOff a),
       pv_Cursor = Some (\<not> as_previewOff a), pv_Laser = Some (\<not> as_previewOff a)\<rparr>\<rparr>"

lemma interest_report_decoded:
  assumes "as_x a = Fin (of_int i)" "as_y a = Fin (of_int j)" "0 \<le> i" "i \<le> 2000" "0 \<le> j" "j \<le> 2000" "ascii (as_pageID a)"
  shows "\<exists>doc. interest_payload_json a = Some doc \<and>
    unmarshal dec_interest_payload interest_payload_zero (marshal doc) = (report_of a i j, False)"
proof -
  have x: "round64 (of_int i - 600) = Fin (of_int (i - 600))" "round64 (of_int j - 450) = Fin (of_int (j - 450))"
    using round64_int [of "i - 600"] round64_int [of "j - 450"] assms(3-6) by simp_all
  have f: "f_sub (as_x a) (Fin 600) = Fin (of_int (i - 600))" "f_sub (as_y a) (Fin 450) = Fin (of_int (j - 450))"
    using x assms(1,2) by (simp_all add: f_sub_def)
  then obtain doc where doc: "interest_payload_json a = Some doc" by (simp add: interest_payload_json_def Let_def)
  with f x assms(7) have "unmarshal dec_interest_payload interest_payload_zero (marshal doc) = (report_of a i j, False)"
    by (auto simp: interest_payload_json_def json_defs dec_interest_payload_def dec_preview_payload_def interest_payload_zero_def
        preview_payload_zero_def EqualFold_def upper_char_def report_of_def Let_def)
  with doc show ?thesis by blast
qed

lemma go_div_512: "\<bar>k\<bar> \<le> 4000 \<Longrightarrow> - 8 \<le> go_div k 512 \<and> go_div k 512 \<le> 8"
proof -
  assume "\<bar>k\<bar> \<le> 4000"
  then have "go_div (- 4000) 512 \<le> go_div k 512" "go_div k 512 \<le> go_div 4000 512" by (intro go_div_mono; simp)+
  moreover have "go_div (- 4000) 512 = - 7" "go_div 4000 512 = 7" by (simp_all add: go_div_def)
  ultimately show ?thesis by simp
qed

lemma report_cells:
  assumes "it_X i = Fin (of_int x)" "it_Y i = Fin (of_int y)" "it_Width i = Fin 1200" "it_Height i = Fin 900"
    "\<bar>x\<bar> \<le> 2000" "\<bar>y\<bar> \<le> 2000"
  shows "\<exists>cs. Cells i = Some cs"
proof -
  have c: "cellIndex (Fin (of_int k)) = go_div k 512" if "\<bar>k\<bar> \<le> 4000" for k
    using that f_to_int_of_int [of k] by (simp add: cellIndex_def del: f_to_int.simps)
  have sum: "f_add (it_X i) (it_Width i) = Fin (of_int (x + 1200))" "f_add (it_Y i) (it_Height i) = Fin (of_int (y + 900))"
    using assms round64_int [of "x + 1200"] round64_int [of "y + 900"] by simp_all
  define dx where "dx = go_div (x + 1200) 512 - go_div x 512 + 3"
  define dy where "dy = go_div (y + 900) 512 - go_div y 512 + 3"
  have "\<bar>x + 1200\<bar> \<le> 4000" "\<bar>y + 900\<bar> \<le> 4000" "\<bar>x\<bar> \<le> 4000" "\<bar>y\<bar> \<le> 4000" using assms(5,6) by linarith+
  note b = this [THEN go_div_512]
  have d: "0 \<le> dx" "dx \<le> 19" "0 \<le> dy" "dy \<le> 19"
    using b go_div_mono [of 512 x "x + 1200"] go_div_mono [of 512 y "y + 900"] assms(5,6) by (auto simp: dx_def dy_def)
  have "0 \<le> dx * dy" "dx * dy \<le> 361" using d mult_mono [of dx 19 dy 19] by auto
  then have "makeslice_ok (wrap64 (dx * dy))" by (simp add: makeslice_ok_def wrap64_def)
  moreover have "cellIndex (f_add (it_X i) (it_Width i)) + 1 - (cellIndex (it_X i) - 1) + 1 = dx"
    "cellIndex (f_add (it_Y i) (it_Height i)) + 1 - (cellIndex (it_Y i) - 1) + 1 = dy"
    using sum assms c [of x] c [of y] c [of "x + 1200"] c [of "y + 900"] by (simp_all add: dx_def dy_def)
  ultimately show ?thesis using assms(3,4) by (simp add: Cells_def Let_def)
qed

text \<open>
  The viewport report a virtual user sends on opening does what the plan says. The server reads
  it without a panic; from then on it relays previews to that connection exactly if the plan did not
  mark the user as preview-off, for all four kinds, and an event at the user's own point of its page
  is of interest to it.
\<close>

theorem bench_viewport_honoured:
  assumes "validateOptions p = None" "makeAssignments p = Some xs" "a \<in> set xs"
    "index_wf idx" "viewport idx (cn_ID conn) = None"
  shows "\<exists>doc idx'. interest_payload_json a = Some doc \<and> interest_Update conn (marshal doc) (Some idx) = (False, Some idx') \<and>
    (\<forall>event \<in> set [''block.transform.preview'', ''ink.points'', ''cursor.moved'', ''laser.moved''].
       AllowsPreview (cn_ID conn) event (Some idx') = (\<not> as_previewOff a)) \<and>
    Interested (cn_ID conn) \<lparr>el_PageID = as_pageID a, el_HasPoint = True, el_X = as_x a, el_Y = as_y a\<rparr> (Some idx')"
proof -
  from assms(1-3) obtain k where a: "a = assign_user p k" by (auto simp: validated_makeAssignments)
  obtain i j where pt: "as_x a = Fin (of_int i)" "as_y a = Fin (of_int j)" "0 \<le> i" "i \<le> 2000" "0 \<le> j" "j \<le> 2000"
    using bench_point [of p k] by (auto simp: a)
  have page: "ascii (as_pageID a)" "as_pageID a \<noteq> []" using ascii_digits by (auto simp: a)
  obtain doc where doc: "interest_payload_json a = Some doc"
      "unmarshal dec_interest_payload interest_payload_zero (marshal doc) = (report_of a i j, False)"
    using interest_report_decoded [OF pt page(1)] by blast
  let ?i = "\<lparr>it_ConnectionID = cn_ID conn, it_NoteID = cn_NoteID conn, it_PageID = as_pageID a, it_X = Fin (of_int (i - 600)),
    it_Y = Fin (of_int (j - 450)), it_Width = Fin 1200, it_Height = Fin 900, it_Preview = toDomain (ip_Preview (report_of a i j))\<rparr>"
  have "\<bar>i - 600\<bar> \<le> 2000" "\<bar>j - 450\<bar> \<le> 2000" using pt by auto
  then obtain cs where "Cells ?i = Some cs" using report_cells [of ?i "i - 600" "j - 450"] by auto
  then obtain idx' where up: "index_Update ?i idx = (False, idx')" using assms(5) by (auto simp: index_Update_def)
  have upd: "interest_Update conn (marshal doc) (Some idx) = (False, Some idx')"
    using up page(2) by (simp add: interest_Update_def doc(2)) (simp add: report_of_def)
  have "viewport idx' (cn_ID conn) = Some ?i" using index_wf_Update(2) [OF assms(4), of ?i] up by simp
  then have prev: "AllowsPreview (cn_ID conn) event (Some idx') = (\<not> as_previewOff a)"
    if "event \<in> set [''block.transform.preview'', ''ink.points'', ''cursor.moved'', ''laser.moved'']" for event
    using that by (auto simp: AllowsPreview_def index_AllowsPreview_def interest_AllowsPreview_def toDomain_def report_of_def
        boolOr_def simp del: map_of_eq_Some_iff)
  have sums: "f_add (it_X ?i) (it_Width ?i) = Fin (of_int (i + 600))" "f_add (it_Y ?i) (it_Height ?i) = Fin (of_int (j + 450))"
    using round64_int [of "i + 600"] round64_int [of "j + 450"] pt by (simp_all add: add.commute)
  have range: "in_int_range (Fin (of_int n))" if "\<bar>n\<bar> \<le> 4000" for n
    using that by (simp add: in_int_range_def abs_le_iff)
  have "index_Interested (it_ConnectionID ?i) \<lparr>el_PageID = as_pageID a, el_HasPoint = True, el_X = as_x a, el_Y = as_y a\<rparr> idx'"
    by (rule memory_interest.visible_after_update [OF assms(4) up])
      (use pt sums range [of "i + 600"] range [of "j + 450"] range [of "i - 600"] range [of "j - 450"] in simp_all)
  then show ?thesis using doc(1) upd prev by (auto simp: Interested_def)
qed

definition bench_connection :: connection where
  "bench_connection = \<lparr>cn_ID = ''c1'', cn_SessionID = ''s1'', cn_UserID = ''bench-user-000007'', cn_NoteID = ''bench-note-000'',
     cn_ConnectedAt = 0, cn_Ref = 0\<rparr>"

theorem bench_viewport_honoured_witness:
  "\<exists>doc idx'. interest_payload_json (assign_user example_options 7) = Some doc \<and>
     interest_Update bench_connection (marshal doc) (Some NewMemoryInterestIndex) = (False, Some idx') \<and>
     AllowsPreview ''c1'' ''cursor.moved'' (Some idx') = (\<not> as_previewOff (assign_user example_options 7))"
proof -
  have xs: "makeAssignments example_options = Some (map (assign_user example_options) [0..<8])"
    using validated_makeAssignments [OF example_options_valid] by (simp add: example_options_def)
  show ?thesis
    using bench_viewport_honoured [OF example_options_valid xs, of "assign_user example_options 7" NewMemoryInterestIndex bench_connection]
    by (auto simp: NewMemoryInterestIndex_def [symmetric] bench_connection_def) (auto simp: NewMemoryInterestIndex_def)
qed

end
