(* ===== verification/Loadtest_Correct.thy ===== *)
theory Loadtest_Correct
  imports Loadtest_Run
begin

text \<open>
  What the load generator's numbers mean: its percentiles, the counters of a run under every
  schedule, and its agreement with the server on the wire.
\<close>

section \<open>Percentiles\<close>

text \<open>The index of a fraction among \<open>m + 1\<close> samples.\<close>

definition rank_index :: "nat \<Rightarrow> rat \<Rightarrow> int" where
  "rank_index m f = \<lfloor>rnd (rnd (of_nat m * f) + 1 / 2)\<rfloor>"

lemma rank_sum:
  assumes "m < 200000" "0 \<le> f" "f \<le> 1"
  shows "0 \<le> rnd (of_nat m * f)" "rnd (of_nat m * f) \<le> of_nat m"
proof -
  have "of_nat m * f \<le> of_nat m * 1" using assms by (intro mult_left_mono) auto
  then show "rnd (of_nat m * f) \<le> of_nat m"
    using representable_int [of "int m"] assms by (intro rnd_le_representable) auto
  show "0 \<le> rnd (of_nat m * f)" using assms by (simp add: rnd_nonneg)
qed

lemma rank_index_bounds:
  assumes "m < 200000" "0 \<le> f" "f \<le> 1"
  shows "0 \<le> rank_index m f" "rank_index m f < int (Suc m)"
proof -
  note b = rank_sum [OF assms]
  show "0 \<le> rank_index m f" using rnd_nonneg [of "rnd (of_nat m * f) + 1 / 2"] b by (simp add: rank_index_def)
  have "rnd (of_nat m * f) + 1 / 2 \<le> of_int (2 * int m + 1) / 2 ^ 1" using b by simp
  moreover have "representable (of_int (2 * int m + 1) / 2 ^ 1)"
    using assms by (intro representable_scaled) auto
  ultimately have "rnd (rnd (of_nat m * f) + 1 / 2) \<le> of_int (2 * int m + 1) / 2 ^ 1"
    by (rule rnd_le_representable)
  also have "\<dots> < of_int (int (Suc m))" by simp
  finally show "rank_index m f < int (Suc m)" by (simp add: rank_index_def floor_less_iff)
qed

lemma rank_index_mono: "f \<le> g \<Longrightarrow> rank_index m f \<le> rank_index m g"
  unfolding rank_index_def by (intro floor_mono rnd_mono add_right_mono mult_left_mono) auto

lemma percentile_index:
  assumes "length values = Suc m" "m < 200000" "0 \<le> f" "f \<le> 1"
  shows "percentile values (Fin f) = Some (values ! nat (rank_index m f))"
proof -
  note b = rank_sum [OF assms(2-4)] and r = rank_index_bounds [OF assms(2-4)]
  have "f_of_int (int m) = Fin (of_nat m)" using assms(2) f_of_int_exact [of "int m"] by simp
  moreover have small: "of_nat m \<le> (200000 :: rat)" using assms(2) of_nat_le_iff [of m 200000, where 'a = rat] by simp
  moreover have "of_nat m * f \<le> (200000 :: rat)"
    using mult_mono [of "of_nat m" 200000 f "1 :: rat"] small assms by simp
  ultimately have "f_add (f_mul (f_of_int (int m)) (Fin f)) (Fin (1 / 2)) = Fin (rnd (rnd (of_nat m * f) + 1 / 2))"
    using b assms(3) by (simp add: round64_small)
  moreover have "0 \<le> rnd (rnd (of_nat m * f) + 1 / 2)" using b by (intro rnd_nonneg) simp
  ultimately have "f_to_int (f_add (f_mul (f_of_int (int m)) (Fin f)) (Fin (1 / 2))) = rank_index m f"
    using r assms(2) unfolding rank_index_def by (simp add: Let_def trunc_rat_def) linarith
  moreover have "values \<noteq> []" using assms(1) by auto
  ultimately show ?thesis using r assms(1) by (simp add: percentile_def Let_def)
qed

text \<open>
  A fraction the report uses: a float64 between 0 and 1.
\<close>

lemma report_fraction:
  assumes "0 \<le> x" "x \<le> 1"
  shows "round64 x = Fin (rnd x)" "0 \<le> rnd x" "rnd x \<le> 1"
  using assms rnd_nonneg [of x] rnd_le_representable [of x 1] representable_int [of 1] round64_small [of x] by simp_all

lemma percentile_sorted:
  assumes "sorted values" "length values \<le> 200000" "0 \<le> x" "x \<le> y" "y \<le> 1"
  shows "\<exists>a b. percentile values (round64 x) = Some a \<and> percentile values (round64 y) = Some b \<and> a \<le> b \<and>
    (values \<noteq> [] \<longrightarrow> a \<in> set values \<and> b \<in> set values)"
proof (cases "values = []")
  case False
  then obtain m where m: "length values = Suc m" by (cases "values") auto
  with assms(2) have n: "m < 200000" by simp
  have x: "0 \<le> rnd x" "rnd x \<le> 1" "0 \<le> rnd y" "rnd y \<le> 1" "rnd x \<le> rnd y"
    using assms report_fraction [of x] report_fraction [of y] rnd_mono [of x y] by auto
  note rx = rank_index_bounds [OF n x(1,2)] and ry = rank_index_bounds [OF n x(3,4)]
  have "values ! nat (rank_index m (rnd x)) \<le> values ! nat (rank_index m (rnd y))"
    using rx ry m rank_index_mono [OF x(5), of m] by (intro sorted_nth_mono [OF assms(1)]) auto
  moreover have "values ! nat (rank_index m (rnd x)) \<in> set values" "values ! nat (rank_index m (rnd y)) \<in> set values"
    using rx ry m by simp_all
  ultimately show ?thesis
    using percentile_index [OF m n x(1,2)] percentile_index [OF m n x(3,4)] assms
    by (simp add: report_fraction(1))
qed (simp add: percentile_def)

section \<open>Finite figures\<close>

fun f_finite :: "float64 \<Rightarrow> bool" where
  "f_finite (Fin _) = True" | "f_finite _ = False"

lemma representable_power: "representable (2 ^ k)"
  unfolding representable_def by (intro exI [of _ 1] exI [of _ "int k"]) simp

lemma rnd_abs_le: "\<bar>x\<bar> \<le> 2 ^ k \<Longrightarrow> \<bar>rnd x\<bar> \<le> 2 ^ k"
  using rnd_le_representable [of x "2 ^ k"] rnd_ge_representable [of "- (2 ^ k)" x] representable_power [of k]
  by (auto simp: abs_le_iff)

lemma round64_bounded:
  assumes "\<bar>x\<bar> \<le> 2 ^ k" "k < 1024"
  shows "round64 x = Fin (rnd x)" "\<bar>rnd x\<bar> \<le> 2 ^ k"
proof -
  show le: "\<bar>rnd x\<bar> \<le> 2 ^ k" using rnd_abs_le [OF assms(1)] .
  have "(2 :: rat) ^ k < 2 ^ 1024" using assms(2) by (intro power_strict_increasing) simp_all
  with le have "\<bar>rnd x\<bar> < f_bound" unfolding f_bound_def by (rule order.strict_trans1)
  then show "round64 x = Fin (rnd x)" by (simp add: round64_def Let_def)
qed

text \<open>A count over a divisor that is not tiny.\<close>

lemma f_div_bounded:
  assumes "\<bar>a\<bar> \<le> 2 ^ m" "1 / 2 ^ k \<le> b" "m + k < 1024"
  shows "\<exists>c. f_div (Fin a) (Fin b) = Fin c \<and> \<bar>c\<bar> \<le> 2 ^ (m + k)"
proof -
  have b: "0 < b" by (rule order.strict_trans2 [OF _ assms(2)]) simp
  have "\<bar>a\<bar> / b \<le> 2 ^ m / (1 / 2 ^ k)" using assms(1,2) by (intro frac_le) simp_all
  with b have "\<bar>a / b\<bar> \<le> 2 ^ (m + k)" by (simp add: power_add)
  with round64_bounded [OF this assms(3)] b show ?thesis by simp
qed

lemma f_of_int_bounded: "\<bar>n\<bar> \<le> 2 ^ k \<Longrightarrow> k < 1024 \<Longrightarrow> \<exists>a. f_of_int n = Fin a \<and> \<bar>a\<bar> \<le> 2 ^ k"
proof -
  assume "\<bar>n\<bar> \<le> 2 ^ k" "k < 1024"
  then have "\<bar>of_int n :: rat\<bar> \<le> 2 ^ k" by (metis of_int_abs of_int_le_iff of_int_numeral of_int_power)
  from round64_bounded [OF this \<open>k < 1024\<close>] show ?thesis by (simp add: f_of_int_def)
qed

lemma latency_finite: "f_finite (latency_ms now sent)"
proof -
  have "\<bar>time_sub now sent\<bar> \<le> 2 ^ 63" by (auto simp: time_sub_def)
  moreover have "\<bar>go_div d 1000\<bar> \<le> \<bar>d\<bar>" for d by (simp add: go_div_pos) linarith
  ultimately have "\<bar>go_div (time_sub now sent) 1000\<bar> \<le> 2 ^ 63" by (rule order_trans [rotated])
  from f_of_int_bounded [OF this] obtain a where a: "f_of_int (go_div (time_sub now sent) 1000) = Fin a" "\<bar>a\<bar> \<le> 2 ^ 63" by auto
  from f_div_bounded [OF a(2), of 0 1000] show ?thesis by (auto simp: latency_ms_def a(1))
qed

section \<open>The counters of a run\<close>

definition recorded :: "run_state \<Rightarrow> int" where
  "recorded s = sum_list (map (\<lambda>(_, sent). int (length sent)) (rn_sentAt s))"

definition run_ok :: "run_state \<Rightarrow> bool" where
  "run_ok s \<longleftrightarrow> (let c = rn_counters s in
     gm_wf (rn_sentAt s) \<and> recorded s \<le> ct_previewSent c \<and> 0 \<le> ct_previewReceived c \<and>
     length (rn_latencies s) = min maxLatencies (nat (ct_previewReceived c)) \<and> list_all f_finite (rn_latencies s) \<and>
     0 \<le> ct_commitReceived c \<and> 0 \<le> ct_unexpectedMessages c \<and>
     ct_commitReceived c + ct_unexpectedMessages c \<le> ct_receiveMessages c \<and>
     0 \<le> ct_commitSent c \<and> ct_sendMessages c \<le> ct_previewSent c + ct_commitSent c \<and>
     0 \<le> ct_expectedCommitDeliveries c \<and>
     ct_expectedCommitDeliveries c \<le> ct_commitSent c * max 0 (int (length (rn_assignments s)) - 1))"

text \<open>The parts of the state that the measurement leaves alone.\<close>

definition same_run :: "run_state \<Rightarrow> run_state \<Rightarrow> bool" where
  "same_run s t \<longleftrightarrow> rn_opts t = rn_opts s \<and> rn_serverBefore t = rn_serverBefore s \<and> rn_assignments t = rn_assignments s \<and>
     ct_attempted (rn_counters t) = ct_attempted (rn_counters s) \<and> ct_opened (rn_counters t) = ct_opened (rn_counters s) \<and>
     ct_failures (rn_counters t) = ct_failures (rn_counters s) \<and> ct_closed (rn_counters t) = ct_closed (rn_counters s) \<and>
     ct_reconnects (rn_counters t) = ct_reconnects (rn_counters s)"

definition measured :: "run_state \<Rightarrow> run_state \<Rightarrow> bool" where
  "measured s t \<longleftrightarrow> same_run s t \<and> (run_ok s \<longrightarrow> run_ok t)"

lemma measured_refl [simp]: "measured s s"
  by (simp add: measured_def same_run_def)

lemma measured_trans: "measured s t \<Longrightarrow> measured t u \<Longrightarrow> measured s u"
  by (auto simp: measured_def same_run_def)

lemma recorded_put:
  assumes "gm_wf m"
  shows "sum_list (map (\<lambda>(_, sent). int (length sent)) (gm_put k (gm_put q t (gm_get [] k m)) m)) \<le>
    sum_list (map (\<lambda>(_, sent). int (length sent)) m) + 1"
  using assms
proof (induction m)
  case Nil
  then show ?case by (simp add: gm_put_def gm_get_def)
next
  case (Cons e m)
  have len: "length (gm_put q t xs) \<le> Suc (length xs)" for xs
    unfolding gm_put_def by (induction xs) auto
  obtain k' v where e: "e = (k', v)" by (cases e)
  show ?case
  proof (cases "k = k'")
    case True
    with len [of v] show ?thesis by (simp add: e gm_put_def gm_get_def)
  next
    case False
    with Cons show ?thesis by (simp add: e gm_put_def gm_get_def)
  qed
qed

lemma measured_recordSend: "measured s (recordSend user seq now s)"
  using recorded_put [of "rn_sentAt s" user seq now]
  by (auto simp: measured_def same_run_def run_ok_def Let_def recordSend_def bump_def recorded_def)

lemma measured_observePreview: "measured s (observePreview receiver actor seq now s)"
  by (auto simp: measured_def same_run_def run_ok_def Let_def observePreview_def bump_def recorded_def nat_add_distrib latency_finite
      split: option.splits)

lemma measured_unexpected: "run_ok s \<Longrightarrow> ct_commitReceived (rn_counters s) + ct_unexpectedMessages (rn_counters s) <
    ct_receiveMessages (rn_counters s) \<Longrightarrow> run_ok (bump (\<lambda>c. c\<lparr>ct_unexpectedMessages := ct_unexpectedMessages c + 1\<rparr>) s)"
  by (auto simp: run_ok_def Let_def bump_def recorded_def)

lemma measured_fold: "(\<And>x s. measured s (f x s)) \<Longrightarrow> measured s (fold f xs s)"
  by (induction xs arbitrary: s) (auto intro: measured_trans)

text \<open>A frame counts as received once, and then as unexpected or as a commit at most.\<close>

lemma measured_received:
  "measured s (bump (\<lambda>c. c\<lparr>ct_receiveMessages := ct_receiveMessages c + 1, ct_receiveBytes := ct_receiveBytes c + b\<rparr>) s)"
  "measured s (bump (\<lambda>c. c\<lparr>ct_unexpectedMessages := ct_unexpectedMessages c + 1\<rparr>)
     (bump (\<lambda>c. c\<lparr>ct_receiveMessages := ct_receiveMessages c + 1, ct_receiveBytes := ct_receiveBytes c + b\<rparr>) s))"
  "measured s (bump (\<lambda>c. c\<lparr>ct_commitReceived := ct_commitReceived c + 1\<rparr>)
     (bump (\<lambda>c. c\<lparr>ct_receiveMessages := ct_receiveMessages c + 1, ct_receiveBytes := ct_receiveBytes c + b\<rparr>) s))"
  by (auto simp: measured_def same_run_def run_ok_def Let_def bump_def recorded_def)

lemma measured_read_frame: "measured s (read_frame env now receiver frame s)"
  unfolding read_frame_def Let_def case_prod_unfold
  by (auto intro: measured_received measured_trans [OF measured_received(1)] measured_trans [OF measured_received(3)]
      measured_fold measured_observePreview split: option.split)

lemma sendRaw_assignment: "vu_assignment (snd (sendRaw env now ev pl eph bin sq u)) = vu_assignment u"
  by (auto simp: sendRaw_def Let_def split: option.splits prod.splits)

lemma measured_preview_sent:
  "measured s (count_sent n (recordSend user seq now s))"
  using recorded_put [of "rn_sentAt s" user seq now]
  by (auto simp: measured_def same_run_def run_ok_def Let_def recordSend_def bump_def recorded_def count_sent_def)

lemma measured_sendPreview: "measured s (snd (snd (sendPreview env now ev pl (u, s))))"
  unfolding sendPreview_def nextSeq_def
  by (auto simp: Let_def intro: measured_recordSend measured_preview_sent split: prod.split sum.split)

lemma sameNotePeers_bounds: "0 \<le> sameNotePeers nid s" "sameNotePeers nid s \<le> max 0 (int (length (rn_assignments s)) - 1)"
proof -
  define n where "n = length (filter (\<lambda>a. as_noteID a = nid) (rn_assignments s))"
  have n: "sameNotePeers nid s = (if n > 0 then int n - 1 else 0)" by (simp add: sameNotePeers_def Let_def n_def)
  have "n \<le> length (rn_assignments s)" by (simp add: n_def)
  with n show "sameNotePeers nid s \<le> max 0 (int (length (rn_assignments s)) - 1)" by auto
  show "0 \<le> sameNotePeers nid s" using n by auto
qed

lemma measured_commit_sent:
  "measured s (bump (\<lambda>c. c\<lparr>ct_commitSent := ct_commitSent c + 1,
      ct_expectedCommitDeliveries := ct_expectedCommitDeliveries c + sameNotePeers nid s\<rparr>) (count_sent n s))"
proof -
  have "x + sameNotePeers nid s \<le> (k + 1) * max 0 (int (length (rn_assignments s)) - 1)"
    if "x \<le> k * max 0 (int (length (rn_assignments s)) - 1)" for x k
    using that sameNotePeers_bounds(2) [of nid s] by (simp add: distrib_right)
  with sameNotePeers_bounds(1) [of nid s] show ?thesis
    by (auto simp: measured_def same_run_def run_ok_def Let_def bump_def recorded_def count_sent_def)
qed

lemma measured_sendCommit: "measured s (snd (snd (sendCommit env now i (u, s))))"
  unfolding sendCommit_def
  by (auto simp: Let_def intro: measured_commit_sent split: prod.split sum.split)

lemma measured_user_run: "measured s (snd (user_run env start tick (l, s)))"
  using measured_sendPreview [of s env _ _ _ "ul_user l"] measured_sendCommit [of s env _ _ "ul_user l"]
  by (auto simp: user_run_def Let_def case_prod_unfold split: user_tick.split)

lemma measured_load_event: "measured s (snd (load_event_step env start ev (ls, s)))"
  by (cases ev) (auto simp: Let_def case_prod_unfold measured_user_run measured_read_frame)

lemma length_load_event: "length (fst (load_event_step env start ev (ls, s))) = length ls"
  by (cases ev) (auto simp: Let_def case_prod_unfold)

lemma measured_load_events:
  "fold (load_event_step env start) evs (ls, s) = (ls', s') \<Longrightarrow> measured s s' \<and> length ls' = length ls"
proof (induction evs arbitrary: ls s)
  case (Cons e evs)
  obtain l1 s1 where e: "load_event_step env start e (ls, s) = (l1, s1)" by (cases "load_event_step env start e (ls, s)")
  with measured_load_event [of s env start e ls] length_load_event [of env start e ls s]
  have "measured s s1" "length l1 = length ls" by simp_all
  with Cons.IH [of l1 s1] Cons.prems e show ?case by (auto intro: measured_trans)
qed simp

definition connecting :: "nat \<Rightarrow> virtual_user list \<Rightarrow> run_state \<Rightarrow> bool" where
  "connecting n users s \<longleftrightarrow> ct_attempted (rn_counters s) = int n \<and> ct_opened (rn_counters s) = int (length users) \<and>
     ct_failures (rn_counters s) = int n - int (length users) \<and> ct_closed (rn_counters s) = 0 \<and> ct_reconnects (rn_counters s) = 0"

lemma connecting_step:
  assumes "connecting n users s" "run_ok s" "connect_user env (a, now) (users, s) = (users', s')"
  shows "connecting (Suc n) users' s' \<and> run_ok s' \<and> rn_serverBefore s' = rn_serverBefore s \<and> rn_opts s' = rn_opts s"
  using assms
  by (auto simp: connecting_def connect_user_def Let_def bump_def run_ok_def recorded_def split: sum.splits)

lemma read_frame_commits:
  "ct_commitSent (rn_counters (read_frame env now receiver frame s)) = ct_commitSent (rn_counters s) \<and>
   ct_expectedCommitDeliveries (rn_counters (read_frame env now receiver frame s)) = ct_expectedCommitDeliveries (rn_counters s)"
proof -
  have ob: "ct_commitSent (rn_counters (observePreview r a q t s)) = ct_commitSent (rn_counters s)"
    "ct_expectedCommitDeliveries (rn_counters (observePreview r a q t s)) = ct_expectedCommitDeliveries (rn_counters s)" for r a q t s
    by (auto simp: observePreview_def Let_def bump_def split: option.split)
  have fo: "ct_commitSent (rn_counters (fold (\<lambda>x. observePreview r (f x) (g x) t) xs s)) = ct_commitSent (rn_counters s)"
    "ct_expectedCommitDeliveries (rn_counters (fold (\<lambda>x. observePreview r (f x) (g x) t) xs s)) =
       ct_expectedCommitDeliveries (rn_counters s)" for r and f :: "relay_metadata \<Rightarrow> string" and g t xs s
    by (induction xs arbitrary: s) (simp_all add: ob)
  show ?thesis
    by (auto simp: read_frame_def Let_def case_prod_unfold fo ob split: option.split) (simp_all add: bump_def)
qed

lemma ramp_frames:
  "fold (ramp_frame env) fs (users, s) = (users', s') \<Longrightarrow> users' = users \<and> measured s s' \<and>
     ct_commitSent (rn_counters s') = ct_commitSent (rn_counters s) \<and>
     ct_expectedCommitDeliveries (rn_counters s') = ct_expectedCommitDeliveries (rn_counters s)"
proof (induction fs arbitrary: s)
  case Nil
  then show ?case by (simp add: measured_def same_run_def)
next
  case (Cons x fs)
  obtain i now frame where x: "x = (i, now, frame)" by (cases x)
  show ?case
  proof (cases "i < length users")
    case True
    let ?s = "read_frame env now (as_userID (vu_assignment (users ! i))) frame s"
    have "fold (ramp_frame env) fs (users, ?s) = (users', s')" using Cons.prems True by (simp add: x ramp_frame_def)
    from Cons.IH [OF this] show ?thesis
      using measured_read_frame [of s env now _ frame] read_frame_commits by (auto intro: measured_trans)
  next
    case False
    with Cons show ?thesis by (simp add: x ramp_frame_def)
  qed
qed

lemma join_user_step:
  assumes "join_user env (a, now, fs) (users, s) = (users', s')"
  obtains s1 where "connect_user env (a, now) (users, s) = (users', s1)" "measured s1 s'"
    "ct_commitSent (rn_counters s') = ct_commitSent (rn_counters s1)"
    "ct_expectedCommitDeliveries (rn_counters s') = ct_expectedCommitDeliveries (rn_counters s1)"
proof -
  obtain u1 s1 where c: "connect_user env (a, now) (users, s) = (u1, s1)" by (cases "connect_user env (a, now) (users, s)")
  with assms have "fold (ramp_frame env) fs (u1, s1) = (users', s')" by (simp add: join_user_def)
  from ramp_frames [OF this] c that show ?thesis by auto
qed

lemma connecting_join:
  assumes "connecting n users s" "run_ok s" "join_user env (a, now, fs) (users, s) = (users', s')"
  shows "connecting (Suc n) users' s' \<and> run_ok s' \<and> rn_serverBefore s' = rn_serverBefore s \<and> rn_opts s' = rn_opts s"
proof -
  obtain s1 where s1: "connect_user env (a, now) (users, s) = (users', s1)" "measured s1 s'"
    using join_user_step [OF assms(3)] by metis
  from connecting_step [OF assms(1,2) s1(1)] s1(2) show ?thesis
    by (auto simp: connecting_def measured_def same_run_def)
qed

lemma connecting_all:
  "fold (join_user env) xs (users, s) = (users', s') \<Longrightarrow> connecting n users s \<Longrightarrow> run_ok s \<Longrightarrow>
     connecting (n + length xs) users' s' \<and> run_ok s' \<and> rn_serverBefore s' = rn_serverBefore s \<and> rn_opts s' = rn_opts s"
proof (induction xs arbitrary: n users s)
  case (Cons x xs)
  obtain a now fs where x: "x = (a, now, fs)" by (cases x)
  obtain u1 s1 where st: "join_user env (a, now, fs) (users, s) = (u1, s1)" by (cases "join_user env (a, now, fs) (users, s)")
  from connecting_join [OF Cons.prems(2,3) st] Cons.IH [of u1 s1 "Suc n"] Cons.prems(1) show ?case by (simp add: x st)
qed simp

lemma run_ok_assignments:
  "run_ok s \<Longrightarrow> ct_commitSent (rn_counters s) = 0 \<Longrightarrow> ct_expectedCommitDeliveries (rn_counters s) = 0 \<Longrightarrow>
     run_ok (s\<lparr>rn_assignments := xs\<rparr>)"
  by (simp add: run_ok_def Let_def recorded_def)

lemma connect_user_commits:
  "ct_commitSent (rn_counters (snd (connect_user env x (users, s)))) = ct_commitSent (rn_counters s)"
  "ct_expectedCommitDeliveries (rn_counters (snd (connect_user env x (users, s)))) = ct_expectedCommitDeliveries (rn_counters s)"
  by (auto simp: connect_user_def Let_def bump_def split: prod.split sum.split)

lemma connect_users_commits:
  "fold (join_user env) xs (users, s) = (users', s') \<Longrightarrow>
     ct_commitSent (rn_counters s') = ct_commitSent (rn_counters s) \<and>
     ct_expectedCommitDeliveries (rn_counters s') = ct_expectedCommitDeliveries (rn_counters s)"
proof (induction xs arbitrary: users s)
  case (Cons x xs)
  obtain a now fs where x: "x = (a, now, fs)" by (cases x)
  obtain u1 s1 where st: "join_user env x (users, s) = (u1, s1)" by (cases "join_user env x (users, s)")
  obtain s2 where "connect_user env (a, now) (users, s) = (u1, s2)" "ct_commitSent (rn_counters s1) = ct_commitSent (rn_counters s2)"
      "ct_expectedCommitDeliveries (rn_counters s1) = ct_expectedCommitDeliveries (rn_counters s2)"
    using join_user_step [OF st [unfolded x]] by metis
  with connect_user_commits [of env "(a, now)" users s] Cons.IH [of u1 s1] Cons.prems st show ?case by simp
qed simp

lemma run_ok_metrics [simp]:
  "run_ok (s\<lparr>rn_serverBefore := b, rn_serverError := e\<rparr>) = run_ok s"
  "run_ok (s\<lparr>rn_serverAfter := b, rn_serverError := e\<rparr>) = run_ok s"
  by (simp_all add: run_ok_def recorded_def)

lemma run_ok_new: "run_ok (new_run_state p xs)" "connecting 0 [] (new_run_state p xs)"
  by (simp_all add: run_ok_def recorded_def new_run_state_def counters_zero_def connecting_def)

lemma run_ok_closed: "run_ok (bump (\<lambda>c. c\<lparr>ct_closed := ct_closed c + 1\<rparr>) s) = run_ok s"
  by (simp add: bump_def run_ok_def recorded_def Let_def)

lemma closing:
  "rn_counters (fold (\<lambda>_. bump (\<lambda>c. c\<lparr>ct_closed := ct_closed c + 1\<rparr>)) ls s) =
     (rn_counters s)\<lparr>ct_closed := ct_closed (rn_counters s) + int (length ls)\<rparr>"
  "run_ok (fold (\<lambda>_. bump (\<lambda>c. c\<lparr>ct_closed := ct_closed c + 1\<rparr>)) ls s) = run_ok s"
  "rn_serverBefore (fold (\<lambda>_. bump (\<lambda>c. c\<lparr>ct_closed := ct_closed c + 1\<rparr>)) ls s) = rn_serverBefore s"
  "rn_assignments (fold (\<lambda>_. bump (\<lambda>c. c\<lparr>ct_closed := ct_closed c + 1\<rparr>)) ls s) = rn_assignments s"
  "rn_opts (fold (\<lambda>_. bump (\<lambda>c. c\<lparr>ct_closed := ct_closed c + 1\<rparr>)) ls s) = rn_opts s"
proof (induction ls arbitrary: s)
  case (Cons l ls)
  { case 1 show ?case by (simp add: Cons.IH) (simp add: bump_def) }
  { case 2 show ?case by (simp add: Cons.IH run_ok_closed) }
  { case 3 show ?case by (simp add: Cons.IH) (simp add: bump_def) }
  { case 4 show ?case by (simp add: Cons.IH) (simp add: bump_def) }
  { case 5 show ?case by (simp add: Cons.IH) (simp add: bump_def) }
qed simp_all

section \<open>The report of a run\<close>

definition percentiles_ok :: "float64 list \<Rightarrow> observed_report \<Rightarrow> bool" where
  "percentiles_ok samples q \<longleftrightarrow> or_P50PreviewLatencyMs q \<le> or_P95PreviewLatencyMs q \<and>
     or_P95PreviewLatencyMs q \<le> or_P99PreviewLatencyMs q \<and>
     (samples \<noteq> [] \<longrightarrow> {or_P50PreviewLatencyMs q, or_P95PreviewLatencyMs q, or_P99PreviewLatencyMs q} \<subseteq> set samples)"

lemma makeReport_total:
  assumes "run_ok s"
  shows "\<exists>r. makeReport s start finish = Some r \<and> percentiles_ok (rn_latencies s) (rp_Observed r) \<and>
    (\<exists>sec p50 p95 p99. rp_Observed r = observed_of (rn_counters s) sec p50 p95 p99)"
proof -
  let ?v = "sort (rn_latencies s)"
  have v: "sorted ?v" "length ?v \<le> 200000" using assms by (simp_all add: run_ok_def Let_def)
  obtain a b where a: "percentile ?v (round64 (50 / 100)) = Some a" "percentile ?v (round64 (95 / 100)) = Some b" "a \<le> b"
      "?v \<noteq> [] \<longrightarrow> a \<in> set ?v \<and> b \<in> set ?v"
    using percentile_sorted [OF v, of "50 / 100" "95 / 100"] by auto
  obtain b' c where c: "percentile ?v (round64 (95 / 100)) = Some b'" "percentile ?v (round64 (99 / 100)) = Some c" "b' \<le> c"
      "?v \<noteq> [] \<longrightarrow> c \<in> set ?v"
    using percentile_sorted [OF v, of "95 / 100" "99 / 100"] by auto
  have bb: "b' = b" using a(2) c(1) by simp
  have ne: "?v \<noteq> [] \<longleftrightarrow> rn_latencies s \<noteq> []" by (metis length_0_conv length_sort)
  from a c bb ne show ?thesis
    unfolding makeReport_def Let_def
    by (intro exI [of _ "\<lparr>rp_GeneratedAt = finish, rp_Run = run_report_of (rn_opts s),
         rp_Observed = observed_of (rn_counters s) (report_seconds start finish) a b c,
         rp_Server = server_of (rn_serverBefore s) (rn_serverAfter s) (rn_serverError s) (report_seconds start finish)\<rparr>"] conjI)
      (auto simp: percentiles_ok_def observed_of_def simp del: sort_key_simps)
qed

text \<open>The state the report is made from.\<close>

lemma run_loadtest_state:
  assumes "validateOptions p = None" "loadPrivateKey (lw_key w) = None"
    "run_loadtest env p w \<noteq> Inl (LoadError ''no virtual users connected; check key, server address, and bootstrap limits'')"
  shows "\<exists>s. run_loadtest env p w = (case makeReport s (lw_start w) (lw_finish w) of
        None \<Rightarrow> Inl (LoadError ''panic'') | Some r \<Rightarrow> Inr r) \<and> run_ok s \<and> rn_opts s = p \<and>
      (let c = rn_counters s in ct_attempted c = lo_connections p \<and> ct_failures c = ct_attempted c - ct_opened c \<and>
         ct_closed c = ct_opened c \<and> 1 \<le> ct_opened c \<and> ct_opened c = int (length (rn_assignments s))) \<and>
      rn_serverBefore s = fst (fetchMetrics (lw_decodeError w) (lw_before w)) \<and>
      (rn_serverAfter s, rn_serverError s) = fetchMetrics (lw_decodeError w) (lw_after w)"
proof -
  obtain xs where xs: "makeAssignments p = Some xs" and len: "int (length xs) = lo_connections p"
    using validated_makeAssignments [OF assms(1)] validated(1) [OF assms(1)] by fastforce
  obtain b e where b: "fetchMetrics (lw_decodeError w) (lw_before w) = (b, e)"
    by (cases "fetchMetrics (lw_decodeError w) (lw_before w)")
  obtain a e2 where a: "fetchMetrics (lw_decodeError w) (lw_after w) = (a, e2)"
    by (cases "fetchMetrics (lw_decodeError w) (lw_after w)")
  define s0 where "s0 = (new_run_state p xs)\<lparr>rn_serverBefore := b, rn_serverError := e\<rparr>"
  obtain us s1 where us: "fold (join_user env) (zip xs (map (lw_openings w) [0..<length xs])) ([], s0) = (us, s1)"
    by (cases "fold (join_user env) (zip xs (map (lw_openings w) [0..<length xs])) ([], s0)")
  have "connecting 0 [] s0" "run_ok s0" using run_ok_new [of p xs] by (simp_all add: s0_def connecting_def)
  from connecting_all [OF us this] have conn: "connecting (length xs) us s1" and ok1: "run_ok s1" and b1: "rn_serverBefore s1 = b" "rn_opts s1 = p"
    by (simp_all add: s0_def new_run_state_def)
  have "ct_commitSent (rn_counters s0) = 0" "ct_expectedCommitDeliveries (rn_counters s0) = 0"
    by (simp_all add: s0_def new_run_state_def counters_zero_def)
  with connect_users_commits [OF us] have ok2: "run_ok (s1\<lparr>rn_assignments := map vu_assignment us\<rparr>)"
    by (intro run_ok_assignments ok1) simp_all
  define ls0 where "ls0 = map (\<lambda>u. \<lparr>ul_user = u, ul_index = 0, ul_running = as_active (vu_assignment u)\<rparr>) us"
  obtain ls s2 where ev: "fold (load_event_step env (lw_start w)) (lw_events w)
      (ls0, s1\<lparr>rn_assignments := map vu_assignment us\<rparr>) = (ls, s2)"
    by (cases "fold (load_event_step env (lw_start w)) (lw_events w) (ls0, s1\<lparr>rn_assignments := map vu_assignment us\<rparr>)")
  from measured_load_events [OF ev] have m: "measured (s1\<lparr>rn_assignments := map vu_assignment us\<rparr>) s2" "length ls = length us"
    by (simp_all add: ls0_def)
  let ?s = "(fold (\<lambda>_. bump (\<lambda>c. c\<lparr>ct_closed := ct_closed c + 1\<rparr>)) ls s2)\<lparr>rn_serverAfter := a, rn_serverError := e2\<rparr>"
  have ne: "us \<noteq> []"
    using assms(3) by (auto simp: run_loadtest_def assms(1,2) xs b us [unfolded s0_def] Let_def)
  have "run_loadtest env p w = (case makeReport ?s (lw_start w) (lw_finish w) of
        None \<Rightarrow> Inl (LoadError ''panic'') | Some r \<Rightarrow> Inr r)"
    using ne by (simp add: run_loadtest_def assms(1,2) xs b a us [unfolded s0_def] ev [unfolded ls0_def] Let_def)
  moreover have "run_ok ?s" using m(1) ok2 by (simp add: closing measured_def)
  moreover have "let c = rn_counters ?s in ct_attempted c = lo_connections p \<and> ct_failures c = ct_attempted c - ct_opened c \<and>
         ct_closed c = ct_opened c \<and> 1 \<le> ct_opened c \<and> ct_opened c = int (length (rn_assignments ?s))"
    using m conn ne len by (cases us) (auto simp: measured_def same_run_def connecting_def closing Let_def)
  moreover have "rn_serverBefore ?s = b" "rn_opts ?s = p" using m(1) b1 by (simp_all add: closing measured_def same_run_def)
  ultimately show ?thesis using a b by (intro exI [of _ ?s]) simp
qed

section \<open>Properties\<close>

text \<open>
  C37. Whatever the schedule of openings, ticks and arriving frames, a run that connects anyone ends with a report,
  without a panic, and its numbers are consistent: every requested connection was attempted and either
  opened or failed, every opened one was closed, the three percentiles are in order, a message was
  received for every commit and every unexpected frame that is reported, no more messages were sent
  than previews and commits, and the expected deliveries are at most one per commit and other user.
\<close>

theorem run_report_sound:
  assumes "validateOptions p = None" "loadPrivateKey (lw_key w) = None"
    "run_loadtest env p w \<noteq> Inl (LoadError ''no virtual users connected; check key, server address, and bootstrap limits'')"
  shows "\<exists>r. run_loadtest env p w = Inr r \<and> (let q = rp_Observed r in
     or_ConnectionsAttempted q = lo_connections p \<and>
     or_ConnectionsAttempted q = or_ConnectionsOpened q + or_ConnectionFailures q \<and>
     or_ConnectionsClosed q = or_ConnectionsOpened q \<and> 1 \<le> or_ConnectionsOpened q \<and>
     or_P50PreviewLatencyMs q \<le> or_P95PreviewLatencyMs q \<and> or_P95PreviewLatencyMs q \<le> or_P99PreviewLatencyMs q \<and>
     or_CommitsReceived q + or_UnexpectedMessages q \<le> or_LocalReceiveMessages q \<and>
     or_LocalSendMessages q \<le> or_PreviewSent q + or_CommitsSent q \<and>
     0 \<le> or_ExpectedCommitDeliveries q \<and>
     or_ExpectedCommitDeliveries q \<le> or_CommitsSent q * (or_ConnectionsOpened q - 1))"
proof -
  obtain s where s: "run_loadtest env p w = (case makeReport s (lw_start w) (lw_finish w) of
        None \<Rightarrow> Inl (LoadError ''panic'') | Some r \<Rightarrow> Inr r)" "run_ok s"
      "ct_attempted (rn_counters s) = lo_connections p"
      "ct_failures (rn_counters s) = ct_attempted (rn_counters s) - ct_opened (rn_counters s)"
      "ct_closed (rn_counters s) = ct_opened (rn_counters s)" "1 \<le> ct_opened (rn_counters s)"
      "ct_opened (rn_counters s) = int (length (rn_assignments s))"
    using run_loadtest_state [OF assms] unfolding Let_def by blast
  obtain r sec a b c where r: "makeReport s (lw_start w) (lw_finish w) = Some r" "percentiles_ok (rn_latencies s) (rp_Observed r)"
      "rp_Observed r = observed_of (rn_counters s) sec a b c"
    using makeReport_total [OF s(2)] by blast
  from s(2,6,7) have "max 0 (int (length (rn_assignments s)) - 1) = ct_opened (rn_counters s) - 1" by simp
  with s r show ?thesis
    by (intro exI [of _ r]) (simp add: run_ok_def observed_of_def percentiles_ok_def Let_def)
qed

definition bench_env :: load_env where
  "bench_env = \<lparr>le_render = (\<lambda>_. [123]), le_parse = (\<lambda>_. raw_nil), le_net = (\<lambda>_ _. True), le_sign = (\<lambda>_. Some ''token''),
     le_bootstrap = (\<lambda>_. HttpReply 200 ''200 OK'' [] (marshal (JObj [jmem ''sessionId'' (JStr ''s1''),
       jmem ''connectionTicket'' (JStr ''t1'')]))),
     le_dial = (\<lambda>_. Some \<lparr>lc_webTransport = False, lc_sent = [], lc_frames = [], lc_done = False\<rparr>)\<rparr>"

definition bench_schedule :: load_schedule where
  "bench_schedule = \<lparr>lw_key = ECKey ''P-256'', lw_before = NoReply ''refused'', lw_after = NoReply ''refused'', lw_decodeError = [],
     lw_openings = (\<lambda>_. (0, [])), lw_start = 0, lw_events = [UserTick 0 (CommitTick 5), UserTick 0 Stopped], lw_finish = Second\<rparr>"

lemma bench_sign: "le_sign bench_env c = Some ''token''"
  by (simp add: bench_env_def)

lemma bench_bootstrap: "bootstrap (le_bootstrap bench_env t) =
    Inr \<lparr>vb_SessionID = ''s1'', vb_ConnectionTicket = ''t1'', vb_WebSocketURL = [], vb_WebTransportURL = [], vb_NoteID = [],
      vb_BinaryVersion = 0\<rparr>"
  by (simp add: bootstrap_def bench_env_def json_defs dec_bootstrapResponse_def bootstrapResponse_zero_def EqualFold_def
      upper_char_def ascii_def)

lemma bench_opens: "\<exists>x y. as_x a = Fin x \<and> as_y a = Fin y \<and> \<bar>x\<bar> \<le> 2 ^ 40 \<and> \<bar>y\<bar> \<le> 2 ^ 40 \<Longrightarrow>
    \<exists>u. openVirtualUser bench_env q a now = Inr u"
  by (auto simp: openVirtualUser_def signToken_def bench_sign bench_bootstrap)
    (auto simp: bench_env_def sendRaw_def Let_def interest_payload_json_def f_sub_def round64_small load_write_def load_ws_write_def
      load_send_def)

theorem run_report_sound_witness:
  "\<exists>r. run_loadtest bench_env (example_options\<lparr>lo_connections := 1\<rparr>) bench_schedule = Inr r \<and>
     or_ConnectionsOpened (rp_Observed r) + or_ConnectionFailures (rp_Observed r) = 1"
proof -
  let ?p = "example_options\<lparr>lo_connections := 1\<rparr>"
  have v: "validateOptions ?p = None"
    by (simp add: example_options_def parseOptions_def flag_or_def validateOptions_def)
  obtain u where u: "openVirtualUser bench_env ?p (assign_user ?p 0) 0 = Inr u"
    using bench_opens [of "assign_user ?p 0" ?p 0]
    by (auto simp: assign_user_def placement_def Let_def example_options_def)
  have "run_loadtest bench_env ?p bench_schedule \<noteq>
      Inl (LoadError ''no virtual users connected; check key, server address, and bootstrap limits'')"
    using u by (auto simp: run_loadtest_def v validated_makeAssignments [OF v] bench_schedule_def loadPrivateKey_def
        join_user_def connect_user_def new_run_state_def bump_def fetchMetrics_def Let_def case_prod_unfold
        simp del: load_event_step.simps split: option.split)
  with run_report_sound [OF v, of bench_schedule bench_env] show ?thesis
    by (auto simp: bench_schedule_def loadPrivateKey_def Let_def)
qed

text \<open>
  The deliveries a commit is expected to cause are the deliveries the server makes: when the opened
  users of a note are the members of its room, the number added for a commit is the number of peers
  the relay hands it to.
\<close>

lemma length_others:
  "distinct (map f xs) \<Longrightarrow> x \<in> set xs \<Longrightarrow> length (filter (\<lambda>y. f y \<noteq> f x) xs) = length xs - 1"
proof (induction xs)
  case (Cons a xs)
  show ?case
  proof (cases "x = a")
    case True
    with Cons.prems(1) have "\<forall>y \<in> set xs. f y \<noteq> f x" by (metis distinct.simps(2) image_eqI list.map(2) set_map)
    with True show ?thesis by simp
  next
    case False
    with Cons.prems have "f a \<noteq> f x" "xs \<noteq> []" "x \<in> set xs" by auto
    with Cons show ?thesis by (cases xs) auto
  qed
qed simp

theorem expected_deliveries_are_peers:
  assumes "room_wf rooms" "ConnectionByID nid (cn_ID conn) rooms = Some conn"
    "length (filter (\<lambda>a. as_noteID a = nid) (rn_assignments s)) = RoomSize nid rooms"
  shows "sameNotePeers nid s = int (length (Peers nid (cn_ID conn) rooms))"
proof -
  let ?r = "room_of nid rooms"
  have m: "(cn_ID conn, conn) \<in> set ?r" using assms(2) by (auto simp: ConnectionByID_def dest: map_of_SomeD)
  have "distinct (map fst ?r)" using room_of_keyed [OF assms(1)] by (simp add: room_keyed_def)
  from length_others [OF this m] have "length (Peers nid (cn_ID conn) rooms) = RoomSize nid rooms - 1"
    by (simp add: Peers_def RoomSize_def case_prod_unfold)
  moreover have "0 < RoomSize nid rooms" using m by (cases ?r) (auto simp: RoomSize_def)
  ultimately show ?thesis using assms(3) by (simp add: sameNotePeers_def Let_def)
qed

section \<open>Where the tool falls short of its messages\<close>

text \<open>
  The message of the check on the active ratio says \<open>-1 or between 0 and 1\<close>; every value between -1
  and 0 is accepted as well, and gives the plan that -1 gives.
\<close>

lemma fractional_ratio_accepted:
  assumes "validateOptions p = None" "- 1 \<le> r" "r < 0"
  shows "validateOptions (p\<lparr>lo_activeRatio := Fin r\<rparr>) = None"
    and "makeAssignments (p\<lparr>lo_activeRatio := Fin r\<rparr>) = makeAssignments (p\<lparr>lo_activeRatio := Fin (- 1)\<rparr>)"
proof -
  show "validateOptions (p\<lparr>lo_activeRatio := Fin r\<rparr>) = None"
    using assms by (auto simp: validateOptions_def split: if_splits)
  have "active_drawers (p\<lparr>lo_activeRatio := Fin r\<rparr>) = active_drawers (p\<lparr>lo_activeRatio := Fin (- 1)\<rparr>)"
    using assms(3) by (simp add: active_drawers_def active_ratio_def)
  moreover have "placement (p\<lparr>lo_activeRatio := x\<rparr>) = placement p" "cohort_of (p\<lparr>lo_activeRatio := x\<rparr>) = cohort_of p"
    "preview_off (p\<lparr>lo_activeRatio := x\<rparr>) = preview_off p" for x
    by (simp_all add: placement_def cohort_of_def preview_off_def off_quota_def fun_eq_iff Let_def)
  ultimately show "makeAssignments (p\<lparr>lo_activeRatio := Fin r\<rparr>) = makeAssignments (p\<lparr>lo_activeRatio := Fin (- 1)\<rparr>)"
    by (simp add: makeAssignments_def assign_user_def)
qed

text \<open>A preview rate so small that the interval leaves the range of a duration previews every millisecond.\<close>

lemma tiny_rate_floods: "preview_interval (Fin (1 / 2 ^ 40)) = Millisecond"
proof -
  have "(1099511627776000000000 :: rat) = of_int 1000000000 * 2 powi 40" by (simp add: power_int_def)
  then have "representable 1099511627776000000000"
    unfolding representable_def by (intro exI [of _ 1000000000] exI [of _ 40]) (simp del: power_int_numeral)
  then have "round64 1099511627776000000000 = Fin 1099511627776000000000"
    by (rule round64_representable [rotated]) (simp add: f_bound_def)
  then show ?thesis by (simp add: preview_interval_def Let_def trunc_rat_def)
qed

text \<open>
  A failure to read the metrics before the run is forgotten when they can be read after it: the report
  then shows no error, and its server figures count from zero.
\<close>

lemma first_metrics_error_forgotten:
  assumes "fetchMetrics (lw_decodeError w) (lw_before w) = (metrics_snapshot_zero, err)" "err \<noteq> []"
    "fetchMetrics (lw_decodeError w) (lw_after w) = (after, [])"
    "validateOptions p = None" "loadPrivateKey (lw_key w) = None" "run_loadtest env p w = Inr r"
  shows "sp_MetricsError (rp_Server r) = []" "sp_DroppedEphemeral (rp_Server r) = ms_DroppedEphemeral after"
proof -
  obtain s where s: "run_loadtest env p w = (case makeReport s (lw_start w) (lw_finish w) of
        None \<Rightarrow> Inl (LoadError ''panic'') | Some r \<Rightarrow> Inr r)" "rn_serverBefore s = metrics_snapshot_zero"
      "rn_serverAfter s = after" "rn_serverError s = []"
    using run_loadtest_state [OF assms(4,5), of env] assms(1,3,6) by auto
  then obtain sec where "rp_Server r = server_of metrics_snapshot_zero after [] sec"
    using assms(6) by (auto simp: makeReport_def Let_def split: option.splits bind_splits)
  then show "sp_MetricsError (rp_Server r) = []" "sp_DroppedEphemeral (rp_Server r) = ms_DroppedEphemeral after"
    by (simp_all add: server_of_def metrics_snapshot_zero_def Let_def)
qed

text \<open>
  The context is made before the users connect and leaves two minutes for that: a longer ramp cuts
  the measurement off before it ends.
\<close>

lemma ramp_outlasts_context:
  "0 \<le> lo_connectRamp p \<Longrightarrow> 0 \<le> lo_interestSettle p \<Longrightarrow>
     context_deadline p created < earliest_drain_end p created \<longleftrightarrow>
     lo_connections p * lo_connectRamp p + lo_interestSettle p > 2 * Minute"
  by (auto simp: context_deadline_def earliest_drain_end_def max_def)

end
