(* ===== verification/Loadtest_Report.thy ===== *)
theory Loadtest_Report
  imports Loadtest_Run Loadtest_Correct Metrics_Endpoint
begin

text \<open>
  The report of the load generator on disk (\<open>cmd/loadtest/main.go\<close>): the JSON document, the markdown page,
  the two files \<open>writeReport\<close> writes, and the end of \<open>run\<close>. The formatting verbs \<open>%s\<close>, \<open>%d\<close> and \<open>%.nf\<close>, \<open>Duration.String\<close>,
  the UTC time stamp and \<open>filepath.Ext\<close> are the library's, for Unix paths. The version of the
  Go runtime and the success of each file operation are the environment's. A negative zero is printed
  without its sign.
\<close>

section \<open>Formatting\<close>

text \<open>The verb \<open>%.nf\<close>: the nearest decimal with that many places, ties to even.\<close>

definition fixed_pos :: "nat \<Rightarrow> rat \<Rightarrow> string" where
  "fixed_pos prec x = (let n = nat (round_half_even (x * 10 ^ prec)) in
     if prec = 0 then nat_dec n else nat_dec (n div 10 ^ prec) @ ''.'' @ pad_dec prec (n mod 10 ^ prec))"

fun fixed :: "nat \<Rightarrow> float64 \<Rightarrow> string" where
  "fixed prec (Fin x) = (if x < 0 then CHR ''-'' # fixed_pos prec (- x) else fixed_pos prec x)"
| "fixed prec (Inf negative) = (if negative then ''-Inf'' else ''+Inf'')"
| "fixed prec NaN = ''NaN''"

text \<open>The decimals of a duration, without trailing zeros, and the duration as text.\<close>

definition frac_text :: "nat \<Rightarrow> nat \<Rightarrow> string" where
  "frac_text prec v = (let ds = rev (dropWhile (\<lambda>c. c = CHR ''0'') (rev (pad_dec prec (v mod 10 ^ prec)))) in
     if ds = [] then [] else CHR ''.'' # ds)"

definition duration_text :: "nat \<Rightarrow> string" where
  "duration_text u =
     (if u = 0 then ''0s''
      else if u < 1000 then nat_dec u @ ''ns''
      else if u < 1000000 then nat_dec (u div 1000) @ frac_text 3 u @ [CHR 0xC2, CHR 0xB5, CHR ''s'']
      else if u < 1000000000 then nat_dec (u div 1000000) @ frac_text 6 u @ ''ms''
      else let sec = u div 1000000000; minutes = sec div 60; hours = minutes div 60 in
        (if hours > 0 then nat_dec hours @ ''h'' else []) @ (if minutes > 0 then nat_dec (minutes mod 60) @ ''m'' else []) @
        nat_dec (sec mod 60) @ frac_text 9 u @ ''s'')"

definition Duration_String :: "duration \<Rightarrow> string" where
  "Duration_String d = (if d < 0 then CHR ''-'' # duration_text (nat (- d)) else duration_text (nat d))"

text \<open>
  The civil date of a day since 1970-01-01 in the Gregorian calendar, counted in eras of 400 years that
  start in March, and the time stamp \<open>2006-01-02T15:04:05Z\<close>.
\<close>

definition civil_of_days :: "int \<Rightarrow> int \<times> int \<times> int" where
  "civil_of_days days = (let
     z = days + 719468; era = z div 146097; doe = z mod 146097;
     yoe = (doe - doe div 1460 + doe div 36524 - doe div 146096) div 365;
     doy = doe - (365 * yoe + yoe div 4 - yoe div 100);
     mp = (5 * doy + 2) div 153;
     month = (if mp < 10 then mp + 3 else mp - 9)
   in (yoe + era * 400 + (if month \<le> 2 then 1 else 0), month, doy - (153 * mp + 2) div 5 + 1))"

definition FormatRFC3339 :: "time \<Rightarrow> string" where
  "FormatRFC3339 t = (let sec = t div Second; (year, month, day) = civil_of_days (sec div 86400); s = nat (sec mod 86400) in
     pad_dec 4 (nat year) @ ''-'' @ pad_dec 2 (nat month) @ ''-'' @ pad_dec 2 (nat day) @ ''T'' @
     pad_dec 2 (s div 3600) @ '':'' @ pad_dec 2 (s div 60 mod 60) @ '':'' @ pad_dec 2 (s mod 60) @ ''Z'')"

section \<open>The markdown page\<close>

definition unlines :: "string list \<Rightarrow> string" where
  "unlines ls = concat (map (\<lambda>l. l @ [CHR 0x0A]) ls)"

definition markdown_run :: "string \<Rightarrow> report \<Rightarrow> string list" where
  "markdown_run goVersion r = (let p = rp_Run r; q = rp_Observed r in
     [''# Canvas realtime load-test report'',
      [],
      ''Generated: '' @ FormatRFC3339 (rp_GeneratedAt r) @ ''  '',
      ''Go: '' @ goVersion,
      [],
      ''## Run'',
      [],
      ''| Field | Value |'',
      ''|---|---:|'',
      ''| Transport | '' @ rr_Transport p @ '' |'',
      ''| Encoding | '' @ rr_Encoding p @ '' |'',
      ''| Scenario | '' @ rr_Scenario p @ '' |'',
      ''| Connections requested/opened | '' @ FormatInt (rr_Connections p) @ '' / '' @ FormatInt (or_ConnectionsOpened q) @ '' |'',
      ''| Duration | '' @ Duration_String (rr_Duration p) @ '' |'',
      ''| Preview rate | '' @ fixed 2 (rr_PreviewRate p) @ ''/s per active drawer |'',
      ''| Preview-off users | '' @ fixed 0 (f_mul (rr_PreviewOffRatio p) (Fin 100)) @ ''% |'',
      []])"

definition markdown_results :: "observed_report \<Rightarrow> string list" where
  "markdown_results q =
     [''## Results'',
      [],
      ''| Metric | Value |'',
      ''|---|---:|'',
      ''| Preview latency p50 | '' @ fixed 2 (or_P50PreviewLatencyMs q) @ '' ms |'',
      ''| Preview latency p95 | '' @ fixed 2 (or_P95PreviewLatencyMs q) @ '' ms |'',
      ''| Preview latency p99 | '' @ fixed 2 (or_P99PreviewLatencyMs q) @ '' ms |'',
      ''| Messages/sec | '' @ fixed 2 (or_MessagesPerSecond q) @ '' |'',
      ''| Incoming bandwidth | '' @ fixed 2 (or_IncomingBytesPerSecond q) @ '' B/s |'',
      ''| Outgoing bandwidth | '' @ fixed 2 (or_OutgoingBytesPerSecond q) @ '' B/s |'',
      ''| Bandwidth/user | '' @ fixed 2 (or_BytesPerUser q) @ '' B/s |'',
      ''| Preview sent / received | '' @ FormatInt (or_PreviewSent q) @ '' / '' @ FormatInt (or_PreviewReceived q) @ '' |'',
      ''| Commits sent / received | '' @ FormatInt (or_CommitsSent q) @ '' / '' @ FormatInt (or_CommitsReceived q) @ '' |'',
      ''| Expected commit deliveries | '' @ FormatInt (or_ExpectedCommitDeliveries q) @ '' |'',
      ''| Reliable commit delivery rate | '' @ fixed 2 (f_mul (or_FinalCommitDeliveryRate q) (Fin 100)) @ ''% |'',
      ''| Connection failures | '' @ FormatInt (or_ConnectionFailures q) @ '' |'',
      ''| Reconnects | '' @ FormatInt (or_Reconnects q) @ '' |'',
      []]"

definition markdown_server :: "server_report \<Rightarrow> string list" where
  "markdown_server s =
     [''## Go server observations'',
      [],
      ''| Metric | Value |'',
      ''|---|---:|'',
      ''| Server messages/sec | '' @ fixed 2 (sp_MessagesPerSecond s) @ '' |'',
      ''| Server incoming bandwidth | '' @ fixed 2 (sp_IncomingBytesPerSecond s) @ '' B/s |'',
      ''| Server outgoing bandwidth | '' @ fixed 2 (sp_OutgoingBytesPerSecond s) @ '' B/s |'',
      ''| Recipients/event | '' @ fixed 2 (sp_RecipientsPerEvent s) @ '' |'',
      ''| Interest-filtered frames | '' @ FormatInt (sp_InterestFiltered s) @ '' |'',
      ''| Dropped ephemeral frames | '' @ FormatInt (sp_DroppedEphemeral s) @ '' |'',
      ''| Reliable overflows | '' @ FormatInt (sp_ReliableOverflow s) @ '' |'',
      ''| Max queue depth | '' @ FormatInt (sp_QueueDepthMax s) @ '' |'',
      []]"

definition markdown_prose :: "string list" where
  "markdown_prose =
     [''CPU/RAM are intentionally not fabricated by this runner. Capture them with scripts/run-load-test.ps1 or an OS profiler.'',
      [],
      ''## Interpretation'',
      [],
      ''This is one Go instance with in-memory stores. It describes this exact machine, build, network and scenario; it is not a universal capacity guarantee. It does **not** claim support for 500 simultaneous same-viewport drawers. Publish a capacity only after running 100/500/1000 users across all required scenarios and reviewing browser FPS/main-thread time as well as server results.'',
      [],
      ''WebRTC small-room results are excluded because a signaling path is not a browser ICE/DataChannel benchmark. WebTransport and Go WebSocket are comparable when the WT listener is TLS-enabled and the same scenario/settings are used.'',
      [],
      ''Raw counters are in the sibling JSON file.'',
      []]"

definition renderMarkdown :: "string \<Rightarrow> report \<Rightarrow> string" where
  "renderMarkdown goVersion r =
     unlines (markdown_run goVersion r @ markdown_results (rp_Observed r) @ markdown_server (rp_Server r) @ markdown_prose)"

definition printSummary :: "report \<Rightarrow> string" where
  "printSummary r = (let p = rp_Run r; q = rp_Observed r in
     ''scenario='' @ rr_Scenario p @ '' transport='' @ rr_Transport p @ '' encoding='' @ rr_Encoding p @
     '' opened='' @ FormatInt (or_ConnectionsOpened q) @ ''/'' @ FormatInt (rr_Connections p) @
     '' p50='' @ fixed 2 (or_P50PreviewLatencyMs q) @ ''ms p95='' @ fixed 2 (or_P95PreviewLatencyMs q) @
     ''ms p99='' @ fixed 2 (or_P99PreviewLatencyMs q) @ ''ms commits='' @ FormatInt (or_CommitsReceived q) @ ''/'' @
     FormatInt (or_ExpectedCommitDeliveries q) @ [CHR 0x0A])"

section \<open>The JSON document\<close>

text \<open>Fields without a tag are encoded under their own names. A float that is not finite cannot be encoded.\<close>

definition metricsSnapshot_json :: "metrics_snapshot \<Rightarrow> json option" where
  "metricsSnapshot_json m = do {
     perEvent \<leftarrow> jfloat (ms_InterestRecipientsPerEvent m);
     Some (JObj
       [jmem ''activeSessions'' (jint (ms_ActiveSessions m)), jmem ''activeConnections'' (jint (ms_ActiveConnections m)),
        jmem ''activeRooms'' (jint (ms_ActiveRooms m)), jmem ''messagesInTotal'' (jint (ms_MessagesIn m)),
        jmem ''messagesOutTotal'' (jint (ms_MessagesOut m)), jmem ''incomingBytesTotal'' (jint (ms_IncomingBytes m)),
        jmem ''outgoingBytesTotal'' (jint (ms_OutgoingBytes m)), jmem ''droppedEphemeralTotal'' (jint (ms_DroppedEphemeral m)),
        jmem ''reliableOverflowTotal'' (jint (ms_ReliableOverflow m)), jmem ''reliableQueueDepthMax'' (jint (ms_ReliableQueueDepthMax m)),
        jmem ''ephemeralQueueDepthMax'' (jint (ms_EphemeralQueueDepthMax m)), jmem ''interestRecipientsPerEvent'' perEvent,
        jmem ''interestFilteredRecipientsTotal'' (jint (ms_InterestFiltered m))])
   }"

definition runReport_json :: "run_report \<Rightarrow> json option" where
  "runReport_json p = do {
     previewRate \<leftarrow> jfloat (rr_PreviewRate p); off \<leftarrow> jfloat (rr_PreviewOffRatio p); active \<leftarrow> jfloat (rr_ActiveRatio p);
     Some (JObj
       [jmem ''BaseURL'' (JStr (rr_BaseURL p)), jmem ''Transport'' (JStr (rr_Transport p)), jmem ''Encoding'' (JStr (rr_Encoding p)),
        jmem ''Scenario'' (JStr (rr_Scenario p)), jmem ''Connections'' (jint (rr_Connections p)),
        jmem ''Duration'' (JStr (Duration_String (rr_Duration p))), jmem ''PreviewRate'' previewRate, jmem ''PreviewOffRatio'' off,
        jmem ''ActiveRatio'' active, jmem ''ActiveDrawers'' (jint (rr_ActiveDrawers p)), jmem ''Canvases'' (jint (rr_Canvases p)),
        jmem ''Pages'' (jint (rr_Pages p))])
   }"

definition observedReport_json :: "observed_report \<Rightarrow> json option" where
  "observedReport_json q = do {
     p50 \<leftarrow> jfloat (or_P50PreviewLatencyMs q); p95 \<leftarrow> jfloat (or_P95PreviewLatencyMs q); p99 \<leftarrow> jfloat (or_P99PreviewLatencyMs q);
     messages \<leftarrow> jfloat (or_MessagesPerSecond q); incoming \<leftarrow> jfloat (or_IncomingBytesPerSecond q);
     outgoing \<leftarrow> jfloat (or_OutgoingBytesPerSecond q); perUser \<leftarrow> jfloat (or_BytesPerUser q);
     delivery \<leftarrow> jfloat (or_FinalCommitDeliveryRate q);
     Some (JObj
       [jmem ''ConnectionsAttempted'' (jint (or_ConnectionsAttempted q)), jmem ''ConnectionsOpened'' (jint (or_ConnectionsOpened q)),
        jmem ''ConnectionFailures'' (jint (or_ConnectionFailures q)), jmem ''ConnectionsClosed'' (jint (or_ConnectionsClosed q)),
        jmem ''Reconnects'' (jint (or_Reconnects q)), jmem ''LocalSendMessages'' (jint (or_LocalSendMessages q)),
        jmem ''LocalReceiveMessages'' (jint (or_LocalReceiveMessages q)), jmem ''LocalSendBytes'' (jint (or_LocalSendBytes q)),
        jmem ''LocalReceiveBytes'' (jint (or_LocalReceiveBytes q)), jmem ''PreviewSent'' (jint (or_PreviewSent q)),
        jmem ''PreviewReceived'' (jint (or_PreviewReceived q)), jmem ''CommitsSent'' (jint (or_CommitsSent q)),
        jmem ''CommitsReceived'' (jint (or_CommitsReceived q)), jmem ''ExpectedCommitDeliveries'' (jint (or_ExpectedCommitDeliveries q)),
        jmem ''UnexpectedMessages'' (jint (or_UnexpectedMessages q)), jmem ''P50PreviewLatencyMs'' p50, jmem ''P95PreviewLatencyMs'' p95,
        jmem ''P99PreviewLatencyMs'' p99, jmem ''MessagesPerSecond'' messages, jmem ''IncomingBytesPerSecond'' incoming,
        jmem ''OutgoingBytesPerSecond'' outgoing, jmem ''BytesPerUser'' perUser, jmem ''FinalCommitDeliveryRate'' delivery])
   }"

text \<open>The two samples \<open>CPUPercent\<close> and \<open>RAMBytes\<close> are never set, so they are omitted.\<close>

definition serverReport_json :: "server_report \<Rightarrow> json option" where
  "serverReport_json s = do {
     before \<leftarrow> metricsSnapshot_json (sp_MetricsBefore s); after \<leftarrow> metricsSnapshot_json (sp_MetricsAfter s);
     messages \<leftarrow> jfloat (sp_MessagesPerSecond s); incoming \<leftarrow> jfloat (sp_IncomingBytesPerSecond s);
     outgoing \<leftarrow> jfloat (sp_OutgoingBytesPerSecond s); recipients \<leftarrow> jfloat (sp_RecipientsPerEvent s);
     Some (JObj (
       [jmem ''metricsBefore'' before, jmem ''metricsAfter'' after, jmem ''MessagesPerSecond'' messages,
        jmem ''IncomingBytesPerSecond'' incoming, jmem ''OutgoingBytesPerSecond'' outgoing, jmem ''RecipientsPerEvent'' recipients,
        jmem ''DroppedEphemeral'' (jint (sp_DroppedEphemeral s)), jmem ''ReliableOverflow'' (jint (sp_ReliableOverflow s)),
        jmem ''InterestFiltered'' (jint (sp_InterestFiltered s)), jmem ''QueueDepthMax'' (jint (sp_QueueDepthMax s))] @
       (if sp_MetricsError s = [] then [] else [jmem ''metricsError'' (JStr (sp_MetricsError s))])))
   }"

definition report_notes :: "string list" where
  "report_notes =
     [''CPU/RAM are not inferred from load-generator counters; use scripts/run-load-test.ps1 or an OS monitor and attach samples.'',
      ''Commit correctness measures reliable Go relay delivery to expected connected peers, not .NET/PostgreSQL canonical persistence.'',
      ''WebRTC is intentionally not measured by this Go runner; use a real browser ICE/DataChannel run and keep its result separate.'']"

definition report_json :: "string \<Rightarrow> report \<Rightarrow> json option" where
  "report_json goVersion r = do {
     run \<leftarrow> runReport_json (rp_Run r); observed \<leftarrow> observedReport_json (rp_Observed r); server \<leftarrow> serverReport_json (rp_Server r);
     Some (JObj
       [jmem ''generatedAt'' (JStr (FormatRFC3339 (rp_GeneratedAt r))), jmem ''goVersion'' (JStr goVersion), jmem ''run'' run,
        jmem ''observed'' observed, jmem ''server'' server, jmem ''notes'' (JArr (map JStr report_notes))])
   }"

section \<open>The files\<close>

text \<open>The extension of the last element of a Unix path, from its last dot, and the path of the JSON file.\<close>

definition Ext :: "string \<Rightarrow> string" where
  "Ext path = (let base = takeWhile (\<lambda>c. c \<noteq> CHR ''/'') (rev path) in
     if CHR ''.'' \<in> set base then CHR ''.'' # rev (takeWhile (\<lambda>c. c \<noteq> CHR ''.'') base) else [])"

definition json_path :: "string \<Rightarrow> string" where
  "json_path path = take (length path - length (Ext path)) path @ ''.json''"

text \<open>
  The files of the disk by their paths. A JSON file holds the indented document and a newline. The environment
  says which writes fail, and what a failed write leaves of the file.
\<close>

datatype file_content = JsonFile json | TextFile string

type_synonym disk = "string \<rightharpoonup> file_content"

definition os_WriteFile :: "(string \<Rightarrow> file_content option option) \<Rightarrow> string \<Rightarrow> file_content \<Rightarrow> disk \<Rightarrow> load_error option \<times> disk" where
  "os_WriteFile fails path c d = (case fails path of
     None \<Rightarrow> (None, d(path \<mapsto> c)) | Some left \<Rightarrow> (Some LibraryError, d(path := left)))"

definition writeReport ::
  "(string \<Rightarrow> file_content option option) \<Rightarrow> string \<Rightarrow> string \<Rightarrow> report \<Rightarrow> disk \<Rightarrow> load_error option \<times> disk" where
  "writeReport fails goVersion path r d = (case report_json goVersion r of
     None \<Rightarrow> (Some LibraryError, d)
   | Some encoded \<Rightarrow> (case os_WriteFile fails (json_path path) (JsonFile encoded) d of
       (Some err, d) \<Rightarrow> (Some err, d)
     | (None, d) \<Rightarrow> os_WriteFile fails path (TextFile (renderMarkdown goVersion r)) d))"

text \<open>
  The whole program: the exit status, what it prints on the standard output, and the disk. A panic ends
  with status 2, an error of \<open>run\<close> with status 1.
\<close>

definition finish_run ::
  "(string \<Rightarrow> file_content option option) \<Rightarrow> string \<Rightarrow> options \<Rightarrow> report \<Rightarrow> disk \<Rightarrow> (load_error, string) outcome \<times> disk" where
  "finish_run fails goVersion p r d =
     (case (if lo_report p \<noteq> [] then writeReport fails goVersion (lo_report p) r d else (None, d)) of
        (Some err, d) \<Rightarrow> (Inl err, d)
      | (None, d) \<Rightarrow> (Inr (printSummary r), d))"

definition load_main ::
  "(string \<Rightarrow> file_content option option) \<Rightarrow> string \<Rightarrow> load_env \<Rightarrow> options \<Rightarrow> load_schedule \<Rightarrow> disk \<Rightarrow> (nat \<times> string) \<times> disk" where
  "load_main fails goVersion env p w d =
     (case (case run_loadtest env p w of Inl err \<Rightarrow> (Inl err, d) | Inr r \<Rightarrow> finish_run fails goVersion p r d) of
        (Inl err, d) \<Rightarrow> ((if err = LoadError ''panic'' then 2 else 1, []), d)
      | (Inr out, d) \<Rightarrow> ((0, out), d))"

section \<open>The figures of a report are finite\<close>

definition snapshot_ok :: "metrics_snapshot \<Rightarrow> bool" where
  "snapshot_ok m \<longleftrightarrow> f_finite (ms_InterestRecipientsPerEvent m) \<and> list_all int64_ok
     [ms_MessagesIn m, ms_MessagesOut m, ms_IncomingBytes m, ms_OutgoingBytes m]"

lemma dec_struct_inv:
  assumes "\<And>k n v a. P a \<Longrightarrow> P (fst (f k n v a))" "P old"
  shows "P (fst (dec_struct f v old))"
proof -
  have "P a \<Longrightarrow> P (fst (fold (\<lambda>(k, n, x) (a, e). let (a', e') = f k n x a in (a', e \<or> e')) ms (a, e)))" for ms a e
    by (induction ms arbitrary: a e) (auto simp: Let_def case_prod_unfold assms(1))
  with assms(2) show ?thesis by (simp add: dec_struct_def split: json.split)
qed

lemma dec_int64_range: "int64_ok old \<Longrightarrow> int64_ok (fst (dec_int64 v old))"
  by (auto simp: dec_int_range_def le_floor_iff floor_le_iff split: json.split)

lemma dec_float_finite: "f_finite old \<Longrightarrow> f_finite (fst (dec_float v old))"
  by (auto simp: dec_float_def split: json.split float64.split)

lemma fetched_ok: "snapshot_ok (fst (fetchMetrics e resp))"
proof -
  have "snapshot_ok (fst (metrics_member k n v m))" if "snapshot_ok m" for k n v m
    using that dec_int64_range [of _ v] dec_float_finite [of _ v]
    by (simp add: metrics_member_def snapshot_ok_def Let_def case_prod_unfold)
  then have "snapshot_ok (fst (dec_metrics_snapshot v m))" if "snapshot_ok m" for v m
    unfolding dec_metrics_snapshot_def using that dec_struct_inv [of snapshot_ok metrics_member m v] by blast
  moreover have "snapshot_ok metrics_snapshot_zero" by (simp add: snapshot_ok_def metrics_snapshot_zero_def)
  ultimately show ?thesis
    by (simp add: fetchMetrics_def unmarshal_def case_prod_unfold Let_def split: http_reply.split option.split)
qed

lemma jfloat_finite: "(\<exists>d. jfloat x = Some d) \<longleftrightarrow> f_finite x"
  by (cases x) simp_all

lemma report_seconds_pos: "\<exists>y. report_seconds start finish = Fin y \<and> 1 / 2 ^ 30 \<le> y"
proof (cases "0 < time_sub finish start")
  case True
  have tiny: "representable (1 / 2 ^ 30)" using representable_scaled [of 1 30] by simp
  have "1 / 2 ^ 30 \<le> rnd (1 / 1000000000)" by (rule rnd_ge_representable [OF _ tiny]) simp
  then have "1 / 2 ^ 30 \<le> secs 1" unfolding secs_def by (intro rnd_ge_representable [OF _ tiny]) simp
  also have "secs 1 \<le> secs (time_sub finish start)" using True by (intro secs_mono) simp_all
  finally have y: "1 / 2 ^ 30 \<le> secs (time_sub finish start)" .
  then have "0 < secs (time_sub finish start)" by (rule order.strict_trans2 [rotated]) simp
  with y dur_seconds_pos [of "time_sub finish start"] True time_sub_range(2) [of finish start] show ?thesis
    by (simp add: report_seconds_def)
next
  case False
  with dur_seconds_nonpos [of "time_sub finish start"] show ?thesis by (simp add: report_seconds_def)
qed

definition counters_ok :: "counters \<Rightarrow> bool" where
  "counters_ok c \<longleftrightarrow> list_all int64_ok [ct_opened c, ct_sendMessages c, ct_receiveMessages c, ct_sendBytes c, ct_receiveBytes c,
     ct_commitReceived c, ct_expectedCommitDeliveries c]"

lemma rate_finite:
  assumes "\<bar>n\<bar> \<le> 2 ^ 65" "1 / 2 ^ 30 \<le> y"
  shows "\<exists>x. f_div (f_of_int n) (Fin y) = Fin x \<and> \<bar>x\<bar> \<le> 2 ^ 95"
proof -
  obtain a where a: "f_of_int n = Fin a" "\<bar>a\<bar> \<le> 2 ^ 65" using f_of_int_bounded [OF assms(1)] by auto
  from f_div_bounded [OF a(2) assms(2)] show ?thesis by (simp add: a(1))
qed

lemma int_ge_1_float: "1 \<le> n \<Longrightarrow> n \<le> 2 ^ 63 \<Longrightarrow> \<exists>y. f_of_int n = Fin y \<and> 1 \<le> y"
proof -
  assume n: "1 \<le> n" "n \<le> 2 ^ 63"
  then have "\<bar>of_int n :: rat\<bar> \<le> 2 ^ 63" by (simp add: of_int_le_numeral_power_cancel_iff)
  moreover have "representable 1" using representable_int [of 1] by simp
  then have "1 \<le> rnd (of_int n)" using n(1) by (intro rnd_ge_representable) simp_all
  ultimately show ?thesis using round64_bounded(1) [of "of_int n" 63] by (simp add: f_of_int_def)
qed

lemma observed_finite:
  assumes "counters_ok c" "1 / 2 ^ 30 \<le> y" "list_all f_finite [p50, p95, p99]"
  shows "\<exists>d. observedReport_json (observed_of c (Fin y) p50 p95 p99) = Some d"
proof -
  have y: "\<exists>x. f_div (f_of_int n) (Fin y) = Fin x" if "\<bar>n\<bar> \<le> 2 ^ 65" for n using rate_finite [OF that assms(2)] by blast
  have m: "1 \<le> max64 1 (ct_opened c)" "max64 1 (ct_opened c) \<le> 2 ^ 63" using assms(1) by (auto simp: max64_def counters_ok_def)
  obtain u where u: "f_of_int (max64 1 (ct_opened c)) = Fin u" "1 / 2 ^ 30 \<le> u" using int_ge_1_float [OF m] by force
  obtain z where z: "f_div (f_of_int (ct_sendBytes c + ct_receiveBytes c)) (Fin u) = Fin z" "\<bar>z\<bar> \<le> 2 ^ 95"
    using rate_finite [OF _ u(2)] assms(1) by (force simp: counters_ok_def)
  obtain v where v: "f_div (Fin z) (Fin y) = Fin v" using f_div_bounded [OF z(2) assms(2)] by auto
  have del: "\<exists>x. f_div (f_of_int (ct_commitReceived c)) (f_of_int (ct_expectedCommitDeliveries c)) = Fin x" if e: "0 < ct_expectedCommitDeliveries c"
  proof -
    obtain w where w: "f_of_int (ct_expectedCommitDeliveries c) = Fin w" "1 / 2 ^ 30 \<le> w"
      using int_ge_1_float [of "ct_expectedCommitDeliveries c"] e assms(1) by (force simp: counters_ok_def)
    have "\<bar>ct_commitReceived c\<bar> \<le> 2 ^ 65" using assms(1) by (simp add: counters_ok_def abs_le_iff)
    from rate_finite [OF this w(2)] show ?thesis by (auto simp: w(1))
  qed
  have le: "\<bar>ct_sendMessages c + ct_receiveMessages c\<bar> \<le> 2 ^ 65" "\<bar>ct_receiveBytes c\<bar> \<le> 2 ^ 65" "\<bar>ct_sendBytes c\<bar> \<le> 2 ^ 65"
    using assms(1) by (auto simp: counters_ok_def abs_le_iff)
  obtain a1 a2 a3 where "f_div (f_of_int (ct_sendMessages c + ct_receiveMessages c)) (Fin y) = Fin a1"
      "f_div (f_of_int (ct_receiveBytes c)) (Fin y) = Fin a2" "f_div (f_of_int (ct_sendBytes c)) (Fin y) = Fin a3"
    using y [OF le(1)] y [OF le(2)] y [OF le(3)] by blast
  with assms(3) del show ?thesis
    by (cases p50; cases p95; cases p99) (auto simp: observedReport_json_def observed_of_def u(1) z(1) v simp del: f_div.simps)
qed

lemma server_finite:
  assumes "snapshot_ok before" "snapshot_ok after" "1 / 2 ^ 30 \<le> y"
  shows "\<exists>d. serverReport_json (server_of before after err (Fin y)) = Some d"
proof -
  have y: "\<exists>x. f_div (f_of_int n) (Fin y) = Fin x" if "\<bar>n\<bar> \<le> 2 ^ 65" for n using rate_finite [OF that assms(3)] by blast
  have delta: "\<bar>ms_MessagesIn after - ms_MessagesIn before + (ms_MessagesOut after - ms_MessagesOut before)\<bar> \<le> 2 ^ 65"
      "\<bar>ms_IncomingBytes after - ms_IncomingBytes before\<bar> \<le> 2 ^ 65" "\<bar>ms_OutgoingBytes after - ms_OutgoingBytes before\<bar> \<le> 2 ^ 65"
    using assms(1,2) by (auto simp: snapshot_ok_def abs_le_iff)
  obtain a1 a2 a3 where "f_div (f_of_int (ms_MessagesIn after - ms_MessagesIn before + (ms_MessagesOut after - ms_MessagesOut before))) (Fin y) = Fin a1"
      "f_div (f_of_int (ms_IncomingBytes after - ms_IncomingBytes before)) (Fin y) = Fin a2"
      "f_div (f_of_int (ms_OutgoingBytes after - ms_OutgoingBytes before)) (Fin y) = Fin a3"
    using y [OF delta(1)] y [OF delta(2)] y [OF delta(3)] by blast
  with assms(1,2) show ?thesis
    by (cases "ms_InterestRecipientsPerEvent before"; cases "ms_InterestRecipientsPerEvent after")
      (auto simp: serverReport_json_def server_of_def metricsSnapshot_json_def snapshot_ok_def Let_def)
qed

definition rates_finite :: "options \<Rightarrow> bool" where
  "rates_finite p \<longleftrightarrow> list_all f_finite [lo_previewRate p, lo_previewOffRatio p, lo_activeRatio p]"

lemma run_figures: "(\<exists>d. runReport_json (run_report_of p) = Some d) \<longleftrightarrow> rates_finite p"
  by (cases "lo_previewRate p"; cases "lo_previewOffRatio p"; cases "lo_activeRatio p")
    (auto simp: runReport_json_def run_report_of_def rates_finite_def)

lemma percentile_finite: "list_all f_finite vs \<Longrightarrow> percentile vs f = Some x \<Longrightarrow> f_finite x"
  by (auto simp: percentile_def Let_def list_all_iff split: if_splits)

lemma makeReport_json:
  assumes "makeReport s start finish = Some r" "list_all f_finite (rn_latencies s)" "counters_ok (rn_counters s)"
    "snapshot_ok (rn_serverBefore s)" "snapshot_ok (rn_serverAfter s)"
  shows "(\<exists>d. report_json goVersion r = Some d) \<longleftrightarrow> rates_finite (rn_opts s)"
proof -
  obtain y where y: "report_seconds start finish = Fin y" "1 / 2 ^ 30 \<le> y" using report_seconds_pos by blast
  have lat: "list_all f_finite (sort (rn_latencies s))" using assms(2) by (simp add: list_all_iff)
  obtain a b c where r: "rp_Run r = run_report_of (rn_opts s)" "rp_Observed r = observed_of (rn_counters s) (Fin y) a b c"
      "rp_Server r = server_of (rn_serverBefore s) (rn_serverAfter s) (rn_serverError s) (Fin y)" "list_all f_finite [a, b, c]"
    using assms(1) percentile_finite [OF lat] unfolding makeReport_def Let_def y(1) by (auto split: Option.bind_splits)
  obtain ob sv where "observedReport_json (rp_Observed r) = Some ob" "serverReport_json (rp_Server r) = Some sv"
    using observed_finite [OF assms(3) y(2) r(4)] server_finite [OF assms(4,5) y(2), of "rn_serverError s"] r(2,3) by auto
  with run_figures [of "rn_opts s"] show ?thesis by (auto simp: report_json_def r(1))
qed

section \<open>The path of the JSON file\<close>

lemma path_Ext: "\<exists>stem. path = stem @ Ext path"
proof -
  let ?base = "takeWhile (\<lambda>c. c \<noteq> CHR ''/'') (rev path)"
  obtain rest where rest: "rev path = ?base @ rest" by (metis takeWhile_dropWhile_id)
  show ?thesis
  proof (cases "CHR ''.'' \<in> set ?base")
    case True
    have "?base = takeWhile (\<lambda>c. c \<noteq> CHR ''.'') ?base @ dropWhile (\<lambda>c. c \<noteq> CHR ''.'') ?base" by simp
    moreover obtain ds where "dropWhile (\<lambda>c. c \<noteq> CHR ''.'') ?base = CHR ''.'' # ds"
      using True by (cases "dropWhile (\<lambda>c. c \<noteq> CHR ''.'') ?base") (auto simp: dropWhile_eq_Nil_conv dropWhile_eq_Cons_conv)
    ultimately have "rev path = takeWhile (\<lambda>c. c \<noteq> CHR ''.'') ?base @ CHR ''.'' # ds @ rest" using rest by (metis append.assoc append_Cons)
    then have "path = rev (ds @ rest) @ CHR ''.'' # rev (takeWhile (\<lambda>c. c \<noteq> CHR ''.'') ?base)" by (simp add: rev_swap)
    moreover have "Ext path = CHR ''.'' # rev (takeWhile (\<lambda>c. c \<noteq> CHR ''.'') ?base)" using True by (simp add: Ext_def Let_def)
    ultimately show ?thesis by (intro exI [of _ "rev (ds @ rest)"]) (simp only:)
  qed (simp add: Ext_def Let_def)
qed

lemma json_path_overwrites: "json_path path = path \<longleftrightarrow> Ext path = ''.json''"
proof -
  obtain stem where stem: "path = stem @ Ext path" using path_Ext by blast
  then have len: "length path = length stem + length (Ext path)" by (metis length_append)
  have "json_path path = stem @ ''.json''"
    unfolding json_path_def using len by (metis add_diff_cancel_right' append_eq_conv_conj stem)
  with stem show ?thesis by (metis append_same_eq same_append_eq)
qed

section \<open>Properties\<close>

text \<open>
  C40. The report on disk, for every run that produced one, of whatever schedule, when the disk accepts the
  writes and no counter has left its 64 bits. If the three rates among the options are finite, the program exits with
  status 0, prints the summary and has written exactly two files: the markdown page under the given
  path and the JSON document beside it under the extension \<open>.json\<close>; a path that already ends in \<open>.json\<close> names both,
  and the page replaces the document. If one of the rates is not finite, which the validation of the
  options lets pass, the program exits with status 1 after the whole run, prints no summary and writes nothing.
\<close>

theorem report_saved:
  assumes "run_loadtest env p w = Inr r" and "lo_report p \<noteq> []"
    and "list_all int64_ok [or_ConnectionsOpened (rp_Observed r), or_LocalSendMessages (rp_Observed r), or_LocalReceiveMessages (rp_Observed r),
      or_LocalSendBytes (rp_Observed r), or_LocalReceiveBytes (rp_Observed r), or_CommitsReceived (rp_Observed r),
      or_ExpectedCommitDeliveries (rp_Observed r)]"
  shows "if rates_finite p
     then \<exists>doc. report_json goVersion r = Some doc \<and> load_main (\<lambda>_. None) goVersion env p w d = ((0, printSummary r),
       (if Ext (lo_report p) = ''.json'' then d else d(json_path (lo_report p) \<mapsto> JsonFile doc))
         (lo_report p \<mapsto> TextFile (renderMarkdown goVersion r)))
     else load_main (\<lambda>_. None) goVersion env p w d = ((1, []), d)"
proof -
  have v: "validateOptions p = None" "loadPrivateKey (lw_key w) = None"
      "run_loadtest env p w \<noteq> Inl (LoadError ''no virtual users connected; check key, server address, and bootstrap limits'')"
    using assms(1) by (auto simp: run_loadtest_def split: option.splits)
  obtain s where s: "makeReport s (lw_start w) (lw_finish w) = Some r" "run_ok s" "rn_opts s = p"
      "rn_serverBefore s = fst (fetchMetrics (lw_decodeError w) (lw_before w))"
      "rn_serverAfter s = fst (fetchMetrics (lw_decodeError w) (lw_after w))"
    using run_loadtest_state [OF v] assms(1) by (auto simp: Let_def split: option.splits) (metis fst_conv)
  have "list_all f_finite (rn_latencies s)" using s(2) by (simp add: run_ok_def Let_def)
  moreover obtain y a b c where "rp_Observed r = observed_of (rn_counters s) y a b c"
    using makeReport_total [OF s(2), of "lw_start w" "lw_finish w"] s(1) by auto
  then have "counters_ok (rn_counters s)" using assms(3) by (simp add: counters_ok_def observed_of_def)
  ultimately have json: "(\<exists>d. report_json goVersion r = Some d) \<longleftrightarrow> rates_finite p"
    using makeReport_json [OF s(1)] s(3-5) fetched_ok by metis
  show ?thesis
  proof (cases "rates_finite p")
    case True
    with json obtain doc where "report_json goVersion r = Some doc" by blast
    moreover have "d(json_path (lo_report p) \<mapsto> JsonFile doc, lo_report p \<mapsto> c) = d(lo_report p \<mapsto> c)" if "Ext (lo_report p) = ''.json''" for doc c
      by (simp add: that [folded json_path_overwrites])
    ultimately show ?thesis
      using True assms(1,2) by (simp add: load_main_def finish_run_def writeReport_def os_WriteFile_def del: fun_upd_apply)
  next
    case False
    with json have "report_json goVersion r = None" by (cases "report_json goVersion r") simp_all
    with False assms(1,2) show ?thesis by (simp add: load_main_def finish_run_def writeReport_def)
  qed
qed

definition quiet_schedule :: load_schedule where
  "quiet_schedule = bench_schedule\<lparr>lw_events := []\<rparr>"

definition quiet_options :: options where
  "quiet_options = example_options\<lparr>lo_connections := 1, lo_report := ''out/run.md''\<rparr>"

lemma quiet_run:
  "\<exists>r. run_loadtest bench_env quiet_options quiet_schedule = Inr r \<and> rp_Observed r = observed_of
     (counters_zero\<lparr>ct_attempted := 1, ct_opened := 1, ct_closed := 1\<rparr>) (report_seconds 0 Second) (Fin 0) (Fin 0) (Fin 0)"
proof -
  have v: "validateOptions quiet_options = None"
    by (simp add: quiet_options_def example_options_def parseOptions_def flag_or_def validateOptions_def)
  have q: "lo_connections quiet_options = 1" by (simp add: quiet_options_def)
  obtain u where u: "openVirtualUser bench_env quiet_options (assign_user quiet_options 0) 0 = Inr u"
    using bench_opens [of "assign_user quiet_options 0" quiet_options 0]
    by (auto simp: assign_user_def placement_def Let_def quiet_options_def example_options_def)
  then show ?thesis
    by (simp add: run_loadtest_def v validated_makeAssignments [OF v] q quiet_schedule_def bench_schedule_def loadPrivateKey_def
        join_user_def connect_user_def new_run_state_def bump_def fetchMetrics_def Let_def makeReport_def percentile_def counters_zero_def)
qed

theorem report_saved_witness:
  "\<exists>r doc. load_main (\<lambda>_. None) ''go1.25'' bench_env quiet_options quiet_schedule Map.empty =
     ((0, printSummary r), [''out/run.json'' \<mapsto> JsonFile doc, ''out/run.md'' \<mapsto> TextFile (renderMarkdown ''go1.25'' r)])"
proof -
  obtain r where r: "run_loadtest bench_env quiet_options quiet_schedule = Inr r" "rp_Observed r = observed_of
     (counters_zero\<lparr>ct_attempted := 1, ct_opened := 1, ct_closed := 1\<rparr>) (report_seconds 0 Second) (Fin 0) (Fin 0) (Fin 0)"
    using quiet_run by blast
  have "rates_finite quiet_options"
    by (simp add: rates_finite_def quiet_options_def example_options_def parseOptions_def flag_or_def)
  moreover have p: "lo_report quiet_options = ''out/run.md''" by (simp add: quiet_options_def)
  moreover have "Ext ''out/run.md'' \<noteq> ''.json''" "json_path ''out/run.md'' = ''out/run.json''" by code_simp+
  ultimately show ?thesis
    using report_saved [OF r(1), of "''go1.25''" Map.empty] by (simp add: r(2) observed_of_def counters_zero_def) blast
qed

text \<open>The rates the validation lets pass: a preview rate that is infinite or not a number.\<close>

theorem infinite_rate_accepted:
  "validateOptions (example_options\<lparr>lo_previewRate := Inf False\<rparr>) = None \<and> \<not> rates_finite (example_options\<lparr>lo_previewRate := Inf False\<rparr>)"
  "validateOptions (example_options\<lparr>lo_previewRate := NaN\<rparr>) = None \<and> \<not> rates_finite (example_options\<lparr>lo_previewRate := NaN\<rparr>)"
  by (simp_all add: example_options_def parseOptions_def flag_or_def validateOptions_def rates_finite_def)

text \<open>
  The figures of the page and of the summary are rounded to the nearest: read as a decimal, the digits that are printed
  for a finite figure are within half a unit of the last place of it, without its sign.
\<close>

lemma digits_value_append: "digits_value (a @ b) = digits_value a * 10 ^ length b + digits_value b"
proof (induction b rule: rev_induct)
  case (snoc c b)
  then show ?case by (simp add: digits_value_def algebra_simps)
qed (simp add: digits_value_def)

lemma length_nat_dec: "n < 10 ^ w \<Longrightarrow> 0 < w \<Longrightarrow> length (nat_dec n) \<le> w"
proof (induction n arbitrary: w rule: nat_dec.induct)
  case (1 n)
  show ?case
  proof (cases "n < 10")
    case True
    with 1 show ?thesis by (simp add: nat_dec.simps [of n])
  next
    case False
    with "1.prems"(1) have "w \<noteq> 1" by auto
    with "1.prems"(2) obtain v where v: "w = Suc v" "0 < v" by (cases w) auto
    with "1.prems" have "n div 10 < 10 ^ v" by (simp add: less_mult_imp_div_less mult.commute)
    with "1.IH" [OF False] v False show ?thesis by (simp add: nat_dec.simps [of n])
  qed
qed

theorem printed_figure_rounded:
  "\<bar>of_nat (digits_value (filter is_digit (fixed prec (Fin y)))) / 10 ^ prec - \<bar>y\<bar>\<bar> \<le> 1 / 2 / 10 ^ prec"
proof -
  have digits: "filter is_digit (nat_dec n) = nat_dec n" for n using nat_dec_digits(1) [of n] by (simp add: list_all_iff)
  then have pad: "filter is_digit (pad_dec w n) = pad_dec w n" for w n by (simp add: pad_dec_def is_digit_def)
  have "digits_value (filter is_digit (fixed_pos prec z)) = nat (round_half_even (z * 10 ^ prec))" for z
  proof (cases "prec = 0")
    case False
    define n where "n = nat (round_half_even (z * 10 ^ prec))"
    have "length (pad_dec prec (n mod 10 ^ prec)) = prec"
      using length_nat_dec [of "n mod 10 ^ prec" prec] False by (simp add: pad_dec_def)
    then show ?thesis
      using False nat_dec_digits(3) by (simp add: fixed_pos_def Let_def digits pad digits_value_append n_def [symmetric] is_digit_def div_mult_mod_eq)
  qed (simp add: fixed_pos_def digits nat_dec_digits)
  then have d: "digits_value (filter is_digit (fixed prec (Fin y))) = nat (round_half_even (\<bar>y\<bar> * 10 ^ prec))"
    by (simp add: is_digit_def)
  define z where "z = \<bar>y\<bar> * 10 ^ prec"
  have "0 \<le> z" by (simp add: z_def)
  then have "0 \<le> round_half_even z" using round_half_even_ge [of 0 z] by simp
  moreover have "\<bar>of_int (round_half_even z) - z\<bar> \<le> 1 / 2"
    using floor_correct [of z] by (auto simp: round_half_even_def Let_def)
  ultimately have "\<bar>of_nat (nat (round_half_even z)) - z\<bar> \<le> 1 / 2" by simp
  then have "\<bar>of_nat (nat (round_half_even z)) - z\<bar> / 10 ^ prec \<le> 1 / 2 / 10 ^ prec" by (rule divide_right_mono) simp
  moreover have "\<bar>of_nat (nat (round_half_even z)) / 10 ^ prec - \<bar>y\<bar>\<bar> = \<bar>of_nat (nat (round_half_even z)) - z\<bar> / 10 ^ prec"
  proof -
    have "a / 10 ^ prec - \<bar>y\<bar> = (a - z) / 10 ^ prec" for a by (simp add: z_def diff_divide_distrib)
    then show ?thesis by (simp only: abs_divide) simp
  qed
  ultimately show ?thesis unfolding d z_def [symmetric] by simp
qed

end
