(* ===== verification/Url_Query.thy ===== *)
theory Url_Query
  imports Prelude "HOL-Library.Char_ord" "HOL-Library.List_Lexorder"
begin

text \<open>
  The part of \<open>net/url\<close> the two programs use: escaping of query components, \<open>ParseQuery\<close>, \<open>Values\<close> with
  \<open>Get\<close>, \<open>Set\<close> and \<open>Encode\<close>, and a URL put together by \<open>String\<close>. \<open>Values\<close> is the list of its pairs; the
  values of one key keep their order in it.
\<close>

section \<open>Escaping\<close>

abbreviation char_code :: "char \<Rightarrow> nat" where "char_code c \<equiv> of_char c"

definition between :: "char \<Rightarrow> char \<Rightarrow> char \<Rightarrow> bool" where
  "between lo hi c \<longleftrightarrow> lo \<le> c \<and> c \<le> hi"

definition unreserved :: "char \<Rightarrow> bool" where
  "unreserved c \<longleftrightarrow> between CHR ''a'' CHR ''z'' c \<or> between CHR ''A'' CHR ''Z'' c \<or> between CHR ''0'' CHR ''9'' c \<or> c \<in> set ''-_.~''"

definition upper_hex :: "nat \<Rightarrow> char" where
  "upper_hex n = ''0123456789ABCDEF'' ! n"

definition escape_char :: "char \<Rightarrow> string" where
  "escape_char c = (if unreserved c then [c] else if c = CHR '' '' then ''+''
     else [CHR ''%'', upper_hex (char_code c div 16), upper_hex (char_code c mod 16)])"

definition QueryEscape :: "string \<Rightarrow> string" where
  "QueryEscape s = concat (map escape_char s)"

definition unhex :: "char \<Rightarrow> nat option" where
  "unhex c = (if between CHR ''0'' CHR ''9'' c then Some (char_code c - 48)
     else if between CHR ''a'' CHR ''f'' c then Some (char_code c - 87)
     else if between CHR ''A'' CHR ''F'' c then Some (char_code c - 55) else None)"

fun QueryUnescape :: "string \<Rightarrow> string option" where
  "QueryUnescape [] = Some []"
| "QueryUnescape (c # s) =
     (if c = CHR ''%'' then
        (case s of
           a # b # r \<Rightarrow> (case (unhex a, unhex b) of
             (Some h, Some l) \<Rightarrow> map_option ((#) (char_of (16 * h + l))) (QueryUnescape r)
           | _ \<Rightarrow> None)
         | _ \<Rightarrow> None)
      else map_option ((#) (if c = CHR ''+'' then CHR '' '' else c)) (QueryUnescape s))"

section \<open>Queries\<close>

type_synonym query_values = "(string \<times> string) list"

text \<open>One setting; a setting with a semicolon, an empty one and one that cannot be unescaped are skipped.\<close>

definition parse_setting :: "string \<Rightarrow> (string \<times> string) option" where
  "parse_setting setting =
     (if CHR '';'' \<in> set setting \<or> setting = [] then None
      else let (key, v, _) = Cut CHR ''='' setting in
        case (QueryUnescape key, QueryUnescape v) of (Some k, Some x) \<Rightarrow> Some (k, x) | _ \<Rightarrow> None)"

definition ParseQuery :: "string \<Rightarrow> query_values" where
  "ParseQuery query = List.map_filter parse_setting (Split CHR ''&'' query)"

definition values_Get :: "string \<Rightarrow> query_values \<Rightarrow> string" where
  "values_Get key m = (case map_of m key of Some v \<Rightarrow> v | None \<Rightarrow> [])"

definition values_Set :: "string \<Rightarrow> string \<Rightarrow> query_values \<Rightarrow> query_values" where
  "values_Set key v m = filter (\<lambda>(k, _). k \<noteq> key) m @ [(key, v)]"

definition encode_setting :: "string \<times> string \<Rightarrow> string" where
  "encode_setting = (\<lambda>(k, v). QueryEscape k @ CHR ''='' # QueryEscape v)"

fun join_with :: "char \<Rightarrow> string list \<Rightarrow> string" where
  "join_with sep [] = []"
| "join_with sep [s] = s"
| "join_with sep (s # t # r) = s @ sep # join_with sep (t # r)"

definition Encode :: "query_values \<Rightarrow> string" where
  "Encode m = join_with CHR ''&'' (map encode_setting (sort_key fst m))"

section \<open>URLs\<close>

text \<open>A parsed URL, with its parts in the escaped form \<open>String\<close> prints.\<close>

record url =
  ur_Scheme :: string
  ur_Opaque :: string
  ur_User :: "string option"
  ur_Host :: string
  ur_OmitHost :: bool
  ur_Path :: string
  ur_ForceQuery :: bool
  ur_RawQuery :: string
  ur_Fragment :: string

definition url_authority :: "url \<Rightarrow> string" where
  "url_authority u =
     (if (ur_Scheme u \<noteq> [] \<or> ur_Host u \<noteq> [] \<or> ur_User u \<noteq> None) \<and> \<not> (ur_OmitHost u \<and> ur_Host u = [] \<and> ur_User u = None)
      then (if ur_Host u \<noteq> [] \<or> ur_Path u \<noteq> [] \<or> ur_User u \<noteq> None then ''//'' else []) @
        (case ur_User u of Some user \<Rightarrow> user @ ''@'' | None \<Rightarrow> []) @ ur_Host u
      else [])"

definition url_String :: "url \<Rightarrow> string" where
  "url_String u =
     (let scheme = (if ur_Scheme u \<noteq> [] then ur_Scheme u @ '':'' else []);
          authority = url_authority u; path = ur_Path u in
      scheme @
      (if ur_Opaque u \<noteq> [] then ur_Opaque u
       else authority @ (if path \<noteq> [] \<and> \<not> HasPrefix path ''/'' \<and> ur_Host u \<noteq> [] then ''/'' else []) @
         (if scheme = [] \<and> authority = [] \<and> CHR '':'' \<in> set (fst (Cut CHR ''/'' path)) then ''./'' else []) @ path)) @
     (if ur_ForceQuery u \<or> ur_RawQuery u \<noteq> [] then CHR ''?'' # ur_RawQuery u else []) @
     (if ur_Fragment u \<noteq> [] then CHR ''#'' # ur_Fragment u else [])"

section \<open>Facts\<close>

lemma char_le_code: "c \<le> d \<longleftrightarrow> char_code c \<le> char_code d"
  by (simp add: less_eq_char_def)

lemma unhex_upper_hex: "n < 16 \<Longrightarrow> unhex (upper_hex n) = Some n"
proof -
  have "\<forall>n \<in> set [0..<16]. unhex (upper_hex n) = Some n" by code_simp
  then show "n < 16 \<Longrightarrow> unhex (upper_hex n) = Some n" by simp
qed

lemma upper_hex_plain: "n < 16 \<Longrightarrow> upper_hex n \<notin> set ''&=;%+''"
proof -
  have "\<forall>n \<in> set [0..<16]. upper_hex n \<notin> set ''&=;%+''" by code_simp
  then show "n < 16 \<Longrightarrow> upper_hex n \<notin> set ''&=;%+''" by simp
qed

lemma unreserved_plain: "unreserved c \<Longrightarrow> c \<notin> set ''&=;%+''"
  by (auto simp: unreserved_def between_def char_le_code)

lemma char_code_256: "char_code c < 256" "char_code c div 16 < 16"
  using nat_of_char_less_256 [of c] by (simp, linarith)

lemma escape_char_plain: "x \<in> set (escape_char c) \<Longrightarrow> x \<notin> set ''&=;''"
  using unreserved_plain [of c] upper_hex_plain [of "char_code c div 16"] upper_hex_plain [of "char_code c mod 16"] char_code_256(2) [of c]
  by (auto simp: escape_char_def split: if_splits)

lemma QueryEscape_plain: "x \<in> set (QueryEscape s) \<Longrightarrow> x \<notin> set ''&=;''"
  using escape_char_plain by (auto simp: QueryEscape_def)

lemma QueryUnescape_escape_char: "QueryUnescape (escape_char c @ r) = map_option ((#) c) (QueryUnescape r)"
proof (cases "unreserved c")
  case True
  then show ?thesis using unreserved_plain [of c] by (auto simp: escape_char_def)
next
  case False
  have "unhex (upper_hex (char_code c div 16)) = Some (char_code c div 16)" "unhex (upper_hex (char_code c mod 16)) = Some (char_code c mod 16)"
    using char_code_256(2) [of c] by (auto intro: unhex_upper_hex)
  moreover have "char_of (16 * (char_code c div 16) + char_code c mod 16) = c" by simp
  ultimately show ?thesis using False by (auto simp: escape_char_def)
qed

lemma QueryUnescape_QueryEscape: "QueryUnescape (QueryEscape s) = Some s"
  by (induction s) (simp_all add: QueryEscape_def QueryUnescape_escape_char)

lemma Cut_first: "sep \<notin> set a \<Longrightarrow> Cut sep (a @ sep # b) = (a, b, True)"
  by (induction a) auto

lemma parse_encode_setting: "parse_setting (encode_setting p) = Some p"
proof -
  obtain k v where p: "p = (k, v)" by (cases p)
  have "CHR ''='' \<notin> set (QueryEscape k)" "CHR '';'' \<notin> set (QueryEscape k)" "CHR '';'' \<notin> set (QueryEscape v)"
    using QueryEscape_plain by fastforce+
  then show ?thesis
    by (simp add: p parse_setting_def encode_setting_def Cut_first QueryUnescape_QueryEscape)
qed

lemma Split_plain: "sep \<notin> set s \<Longrightarrow> Split sep s = [s]"
  by (induction s) auto

lemma Split_cons: "sep \<notin> set s \<Longrightarrow> Split sep (s @ sep # r) = s # Split sep r"
  by (induction s) auto

lemma Split_join: "(\<And>s. s \<in> set (t # ts) \<Longrightarrow> sep \<notin> set s) \<Longrightarrow> Split sep (join_with sep (t # ts)) = t # ts"
  by (induction sep "t # ts" arbitrary: t ts rule: join_with.induct) (auto simp: Split_plain Split_cons)

lemma encode_setting_plain: "CHR ''&'' \<notin> set (encode_setting p)"
  using QueryEscape_plain [of "CHR ''&''"] by (cases p) (auto simp: encode_setting_def)

text \<open>The printer and the parser agree; the keys come out sorted, the values of one key in their order.\<close>

lemma ParseQuery_Encode: "ParseQuery (Encode m) = sort_key fst m"
proof (cases "sort_key fst m")
  case Nil
  then show ?thesis by (simp add: ParseQuery_def Encode_def map_filter_def parse_setting_def)
next
  case (Cons p ps)
  then have "Split CHR ''&'' (Encode m) = map encode_setting (p # ps)"
    unfolding Encode_def Cons list.map by (intro Split_join) (auto simp: encode_setting_plain)
  moreover have "List.map_filter parse_setting (map encode_setting qs) = qs" for qs
    by (induction qs) (simp_all add: map_filter_simps parse_encode_setting)
  ultimately show ?thesis by (simp only: ParseQuery_def Cons)
qed

lemma map_of_sort_key_filter:
  fixes m :: query_values
  shows "map_of (sort_key fst m) k = map_of m k"
proof -
  have first: "map_of xs k = (case filter (\<lambda>p. fst p = k) xs of [] \<Rightarrow> None | p # _ \<Rightarrow> Some (snd p))" for xs :: query_values
    by (induction xs) auto
  have "filter (\<lambda>p. fst p = k) (sort_key fst m) = filter (\<lambda>p. fst p = k) m" by (rule sort_key_stable)
  with first show ?thesis by simp
qed

lemma values_Get_Set: "values_Get k (values_Set key v m) = (if k = key then v else values_Get k m)"
proof -
  have "map_of (filter (\<lambda>(k, _). k \<noteq> key) m) = (map_of m)(key := None)"
    by (induction m) (auto simp: fun_eq_iff)
  then show ?thesis by (auto simp: values_Get_def values_Set_def map_add_def split: option.split)
qed

lemma values_Get_Encode: "values_Get k (ParseQuery (Encode m)) = values_Get k m"
  by (simp add: ParseQuery_Encode values_Get_def map_of_sort_key_filter)

end
