(* ===== verification/Loadtest_Dial.thy ===== *)
theory Loadtest_Dial
  imports Loadtest_Client Url_Query
begin

text \<open>
  Where a virtual user dials (\<open>cmd/loadtest/main.go\<close>): the URL of the bootstrap response, or one derived
  from the base URL, with the ticket in its query. \<open>url.Parse\<close> and the dialling itself are parameters.
\<close>

section \<open>Addresses\<close>

type_synonym url_parser = "string \<Rightarrow> url option"

definition deriveWSURL :: "url_parser \<Rightarrow> string \<Rightarrow> string" where
  "deriveWSURL parse base = (case parse base of
     None \<Rightarrow> []
   | Some u \<Rightarrow> url_String (u\<lparr>ur_Scheme := (if ur_Scheme u = ''https'' then ''wss'' else ''ws''), ur_Path := ''/ws'', ur_RawQuery := []\<rparr>))"

definition set_ticket :: "string \<Rightarrow> url \<Rightarrow> url" where
  "set_ticket ticket u = u\<lparr>ur_RawQuery := Encode (values_Set ''ticket'' ticket (ParseQuery (ur_RawQuery u)))\<rparr>"

definition withTicket :: "url_parser \<Rightarrow> string \<Rightarrow> string \<Rightarrow> string" where
  "withTicket parse addr ticket =
     (if addr = [] then []
      else case parse addr of None \<Rightarrow> [] | Some u \<Rightarrow> url_String (set_ticket ticket u))"

section \<open>Dialling\<close>

definition websocket_address :: "url_parser \<Rightarrow> options \<Rightarrow> bootstrapResponse \<Rightarrow> string" where
  "websocket_address parse p b =
     (let connect = withTicket parse (vb_WebSocketURL b) (vb_ConnectionTicket b) in
      if connect = [] then withTicket parse (deriveWSURL parse (lo_baseURL p)) (vb_ConnectionTicket b) else connect)"

text \<open>A new connection of either kind. The origin is the header of the dial.\<close>

definition new_load_connection :: "bool \<Rightarrow> load_connection" where
  "new_load_connection webTransport = \<lparr>lc_webTransport = webTransport, lc_sent = [], lc_frames = [], lc_done = False\<rparr>"

definition dialWebSocket ::
  "url_parser \<Rightarrow> (string \<Rightarrow> string \<Rightarrow> bool) \<Rightarrow> options \<Rightarrow> bootstrapResponse \<Rightarrow> (load_error, load_connection) outcome" where
  "dialWebSocket parse dial p b =
     (if dial (websocket_address parse p b) (lo_origin p) then Inr (new_load_connection False) else Inl LibraryError)"

text \<open>
  The WebTransport dial returns a status and its text, or fails; then the control stream is opened. Each
  failure closes the transport and the caller gets no clean-up function, so nothing is closed twice.
\<close>

datatype wt_dial = DialFailed string | DialAnswer int string bool

definition dialWebTransport ::
  "url_parser \<Rightarrow> (string \<Rightarrow> string \<Rightarrow> wt_dial) \<Rightarrow> options \<Rightarrow> bootstrapResponse \<Rightarrow> (load_error, load_connection) outcome" where
  "dialWebTransport parse dial p b =
     (if vb_WebTransportURL b = [] then Inl (LoadError ''bootstrap did not advertise webTransportUrl'')
      else case dial (withTicket parse (vb_WebTransportURL b) (vb_ConnectionTicket b)) (lo_origin p) of
        DialFailed err \<Rightarrow> Inl (LoadError (''webtransport dial: '' @ err))
      | DialAnswer code status streamOpened \<Rightarrow>
          if code < 200 \<or> code \<ge> 300 then Inl (LoadError (''webtransport returned '' @ status))
          else if \<not> streamOpened then Inl LibraryError
          else Inr (new_load_connection True))"

text \<open>The dial of \<open>openVirtualUser\<close>.\<close>

definition dial_user ::
  "url_parser \<Rightarrow> (string \<Rightarrow> string \<Rightarrow> bool) \<Rightarrow> (string \<Rightarrow> string \<Rightarrow> wt_dial) \<Rightarrow> options \<Rightarrow> bootstrapResponse \<Rightarrow> load_connection option" where
  "dial_user parse ws wt p b =
     (case (if lo_transport p = ''websocket'' then dialWebSocket parse ws p b else dialWebTransport parse wt p b) of
        Inl _ \<Rightarrow> None | Inr c \<Rightarrow> Some c)"

section \<open>Properties\<close>

text \<open>
  The ticket reaches the server unchanged. Whatever query an advertised URL has already, with
  duplicates, malformed settings and earlier tickets, the query of the dialled URL, read the way the
  server reads it, has the given ticket as its \<open>ticket\<close>, byte for byte, and every other parameter with the
  value it had.
\<close>

theorem ticket_reaches_server:
  "values_Get ''ticket'' (ParseQuery (ur_RawQuery (set_ticket ticket u))) = ticket \<and>
   (\<forall>key. key \<noteq> ''ticket'' \<longrightarrow> values_Get key (ParseQuery (ur_RawQuery (set_ticket ticket u))) =
      values_Get key (ParseQuery (ur_RawQuery u)))"
  by (simp add: set_ticket_def values_Get_Encode values_Get_Set)

theorem ticket_reaches_server_witness:
  "values_Get ''a'' (ParseQuery (ur_RawQuery (set_ticket ''x y&z'' \<lparr>ur_Scheme = ''ws'', ur_Opaque = [], ur_User = None, ur_Host = ''h'',
     ur_OmitHost = False, ur_Path = ''/ws'', ur_ForceQuery = False, ur_RawQuery = ''a=1&ticket=old&b=%zz'', ur_Fragment = []\<rparr>))) = ''1''"
proof -
  have "values_Get ''a'' (ParseQuery ''a=1&ticket=old&b=%zz'') = ''1''" by code_simp
  with ticket_reaches_server [of "''x y&z''"] show ?thesis by simp
qed

end
