(* ===== verification/Token_Issue.thy ===== *)
theory Token_Issue
  imports Canvas_Tokens Json
begin

text \<open>
  Tokens from the issuer's side: the claims document as \<open>tokenClaims\<close>
  (\<open>internal/security/canvas_jwt_validator.go\<close>) reads it, and the claim sets of the test fixtures
  (\<open>internal/testsupport/tokens.go\<close>). The signature is the library's.
\<close>

section \<open>Reading a claim set\<close>

text \<open>
  A date claim is a number of seconds, read as a float and cut to whole seconds. Issuer and audience are
  read by the library, which checks them.
\<close>

definition dec_numeric_date :: "time option decoder" where
  "dec_numeric_date v old = (case v of
     JNum _ x _ \<Rightarrow> (case round64 x of Fin y \<Rightarrow> (Some (\<lfloor>y\<rfloor> * Second), False) | _ \<Rightarrow> (old, True))
   | JNull \<Rightarrow> (None, False) | _ \<Rightarrow> (old, True))"

definition dec_token_claims :: "token_claims decoder" where
  "dec_token_claims = dec_struct (\<lambda>k n v p.
     if EqualFold k ''nid'' then (let (x, e) = dec_string v (tc_NoteID p) in (p\<lparr>tc_NoteID := x\<rparr>, e))
     else if EqualFold k ''sid'' then (let (x, e) = dec_string v (tc_SessionID p) in (p\<lparr>tc_SessionID := x\<rparr>, e))
     else if EqualFold k ''perm'' then (let (x, e) = dec_string v (tc_Permission p) in (p\<lparr>tc_Permission := x\<rparr>, e))
     else if EqualFold k ''sub'' then (let (x, e) = dec_string v (tc_Subject p) in (p\<lparr>tc_Subject := x\<rparr>, e))
     else if EqualFold k ''jti'' then (let (x, e) = dec_string v (tc_ID p) in (p\<lparr>tc_ID := x\<rparr>, e))
     else if EqualFold k ''iat'' then (let (x, e) = dec_numeric_date v (tc_IssuedAt p) in (p\<lparr>tc_IssuedAt := x\<rparr>, e))
     else if EqualFold k ''nbf'' then (let (x, e) = dec_numeric_date v (tc_NotBefore p) in (p\<lparr>tc_NotBefore := x\<rparr>, e))
     else if EqualFold k ''exp'' then (let (x, e) = dec_numeric_date v (tc_ExpiresAt p) in (p\<lparr>tc_ExpiresAt := x\<rparr>, e))
     else (p, False))"

definition token_claims_zero :: token_claims where
  "token_claims_zero = \<lparr>tc_NoteID = [], tc_SessionID = [], tc_Permission = [], tc_Subject = [], tc_ID = [],
     tc_IssuedAt = None, tc_NotBefore = None, tc_ExpiresAt = None\<rparr>"

definition token_claims_of :: "json \<Rightarrow> token_claims" where
  "token_claims_of doc = fst (unmarshal dec_token_claims token_claims_zero (marshal doc))"

section \<open>The fixtures\<close>

record claims_input =
  ci_UserID :: string
  ci_NoteID :: string
  ci_SessionID :: string
  ci_TokenID :: string
  ci_Permission :: string
  ci_IssuedAt :: "time option"
  ci_TTL :: duration

definition or_default :: "string \<Rightarrow> string \<Rightarrow> string" where
  "or_default v d = (if v = [] then d else v)"

text \<open>The seconds of an instant; the encoder sorts the keys of a map.\<close>

definition unix_seconds :: "time \<Rightarrow> int" where
  "unix_seconds t = t div Second"

definition claim_set :: "string \<Rightarrow> string \<Rightarrow> string \<Rightarrow> string \<Rightarrow> string \<Rightarrow> string \<Rightarrow> string \<Rightarrow> time \<Rightarrow> time \<Rightarrow> json" where
  "claim_set iss aud sub nid sid jti perm issued expires =
     JObj [jmem ''aud'' (JStr aud), jmem ''exp'' (jint (unix_seconds expires)), jmem ''iat'' (jint (unix_seconds issued)),
       jmem ''iss'' (JStr iss), jmem ''jti'' (JStr jti), jmem ''nbf'' (jint (unix_seconds issued)), jmem ''nid'' (JStr nid),
       jmem ''perm'' (JStr perm), jmem ''sid'' (JStr sid), jmem ''sub'' (JStr sub)]"

definition Claims :: "time \<Rightarrow> claims_input \<Rightarrow> json" where
  "Claims now ci = (let
     user = or_default (ci_UserID ci) ''11111111-1111-1111-1111-111111111111'';
     nid = or_default (ci_NoteID ci) ''22222222-2222-2222-2222-222222222222'';
     sid = or_default (ci_SessionID ci) ''33333333-3333-3333-3333-333333333333'';
     jti = or_default (ci_TokenID ci) ''44444444-4444-4444-4444-444444444444'';
     perm = or_default (ci_Permission ci) ''edit'';
     issued = (case ci_IssuedAt ci of Some t \<Rightarrow> t | None \<Rightarrow> now);
     ttl = (if ci_TTL ci = 0 then 5 * Minute else ci_TTL ci)
   in claim_set ''mypol-api'' ''canvas-realtime'' user nid sid jti perm issued (issued + ttl))"

section \<open>Reading back\<close>

lemma dec_date_seconds:
  assumes "\<bar>t\<bar> \<le> 2 ^ 62"
  shows "dec_numeric_date (jint (unix_seconds t)) old = (Some (unix_seconds t * Second), False)"
proof -
  have "\<bar>t div Second\<bar> < 2 ^ 53" using assms by (auto simp: abs_less_iff)
  then have "round64 (of_int (t div Second)) = Fin (of_int (t div Second))" by (rule round64_int)
  then show ?thesis by (simp add: dec_numeric_date_def jint_def unix_seconds_def)
qed

lemma claims_keys:
  "fold_key ''aud'' = ''AUD''" "fold_key ''exp'' = ''EXP''" "fold_key ''iat'' = ''IAT''" "fold_key ''iss'' = ''ISS''"
  "fold_key ''jti'' = ''JTI''" "fold_key ''nbf'' = ''NBF''" "fold_key ''nid'' = ''NID''" "fold_key ''perm'' = ''PERM''"
  "fold_key ''sid'' = ''SID''" "fold_key ''sub'' = ''SUB''"
  by code_simp+

lemma token_claims_of_set:
  assumes "\<bar>issued\<bar> \<le> 2 ^ 62" "\<bar>expires\<bar> \<le> 2 ^ 62"
  shows "token_claims_of (claim_set iss aud sub nid sid jti perm issued expires) =
    \<lparr>tc_NoteID = sanitize nid, tc_SessionID = sanitize sid, tc_Permission = sanitize perm, tc_Subject = sanitize sub,
     tc_ID = sanitize jti, tc_IssuedAt = Some (unix_seconds issued * Second), tc_NotBefore = Some (unix_seconds issued * Second),
     tc_ExpiresAt = Some (unix_seconds expires * Second)\<rparr>"
  using dec_date_seconds [OF assms(1)] dec_date_seconds [OF assms(2)]
  by (simp add: token_claims_of_def claim_set_def unmarshal_def marshal_def dec_token_claims_def dec_struct_def jmem_def
      EqualFold_def claims_keys dec_string_def token_claims_zero_def del: fold_key.simps)

section \<open>Properties\<close>

text \<open>
  The fixtures' claim sets are what the validator asks for. For any input whose texts are ASCII and
  whose permission is empty or of the vocabulary, the claims read from the document pass every check of
  the validator, an empty field stands for its default, and the token lives for the given time (five
  minutes if none is given), to the second.
\<close>

theorem fixture_claims_validate:
  assumes "list_all ascii [ci_UserID ci, ci_NoteID ci, ci_SessionID ci, ci_TokenID ci]"
    and "ci_Permission ci = [] \<or> Valid (ci_Permission ci)"
    and "issued = (case ci_IssuedAt ci of Some t \<Rightarrow> t | None \<Rightarrow> now)" and "ttl = (if ci_TTL ci = 0 then 5 * Minute else ci_TTL ci)"
    and "\<bar>issued\<bar> \<le> 2 ^ 62" and "\<bar>issued + ttl\<bar> \<le> 2 ^ 62"
  shows "toCanvasClaims (token_claims_of (Claims now ci)) = Inr
    \<lparr>cc_UserID = or_default (ci_UserID ci) ''11111111-1111-1111-1111-111111111111'',
     cc_NoteID = or_default (ci_NoteID ci) ''22222222-2222-2222-2222-222222222222'',
     cc_SessionID = or_default (ci_SessionID ci) ''33333333-3333-3333-3333-333333333333'',
     cc_TokenID = or_default (ci_TokenID ci) ''44444444-4444-4444-4444-444444444444'',
     cc_Permission = or_default (ci_Permission ci) ''edit'', cc_IssuedAt = issued div Second * Second,
     cc_NotBefore = issued div Second * Second, cc_ExpiresAt = (issued + ttl) div Second * Second\<rparr>"
proof -
  have clean: "sanitize (or_default v d) = or_default v d" if "ascii v" "ascii d" for v d
    using that by (simp add: or_default_def)
  have filled: "or_default v (c # d) \<noteq> []" for v c d by (simp add: or_default_def)
  have valid: "Valid (or_default (ci_Permission ci) ''edit'')"
    using assms(2) by (auto simp: or_default_def Valid_iff)
  then have "ParsePermission (or_default (ci_Permission ci) ''edit'') = Inr (or_default (ci_Permission ci) ''edit'')"
    by (simp add: ParsePermission_Inr)
  moreover have "sanitize (or_default (ci_Permission ci) ''edit'') = or_default (ci_Permission ci) ''edit''"
    using valid by (intro sanitize_ascii) (auto simp: Valid_iff ascii_def)
  moreover have "token_claims_of (Claims now ci) = token_claims_of (claim_set ''mypol-api'' ''canvas-realtime''
      (or_default (ci_UserID ci) ''11111111-1111-1111-1111-111111111111'') (or_default (ci_NoteID ci) ''22222222-2222-2222-2222-222222222222'')
      (or_default (ci_SessionID ci) ''33333333-3333-3333-3333-333333333333'') (or_default (ci_TokenID ci) ''44444444-4444-4444-4444-444444444444'')
      (or_default (ci_Permission ci) ''edit'') issued (issued + ttl))"
    by (simp add: Claims_def Let_def assms(3,4))
  ultimately show ?thesis
    using assms(1) by (simp add: token_claims_of_set [OF assms(5,6)] toCanvasClaims_def clean filled ascii_def unix_seconds_def)
qed

theorem fixture_claims_validate_witness:
  "toCanvasClaims (token_claims_of (Claims (90 * Second) \<lparr>ci_UserID = ''u'', ci_NoteID = [], ci_SessionID = [], ci_TokenID = ''t'',
     ci_Permission = ''view'', ci_IssuedAt = None, ci_TTL = 0\<rparr>)) = Inr
    \<lparr>cc_UserID = ''u'', cc_NoteID = ''22222222-2222-2222-2222-222222222222'', cc_SessionID = ''33333333-3333-3333-3333-333333333333'',
     cc_TokenID = ''t'', cc_Permission = ''view'', cc_IssuedAt = 90 * Second, cc_NotBefore = 90 * Second, cc_ExpiresAt = 390 * Second\<rparr>"
proof -
  let ?ci = "\<lparr>ci_UserID = ''u'', ci_NoteID = [], ci_SessionID = [], ci_TokenID = ''t'', ci_Permission = ''view'',
     ci_IssuedAt = None :: time option, ci_TTL = 0\<rparr>"
  have "Valid ''view''" by (simp add: Valid_def ParsePermission_def)
  with fixture_claims_validate [of ?ci "90 * Second" "90 * Second" "5 * Minute"] show ?thesis
    by (simp add: ascii_def or_default_def)
qed

end
