(* ===== verification/Handshake.thy ===== *)
theory Handshake
  imports Site_Correct Loadtest_Dial Loadtest_Correct Token_Issue Metrics_Endpoint
begin

text \<open>
  The handshake of the load generator with the server, end to end: the signed token, the bootstrap
  request through the router, the document \<open>writeJSON\<close> (\<open>internal/transport/handlers.go\<close>) sends and the
  load generator reads, the dialled URL, and the redemption of the ticket. The JWT library is a
  parameter, and so is the text of an instant, which depends on the time zone of the host; an instant
  that cannot be written is \<open>None\<close>.
\<close>

section \<open>Answers on the wire\<close>

definition ice_json :: "ICEServer \<Rightarrow> json" where
  "ice_json i = JObj ([jmem ''urls'' (JArr (map JStr (ic_URLs i)))] @
     (if ic_Username i = [] then [] else [jmem ''username'' (JStr (ic_Username i))]) @
     (if ic_Credential i = [] then [] else [jmem ''credential'' (JStr (ic_Credential i))]))"

definition bootstrap_json :: "(time \<Rightarrow> string option) \<Rightarrow> BootstrapResponse \<Rightarrow> json option" where
  "bootstrap_json instant r = (case instant (bo_TicketExpiresAt r) of None \<Rightarrow> None | Some expires \<Rightarrow> Some (JObj (
     [jmem ''sessionId'' (JStr (bo_SessionID r)), jmem ''connectionTicket'' (JStr (bo_ConnectionTicket r)),
      jmem ''ticketExpiresAt'' (JStr expires), jmem ''websocketUrl'' (JStr (bo_WebSocketURL r))] @
     (if bo_WebTransportURL r = [] then [] else [jmem ''webTransportUrl'' (JStr (bo_WebTransportURL r))]) @
     [jmem ''iceServers'' (JArr (map ice_json (bo_ICEServers r))), jmem ''maxWebRtcPeers'' (jint (bo_MaxWebRTCPeers r)),
      jmem ''permission'' (JStr (bo_Permission r)), jmem ''noteId'' (JStr (bo_NoteID r)),
      jmem ''heartbeatSeconds'' (jint (bo_HeartbeatSeconds r))] @
     (if bo_BinaryEphemeralVersion r = 0 then [] else [jmem ''binaryEphemeralVersion'' (jint (bo_BinaryEphemeralVersion r))]) @
     [jmem ''blockLockLeaseSeconds'' (jint (bo_BlockLockLeaseSeconds r)),
      jmem ''blockLockRenewSeconds'' (jint (bo_BlockLockRenewSeconds r))])))"

text \<open>
  The reply a client gets. The status line and the text of the body only matter for error messages; a
  body that cannot be encoded is empty, a plain text is no document.
\<close>

definition body_doc :: "(time \<Rightarrow> string option) \<Rightarrow> http_body \<Rightarrow> raw" where
  "body_doc instant b = (case b of
     JsonBody d \<Rightarrow> marshal d
   | BootstrapBody r \<Rightarrow> (case bootstrap_json instant r of Some d \<Rightarrow> marshal d | None \<Rightarrow> raw_nil)
   | TextBody t \<Rightarrow> Raw (length t) None
   | MetricsBody p \<Rightarrow> (case snapshot_json p of Some d \<Rightarrow> marshal d | None \<Rightarrow> raw_nil))"

definition writeJSON :: "(time \<Rightarrow> string option) \<Rightarrow> (nat \<Rightarrow> string) \<Rightarrow> (http_body \<Rightarrow> string) \<Rightarrow> http_response \<Rightarrow> http_reply" where
  "writeJSON instant statusLine render resp = (case resp of (status, body) \<Rightarrow>
     HttpReply (int status) (statusLine status) (render body) (body_doc instant body))"

text \<open>The request of \<open>bootstrap\<close>; the host and the peer address are the network's.\<close>

definition bootstrap_request :: "string \<Rightarrow> string \<Rightarrow> options \<Rightarrow> string \<Rightarrow> http_request" where
  "bootstrap_request host peer p token = \<lparr>hq_signed = \<lparr>hr_Method = ''POST'', hr_Path = ''/v1/sessions/bootstrap'', hr_KeyID = [],
       hr_Nonce = [], hr_Signature = [], hr_Timestamp = []\<rparr>, hq_Host = host, hq_TLS = False, hq_Origin = lo_origin p,
     hq_Authorization = ''Bearer '' @ token, hq_ForwardedFor = [], hq_RealIP = [], hq_ForwardedProto = [], hq_RemoteAddr = peer,
     hq_ticket = [], hq_Body = ([], False)\<rparr>"

section \<open>Reading the bootstrap answer\<close>

definition advertised :: "BootstrapResponse \<Rightarrow> bootstrapResponse" where
  "advertised r = \<lparr>vb_SessionID = sanitize (bo_SessionID r), vb_ConnectionTicket = sanitize (bo_ConnectionTicket r),
     vb_WebSocketURL = sanitize (bo_WebSocketURL r), vb_WebTransportURL = sanitize (bo_WebTransportURL r),
     vb_NoteID = sanitize (bo_NoteID r), vb_BinaryVersion = bo_BinaryEphemeralVersion r\<rparr>"

lemma bootstrap_names:
  "fold_key ''sessionId'' = ''SESSIONID''" "fold_key ''connectionTicket'' = ''CONNECTIONTICKET''"
  "fold_key ''ticketExpiresAt'' = ''TICKETEXPIRESAT''" "fold_key ''websocketUrl'' = ''WEBSOCKETURL''"
  "fold_key ''webTransportUrl'' = ''WEBTRANSPORTURL''" "fold_key ''iceServers'' = ''ICESERVERS''"
  "fold_key ''maxWebRtcPeers'' = ''MAXWEBRTCPEERS''" "fold_key ''permission'' = ''PERMISSION''" "fold_key ''noteId'' = ''NOTEID''"
  "fold_key ''heartbeatSeconds'' = ''HEARTBEATSECONDS''" "fold_key ''binaryEphemeralVersion'' = ''BINARYEPHEMERALVERSION''"
  "fold_key ''blockLockLeaseSeconds'' = ''BLOCKLOCKLEASESECONDS''" "fold_key ''blockLockRenewSeconds'' = ''BLOCKLOCKRENEWSECONDS''"
  by (simp_all add: upper_letters)

lemma dec_bootstrap_json:
  assumes "bootstrap_json instant r = Some doc" "int64_ok (bo_BinaryEphemeralVersion r)"
  shows "dec_bootstrapResponse doc bootstrapResponse_zero = (advertised r, False)"
  using assms dec_int64_jint [OF assms(2)]
  by (auto simp: bootstrap_json_def dec_bootstrapResponse_def dec_struct_def jmem_def EqualFold_def bootstrap_names dec_string_def
      bootstrapResponse_zero_def advertised_def split: option.splits simp del: fold_key.simps)

lemma bootstrap_reads:
  assumes "instant (bo_TicketExpiresAt r) = Some expires" "int64_ok (bo_BinaryEphemeralVersion r)"
  shows "bootstrap (writeJSON instant statusLine render (200, BootstrapBody r)) =
    (if bo_ConnectionTicket r = [] \<or> bo_SessionID r = [] then Inl (LoadError ''bootstrap response has no session/ticket'')
     else Inr (advertised r))"
proof -
  obtain doc where doc: "bootstrap_json instant r = Some doc" using assms(1) by (simp add: bootstrap_json_def)
  from dec_bootstrap_json [OF this assms(2)] show ?thesis
    by (simp add: bootstrap_def writeJSON_def body_doc_def doc unmarshal_def marshal_def advertised_def)
qed

section \<open>The steps of the handshake\<close>

lemma bench_claim_set:
  "bench_claims p a now = claim_set (lo_issuer p) (lo_audience p) (as_userID a) (as_noteID a) (''bench-session-'' @ as_userID a)
     (''bench-token-'' @ as_userID a) ''edit'' now (now + 30 * Minute)"
  by (simp add: bench_claims_def claim_set_def unix_seconds_def)

lemma claim_set_validates:
  assumes "\<bar>issued\<bar> \<le> 2 ^ 62" "\<bar>expires\<bar> \<le> 2 ^ 62" "ascii sub" "ascii nid" "ascii sid" "ascii jti"
    "sub \<noteq> []" "nid \<noteq> []" "sid \<noteq> []" "jti \<noteq> []"
  shows "\<exists>claims. toCanvasClaims (token_claims_of (claim_set iss aud sub nid sid jti ''edit'' issued expires)) = Inr claims \<and>
    cc_UserID claims = sub \<and> cc_NoteID claims = nid \<and> cc_SessionID claims = sid \<and> cc_Permission claims = PermissionEdit"
  using assms(3-) by (simp add: token_claims_of_set [OF assms(1,2)] toCanvasClaims_def ParsePermission_def)

lemma bench_validates:
  assumes "parse token = Some (token_claims_of (bench_claims p a now))" "ascii (as_userID a)" "ascii (as_noteID a)"
    "as_userID a \<noteq> []" "as_noteID a \<noteq> []" "\<bar>now\<bar> \<le> 2 ^ 61"
  shows "\<exists>claims. Validate parse token = Inr claims \<and> cc_UserID claims = as_userID a \<and> cc_NoteID claims = as_noteID a \<and>
    cc_SessionID claims = ''bench-session-'' @ as_userID a \<and> cc_Permission claims = PermissionEdit"
proof -
  have "\<bar>now\<bar> \<le> 2 ^ 62" "\<bar>now + 30 * Minute\<bar> \<le> 2 ^ 62" using assms(6) by simp_all
  moreover have "ascii (''bench-session-'' @ as_userID a)" "ascii (''bench-token-'' @ as_userID a)"
    using assms(2) by (simp_all add: ascii_def)
  moreover have "''bench-session-'' @ as_userID a \<noteq> []" "''bench-token-'' @ as_userID a \<noteq> []" by simp_all
  ultimately show ?thesis
    using claim_set_validates [of now "now + 30 * Minute" "as_userID a" "as_noteID a" "''bench-session-'' @ as_userID a"
        "''bench-token-'' @ as_userID a" "lo_issuer p" "lo_audience p"] assms(2-5)
    unfolding Validate_def assms(1) bench_claim_set option.case by blast
qed

lemma bootstrap_bearer: "token \<noteq> [] \<Longrightarrow> TrimSpace token = token \<Longrightarrow> bearerToken (bootstrap_request host peer p token) = token"
  by (simp add: bearerToken_def bootstrap_request_def EqualFold_def)

lemma serve_bootstrap:
  assumes "handler_Bootstrap env cfg entropy now (bootstrap_request host peer p token) s = (resp, s')"
  shows "\<exists>echo. serve env cfg entropy now (bootstrap_request host peer p token) s = ((echo, Some resp), s')"
proof -
  have r: "hr_Path (hq_signed (bootstrap_request host peer p token)) = ''/v1/sessions/bootstrap''"
    "hr_Method (hq_signed (bootstrap_request host peer p token)) = ''POST''" by (simp_all add: bootstrap_request_def)
  have "NewRouter ''POST'' ''/v1/sessions/bootstrap'' = Some EpBootstrap" by (simp add: NewRouter_def note_user_path_def)
  with assms show ?thesis
    by (simp add: serve_def r Let_def withCORS_def isInternalPath_def)
qed

text \<open>A validated token and a working random source: the bootstrap succeeds.\<close>

lemma Bootstrap_succeeds:
  assumes "Validate (parse now) token = Inr claims" "buffer \<noteq> []"
  shows "\<exists>r s'. Bootstrap (memory_deps parse ttl) (Some buffer) token now s = (Inr r, s') \<and> tk_Value (br_Ticket r) = b64url buffer"
proof -
  have "cc_SessionID claims \<noteq> []" using assms(1) Validate_Inr toCanvasClaims_complete by blast
  moreover have "b64url buffer \<noteq> []" using assms(2) by (cases buffer rule: b64url.cases) (auto simp: Let_def)
  ultimately show ?thesis using assms
    by (simp add: service_defs memory_session_ops_def memory_ticket_ops_def session_Save_def session_Get_def ticket_Issue_def NewTicketValue_def)
qed

lemma b64url_ascii: "ascii (b64url bs)"
proof -
  have "\<forall>c \<in> set b64_alphabet. chr_code c < 128" by code_simp
  moreover have "b64_char n \<in> set b64_alphabet" for n unfolding b64_char_def by (rule nth_mem) (simp add: b64_alphabet_def)
  ultimately have "chr_code (b64_char n) < 128" for n by blast
  then show ?thesis by (induction bs rule: b64url.induct) (simp_all add: ascii_def Let_def)
qed

lemma handler_Bootstrap_ok:
  assumes "\<not> sr_draining (si_server s)"
    "AllowIP (ClientIP (hq_ForwardedFor r) (hq_RealIP r) (hq_RemoteAddr r)) now (si_bootstrap s) = (True, l)"
    "bearerToken r \<noteq> []" "Bootstrap (ev_deps env) entropy (bearerToken r) now (sr_sessions (si_server s)) = (Inr result, ss)"
    "AllowUser (ss_UserID (br_Session result)) now l = (True, l')"
  shows "\<exists>s'. handler_Bootstrap env cfg entropy now r s = ((200, BootstrapBody (bootstrap_response cfg r result)), s') \<and>
    sr_sessions (si_server s') = ss \<and> \<not> sr_draining (si_server s')"
  using assms by (simp add: handler_Bootstrap_def Let_def on_server_def count_metric_def on_rooms_def)

text \<open>The bootstrap request of a virtual user is served: the session and the ticket it gets, and the state it leaves.\<close>

lemma bench_bootstrap_served:
  assumes deps: "ev_deps env = memory_deps parse ttl" and ok: "service_ok (sr_sessions (si_server s))" and up: "\<not> sr_draining (si_server s)"
    and ip: "AllowIP (ClientIP [] [] peer) now (si_bootstrap s) = (True, l)" and user: "AllowUser (as_userID a) now l = (True, l')"
    and jwt: "parse now token = Some (token_claims_of (bench_claims p a now))" "token \<noteq> []" "TrimSpace token = token"
    and ids: "ascii (as_userID a)" "ascii (as_noteID a)" "as_userID a \<noteq> []" "as_noteID a \<noteq> []"
    and rest: "\<bar>now\<bar> \<le> 2 ^ 61" "buffer \<noteq> []"
  obtains echo result s' where
    "serve env cfg (Some buffer) now (bootstrap_request host peer p token) s =
       ((echo, Some (200, BootstrapBody (bootstrap_response cfg (bootstrap_request host peer p token) result))), s')"
    "\<not> sr_draining (si_server s')" "service_ok (sr_sessions (si_server s'))"
    "br_TicketExpiresAt result = now + ttl" "tk_Value (br_Ticket result) = b64url buffer"
    "ss_ID (br_Session result) = ''bench-session-'' @ as_userID a" "ss_NoteID (br_Session result) = as_noteID a"
    "tk_SessionID (br_Ticket result) = ''bench-session-'' @ as_userID a"
    "tk_UserID (br_Ticket result) = as_userID a" "tk_NoteID (br_Ticket result) = as_noteID a" "tk_Permission (br_Ticket result) = PermissionEdit"
    "tk_ExpiresAt (br_Ticket result) = now + ttl"
    "ticket_view (sv_tickets (sr_sessions (si_server s'))) (b64url buffer) = Some (br_Ticket result)"
proof -
  let ?r = "bootstrap_request host peer p token"
  obtain claims where c: "Validate (parse now) token = Inr claims" "cc_UserID claims = as_userID a" "cc_NoteID claims = as_noteID a"
      "cc_SessionID claims = ''bench-session-'' @ as_userID a" "cc_Permission claims = PermissionEdit"
    using bench_validates [of "parse now" token p a now, OF jwt(1) ids rest(1)] by blast
  obtain result ss where b: "Bootstrap (memory_deps parse ttl) (Some buffer) token now (sr_sessions (si_server s)) = (Inr result, ss)"
      "tk_Value (br_Ticket result) = b64url buffer"
    using Bootstrap_succeeds [of parse now, OF c(1) rest(2)] by blast
  note wf = ok [unfolded service_ok_wf]
  have wf': "service_ok ss"
    using mem.Bootstrap_wf [OF wf, of parse ttl "Some buffer" token now] b(1) by (simp add: service_ok_wf)
  have res: "ss_ID (br_Session result) = cc_SessionID claims" "ss_UserID (br_Session result) = cc_UserID claims"
      "ss_NoteID (br_Session result) = cc_NoteID claims" "tk_SessionID (br_Ticket result) = cc_SessionID claims"
      "tk_UserID (br_Ticket result) = cc_UserID claims"
      "tk_NoteID (br_Ticket result) = cc_NoteID claims" "tk_Permission (br_Ticket result) = cc_Permission claims"
      "tk_ExpiresAt (br_Ticket result) = now + ttl"
      "ticket_view (sv_tickets ss) = (ticket_view (sv_tickets (sr_sessions (si_server s))))(b64url buffer \<mapsto> br_Ticket result)"
    by (rule mem.Bootstrap_Inr [OF wf b(1)]; use c(1) b(2) in simp)+
  have exp: "br_TicketExpiresAt result = now + ttl"
    using b(1) c(1) by (auto simp: service_defs split: sum.splits prod.splits)
  have "hq_ForwardedFor ?r = []" "hq_RealIP ?r = []" "hq_RemoteAddr ?r = peer" by (simp_all add: bootstrap_request_def)
  with ip user up b(1) deps bootstrap_bearer [OF jwt(2,3), of host peer p] jwt(2) res(2) c(2)
  obtain s' where h: "handler_Bootstrap env cfg (Some buffer) now ?r s = ((200, BootstrapBody (bootstrap_response cfg ?r result)), s')"
      "sr_sessions (si_server s') = ss" "\<not> sr_draining (si_server s')"
    using handler_Bootstrap_ok [of s ?r now l env "Some buffer" result ss l' cfg] by auto
  obtain echo where served: "serve env cfg (Some buffer) now ?r s = ((echo, Some (200, BootstrapBody (bootstrap_response cfg ?r result))), s')"
    using serve_bootstrap [OF h(1)] by blast
  have view: "ticket_view (sv_tickets (sr_sessions (si_server s'))) (b64url buffer) = Some (br_Ticket result)"
    using res(9) by (simp add: h(2) del: map_of_eq_Some_iff)
  show thesis by (rule that [OF served h(3) _ exp b(2) _ _ _ _ _ _ res(8) view]) (simp_all only: res c h(2) wf')
qed

text \<open>A stored ticket is admitted in any state that still holds it.\<close>

lemma stored_ticket_admitted:
  assumes "ev_deps env = memory_deps parse ttl" "service_ok (sr_sessions (si_server v))" "\<not> sr_draining (si_server v)"
    "ticket_view (sv_tickets (sr_sessions (si_server v))) k = Some ticket" "later < tk_ExpiresAt ticket" "k \<noteq> []"
    "hq_ticket r = k" "originAllowed (cf_AllowedOrigins cfg) (hq_Origin r)"
  shows "\<exists>v'. ServeWebSocket_admit env cfg later r v = (None, v') \<and> si_admitted v' = si_admitted v @ [ticket]"
proof -
  have "fst (ConsumeTicket (memory_deps parse ttl) k later (sr_sessions (si_server v))) = Inr ticket"
    using assms(2,4,5) by (simp add: ConsumeTicket_def case_prod_unfold Let_def memory_tickets.consume_result ticket_IsExpired_def del: map_of_eq_Some_iff)
  then obtain ss where "ConsumeTicket (memory_deps parse ttl) k later (sr_sessions (si_server v)) = (Inr ticket, ss)"
    by (metis prod.collapse)
  with assms show ?thesis by (simp add: ServeWebSocket_admit_def)
qed

section \<open>Properties\<close>

text \<open>
  C39. The two programs agree on the bootstrap document: what the load generator decodes from the answer of a
  successful bootstrap is the session, the ticket, both addresses, the note and the protocol version the
  server put there, omitted members included, and it accepts the answer exactly when session and
  ticket are not empty.
\<close>

theorem bootstrap_read_back:
  assumes "instant (bo_TicketExpiresAt r) = Some expires" and "int64_ok (bo_BinaryEphemeralVersion r)"
  shows "bootstrap (writeJSON instant statusLine render (200, BootstrapBody r)) =
    (if bo_ConnectionTicket r = [] \<or> bo_SessionID r = [] then Inl (LoadError ''bootstrap response has no session/ticket'')
     else Inr (advertised r))"
  by (rule bootstrap_reads [where instant = instant, OF assms])

theorem bootstrap_read_back_witness:
  "bootstrap (writeJSON (\<lambda>_. Some ''2030-01-01T00:00:00Z'') (\<lambda>_. ''200 OK'') (\<lambda>_. []) (200, BootstrapBody
     \<lparr>bo_SessionID = ''s'', bo_ConnectionTicket = ''t'', bo_TicketExpiresAt = 0, bo_WebSocketURL = ''ws://h/ws'', bo_WebTransportURL = [],
      bo_ICEServers = [], bo_MaxWebRTCPeers = 4, bo_Permission = ''edit'', bo_NoteID = ''n'', bo_HeartbeatSeconds = 20,
      bo_BinaryEphemeralVersion = 3, bo_BlockLockLeaseSeconds = 10, bo_BlockLockRenewSeconds = 4\<rparr>)) =
   Inr \<lparr>vb_SessionID = ''s'', vb_ConnectionTicket = ''t'', vb_WebSocketURL = ''ws://h/ws'', vb_WebTransportURL = [], vb_NoteID = ''n'',
     vb_BinaryVersion = 3\<rparr>"
  by (subst bootstrap_read_back) (simp_all add: advertised_def)

text \<open>
  C19. The handshake works end to end. When the server is not draining and its limits admit the caller, when the origin the
  load generator sends is on the server's allow-list, when
  the JWT library accepts the token it signed and hands out the claims it signed, when the random source
  works, the ids of user and note are non-empty ASCII, the clock is within 73 years of the epoch and the expiry of the ticket has a
  date, then the bootstrap request of a virtual user comes back with a session and a ticket for its
  own session and note. From the state the bootstrap leaves, and from any other state without a drain that still stores that
  ticket, until the ticket's time is up, the upgrade request to the dialled URL, whatever
  query the advertised address had, redeems it for exactly that session and user on that note with the right to edit.
\<close>

theorem virtual_user_admitted:
  assumes deps: "ev_deps env = memory_deps parse ttl" and ok: "service_ok (sr_sessions (si_server s))"
    and up: "\<not> sr_draining (si_server s)" and origin: "originAllowed (cf_AllowedOrigins cfg) (lo_origin p)"
    and ip: "AllowIP (ClientIP [] [] peer) now (si_bootstrap s) = (True, l)" and user: "AllowUser (as_userID a) now l = (True, l')"
    and signed: "signToken le p a now = Some token"
    and jwt: "\<And>t. signToken le p a now = Some t \<Longrightarrow>
      parse now t = Some (token_claims_of (bench_claims p a now)) \<and> t \<noteq> [] \<and> TrimSpace t = t"
    and ids: "ascii (as_userID a)" "ascii (as_noteID a)" "as_userID a \<noteq> []" "as_noteID a \<noteq> []"
    and rest: "\<bar>now\<bar> \<le> 2 ^ 61" "buffer \<noteq> []" "instant (now + ttl) = Some expires" "later < now + ttl"
  shows "\<exists>echo resp s' b. serve env cfg (Some buffer) now (bootstrap_request host peer p token) s = ((echo, Some resp), s') \<and>
    bootstrap (writeJSON instant statusLine render resp) = Inr b \<and>
    vb_SessionID b = ''bench-session-'' @ as_userID a \<and> vb_NoteID b = as_noteID a \<and>
    service_ok (sr_sessions (si_server s')) \<and> \<not> sr_draining (si_server s') \<and>
    (\<forall>v u r. service_ok (sr_sessions (si_server v)) \<and> \<not> sr_draining (si_server v) \<and>
       ticket_view (sv_tickets (sr_sessions (si_server v))) (vb_ConnectionTicket b) =
         ticket_view (sv_tickets (sr_sessions (si_server s'))) (vb_ConnectionTicket b) \<and>
       hq_Origin r = lo_origin p \<and> hq_ticket r = values_Get ''ticket'' (ParseQuery (ur_RawQuery (set_ticket (vb_ConnectionTicket b) u))) \<longrightarrow>
      (\<exists>ticket v'. ServeWebSocket_admit env cfg later r v = (None, v') \<and> si_admitted v' = si_admitted v @ [ticket] \<and>
         tk_SessionID ticket = ''bench-session-'' @ as_userID a \<and>
         tk_UserID ticket = as_userID a \<and> tk_NoteID ticket = as_noteID a \<and> tk_Permission ticket = PermissionEdit))"
proof -
  let ?r = "bootstrap_request host peer p token"
  from jwt [OF signed] have j: "parse now token = Some (token_claims_of (bench_claims p a now))" "token \<noteq> []" "TrimSpace token = token" by auto
  obtain echo result s' where served: "serve env cfg (Some buffer) now ?r s =
      ((echo, Some (200, BootstrapBody (bootstrap_response cfg ?r result))), s')"
    and s': "\<not> sr_draining (si_server s')" "service_ok (sr_sessions (si_server s'))" and exp: "br_TicketExpiresAt result = now + ttl"
    and b: "tk_Value (br_Ticket result) = b64url buffer"
    and res: "ss_ID (br_Session result) = ''bench-session-'' @ as_userID a" "ss_NoteID (br_Session result) = as_noteID a"
      "tk_SessionID (br_Ticket result) = ''bench-session-'' @ as_userID a"
      "tk_UserID (br_Ticket result) = as_userID a" "tk_NoteID (br_Ticket result) = as_noteID a" "tk_Permission (br_Ticket result) = PermissionEdit"
    and live: "tk_ExpiresAt (br_Ticket result) = now + ttl"
      "ticket_view (sv_tickets (sr_sessions (si_server s'))) (b64url buffer) = Some (br_Ticket result)"
    by (rule bench_bootstrap_served [where parse = parse and token = token, OF deps ok up ip user j ids rest(1,2)])
  let ?b = "advertised (bootstrap_response cfg ?r result)"
  have nonempty: "b64url buffer \<noteq> []" using rest(2) by (cases buffer rule: b64url.cases) (auto simp: Let_def)
  have read: "bootstrap (writeJSON instant statusLine render (200, BootstrapBody (bootstrap_response cfg ?r result))) = Inr ?b"
    using nonempty exp rest(3) b res(1) bootstrap_reads [of instant "bootstrap_response cfg ?r result" expires statusLine render]
    by (simp add: bootstrap_response_def)
  have "ascii (''bench-session-'' @ as_userID a)" using ids(1) by (simp add: ascii_def)
  then have fields: "vb_SessionID ?b = ''bench-session-'' @ as_userID a" "vb_NoteID ?b = as_noteID a" "vb_ConnectionTicket ?b = b64url buffer"
    using ids(2) res(1,2) b by (simp_all add: advertised_def bootstrap_response_def b64url_ascii)
  then have arrives: "values_Get ''ticket'' (ParseQuery (ur_RawQuery (set_ticket (vb_ConnectionTicket ?b) u))) = b64url buffer" for u
    by (simp add: set_ticket_def values_Get_Encode values_Get_Set)
  have admitted: "\<exists>ticket v'. ServeWebSocket_admit env cfg later r v = (None, v') \<and> si_admitted v' = si_admitted v @ [ticket] \<and>
      tk_SessionID ticket = ''bench-session-'' @ as_userID a \<and>
      tk_UserID ticket = as_userID a \<and> tk_NoteID ticket = as_noteID a \<and> tk_Permission ticket = PermissionEdit"
    if "service_ok (sr_sessions (si_server v))" "\<not> sr_draining (si_server v)"
      "ticket_view (sv_tickets (sr_sessions (si_server v))) (b64url buffer) = ticket_view (sv_tickets (sr_sessions (si_server s'))) (b64url buffer)"
      "hq_Origin r = lo_origin p" "hq_ticket r = b64url buffer" for v r
    using stored_ticket_admitted [OF deps that(1,2), of "b64url buffer" "br_Ticket result" later r cfg] that live rest(4) nonempty origin res
    by (auto simp del: map_of_eq_Some_iff)
  have "\<exists>ticket v'. ServeWebSocket_admit env cfg later r v = (None, v') \<and> si_admitted v' = si_admitted v @ [ticket] \<and>
      tk_SessionID ticket = ''bench-session-'' @ as_userID a \<and>
      tk_UserID ticket = as_userID a \<and> tk_NoteID ticket = as_noteID a \<and> tk_Permission ticket = PermissionEdit"
    if "service_ok (sr_sessions (si_server v)) \<and> \<not> sr_draining (si_server v) \<and>
       ticket_view (sv_tickets (sr_sessions (si_server v))) (vb_ConnectionTicket ?b) =
         ticket_view (sv_tickets (sr_sessions (si_server s'))) (vb_ConnectionTicket ?b) \<and>
       hq_Origin r = lo_origin p \<and> hq_ticket r = values_Get ''ticket'' (ParseQuery (ur_RawQuery (set_ticket (vb_ConnectionTicket ?b) u)))" for v u r
    using that unfolding arrives unfolding fields(3) by (intro admitted) blast+
  with served read fields(1,2) s' show ?thesis
    by (intro exI [of _ echo] exI [of _ "(200, BootstrapBody (bootstrap_response cfg ?r result))"] exI [of _ s'] exI [of _ ?b]) blast
qed

definition shake_user :: assignment where
  "shake_user = \<lparr>as_userID = ''u1'', as_noteID = ''n1'', as_pageID = ''p'', as_x = Fin 0, as_y = Fin 0, as_active = True, as_previewOff = False\<rparr>"

definition shake_env :: server_env where
  "shake_env = web_env\<lparr>ev_deps := memory_deps (\<lambda>_ _. Some (token_claims_of (bench_claims example_options shake_user 0))) 30\<rparr>"

theorem virtual_user_admitted_witness:
  "\<exists>echo resp s' b. serve shake_env (web_config\<lparr>cf_AllowedOrigins := [lo_origin example_options]\<rparr>) example_entropy 0
      (bootstrap_request ''h'' [] example_options ''token'') site0 = ((echo, Some resp), s') \<and>
    bootstrap (writeJSON (\<lambda>_. Some ''1970-01-01T00:00:00Z'') (\<lambda>_. []) (\<lambda>_. []) resp) = Inr b \<and>
    vb_SessionID b = ''bench-session-u1'' \<and> vb_NoteID b = ''n1''"
proof -
  let ?cfg = "web_config\<lparr>cf_AllowedOrigins := [lo_origin example_options]\<rparr>"
  have "ev_deps shake_env = memory_deps (\<lambda>_ _. Some (token_claims_of (bench_claims example_options shake_user 0))) 30"
    by (simp add: shake_env_def)
  moreover have "service_ok (sr_sessions (si_server site0))" using example_ok by (simp add: site0_sessions)
  moreover have "\<not> sr_draining (si_server site0)" by (simp add: site0_sessions)
  moreover have "originAllowed (cf_AllowedOrigins ?cfg) (lo_origin example_options)"
    by (simp add: originAllowed.simps example_options_def parseOptions_def flag_or_def)
  moreover have "AllowIP (ClientIP [] [] []) 0 (si_bootstrap site0) = (True, si_bootstrap site0)"
    using web_ip web_AllowIP by (simp add: web_request_def)
  moreover have "AllowUser (as_userID shake_user) 0 (si_bootstrap site0) = (True, si_bootstrap site0)" by (rule web_AllowUser)
  moreover have "signToken bench_env example_options shake_user 0 = Some ''token''" by (simp add: signToken_def bench_sign)
  moreover have "t = ''token''" if "signToken bench_env example_options shake_user 0 = Some t" for t
    using that by (simp add: signToken_def bench_sign)
  moreover have "TrimSpace ''token'' = ''token''" by code_simp
  ultimately show ?thesis
    using virtual_user_admitted [of shake_env "\<lambda>_ _. Some (token_claims_of (bench_claims example_options shake_user 0))" 30 site0 ?cfg
        example_options "[]" 0 "si_bootstrap site0" shake_user "si_bootstrap site0" bench_env "''token''" "[1, 2, 3]"
        "\<lambda>_. Some ''1970-01-01T00:00:00Z''" "''1970-01-01T00:00:00Z''" 5 "''h''" "\<lambda>_. []" "\<lambda>_. []"]
    by (simp add: shake_user_def ascii_def) blast
qed

end
