(* ===== verification/Spec2Isabelle.thy ===== *)
theory Spec2Isabelle
  imports Server_Main Refresh_Race Client_Frames_Correct Codec_Correct Metrics_Endpoint Observe_Max Connection_Port
    Loadtest_Wire Loadtest_Report Handshake
begin

text \<open>
  A verification library of the canvas realtime service.

  \<^bold>\<open>The program.\<close> The service (\<open>src/\<close>, Go) carries the live traffic of shared notes. A browser trades
  an access token for a session and a one-time ticket (\<open>POST /v1/sessions/bootstrap\<close>), redeems the
  ticket when it opens a WebSocket or a WebTransport session, joins the room of its note and sends
  frames. One handler for both transports parses a frame, meters it, checks the permission, answers
  what is meant for the server (heartbeats, token refreshes, viewport reports, lock verbs) and relays
  the rest to the peers: reliable frames to everybody through bounded queues, signalling frames to one
  peer, ephemeral frames through an interest filter into queues that keep the newest frame of each
  stream. A signed control plane revokes sessions, changes permissions and installs permits for undo
  previews. Two tickers sweep tickets, sessions and leases, and a shutdown drains the connections. A
  second program, the load generator, plays the browser for many virtual users and reports what it
  measured.

  \<^bold>\<open>The theories and what they model.\<close>

  \<^item> \<open>Prelude\<close>: Go maps as association lists in some iteration order, 64-bit wrap-around, instants and
    saturating durations, the string functions, transition systems (locale \<open>machine\<close>). \<open>Go_Float\<close>: 64-bit
    floats with IEEE rounding. \<open>Strconv\<close>: decimal numbers. \<open>Json\<close>: documents, \<open>Unmarshal\<close> into structs and
    the lengths of \<open>Marshal\<close>. \<open>Sha256\<close>: SHA-256, HMAC and hex.
  \<^item> \<open>Domain\<close> (\<open>internal/domain\<close>): permissions, sessions, tickets, leases, connections, envelopes and the
    event classes, signalling targets, viewports and their grid cells.
  \<^item> \<open>Ticket_Store\<close>, \<open>Session_Store\<close>, \<open>Lock_Store\<close>, \<open>Room_Store\<close> (\<open>internal/infrastructure\<close>): the in-memory
    stores, each behind a locale for its port (\<open>ticket_port\<close>, \<open>session_port\<close>, \<open>lock_port\<close>,
    \<open>room_directory\<close>) that the store interprets.
  \<^item> \<open>Canvas_Tokens\<close>, \<open>Session_Service\<close> (\<open>internal/security/canvas_jwt_validator.go\<close>,
    \<open>connection_ticket.go\<close>, \<open>internal/application/session_service.go\<close>): claims to identity, ticket values,
    the session service over its two ports (locale \<open>session_ports\<close>). The signature check of the token
    library is a parameter. \<open>Refresh_Race\<close>: a refresh as the two store calls it is.
  \<^item> \<open>Block_Lock_Service\<close>, \<open>Interest_Index\<close>, \<open>History_Previews\<close>, \<open>Room_Service\<close>
    (\<open>internal/application\<close> and the interest index of \<open>internal/infrastructure\<close>): leases, viewports,
    preview permits, and membership, relay, announcements and drain.
  \<^item> \<open>Rate_Limiter\<close>, \<open>Hmac_Validator\<close> (\<open>internal/security\<close>): token buckets, bootstrap limits, the client
    address; signed control requests and their nonces.
  \<^item> \<open>Codec_Wire\<close>, \<open>Codec\<close>, \<open>Codec_Correct\<close> (\<open>internal/codec\<close>): the binary frames byte for byte.
  \<^item> \<open>Metrics\<close> (\<open>internal/observability\<close>), \<open>Outbound_Queues\<close>, \<open>Connections\<close>, \<open>Write_Pump\<close>
    (\<open>queues.go\<close>, \<open>ws_connection.go\<close>, \<open>wt_connection.go\<close>): counters, the two queues of a connection, what
    goes on the wire, the drains and the events of the write pumps, the stream framing. \<open>Connection_Port\<close>
    (\<open>domain/connection.go\<close>): the interface through which rooms use a connection as a locale with its
    contract, interpreted for the WebSocket connection and for the struct and methods of the WebTransport one.
  \<^item> \<open>Lock_Handler\<close>, \<open>Client_Frames\<close>, \<open>Client_Frames_Correct\<close> (\<open>block_lock_handler.go\<close>,
    \<open>client_frames.go\<close>, the refresh handler of \<open>webtransport_handler.go\<close>): the record \<open>server\<close> of what the
    transports share, and one inbound frame from bytes to relay.
  \<^item> \<open>Origin\<close>, \<open>Config\<close>, \<open>Handlers\<close>, \<open>Site\<close> (\<open>origin.go\<close>, \<open>internal/config\<close>, \<open>handlers.go\<close>,
    \<open>history_previews.go\<close>, \<open>router.go\<close>, \<open>websocket_handler.go\<close>, \<open>webtransport_handler.go\<close>,
    \<open>close_reason.go\<close>, \<open>cmd/server/main.go\<close>): the allow-list, the settings, the endpoints, the router,
    admission and the life of a connection, the tickers and the shutdown, over the record \<open>site\<close>.
  \<^item> \<open>Rooms_Safe\<close>, \<open>Server_Safe\<close>, \<open>Site_Machine\<close>, \<open>Site_Example\<close>, \<open>Site_Correct\<close>: the invariant of the room
    service, of the server and of the whole program, the step relation \<open>site_step\<close> whose steps are the
    requests, the stages of an upgrade, frames, writes, ticks and the stages of a shutdown in any order, an example run, and
    the properties of the whole program.
  \<^item> \<open>Draining\<close>: what a shutdown that has begun leaves possible, whatever happens between and after its stages, and the race
    of an admission with the drain. \<open>Startup\<close> (\<open>cmd/server/main.go\<close>,
    \<open>NewCanvasJWTValidator\<close>): the start of the process with its error branches, the tickers it makes, and the
    shutdown from the signal to the return. \<open>Server_Main\<close>: the process from start to exit status.
  \<^item> \<open>Observe_Max\<close>, \<open>Metrics_Endpoint\<close> (\<open>internal/observability\<close>): the high-water mark's compare-and-swap
    loop one atomic access at a time, and the metrics document with its reader.
  \<^item> \<open>Loadtest_Plan\<close>, \<open>Loadtest_Client\<close>, \<open>Loadtest_Run\<close>, \<open>Loadtest_Correct\<close>, \<open>Loadtest_Wire\<close>
    (\<open>cmd/loadtest\<close>): the options and the plan of a run, its connections, virtual users and counters, the
    run and its report, their correctness, and the agreement of the load generator with the server on
    the stream, the datagrams and the viewport report. \<open>Loadtest_Report\<close>: the JSON document, the markdown
    page, the summary, the two files and the exit status of the load generator.
  \<^item> \<open>Url_Query\<close>, \<open>Loadtest_Dial\<close>, \<open>Token_Issue\<close>, \<open>Handshake\<close>: queries and URLs as \<open>net/url\<close> writes and reads
    them, the addresses and dials of the load generator, the claims of a token on the wire
    (\<open>internal/testsupport/tokens.go\<close> and the decoding of \<open>canvas_jwt_validator.go\<close>), the bootstrap document
    (\<open>writeJSON\<close>), and the handshake of the two programs end to end.

  \<^bold>\<open>What is shown.\<close> In every reachable state the directory, the queues, the stores and the permits keep
  their invariants, every permission that is stored or in force is one of the vocabulary, and no
  wake-up of a write pump is lost (\<open>Site_Correct\<close>). A process that starts has a P-256 key and reaches only
  such states; without a control key every control endpoint refuses (503, and 403 to a browser)
  and changes nothing, at any later time; a shutdown cannot
  be taken back, refuses every admission that had not passed its last check, reaches everyone who is connected when it is
  announced (\<open>Draining\<close>) and ends within the grace period with every connection closed (\<open>Startup\<close>); an exit with status 0
  means just that (\<open>Server_Main\<close>). Both transports keep the contract of the connection interface. Tickets are redeemable once
  and carry the token's identity; refreshes never escalate; a revocation is final and reaches live
  connections; control requests are authenticated and not replayable within their window. A lease
  excludes every other connection until it ends, whatever is interleaved, a block whose holder goes silent is free again after
  one lease time, and a leased block is protected on the relay. The sweep of the bootstrap limits changes no answer of any later
  sequence of requests. Relayed frames carry the sender's authenticated identity and stay in its
  room; reliable frames reach every peer in order or close it; ephemeral frames coalesce per stream and
  pass the filter exactly when the viewport covers them. The codec, the stream framing and the
  canonical request round-trip or are injective. The in-memory stores and the index refine their
  abstract tables. The high-water marks are right under every interleaving of their callers. A virtual user that
  signs its token, bootstraps and dials is admitted as itself (\<open>Handshake\<close>). The load
  generator reads the server's bootstrap answer, counters and stream exactly, spreads its preview policy evenly over the
  pages, reports consistent numbers, and saves them unless a rate among its options is not finite. A few theorems state where the code falls short of its comments.

  \<^bold>\<open>Abstractions.\<close> A handler runs at one instant and atomically, as it would under the locks the code
  takes, with these exceptions. An upgrade is four steps with anything in between: the redemption of the ticket; the second
  readiness check (the transport is then being accepted, \<open>si_upgrading\<close>); the accepted transport and the draining check of
  \<open>Join\<close> (\<open>si_joining\<close>; accepting changes nothing the model has, so it has no step of its own); and the entry into the
  room, where the transport object gets its address. The two lists hold tickets of both transports alike. A shutdown is three
  steps: the readiness flag (\<open>StartDraining\<close>), the announcement (\<open>BeginDrain\<close>) and the closing of every connection. The refresh
  and the high-water mark are also modelled in their single steps (\<open>Refresh_Race\<close>, \<open>Observe_Max\<close>). A mutable transport
  object lives in a table under the address that the connection value carries. Maps are iterated in
  list order; no property depends on it. The text of a JSON message is given by its length and its
  document, and the reader of JSON text, the random source, the sockets, the upgrade and the token
  library are arguments; what the token library accepts depends on the instant it is asked. The payload inside a preview answer is
  counted with its registered length (\<open>preview_json\<close>). The load generator's tickers, frames and openings are a schedule; its
  report reads the counters in one snapshot, and neither these counters nor those of the server wrap. White space is the ASCII white space. A negative size of the ephemeral queue
  is read as zero; the code would panic at the first ephemeral frame.

  \<^bold>\<open>Termination.\<close> Every loop is a structural recursion or a function with a measure; there is no fuel
  except for the decimal exponent of a float, whose 400 steps cover the range of 64-bit floats.

  \<^bold>\<open>Not modelled.\<close> What is left is code of libraries and of the operating system: the parsers of PEM, X.509, JWT
  and URLs, the generation of keys and signatures (also those of \<open>internal/testsupport\<close>), the listeners and the delivery of
  signals in \<open>main\<close>, TLS settings, the logger, the text of JSON messages, and the code behind the sockets.
\<close>

end
